(* ===== verification/PyFloat.thy ===== *)
theory PyFloat
  imports Complex_Main
begin

text \<open>
  Python floats and the conversions around them.  A float is a rational number
  (\<open>pyfloat = rat\<close>); every arithmetic operation of the source rounds its exact result to the
  nearest value with a 53-bit significand, ties to even, as an IEEE double does (\<open>fl\<close>).  The
  same holds for SQLite's REAL arithmetic.  The exponent is not bounded (no overflow to
  infinity, no subnormal numbers), there is no NaN and one zero.

  The first part defines \<open>fl\<close> and proves that it is monotone, odd, idempotent, exact on
  integers up to \<open>2 ^ 53\<close> and has relative error at most \<open>2 ^ -53\<close>.  The locale \<open>rounding\<close>
  states what the components rely on, and is interpreted on \<open>fl\<close>.  The last part has the
  Python operations: \<open>int(x)\<close>, \<open>round(x)\<close>, \<open>round(x, n)\<close>, mixed arithmetic.
\<close>

type_synonym pyfloat = rat

subsection \<open>Round half to even\<close>

definition rhe :: "rat \<Rightarrow> int" where
  "rhe x = (let n = \<lfloor>x\<rfloor>; f = x - of_int n in
     if f < 1 / 2 then n else if 1 / 2 < f then n + 1 else if even n then n else n + 1)"

lemma rhe_of_int [simp]: "rhe (of_int n) = n"
  by (simp add: rhe_def)

lemma rhe_zero [simp]: "rhe 0 = 0"
  using rhe_of_int [of 0] by simp

lemma rhe_ge_floor: "\<lfloor>x\<rfloor> \<le> rhe x"
  by (auto simp: rhe_def Let_def)

lemma rhe_le_floor: "rhe x \<le> \<lfloor>x\<rfloor> + 1"
  by (auto simp: rhe_def Let_def)

lemma rhe_mono: "x \<le> y \<Longrightarrow> rhe x \<le> rhe y"
proof (cases "\<lfloor>x\<rfloor> = \<lfloor>y\<rfloor>")
  case True
  assume "x \<le> y"
  with True show ?thesis by (auto simp: rhe_def Let_def)
next
  case False
  assume "x \<le> y"
  then have "\<lfloor>x\<rfloor> \<le> \<lfloor>y\<rfloor>" by (rule floor_mono)
  with False have "\<lfloor>x\<rfloor> + 1 \<le> \<lfloor>y\<rfloor>" by simp
  with rhe_le_floor [of x] rhe_ge_floor [of y] show ?thesis by linarith
qed

lemma rhe_error: "\<bar>of_int (rhe x) - x\<bar> \<le> 1 / 2"
proof -
  have "of_int \<lfloor>x\<rfloor> \<le> x" and "x < of_int \<lfloor>x\<rfloor> + 1" by linarith+
  then show ?thesis unfolding rhe_def Let_def abs_le_iff by (auto split: if_splits) linarith
qed

lemma rhe_uminus: "rhe (- x) = - rhe x"
proof (cases "x = of_int \<lfloor>x\<rfloor>")
  case True
  then obtain n where "x = of_int n" by blast
  then show ?thesis using rhe_of_int [of "- n"] by simp
next
  case False
  then have "\<lfloor>- x\<rfloor> = - \<lfloor>x\<rfloor> - 1" by linarith
  then show ?thesis by (auto simp: rhe_def Let_def)
qed

subsection \<open>The binary exponent\<close>

function nlog2 :: "int \<Rightarrow> nat" where
  "nlog2 n = (if n < 2 then 0 else Suc (nlog2 (n div 2)))"
  by auto

termination
  by (relation "measure nat") auto

declare nlog2.simps [simp del]

lemma nlog2_bounds: "0 < n \<Longrightarrow> 2 ^ nlog2 n \<le> n \<and> n < 2 * 2 ^ nlog2 n"
proof (induction n rule: nlog2.induct)
  case (1 n)
  show ?case
  proof (cases "n < 2")
    case True
    with "1.prems" show ?thesis by (simp add: nlog2.simps [of n])
  next
    case False
    with "1.IH" have "2 ^ nlog2 (n div 2) \<le> n div 2 \<and> n div 2 < 2 * 2 ^ nlog2 (n div 2)"
      by simp
    with False show ?thesis by (simp add: nlog2.simps [of n]) linarith
  qed
qed

definition pow2 :: "int \<Rightarrow> rat" where
  "pow2 e = 2 powi e"

lemma pow2_pos [simp]: "0 < pow2 e"
  by (simp add: pow2_def)

lemma pow2_nonneg [simp]: "0 \<le> pow2 e"
  by (simp add: less_imp_le)

lemma pow2_nz [simp]: "pow2 e \<noteq> 0"
  by (simp add: pow2_def)

lemma pow2_add: "pow2 (a + b) = pow2 a * pow2 b"
  by (simp add: pow2_def power_int_add)

lemma pow2_diff: "pow2 (a - b) = pow2 a / pow2 b"
  by (simp add: pow2_def power_int_diff)

lemma pow2_nat: "pow2 (int n) = 2 ^ n"
  by (simp add: pow2_def)

lemma pow2_0 [simp]: "pow2 0 = 1" and pow2_1 [simp]: "pow2 1 = 2"
  by (simp_all add: pow2_def)

lemma pow2_mono: "a \<le> b \<Longrightarrow> pow2 a \<le> pow2 b"
  by (simp add: pow2_def power_int_increasing)

lemma pow2_less: "pow2 a < pow2 b \<Longrightarrow> a < b"
  by (meson leD leI pow2_mono)

lemma pow2_int: "0 \<le> e \<Longrightarrow> pow2 e = of_int (2 ^ nat e)"
  by (simp add: pow2_def power_int_def)

definition ilog2 :: "rat \<Rightarrow> int" where
  "ilog2 x = (if 1 \<le> x then int (nlog2 \<lfloor>x\<rfloor>)
              else - int (Suc (nlog2 (\<lceil>1 / x\<rceil> - 1))))"

lemma ilog2_bounds:
  assumes "0 < x"
  shows "pow2 (ilog2 x) \<le> x \<and> x < pow2 (ilog2 x + 1)"
proof (cases "1 \<le> x")
  case True
  define n where "n = \<lfloor>x\<rfloor>"
  have n: "0 < n" "rat_of_int n \<le> x" "x < rat_of_int n + 1"
    using True unfolding n_def by linarith+
  from nlog2_bounds [OF n(1)] have "2 ^ nlog2 n \<le> n" and "n + 1 \<le> 2 * 2 ^ nlog2 n" by auto
  then have "rat_of_int (2 ^ nlog2 n) \<le> rat_of_int n"
    and "rat_of_int (n + 1) \<le> rat_of_int (2 * 2 ^ nlog2 n)" by (simp_all only: of_int_le_iff)
  then have "2 ^ nlog2 n \<le> rat_of_int n" and "rat_of_int n + 1 \<le> 2 * 2 ^ nlog2 n" by simp_all
  then have "2 ^ nlog2 n \<le> x \<and> x < 2 * 2 ^ nlog2 n" using n by linarith
  moreover have "ilog2 x = int (nlog2 n)" using True by (simp add: ilog2_def n_def)
  ultimately show ?thesis by (simp add: pow2_add pow2_nat)
next
  case False
  define n where "n = \<lceil>1 / x\<rceil> - 1"
  from False assms have "1 < 1 / x" by simp
  then have n: "0 < n" "rat_of_int n < 1 / x" "1 / x \<le> rat_of_int n + 1"
    unfolding n_def by linarith+
  from nlog2_bounds [OF n(1)] have "2 ^ nlog2 n \<le> n" and "n + 1 \<le> 2 * 2 ^ nlog2 n" by auto
  then have "rat_of_int (2 ^ nlog2 n) \<le> rat_of_int n"
    and "rat_of_int (n + 1) \<le> rat_of_int (2 * 2 ^ nlog2 n)" by (simp_all only: of_int_le_iff)
  then have "2 ^ nlog2 n \<le> rat_of_int n" and "rat_of_int n + 1 \<le> 2 * 2 ^ nlog2 n" by simp_all
  then have lo: "2 ^ nlog2 n < 1 / x" and hi: "1 / x \<le> 2 * 2 ^ nlog2 n" using n by linarith+
  have e: "ilog2 x = - int (Suc (nlog2 n))" using False by (simp add: ilog2_def n_def)
  have "pow2 (ilog2 x) = 1 / (2 * 2 ^ nlog2 n)" and "pow2 (ilog2 x + 1) = 1 / 2 ^ nlog2 n"
    unfolding e by (simp_all add: pow2_def power_int_minus power_int_diff field_simps)
  moreover have "1 / (2 * 2 ^ nlog2 n) \<le> x" and "x < 1 / 2 ^ nlog2 n"
    using lo hi assms by (simp_all add: field_simps)
  ultimately show ?thesis by simp
qed

lemma ilog2_eqI:
  assumes "pow2 e \<le> x" "x < pow2 (e + 1)"
  shows "ilog2 x = e"
proof -
  have "0 < x" using assms(1) pow2_pos [of e] by linarith
  then have b: "pow2 (ilog2 x) \<le> x" "x < pow2 (ilog2 x + 1)" using ilog2_bounds by auto
  from b(1) assms(2) have "ilog2 x < e + 1" by (meson le_less_trans pow2_less)
  moreover from assms(1) b(2) have "e < ilog2 x + 1" by (meson le_less_trans pow2_less)
  ultimately show ?thesis by simp
qed

lemma ilog2_mono: "0 < x \<Longrightarrow> x \<le> y \<Longrightarrow> ilog2 x \<le> ilog2 y"
proof -
  assume "0 < x" "x \<le> y"
  then have "pow2 (ilog2 x) < pow2 (ilog2 y + 1)"
    using ilog2_bounds [of x] ilog2_bounds [of y] by linarith
  then show ?thesis using pow2_less by fastforce
qed

subsection \<open>Rounding to 53 significant bits\<close>

definition ulp :: "rat \<Rightarrow> rat" where
  "ulp x = pow2 (ilog2 \<bar>x\<bar> - 52)"

definition fl :: "rat \<Rightarrow> pyfloat" where
  "fl x = (if x = 0 then 0 else of_int (rhe (x / ulp x)) * ulp x)"


lemma ulp_pos [simp]: "0 < ulp x"
  by (simp add: ulp_def)

lemma ulp_nz [simp]: "ulp x \<noteq> 0"
  using ulp_pos [of x] by linarith

lemma fl_0 [simp]: "fl 0 = 0"
  by (simp add: fl_def)

lemma fl_uminus: "fl (- x) = - fl x"
  by (simp add: fl_def ulp_def rhe_uminus)

lemma sig_bounds:
  assumes "0 < x"
  shows "2 ^ 52 \<le> x / ulp x" and "x / ulp x < 2 ^ 53"
proof -
  have b: "pow2 (ilog2 x) \<le> x" "x < pow2 (ilog2 x + 1)" using ilog2_bounds [OF assms] by auto
  have u: "ulp x = pow2 (ilog2 x) / 2 ^ 52"
    using assms by (simp add: ulp_def pow2_diff pow2_nat [of 52, simplified])
  from b(1) show "2 ^ 52 \<le> x / ulp x" by (simp add: u field_simps)
  from b(2) show "x / ulp x < 2 ^ 53" by (simp add: u pow2_add field_simps)
qed

lemma rhe_le_of_int: "x \<le> of_int n \<Longrightarrow> rhe x \<le> n"
  using rhe_mono [of x "of_int n"] by simp

lemma rhe_ge_of_int: "of_int n \<le> x \<Longrightarrow> n \<le> rhe x"
  using rhe_mono [of "of_int n" x] by simp

lemma sig_rhe:
  assumes "0 < x"
  shows "2 ^ 52 \<le> rhe (x / ulp x)" and "rhe (x / ulp x) \<le> 2 ^ 53"
  using sig_bounds [OF assms] by (auto intro!: rhe_le_of_int rhe_ge_of_int)

lemma fl_binade:
  assumes "0 < x"
  shows "pow2 (ilog2 x) \<le> fl x" and "fl x \<le> pow2 (ilog2 x + 1)"
proof -
  have u: "pow2 (ilog2 x) = 2 ^ 52 * ulp x" "pow2 (ilog2 x + 1) = 2 ^ 53 * ulp x"
    using assms by (simp_all add: ulp_def pow2_diff pow2_add pow2_nat [of 52, simplified])
  have f: "fl x = of_int (rhe (x / ulp x)) * ulp x" using assms by (simp add: fl_def)
  have "rat_of_int (2 ^ 52) \<le> of_int (rhe (x / ulp x))"
    and "rat_of_int (rhe (x / ulp x)) \<le> of_int (2 ^ 53)"
    using sig_rhe [OF assms] by (simp_all only: of_int_le_iff)
  then show "pow2 (ilog2 x) \<le> fl x" and "fl x \<le> pow2 (ilog2 x + 1)"
    unfolding u f by (simp_all add: mult_right_mono)
qed

lemma fl_pos: "0 < x \<Longrightarrow> 0 < fl x"
  using fl_binade(1) [of x] pow2_pos [of "ilog2 x"] by linarith

lemma fl_mono_pos:
  assumes "0 < x" "x \<le> y"
  shows "fl x \<le> fl y"
proof (cases "ilog2 x = ilog2 y")
  case True
  with assms have u: "ulp y = ulp x" by (simp add: ulp_def)
  have "rhe (x / ulp x) \<le> rhe (y / ulp x)"
    using assms by (intro rhe_mono divide_right_mono) (simp_all add: less_imp_le)
  with assms u show ?thesis by (simp add: fl_def mult_right_mono less_imp_le)
next
  case False
  with ilog2_mono [OF assms] have "ilog2 x + 1 \<le> ilog2 y" by simp
  then have "pow2 (ilog2 x + 1) \<le> pow2 (ilog2 y)" by (rule pow2_mono)
  with assms fl_binade(2) [of x] fl_binade(1) [of y] show ?thesis by linarith
qed

lemma fl_mono: "x \<le> y \<Longrightarrow> fl x \<le> fl y"
proof -
  assume le: "x \<le> y"
  consider "0 < x" | "x = 0" | "x < 0" "y < 0" | "x < 0" "0 \<le> y" by linarith
  then show ?thesis
  proof cases
    case 1
    then show ?thesis using le by (rule fl_mono_pos)
  next
    case 2
    then show ?thesis using le fl_pos [of y] by (cases "y = 0") auto
  next
    case 3
    then show ?thesis using le fl_mono_pos [of "- y" "- x"] by (simp add: fl_uminus)
  next
    case 4
    then show ?thesis using fl_pos [of "- x"] fl_pos [of y] by (cases "y = 0") (auto simp: fl_uminus)
  qed
qed

subsection \<open>Values that are doubles\<close>

lemma fl_exact_pos:
  assumes "0 < m" "m < 2 ^ 53"
  shows "fl (of_int m * pow2 k) = of_int m * pow2 k"
proof -
  define x where "x = rat_of_int m * pow2 k"
  have x: "0 < x" using assms by (simp add: x_def)
  have mb: "pow2 (ilog2 (of_int m)) \<le> rat_of_int m" "rat_of_int m < pow2 (ilog2 (of_int m) + 1)"
    using ilog2_bounds [of "of_int m"] assms by auto
  have il: "ilog2 x = ilog2 (of_int m) + k"
    using mb by (intro ilog2_eqI) (simp_all add: x_def pow2_add)
  have "pow2 (ilog2 (of_int m)) < pow2 53"
    using le_less_trans [OF mb(1)] assms(2) by (simp add: pow2_nat [of 53, simplified])
  then have "ilog2 (rat_of_int m) \<le> 52" using pow2_less by fastforce
  then have d: "0 \<le> 52 - ilog2 (rat_of_int m)" by simp
  have "ulp x = pow2 (ilog2 (of_int m) + k - 52)" using x by (simp add: ulp_def il)
  then have "x / ulp x = of_int m * pow2 (52 - ilog2 (rat_of_int m))"
    by (simp add: x_def pow2_add pow2_diff field_simps)
  also have "\<dots> = of_int (m * 2 ^ nat (52 - ilog2 (rat_of_int m)))"
    using d by (simp add: pow2_int)
  finally have "rat_of_int (rhe (x / ulp x)) = x / ulp x" by (metis rhe_of_int)
  then show ?thesis using x by (simp add: fl_def x_def [symmetric])
qed

lemma fl_exact:
  assumes "\<bar>m\<bar> \<le> 2 ^ 53"
  shows "fl (of_int m * pow2 k) = of_int m * pow2 k"
proof -
  have pos: "fl (of_int m * pow2 k) = of_int m * pow2 k" if "0 < m" "m \<le> 2 ^ 53" for m :: int
  proof (cases "m = 2 ^ 53")
    case True
    have "rat_of_int m * pow2 k = of_int (2 ^ 52) * pow2 (k + 1)"
      unfolding True pow2_add by simp
    then show ?thesis using fl_exact_pos [of "2 ^ 52" "k + 1"] by simp
  next
    case False
    with that show ?thesis by (simp add: fl_exact_pos)
  qed
  consider "m = 0" | "0 < m" | "m < 0" by linarith
  then show ?thesis
  proof cases
    case 3
    then show ?thesis using pos [of "- m"] assms fl_uminus [of "of_int (- m) * pow2 k"] by simp
  qed (use pos assms in auto)
qed

lemma fl_of_int: "\<bar>m\<bar> \<le> 2 ^ 53 \<Longrightarrow> fl (of_int m) = of_int m"
  using fl_exact [of m 0] by simp

lemma fl_idem [simp]: "fl (fl x) = fl x"
proof -
  have pos: "fl (fl x) = fl x" if "0 < x" for x
  proof -
    have "fl x = of_int (rhe (x / ulp x)) * pow2 (ilog2 x - 52)"
      using that by (simp add: fl_def ulp_def)
    moreover have "\<bar>rhe (x / ulp x)\<bar> \<le> 2 ^ 53" using sig_rhe [OF that] by simp
    ultimately show ?thesis using fl_exact by metis
  qed
  consider "x = 0" | "0 < x" | "x < 0" by linarith
  then show ?thesis
  proof cases
    case 3
    then show ?thesis using pos [of "- x"] by (simp add: fl_uminus)
  qed (use pos in auto)
qed

lemma fl_error: "\<bar>fl x - x\<bar> \<le> \<bar>x\<bar> / 2 ^ 53"
proof -
  have pos: "\<bar>fl x - x\<bar> \<le> x / 2 ^ 53" if "0 < x" for x
  proof -
    have "fl x - x = (of_int (rhe (x / ulp x)) - x / ulp x) * ulp x"
      using that by (simp add: fl_def left_diff_distrib)
    then have "\<bar>fl x - x\<bar> = \<bar>of_int (rhe (x / ulp x)) - x / ulp x\<bar> * ulp x"
      by (simp add: abs_mult less_imp_le)
    also have "\<dots> \<le> 1 / 2 * ulp x"
      by (intro mult_right_mono rhe_error) (simp add: less_imp_le)
    also have "\<dots> \<le> x / 2 ^ 53"
      using sig_bounds(1) [OF that] by (simp add: field_simps)
    finally show ?thesis .
  qed
  consider "x = 0" | "0 < x" | "x < 0" by linarith
  then show ?thesis
  proof cases
    case 3
    then show ?thesis using pos [of "- x"] by (simp add: fl_uminus)
  qed (use pos in auto)
qed

subsection \<open>What the components rely on\<close>

locale rounding =
  fixes rnd :: "rat \<Rightarrow> rat"
  assumes mono: "x \<le> y \<Longrightarrow> rnd x \<le> rnd y"
    and zero: "rnd 0 = 0"
    and idem: "rnd (rnd x) = rnd x"
    and neg: "rnd (- x) = - rnd x"
begin

lemma nonneg: "0 \<le> x \<Longrightarrow> 0 \<le> rnd x"
  using mono [of 0 x] by (simp add: zero)

lemma nonpos: "x \<le> 0 \<Longrightarrow> rnd x \<le> 0"
  using mono [of x 0] by (simp add: zero)

lemma le_of: "x \<le> y \<Longrightarrow> rnd y = y \<Longrightarrow> rnd x \<le> y"
  using mono [of x y] by simp

lemma ge_of: "y \<le> x \<Longrightarrow> rnd y = y \<Longrightarrow> y \<le> rnd x"
  using mono [of y x] by simp

lemma sub_nonneg: "a \<le> b \<Longrightarrow> 0 \<le> rnd (b - a)"
  by (simp add: nonneg)

lemma quotient_unit:
  assumes "0 \<le> a" "a \<le> b" "rnd 1 = 1"
  shows "0 \<le> rnd (a / b)" and "rnd (a / b) \<le> 1"
proof -
  have "0 \<le> a / b" and "a / b \<le> 1"
    using assms by (auto simp: divide_le_eq_1)
  then show "0 \<le> rnd (a / b)" and "rnd (a / b) \<le> 1"
    using assms(3) by (auto intro: nonneg le_of)
qed

lemma mult_mono_left: "a \<le> b \<Longrightarrow> 0 \<le> c \<Longrightarrow> rnd (a * c) \<le> rnd (b * c)"
  by (simp add: mono mult_right_mono)

lemma descend_mono:
  assumes "s \<le> t" "0 \<le> d"
  shows "rnd (p - rnd (t * d)) \<le> rnd (p - rnd (s * d))"
  using mult_mono_left [OF assms] by (intro mono) simp

lemma descend_le: "0 \<le> t \<Longrightarrow> 0 \<le> d \<Longrightarrow> rnd p = p \<Longrightarrow> rnd (p - rnd (t * d)) \<le> p"
  using nonneg [of "t * d"] by (intro le_of) auto

end

interpretation dbl: rounding fl
  by unfold_locales (simp_all add: fl_mono fl_uminus)

subsection \<open>Python's conversions\<close>

text \<open>
  \<open>fint n\<close> is the float of an integer, \<open>fdivi a b\<close> the true division of two integers (Python
  rounds the exact quotient once), \<open>py_int\<close> is \<open>int(x)\<close> (towards zero), \<open>py_round\<close> is
  \<open>round(x)\<close> and \<open>py_round_n n x\<close> is \<open>round(x, n)\<close>.
\<close>

definition fint :: "int \<Rightarrow> pyfloat" where
  "fint n = fl (of_int n)"

definition fdivi :: "int \<Rightarrow> int \<Rightarrow> pyfloat" where
  "fdivi a b = fl (of_int a / of_int b)"

definition py_int :: "pyfloat \<Rightarrow> int" where
  "py_int x = (if 0 \<le> x then \<lfloor>x\<rfloor> else \<lceil>x\<rceil>)"

definition py_round :: "pyfloat \<Rightarrow> int" where
  "py_round x = rhe x"

definition py_round_n :: "nat \<Rightarrow> pyfloat \<Rightarrow> pyfloat" where
  "py_round_n n x = fl (of_int (rhe (x * 10 ^ n)) / 10 ^ n)"

lemma fint_mono: "a \<le> b \<Longrightarrow> fint a \<le> fint b"
  by (simp add: fint_def fl_mono)

lemma fint_0 [simp]: "fint 0 = 0"
  by (simp add: fint_def)

lemma fint_nonneg: "0 \<le> n \<Longrightarrow> 0 \<le> fint n"
  by (simp add: fint_def dbl.nonneg)

lemma fl_fint [simp]: "fl (fint n) = fint n"
  by (simp add: fint_def)

lemma fl_1 [simp]: "fl 1 = 1"
  using fl_of_int [of 1] by simp

lemma fl_numeral: "numeral w \<le> (2 ^ 53 :: int) \<Longrightarrow> fl (numeral w) = numeral w"
  using fl_of_int [of "numeral w"] by simp

lemma py_int_mono: "x \<le> y \<Longrightarrow> py_int x \<le> py_int y"
proof -
  assume xy: "x \<le> y"
  show ?thesis
  proof (cases "0 \<le> x \<or> y < 0")
    case True
    with xy show ?thesis by (auto simp: py_int_def floor_mono ceiling_mono)
  next
    case False
    then have "\<lceil>x\<rceil> \<le> 0" and "0 \<le> \<lfloor>y\<rfloor>" by (simp_all add: ceiling_le_iff)
    then have "\<lceil>x\<rceil> \<le> \<lfloor>y\<rfloor>" by (rule order_trans)
    with False show ?thesis by (auto simp: py_int_def)
  qed
qed

lemma py_int_of_int [simp]: "py_int (of_int n) = n"
  by (simp add: py_int_def)

lemma py_int_nonneg: "0 \<le> x \<Longrightarrow> 0 \<le> py_int x"
  by (simp add: py_int_def)

lemma py_int_le: "0 \<le> x \<Longrightarrow> of_int (py_int x) \<le> x"
  by (simp add: py_int_def)

lemma py_round_mono: "x \<le> y \<Longrightarrow> py_round x \<le> py_round y"
  by (simp add: py_round_def rhe_mono)

lemma py_round_of_int [simp]: "py_round (of_int n) = n"
  by (simp add: py_round_def)

lemma py_round_n_mono: "x \<le> y \<Longrightarrow> py_round_n n x \<le> py_round_n n y"
  by (simp add: py_round_n_def fl_mono rhe_mono mult_right_mono divide_right_mono)

lemma py_round_n_of_int: "\<bar>m\<bar> \<le> 2 ^ 53 \<Longrightarrow> py_round_n n (of_int m) = of_int m"
proof -
  assume m: "\<bar>m\<bar> \<le> 2 ^ 53"
  have "rat_of_int m * 10 ^ n = of_int (m * 10 ^ n)" by simp
  then have "rhe (of_int m * 10 ^ n) = m * 10 ^ n" by (simp only: rhe_of_int)
  with m show ?thesis by (simp add: py_round_n_def fl_of_int)
qed

end
