(* ===== verification/Prelude.thy ===== *)
theory Prelude
  imports PyFloat
begin

text \<open>
  What the components share: Python's exceptions as values, string operations, and the table
  operations behind the SQL statements of the source.

  A Python \<open>str\<close> is a \<open>string\<close> (a list of characters).  The case operations are those of
  ASCII text, which is what keys, hashes, state names and server replies are.  A table is the
  list of its rows in rowid order; \<open>UPDATE ... WHERE\<close> is \<open>update_rows\<close>, and a table with an
  AUTOINCREMENT key keeps its rows with a counter that \<open>ids_ok\<close> relates to them.
\<close>

named_theorems row_simps
named_theorems inv_intros

subsection \<open>Exceptions and results\<close>

datatype py_exn =
    ValueError
  | KeyError
  | RuntimeError
  | TypeError
  | IndexError
  | StructError
  | ZeroDivisionError
  | IntegrityError
  | HTTPException int

type_synonym 'a py = "py_exn + 'a"

definition py_bind :: "'a py \<Rightarrow> ('a \<Rightarrow> 'b py) \<Rightarrow> 'b py" where
  "py_bind r f = (case r of Inl e \<Rightarrow> Inl e | Inr x \<Rightarrow> f x)"

lemma py_bind_simps [simp]:
  "py_bind (Inl e) f = Inl e"
  "py_bind (Inr x) f = f x"
  by (simp_all add: py_bind_def)

lemma py_bind_Inr: "py_bind r f = Inr y \<longleftrightarrow> (\<exists>x. r = Inr x \<and> f x = Inr y)"
  by (cases r) auto

subsection \<open>Characters and strings\<close>

definition char_code :: "char \<Rightarrow> nat" where
  "char_code c = of_char c"

definition is_upper_char :: "char \<Rightarrow> bool" where
  "is_upper_char c \<longleftrightarrow> 65 \<le> char_code c \<and> char_code c \<le> 90"

definition is_lower_char :: "char \<Rightarrow> bool" where
  "is_lower_char c \<longleftrightarrow> 97 \<le> char_code c \<and> char_code c \<le> 122"

definition is_digit_char :: "char \<Rightarrow> bool" where
  "is_digit_char c \<longleftrightarrow> 48 \<le> char_code c \<and> char_code c \<le> 57"

definition is_space_char :: "char \<Rightarrow> bool" where
  "is_space_char c \<longleftrightarrow> char_code c = 32 \<or> (9 \<le> char_code c \<and> char_code c \<le> 13)
     \<or> (28 \<le> char_code c \<and> char_code c \<le> 31)"

definition lower_char :: "char \<Rightarrow> char" where
  "lower_char c = (if is_upper_char c then char_of (char_code c + 32) else c)"

definition upper_char :: "char \<Rightarrow> char" where
  "upper_char c = (if is_lower_char c then char_of (char_code c - 32) else c)"

definition py_lower :: "string \<Rightarrow> string" where
  "py_lower s = map lower_char s"

definition py_upper :: "string \<Rightarrow> string" where
  "py_upper s = map upper_char s"

text \<open>\<open>py_in sub s\<close> is Python's \<open>sub in s\<close>.\<close>

fun py_in :: "string \<Rightarrow> string \<Rightarrow> bool" where
  "py_in sub [] = (sub = [])"
| "py_in sub (c # s) = (take (length sub) (c # s) = sub \<or> py_in sub s)"

definition py_startswith :: "string \<Rightarrow> string \<Rightarrow> bool" where
  "py_startswith s p \<longleftrightarrow> take (length p) s = p"

definition py_endswith :: "string \<Rightarrow> string \<Rightarrow> bool" where
  "py_endswith s p \<longleftrightarrow> py_startswith (rev s) (rev p)"

definition py_strip :: "string \<Rightarrow> string" where
  "py_strip s = rev (dropWhile is_space_char (rev (dropWhile is_space_char s)))"

text \<open>\<open>split_on c s\<close> is \<open>s.split(c)\<close>: never empty, one part more than there are separators.\<close>

fun split_on :: "'a \<Rightarrow> 'a list \<Rightarrow> 'a list list" where
  "split_on c [] = [[]]"
| "split_on c (x # xs) =
     (if x = c then [] # split_on c xs
      else case split_on c xs of [] \<Rightarrow> [[x]] | p # ps \<Rightarrow> (x # p) # ps)"

text \<open>\<open>str(n)\<close> of a number that is not negative.\<close>

fun nat_text :: "nat \<Rightarrow> string" where
  "nat_text n = (if n < 10 then [char_of (48 + n)] else nat_text (n div 10) @ [char_of (48 + n mod 10)])"

declare nat_text.simps [simp del]

lemma char_code_less: "char_code c < 256"
  by (simp add: char_code_def)

lemma char_code_char_of [simp]: "n < 256 \<Longrightarrow> char_code (char_of n) = n"
  by (simp add: char_code_def)

lemma nat_text_digits: "c \<in> set (nat_text n) \<Longrightarrow> is_digit_char c"
proof (induction n rule: nat_text.induct)
  case (1 n)
  have "is_digit_char (char_of (48 + k))" if "k < 10" for k :: nat
    using that by (simp add: is_digit_char_def)
  from 1 this show ?case
    by (auto simp: nat_text.simps [of n] split: if_splits)
qed

lemma char_code_lower: "char_code (lower_char c) = (if is_upper_char c then char_code c + 32 else char_code c)"
  by (simp add: lower_char_def is_upper_char_def)

lemma char_code_upper: "char_code (upper_char c) = (if is_lower_char c then char_code c - 32 else char_code c)"
  using char_code_less [of c] by (simp add: upper_char_def)

lemma not_upper_lower_char [simp]: "\<not> is_upper_char (lower_char c)"
  by (simp add: is_upper_char_def char_code_lower)

lemma lower_char_idem [simp]: "lower_char (lower_char c) = lower_char c"
  by (simp add: lower_char_def [of "lower_char c"])

lemma not_lower_upper_char [simp]: "\<not> is_lower_char (upper_char c)"
  by (auto simp: is_lower_char_def char_code_upper)

lemma upper_char_idem [simp]: "upper_char (upper_char c) = upper_char c"
  by (simp add: upper_char_def [of "upper_char c"])

lemma py_lower_idem [simp]: "py_lower (py_lower s) = py_lower s"
  by (simp add: py_lower_def)

lemma py_upper_idem [simp]: "py_upper (py_upper s) = py_upper s"
  by (simp add: py_upper_def)

lemma length_py_lower [simp]: "length (py_lower s) = length s"
  by (simp add: py_lower_def)

lemma py_lower_append: "py_lower (s @ t) = py_lower s @ py_lower t"
  by (simp add: py_lower_def)

lemma py_in_iff: "py_in sub s \<longleftrightarrow> (\<exists>a b. s = a @ sub @ b)"
proof (induction s)
  case Nil
  then show ?case by auto
next
  case (Cons c s)
  have "take (length sub) (c # s) = sub \<longleftrightarrow> (\<exists>b. c # s = sub @ b)"
    by (metis append_eq_conv_conj)
  with Cons show ?case by (auto simp: Cons_eq_append_conv)
qed

lemma py_in_append: "py_in sub s \<Longrightarrow> py_in sub (a @ s @ b)"
  unfolding py_in_iff by (metis append_assoc)

lemma py_in_refl [simp]: "py_in s s"
  unfolding py_in_iff by (metis append_Nil append_Nil2)

lemma py_in_trans: "py_in a b \<Longrightarrow> py_in b c \<Longrightarrow> py_in a c"
  unfolding py_in_iff by (metis append_assoc)

lemma py_startswith_iff: "py_startswith s p \<longleftrightarrow> (\<exists>b. s = p @ b)"
  by (metis append_eq_conv_conj py_startswith_def)

lemma py_in_set: "py_in sub s \<Longrightarrow> set sub \<subseteq> set s"
  by (auto simp: py_in_iff)

lemma split_on_nonempty [simp]: "split_on c s \<noteq> []"
  by (induction s) (auto split: list.splits)

lemma length_split_on: "length (split_on c s) = Suc (count_list s c)"
  by (induction s) (auto split: list.splits)

lemma split_on_no_sep: "c \<notin> set s \<Longrightarrow> split_on c s = [s]"
  by (induction s) auto

lemma split_on_parts: "p \<in> set (split_on c s) \<Longrightarrow> c \<notin> set p"
proof (induction s arbitrary: p)
  case (Cons x xs)
  then show ?case by (cases "split_on c xs") (auto split: if_splits)
qed simp

subsection \<open>Tables\<close>

definition update_rows :: "('r \<Rightarrow> bool) \<Rightarrow> ('r \<Rightarrow> 'r) \<Rightarrow> 'r list \<Rightarrow> 'r list" where
  "update_rows P f rows = map (\<lambda>r. if P r then f r else r) rows"

lemma update_rows_Nil [simp]: "update_rows P f [] = []"
  by (simp add: update_rows_def)

lemma update_rows_Cons [simp]:
  "update_rows P f (r # rows) = (if P r then f r else r) # update_rows P f rows"
  by (simp add: update_rows_def)

lemma length_update_rows [simp]: "length (update_rows P f rows) = length rows"
  by (simp add: update_rows_def)

lemma map_update_rows:
  "(\<And>r. r \<in> set rows \<Longrightarrow> P r \<Longrightarrow> k (f r) = k r) \<Longrightarrow> map k (update_rows P f rows) = map k rows"
  by (induction rows) auto

lemma update_rows_cong:
  "(\<And>r. r \<in> set rows \<Longrightarrow> \<not> P r) \<Longrightarrow> update_rows P f rows = rows"
  by (induction rows) auto

lemma in_update_rows:
  "r \<in> set (update_rows P f rows) \<longleftrightarrow>
    (\<exists>r0 \<in> set rows. r = (if P r0 then f r0 else r0))"
  by (auto simp: update_rows_def)

definition ids_ok :: "('r \<Rightarrow> nat) \<Rightarrow> 'r list \<Rightarrow> nat \<Rightarrow> bool" where
  "ids_ok rid rows seq \<longleftrightarrow> sorted_wrt (<) (map rid rows) \<and> (\<forall>r \<in> set rows. rid r \<le> seq)"

lemma ids_ok_Nil [simp, inv_intros]: "ids_ok rid [] seq"
  by (simp add: ids_ok_def)

lemma ids_ok_snoc [inv_intros]:
  "ids_ok rid rows seq \<Longrightarrow> rid r = Suc seq \<Longrightarrow> ids_ok rid (rows @ [r]) (Suc seq)"
  by (auto simp: ids_ok_def sorted_wrt_append less_Suc_eq_le)

lemma ids_ok_update [inv_intros]:
  assumes "ids_ok rid rows seq" "\<And>r. rid (f r) = rid r"
  shows "ids_ok rid (update_rows P f rows) seq"
  using assms map_update_rows [of rows P rid f] by (auto simp: ids_ok_def in_update_rows)

lemma ids_ok_distinct: "ids_ok rid rows seq \<Longrightarrow> distinct (map rid rows)"
  using strict_sorted_iff by (auto simp: ids_ok_def)

lemma ids_ok_inj: "ids_ok rid rows seq \<Longrightarrow> r \<in> set rows \<Longrightarrow> r' \<in> set rows \<Longrightarrow> rid r = rid r' \<Longrightarrow> r = r'"
  using ids_ok_distinct [of rid rows seq] by (auto simp: distinct_map dest: inj_onD)

lemma find_distinct:
  "distinct (map k rows) \<Longrightarrow> r \<in> set rows \<Longrightarrow> find (\<lambda>x. k x = k r) rows = Some r"
  by (induction rows) auto

lemma find_key_Some: "find (\<lambda>x. k x = i) rows = Some r \<Longrightarrow> r \<in> set rows \<and> k r = i"
  by (metis (mono_tags) find_Some_iff nth_mem)

lemma find_key_None: "find (\<lambda>x. k x = i) rows = None \<longleftrightarrow> (\<forall>x \<in> set rows. k x \<noteq> i)"
  by (auto simp: find_None_iff)

lemma find_pred_Some: "find P rows = Some r \<Longrightarrow> r \<in> set rows \<and> P r"
  by (metis find_Some_iff nth_mem)

subsection \<open>Clamping\<close>

lemma max_min_bounds: "lo \<le> hi \<Longrightarrow> lo \<le> max lo (min hi x) \<and> max lo (min hi x) \<le> (hi :: 'a :: linorder)"
  by auto

lemma max_min_mono: "x \<le> y \<Longrightarrow> max lo (min hi x) \<le> max lo (min hi (y :: 'a :: linorder))"
  by (intro max.mono min.mono) auto

end
