(* ===== verification/Models.thy ===== *)
theory Models
  imports Prelude
begin

text \<open>
  The data model of the miner (\<open>core/models.py\<close>): a found block, a GPU snapshot, the network
  status and the session counters.  The three fields \<open>found_xuni\<close>, \<open>found_xnm\<close>,
  \<open>found_xblk\<close> of \<open>MiningStats\<close> (and likewise every other family of counters) are one
  function of the block kind; \<open>*_total\<close> are the properties of the class.
\<close>

record block_hit =
  hit_key :: string
  hit_hash :: string
  hit_type :: string
  hit_attempts :: int
  hit_strategy :: string
  hit_hps :: pyfloat
  hit_found_at :: string
  hit_memory_cost :: "int option"

record gpu_snapshot =
  gpu_index :: int
  gpu_name :: string
  total_mib :: int
  used_mib :: int
  free_mib :: int
  util_pct :: int
  power_w :: pyfloat
  temperature_c :: int
  gpu_temp_c :: int
  board_temp_c :: int
  hotspot_temp_c :: int
  memory_temp_c :: int
  temp_source :: string

definition headroom_mib :: "gpu_snapshot \<Rightarrow> int" where
  "headroom_mib g = total_mib g - used_mib g"

record network_status =
  port80_up :: bool
  ns_difficulty :: "int option"
  latency_ms :: "pyfloat option"
  ns_error :: "string option"

datatype block_kind = XUNI | XNM | XBLK

record mining_stats =
  total_hashes :: int
  session_hits :: int
  active_lanes :: int
  hps_ema :: pyfloat
  found :: "block_kind \<Rightarrow> int"
  enqueued :: "block_kind \<Rightarrow> int"
  accepted_live :: "block_kind \<Rightarrow> int"
  accepted_flush :: "block_kind \<Rightarrow> int"
  failed_live :: "block_kind \<Rightarrow> int"
  rejected_flush :: "block_kind \<Rightarrow> int"
  rejected_live :: "block_kind \<Rightarrow> int"
  resubmission :: "block_kind \<Rightarrow> int"
  dropped_flush :: int
  queued :: int

definition initial_stats :: mining_stats where
  "initial_stats = \<lparr>total_hashes = 0, session_hits = 0, active_lanes = 0, hps_ema = 0,
     found = (\<lambda>_. 0), enqueued = (\<lambda>_. 0), accepted_live = (\<lambda>_. 0), accepted_flush = (\<lambda>_. 0),
     failed_live = (\<lambda>_. 0), rejected_flush = (\<lambda>_. 0), rejected_live = (\<lambda>_. 0),
     resubmission = (\<lambda>_. 0), dropped_flush = 0, queued = 0\<rparr>"

definition kind_sum :: "(block_kind \<Rightarrow> int) \<Rightarrow> int" where
  "kind_sum c = c XUNI + c XNM + c XBLK"

definition found_total :: "mining_stats \<Rightarrow> int" where
  "found_total s = kind_sum (found s)"

definition enqueued_total :: "mining_stats \<Rightarrow> int" where
  "enqueued_total s = kind_sum (enqueued s)"

definition accepted_live_total :: "mining_stats \<Rightarrow> int" where
  "accepted_live_total s = kind_sum (accepted_live s)"

definition accepted_flush_total :: "mining_stats \<Rightarrow> int" where
  "accepted_flush_total s = kind_sum (accepted_flush s)"

definition accepted_total :: "mining_stats \<Rightarrow> int" where
  "accepted_total s = accepted_live_total s + accepted_flush_total s"

definition failed_live_total :: "mining_stats \<Rightarrow> int" where
  "failed_live_total s = kind_sum (failed_live s)"

definition rejected_flush_total :: "mining_stats \<Rightarrow> int" where
  "rejected_flush_total s = kind_sum (rejected_flush s)"

definition rejected_live_total :: "mining_stats \<Rightarrow> int" where
  "rejected_live_total s = kind_sum (rejected_live s)"

definition rejected_total :: "mining_stats \<Rightarrow> int" where
  "rejected_total s = rejected_live_total s + rejected_flush_total s"

definition resubmission_total :: "mining_stats \<Rightarrow> int" where
  "resubmission_total s = kind_sum (resubmission s)"

lemma kind_sum_inc [simp]: "kind_sum (c(k := c k + 1)) = kind_sum c + 1"
  by (cases k) (simp_all add: kind_sum_def)

lemma kind_sum_zero [simp]: "kind_sum (\<lambda>_. 0) = 0"
  by (simp add: kind_sum_def)

lemmas total_defs = found_total_def enqueued_total_def accepted_live_total_def
  accepted_flush_total_def accepted_total_def failed_live_total_def rejected_flush_total_def
  rejected_live_total_def rejected_total_def resubmission_total_def

end
