(* ===== verification/Metrics.thy ===== *)
theory Metrics
  imports Models
begin

text \<open>
  The session counters (\<open>monitoring/metrics.py\<close>).  \<open>inc_*\<close> is \<open>_inc(stats, field, kind)\<close>,
  which adds one to the attribute \<open>field_kind\<close>.  The tracker remembers, per kind, the keys it
  has already counted as rejected, live and at flush.
\<close>

text \<open>\<open>_norm_kind\<close>: an unknown label counts as XBLK.\<close>

definition norm_kind :: "string \<Rightarrow> block_kind" where
  "norm_kind kind = (let upper = py_upper kind in
     if upper = ''XUNI'' then XUNI
     else if upper = ''XNM'' then XNM
     else if upper = ''XBLK'' then XBLK
     else XBLK)"

definition inc_counter :: "(block_kind \<Rightarrow> int) \<Rightarrow> string \<Rightarrow> (block_kind \<Rightarrow> int)" where
  "inc_counter c kind = c(norm_kind kind := c (norm_kind kind) + 1)"

record metrics_tracker =
  stats :: mining_stats
  last_tick :: pyfloat
  ema_alpha :: pyfloat
  rejected_live_keys :: "block_kind \<Rightarrow> string set"
  rejected_flush_keys :: "block_kind \<Rightarrow> string set"

definition init_tracker :: "pyfloat \<Rightarrow> pyfloat \<Rightarrow> metrics_tracker" where
  "init_tracker alpha now = \<lparr>stats = initial_stats, last_tick = now, ema_alpha = alpha,
     rejected_live_keys = (\<lambda>_. {}), rejected_flush_keys = (\<lambda>_. {})\<rparr>"

text \<open>\<open>record_hashes\<close>; \<open>now\<close> is the reading of \<open>perf_counter\<close>, and \<open>1e-9\<close> the least
  elapsed time.\<close>

definition record_hashes :: "pyfloat \<Rightarrow> int \<Rightarrow> int \<Rightarrow> metrics_tracker \<Rightarrow> metrics_tracker" where
  "record_hashes now count lanes m =
     (let elapsed = max (fl (now - last_tick m)) (fl (1 / 10 ^ 9));
          s = (stats m)\<lparr>total_hashes := total_hashes (stats m) + count, active_lanes := lanes\<rparr>;
          instant = fl (fint count / elapsed);
          ema = (if hps_ema s \<le> 0 then instant
                 else fl (fl (ema_alpha m * instant) + fl (fl (1 - ema_alpha m) * hps_ema s)))
      in m\<lparr>last_tick := now, stats := s\<lparr>hps_ema := ema\<rparr>\<rparr>)"

definition record_found :: "string \<Rightarrow> metrics_tracker \<Rightarrow> metrics_tracker" where
  "record_found kind m = m\<lparr>stats := (stats m)\<lparr>session_hits := session_hits (stats m) + 1,
     found := inc_counter (found (stats m)) kind\<rparr>\<rparr>"

definition record_enqueued :: "string \<Rightarrow> metrics_tracker \<Rightarrow> metrics_tracker" where
  "record_enqueued kind m =
     m\<lparr>stats := (stats m)\<lparr>enqueued := inc_counter (enqueued (stats m)) kind\<rparr>\<rparr>"

definition record_accepted_live :: "string \<Rightarrow> metrics_tracker \<Rightarrow> metrics_tracker" where
  "record_accepted_live kind m =
     m\<lparr>stats := (stats m)\<lparr>accepted_live := inc_counter (accepted_live (stats m)) kind\<rparr>\<rparr>"

definition record_accepted_flush :: "string \<Rightarrow> metrics_tracker \<Rightarrow> metrics_tracker" where
  "record_accepted_flush kind m =
     m\<lparr>stats := (stats m)\<lparr>accepted_flush := inc_counter (accepted_flush (stats m)) kind\<rparr>\<rparr>"

definition record_failed_live :: "string \<Rightarrow> metrics_tracker \<Rightarrow> metrics_tracker" where
  "record_failed_live kind m =
     m\<lparr>stats := (stats m)\<lparr>failed_live := inc_counter (failed_live (stats m)) kind\<rparr>\<rparr>"

definition record_rejected_live :: "string \<Rightarrow> string \<Rightarrow> metrics_tracker \<Rightarrow> metrics_tracker" where
  "record_rejected_live kind block_key m =
     (let norm = norm_kind kind in
      if block_key \<in> rejected_live_keys m norm then m
      else m\<lparr>rejected_live_keys :=
               (rejected_live_keys m)(norm := insert block_key (rejected_live_keys m norm)),
             stats := (stats m)\<lparr>rejected_live := inc_counter (rejected_live (stats m)) kind,
                                failed_live := inc_counter (failed_live (stats m)) kind\<rparr>\<rparr>)"

definition record_rejected_flush :: "string \<Rightarrow> string \<Rightarrow> metrics_tracker \<Rightarrow> metrics_tracker" where
  "record_rejected_flush kind block_key m =
     (let norm = norm_kind kind in
      if block_key \<in> rejected_flush_keys m norm then m
      else m\<lparr>rejected_flush_keys :=
               (rejected_flush_keys m)(norm := insert block_key (rejected_flush_keys m norm)),
             stats := (stats m)\<lparr>rejected_flush := inc_counter (rejected_flush (stats m)) kind\<rparr>\<rparr>)"

definition record_resubmission :: "string \<Rightarrow> metrics_tracker \<Rightarrow> metrics_tracker" where
  "record_resubmission kind m =
     m\<lparr>stats := (stats m)\<lparr>resubmission := inc_counter (resubmission (stats m)) kind\<rparr>\<rparr>"

definition record_dropped_flush :: "metrics_tracker \<Rightarrow> metrics_tracker" where
  "record_dropped_flush m = m\<lparr>stats := (stats m)\<lparr>dropped_flush := dropped_flush (stats m) + 1\<rparr>\<rparr>"

definition sync_pending :: "int \<Rightarrow> metrics_tracker \<Rightarrow> metrics_tracker" where
  "sync_pending count m = m\<lparr>stats := (stats m)\<lparr>queued := count\<rparr>\<rparr>"

lemma kind_sum_inc_counter [simp]: "kind_sum (inc_counter c kind) = kind_sum c + 1"
  by (simp add: inc_counter_def)

lemma inc_counter_same [simp]: "inc_counter c kind (norm_kind kind) = c (norm_kind kind) + 1"
  by (simp add: inc_counter_def)

lemma norm_kind_upper [simp]: "norm_kind (py_upper kind) = norm_kind kind"
  by (simp add: norm_kind_def)

text \<open>
  The counters agree with the sets of remembered keys: what is counted as rejected (per kind)
  is the number of different keys.
\<close>

definition metrics_inv :: "metrics_tracker \<Rightarrow> bool" where
  "metrics_inv m \<longleftrightarrow>
     (\<forall>k. finite (rejected_live_keys m k) \<and> finite (rejected_flush_keys m k)
        \<and> rejected_live (stats m) k = int (card (rejected_live_keys m k))
        \<and> rejected_flush (stats m) k = int (card (rejected_flush_keys m k)))
     \<and> found_total (stats m) = session_hits (stats m)"

datatype metrics_event =
    Hashes pyfloat int int
  | Found string
  | Enqueued string
  | AcceptedLive string
  | AcceptedFlush string
  | FailedLive string
  | RejectedLive string string
  | RejectedFlush string string
  | Resubmission string
  | DroppedFlush
  | SyncPending int

fun metrics_step :: "metrics_tracker \<Rightarrow> metrics_event \<Rightarrow> metrics_tracker" where
  "metrics_step m (Hashes now c l) = record_hashes now c l m"
| "metrics_step m (Found k) = record_found k m"
| "metrics_step m (Enqueued k) = record_enqueued k m"
| "metrics_step m (AcceptedLive k) = record_accepted_live k m"
| "metrics_step m (AcceptedFlush k) = record_accepted_flush k m"
| "metrics_step m (FailedLive k) = record_failed_live k m"
| "metrics_step m (RejectedLive k b) = record_rejected_live k b m"
| "metrics_step m (RejectedFlush k b) = record_rejected_flush k b m"
| "metrics_step m (Resubmission k) = record_resubmission k m"
| "metrics_step m DroppedFlush = record_dropped_flush m"
| "metrics_step m (SyncPending c) = sync_pending c m"

lemmas record_defs = record_hashes_def record_found_def record_enqueued_def
  record_accepted_live_def record_accepted_flush_def record_failed_live_def
  record_rejected_live_def record_rejected_flush_def record_resubmission_def
  record_dropped_flush_def sync_pending_def

lemma metrics_inv_init: "metrics_inv (init_tracker a t)"
  by (simp add: metrics_inv_def init_tracker_def initial_stats_def total_defs)

lemma metrics_step_inv: "metrics_inv m \<Longrightarrow> metrics_inv (metrics_step m e)"
  by (cases e) (auto simp: metrics_inv_def record_defs Let_def total_defs inc_counter_def)

text \<open>
  What a run of the tracker has counted, read off the sequence of recordings.
\<close>

definition flush_reject_keys :: "metrics_event list \<Rightarrow> block_kind \<Rightarrow> string set" where
  "flush_reject_keys es k = {b. \<exists>kind. RejectedFlush kind b \<in> set es \<and> norm_kind kind = k}"

definition live_reject_keys :: "metrics_event list \<Rightarrow> block_kind \<Rightarrow> string set" where
  "live_reject_keys es k = {b. \<exists>kind. RejectedLive kind b \<in> set es \<and> norm_kind kind = k}"

definition metrics_run :: "metrics_tracker \<Rightarrow> metrics_event list \<Rightarrow> metrics_tracker" where
  "metrics_run m es = foldl metrics_step m es"

lemma metrics_run_inv: "metrics_inv m \<Longrightarrow> metrics_inv (metrics_run m es)"
  unfolding metrics_run_def by (induction es arbitrary: m) (auto intro: metrics_step_inv)

lemma metrics_step_keys:
  "rejected_flush_keys (metrics_step m e) k = rejected_flush_keys m k \<union> flush_reject_keys [e] k"
  "rejected_live_keys (metrics_step m e) k = rejected_live_keys m k \<union> live_reject_keys [e] k"
  by (cases e; auto simp: record_defs Let_def flush_reject_keys_def live_reject_keys_def)+

lemma reject_keys_Cons:
  "flush_reject_keys (e # es) k = flush_reject_keys [e] k \<union> flush_reject_keys es k"
  "live_reject_keys (e # es) k = live_reject_keys [e] k \<union> live_reject_keys es k"
  by (auto simp: flush_reject_keys_def live_reject_keys_def)

lemma metrics_run_keys:
  "rejected_flush_keys (metrics_run m es) k = rejected_flush_keys m k \<union> flush_reject_keys es k
   \<and> rejected_live_keys (metrics_run m es) k = rejected_live_keys m k \<union> live_reject_keys es k"
proof (induction es arbitrary: m)
  case Nil
  show ?case by (simp add: metrics_run_def flush_reject_keys_def live_reject_keys_def)
next
  case (Cons e es)
  have "metrics_run m (e # es) = metrics_run (metrics_step m e) es" by (simp add: metrics_run_def)
  with Cons [of "metrics_step m e"] show ?case
    using metrics_step_keys [of m e k] reject_keys_Cons [of e es k] by auto
qed

text \<open>
  Whatever sequence of recordings a session makes, the rejects it shows for a kind of block
  (at flush, and live) are the number of different block keys rejected under that kind, however
  often each was retried; and the finds of the three kinds add up to the session's hits.
\<close>

theorem metrics_counts_distinct_rejects:
  "rejected_flush (stats (metrics_run (init_tracker a t) es)) k = int (card (flush_reject_keys es k))
   \<and> rejected_live (stats (metrics_run (init_tracker a t) es)) k = int (card (live_reject_keys es k))
   \<and> found_total (stats (metrics_run (init_tracker a t) es))
       = session_hits (stats (metrics_run (init_tracker a t) es))"
proof -
  have "metrics_inv (metrics_run (init_tracker a t) es)"
    by (rule metrics_run_inv [OF metrics_inv_init])
  moreover have "rejected_flush_keys (init_tracker a t) k = {}"
    and "rejected_live_keys (init_tracker a t) k = {}" by (simp_all add: init_tracker_def)
  ultimately show ?thesis
    using metrics_run_keys [of "init_tracker a t" es k] by (simp add: metrics_inv_def)
qed

end
