(* ===== verification/BlockTypes.thy ===== *)
theory BlockTypes
  imports Models
begin

text \<open>
  Classification of a found hash (\<open>mining/block_types.py\<close>) and the preparation of a hit for
  submission (\<open>mining/argon2_common.py\<close>).  The Argon2 library is not part of the repository:
  \<open>argon2_hash\<close> is the parameter \<open>argon\<close>, a function of the key, the salt, the memory cost,
  the time cost, the parallelism and the hash length.
\<close>

subsection \<open>The digest that is counted\<close>

definition super_uppercase_min :: nat where
  "super_uppercase_min = 50"

text \<open>\<open>s.rsplit(c, 1)[-1]\<close>: what follows the last \<open>c\<close>, the whole string when there is none.\<close>

definition after_last :: "char \<Rightarrow> string \<Rightarrow> string" where
  "after_last c s = rev (takeWhile (\<lambda>x. x \<noteq> c) (rev s))"

definition hash_digest_for_superblock :: "string \<Rightarrow> string" where
  "hash_digest_for_superblock hash_str =
     (if hash_str = [] then []
      else if py_startswith hash_str ''$'' \<or> 4 \<le> count_list hash_str (CHR ''$'')
      then after_last (CHR ''$'') hash_str
      else hash_str)"

definition uppercase_count :: "string \<Rightarrow> nat" where
  "uppercase_count text = length (filter is_upper_char text)"

definition is_superblock :: "string \<Rightarrow> nat option \<Rightarrow> bool" where
  "is_superblock hash_str min_upper =
     (let threshold = (case min_upper of None \<Rightarrow> super_uppercase_min | Some n \<Rightarrow> n);
          digest = hash_digest_for_superblock hash_str
      in threshold \<le> uppercase_count digest)"

subsection \<open>Markers\<close>

text \<open>\<open>XUNI_RE.search\<close>: \<open>XUNI\<close> followed by a digit, anywhere in the text.\<close>

fun xuni_search :: "string \<Rightarrow> bool" where
  "xuni_search [] = False"
| "xuni_search (c # s) =
     ((take 4 (c # s) = ''XUNI'' \<and> (case drop 4 (c # s) of [] \<Rightarrow> False | d # _ \<Rightarrow> is_digit_char d))
      \<or> xuni_search s)"

definition clean_block_type :: "string \<Rightarrow> string" where
  "clean_block_type block_type = py_strip (filter (\<lambda>c. c \<noteq> CHR 0x00) (py_upper block_type))"

definition classify_block :: "string \<Rightarrow> string \<Rightarrow> string" where
  "classify_block hash_str block_type =
     (let bt = clean_block_type block_type in
      if bt = ''XUNI'' \<or> xuni_search hash_str then ''XUNI''
      else if py_in ''XEN11'' hash_str \<and> is_superblock hash_str None then ''XBLK''
      else if py_in ''XEN11'' hash_str \<or> bt \<in> {''XEN11'', ''NORMAL'', ''XNM'', ''XBLK''} then ''XNM''
      else ''OTHER'')"

subsection \<open>Encoded hashes\<close>

definition is_argon2_encoded :: "string \<Rightarrow> bool" where
  "is_argon2_encoded hash_str = py_startswith hash_str ''$argon2''"

definition digit_value :: "char \<Rightarrow> int" where
  "digit_value c = int (char_code c) - 48"

definition digits_value :: "string \<Rightarrow> int" where
  "digits_value ds = foldl (\<lambda>n c. 10 * n + digit_value c) 0 ds"

text \<open>The first match of the pattern dollar-sign, \<open>m=\<close>, digits, comma.\<close>

fun memory_cost_search :: "string \<Rightarrow> int option" where
  "memory_cost_search [] = None"
| "memory_cost_search (c # s) =
     (let ds = takeWhile is_digit_char (drop 3 (c # s));
          rest = dropWhile is_digit_char (drop 3 (c # s))
      in if take 3 (c # s) = ''$m='' \<and> ds \<noteq> [] \<and> take 1 rest = '',''
         then Some (digits_value ds)
         else memory_cost_search s)"

definition memory_cost_from_hash :: "string \<Rightarrow> int option" where
  "memory_cost_from_hash hash_str =
     (if \<not> is_argon2_encoded hash_str then None else memory_cost_search hash_str)"

definition classify_hash :: "string \<Rightarrow> string option" where
  "classify_hash hash_str =
     (let kind = classify_block hash_str [] in if kind = ''OTHER'' then None else Some kind)"

type_synonym argon2 = "string \<Rightarrow> string \<Rightarrow> int \<Rightarrow> int \<Rightarrow> int \<Rightarrow> int \<Rightarrow> string"

text \<open>The new \<open>BlockHit\<close> keeps the hit's fields but for the hash, the type and the memory
  cost, which falls back to the default \<open>None\<close>.\<close>

definition prepare_hit_for_submit ::
    "argon2 \<Rightarrow> block_hit \<Rightarrow> string \<Rightarrow> int \<Rightarrow> int \<Rightarrow> int \<Rightarrow> int \<Rightarrow> block_hit option" where
  "prepare_hit_for_submit argon hit salt_hex memory_cost time_cost parallelism hash_len =
     (if is_argon2_encoded (hit_hash hit) then
        (case memory_cost_from_hash (hit_hash hit) of
           Some m \<Rightarrow> if m \<noteq> memory_cost then None else Some hit
         | None \<Rightarrow> Some hit)
      else
        (let encoded = argon (hit_key hit) salt_hex memory_cost time_cost parallelism hash_len in
         if \<not> py_in (hit_hash hit) encoded then None
         else Some (hit\<lparr>hit_hash := encoded,
                        hit_type := classify_block encoded (hit_type hit),
                        hit_memory_cost := None\<rparr>)))"

subsection \<open>Properties\<close>

lemma after_last_no_sep: "c \<notin> set s \<Longrightarrow> after_last c s = s"
proof -
  assume "c \<notin> set s"
  then have eq: "takeWhile (\<lambda>x. x \<noteq> c) (rev s) = rev s" by (auto simp: takeWhile_eq_all_conv)
  show ?thesis unfolding after_last_def eq by simp
qed

lemma after_last_append: "c \<notin> set d \<Longrightarrow> after_last c (p @ c # d) = d"
proof -
  assume "c \<notin> set d"
  then have "takeWhile (\<lambda>x. x \<noteq> c) (rev d @ c # rev p) = rev d @ takeWhile (\<lambda>x. x \<noteq> c) (c # rev p)"
    by (intro takeWhile_append2) auto
  then show ?thesis unfolding after_last_def by simp
qed

lemma xuni_search_iff:
  "xuni_search s \<longleftrightarrow> (\<exists>a d b. s = a @ ''XUNI'' @ d # b \<and> is_digit_char d)"
proof (induction s)
  case Nil
  then show ?case by simp
next
  case (Cons c s)
  have head: "(take 4 (c # s) = ''XUNI'' \<and> (case drop 4 (c # s) of [] \<Rightarrow> False | d # _ \<Rightarrow> is_digit_char d))
      \<longleftrightarrow> (\<exists>d b. c # s = ''XUNI'' @ d # b \<and> is_digit_char d)" (is "?L \<longleftrightarrow> ?R")
  proof
    assume ?L
    then have t: "take 4 (c # s) = ''XUNI''" by blast
    from \<open>?L\<close> obtain d b where d: "drop 4 (c # s) = d # b" "is_digit_char d" by (auto split: list.splits)
    have "c # s = ''XUNI'' @ d # b" using append_take_drop_id [of 4 "c # s"] by (simp only: t d)
    with d(2) show ?R by blast
  qed auto
  have "(\<exists>a. c # s = a @ t) \<longleftrightarrow> c # s = t \<or> (\<exists>a. s = a @ t)" for t
    by (auto simp: Cons_eq_append_conv)
  then show ?case unfolding xuni_search.simps head Cons.IH by blast
qed

lemma uppercase_count_append [simp]: "uppercase_count (s @ t) = uppercase_count s + uppercase_count t"
  by (simp add: uppercase_count_def)

lemma classify_block_range:
  "classify_block h bt \<in> {''XUNI'', ''XBLK'', ''XNM'', ''OTHER''}"
  by (simp add: classify_block_def Let_def)

text \<open>
  An encoded Argon2 hash whose digest carries the XEN11 marker and no XUNI marker is a
  superblock exactly when the digest (the part after the last dollar sign) has at least 50
  upper-case letters; the parameters and the salt in front of it do not count, and the label
  the hit came with cannot change the verdict.
\<close>

theorem classify_encoded_superblock:
  assumes "hash_str = CHR ''$'' # params @ CHR ''$'' # digest" "CHR ''$'' \<notin> set digest"
    and "py_in ''XEN11'' digest" "\<not> xuni_search hash_str" "clean_block_type bt \<noteq> ''XUNI''"
  shows "classify_block hash_str bt = (if 50 \<le> uppercase_count digest then ''XBLK'' else ''XNM'')"
proof -
  have "after_last (CHR ''$'') ((CHR ''$'' # params) @ CHR ''$'' # digest) = digest"
    by (rule after_last_append [OF assms(2)])
  then have d: "hash_digest_for_superblock hash_str = digest"
    by (simp add: hash_digest_for_superblock_def assms(1) py_startswith_def)
  have "py_in ''XEN11'' hash_str"
    using py_in_append [OF assms(3), of "CHR ''$'' # params @ ''$''" "[]"] by (simp add: assms(1))
  with d assms(4,5) show ?thesis
    by (simp add: classify_block_def Let_def is_superblock_def super_uppercase_min_def)
qed

theorem classify_encoded_superblock_witness:
  "classify_block ''$argon2id$v=19$m=100,t=1,p=1$c2FsdA$abXEN11cd'' ''XBLK'' = ''XNM''"
proof -
  have "classify_block ''$argon2id$v=19$m=100,t=1,p=1$c2FsdA$abXEN11cd'' ''XBLK''
      = (if 50 \<le> uppercase_count ''abXEN11cd'' then ''XBLK'' else ''XNM'')"
    by (rule classify_encoded_superblock [where params = "''argon2id$v=19$m=100,t=1,p=1$c2FsdA''"])
      (simp, simp, code_simp, code_simp, code_simp)
  then show ?thesis by code_simp
qed

lemma prepare_encoded: "prepare_hit_for_submit argon hit salt m t p l = Some hit' \<Longrightarrow>
    is_argon2_encoded (hit_hash hit) \<Longrightarrow> hit' = hit"
  by (auto simp: prepare_hit_for_submit_def split: option.splits if_splits)

lemma prepare_key: "prepare_hit_for_submit argon hit salt m t p l = Some hit' \<Longrightarrow> hit_key hit' = hit_key hit"
  by (auto simp: prepare_hit_for_submit_def Let_def split: option.splits if_splits)

text \<open>
  What is submitted for a hit is tied to the network's memory cost: if a hit is prepared, the
  hit's own hash text is part of the submitted hash, the key is unchanged, and a memory cost that
  the submitted hash names is the one asked for, provided the Argon2 library writes the memory
  cost it was given into its output.
\<close>

theorem prepare_hit_sound:
  assumes argon: "\<And>k s m t p l. memory_cost_from_hash (argon k s m t p l) \<in> {None, Some m}"
    and prep: "prepare_hit_for_submit argon hit salt m t p l = Some hit'"
  shows "hit_key hit' = hit_key hit \<and> py_in (hit_hash hit) (hit_hash hit')
    \<and> memory_cost_from_hash (hit_hash hit') \<in> {None, Some m}"
proof (cases "is_argon2_encoded (hit_hash hit)")
  case True
  with prep have "hit' = hit" by (rule prepare_encoded)
  with prep True show ?thesis by (auto simp: prepare_hit_for_submit_def split: option.splits if_splits)
next
  case False
  with prep argon [of "hit_key hit" salt m t p l] show ?thesis
    by (auto simp: prepare_hit_for_submit_def Let_def split: if_splits)
qed

definition sample_hit :: block_hit where
  "sample_hit = \<lparr>hit_key = ''ab12'', hit_hash = ''xXEN11x'', hit_type = ''XNM'', hit_attempts = 7,
     hit_strategy = ''random'', hit_hps = 0, hit_found_at = ''2026-01-01T00:00:00'',
     hit_memory_cost = None\<rparr>"

theorem prepare_hit_sound_witness:
  "\<exists>argon hit'. prepare_hit_for_submit argon sample_hit ''00'' 100 1 1 64 = Some hit'
     \<and> memory_cost_from_hash (hit_hash hit') \<in> {None, Some 100}"
proof -
  define argon :: argon2 where "argon = (\<lambda>k s m t p l. ''xXEN11x'')"
  have a: "\<And>k s m t p l. memory_cost_from_hash (argon k s m t p l) \<in> {None, Some m}"
    by (simp add: argon_def memory_cost_from_hash_def is_argon2_encoded_def py_startswith_def)
  have p: "prepare_hit_for_submit argon sample_hit ''00'' 100 1 1 64
      = Some (sample_hit\<lparr>hit_type := classify_block ''xXEN11x'' ''XNM''\<rparr>)"
    by (simp add: argon_def prepare_hit_for_submit_def sample_hit_def is_argon2_encoded_def
        py_startswith_def Let_def)
  show ?thesis using prepare_hit_sound [OF a p] p by blast
qed

end
