(* ===== verification/BlockStore.thy ===== *)
theory BlockStore
  imports BlockTypes "HOL-Library.List_Lexorder" "HOL-Library.Char_ord"
begin

text \<open>
  The queue of found blocks (\<open>block_queue/store.py\<close>): two SQLite tables and two JSON-lines
  files.  Each method of \<open>BlockStore\<close> is one definition over the record \<open>block_store\<close>; the
  wall-clock text the methods write is the parameter \<open>now\<close>.  A table with an AUTOINCREMENT
  key carries the highest key it has given out (\<open>pending_seq\<close>, \<open>submitted_seq\<close>).  A line of
  the queue log is what \<open>json.loads\<close> makes of it: blank, a record, or the exception it raises.
\<close>

subsection \<open>Tables and files\<close>

record pending_row =
  p_id :: nat
  p_key :: string
  p_hash_str :: string
  p_block_type :: string
  p_strategy :: string
  p_attempts :: int
  p_hps :: pyfloat
  p_found_at :: string
  p_queued_at :: string
  p_queue_reason :: string
  p_reject_count :: int
  p_status :: string
  p_memory_cost :: "int option"

record submitted_row =
  s_id :: nat
  s_key :: string
  s_hash_str :: string
  s_block_type :: string
  s_strategy :: string
  s_attempts :: int
  s_http_status :: int
  s_response_body :: string
  s_submitted_at :: string

record queue_record =
  q_key :: string
  q_hash_str :: string
  q_block_type :: string
  q_strategy :: string
  q_attempts :: int
  q_hps :: "pyfloat option"
  q_found_at :: "string option"
  q_queued_at :: "string option"
  q_reason :: "string option"
  q_memory_cost :: "int option"

text \<open>A line may fail to parse or lack its key (\<open>BadLine\<close>), or have a key and lack, or fail to
  convert, another column that the import reads (\<open>BadFields\<close>).\<close>

datatype json_line = Blank | QueueRecord queue_record | BadFields string py_exn | BadLine py_exn

record rejected_record =
  r_hit :: block_hit
  r_rejected_at :: string
  r_http_status :: int
  r_response_body :: string
  r_source :: string
  r_category :: string

record block_store =
  pending_blocks :: "pending_row list"
  pending_seq :: nat
  submitted_blocks :: "submitted_row list"
  submitted_seq :: nat
  queue_jsonl :: "json_line list"
  rejected_jsonl :: "rejected_record list"

definition empty_store :: block_store where
  "empty_store = \<lparr>pending_blocks = [], pending_seq = 0, submitted_blocks = [], submitted_seq = 0,
     queue_jsonl = [], rejected_jsonl = []\<rparr>"

definition resubmission_reason :: string where
  "resubmission_reason = ''resubmission''"

definition outside_xuni_window_reason :: string where
  "outside_xuni_window_reason = ''outside_xuni_window''"

definition shutdown_pending_reason :: string where
  "shutdown_pending_reason = ''shutdown_pending''"

definition difficulty_change_reason :: string where
  "difficulty_change_reason = ''difficulty_change''"

definition is_pending :: "pending_row \<Rightarrow> bool" where
  "is_pending r \<longleftrightarrow> p_status r = ''pending''"

definition is_accepted_submit :: "submitted_row \<Rightarrow> bool" where
  "is_accepted_submit s \<longleftrightarrow> 200 \<le> s_http_status s \<and> s_http_status s < 300"

subsection \<open>Queueing and rejecting\<close>

definition enqueue :: "string \<Rightarrow> block_hit \<Rightarrow> string \<Rightarrow> block_store \<Rightarrow> block_store \<times> nat" where
  "enqueue now hit reason st =
     (let row = \<lparr>p_id = Suc (pending_seq st), p_key = hit_key hit, p_hash_str = hit_hash hit,
                 p_block_type = hit_type hit, p_strategy = hit_strategy hit,
                 p_attempts = hit_attempts hit, p_hps = hit_hps hit,
                 p_found_at = hit_found_at hit, p_queued_at = now, p_queue_reason = reason,
                 p_reject_count = 0, p_status = ''pending'', p_memory_cost = hit_memory_cost hit\<rparr>;
          line = \<lparr>q_key = hit_key hit, q_hash_str = hit_hash hit, q_block_type = hit_type hit,
                  q_strategy = hit_strategy hit, q_attempts = hit_attempts hit,
                  q_hps = Some (hit_hps hit), q_found_at = Some (hit_found_at hit),
                  q_queued_at = Some now, q_reason = Some reason,
                  q_memory_cost = hit_memory_cost hit\<rparr>
      in (st\<lparr>queue_jsonl := queue_jsonl st @ [QueueRecord line],
             pending_blocks := pending_blocks st @ [row],
             pending_seq := Suc (pending_seq st)\<rparr>, Suc (pending_seq st)))"

definition log_rejection ::
    "string \<Rightarrow> block_hit \<Rightarrow> int \<Rightarrow> string \<Rightarrow> string \<Rightarrow> block_store \<Rightarrow> block_store" where
  "log_rejection now hit http_status body source st =
     st\<lparr>rejected_jsonl := rejected_jsonl st @
          [\<lparr>r_hit = hit, r_rejected_at = now, r_http_status = http_status, r_response_body = body,
            r_source = source, r_category = resubmission_reason\<rparr>]\<rparr>"

definition mark_pending_reason :: "nat \<Rightarrow> string \<Rightarrow> block_store \<Rightarrow> block_store" where
  "mark_pending_reason pending_id reason st =
     st\<lparr>pending_blocks := update_rows (\<lambda>r. p_id r = pending_id \<and> is_pending r)
          (\<lambda>r. r\<lparr>p_queue_reason := reason\<rparr>) (pending_blocks st)\<rparr>"

definition record_direct_submit ::
    "string \<Rightarrow> block_hit \<Rightarrow> int \<Rightarrow> string \<Rightarrow> block_store \<Rightarrow> block_store" where
  "record_direct_submit now hit http_status body st =
     st\<lparr>submitted_blocks := submitted_blocks st @
          [\<lparr>s_id = Suc (submitted_seq st), s_key = hit_key hit, s_hash_str = hit_hash hit,
            s_block_type = hit_type hit, s_strategy = hit_strategy hit,
            s_attempts = hit_attempts hit, s_http_status = http_status,
            s_response_body = body, s_submitted_at = now\<rparr>],
        submitted_seq := Suc (submitted_seq st)\<rparr>"

definition bump_reject :: "string \<Rightarrow> pending_row \<Rightarrow> pending_row" where
  "bump_reject reason r = r\<lparr>p_queue_reason := reason, p_reject_count := p_reject_count r + 1\<rparr>"

definition log_first_reject ::
    "bool \<Rightarrow> string \<Rightarrow> block_hit \<Rightarrow> int \<Rightarrow> string \<Rightarrow> string \<Rightarrow> block_store \<Rightarrow> block_store" where
  "log_first_reject first now hit http_status body source st =
     (if first then record_direct_submit now hit http_status body
                      (log_rejection now hit http_status body source st)
      else st)"

definition record_rejection ::
    "string \<Rightarrow> block_hit \<Rightarrow> int \<Rightarrow> string \<Rightarrow> string \<Rightarrow> nat option \<Rightarrow> string option
      \<Rightarrow> block_store \<Rightarrow> block_store \<times> bool" where
  "record_rejection now hit http_status body source pending_id queue_reason st =
     (case pending_id of
        Some pid \<Rightarrow>
          (case find (\<lambda>r. p_id r = pid \<and> is_pending r) (pending_blocks st) of
             None \<Rightarrow> (st, False)
           | Some row \<Rightarrow>
               (let first_reject = (p_reject_count row = 0);
                    reason = (case queue_reason of None \<Rightarrow> resubmission_reason
                              | Some q \<Rightarrow> if q = [] then resubmission_reason else q);
                    st1 = st\<lparr>pending_blocks := update_rows (\<lambda>r. p_id r = pid \<and> is_pending r)
                               (bump_reject reason) (pending_blocks st)\<rparr>
                in (log_first_reject first_reject now hit http_status body source st1, False)))
      | None \<Rightarrow>
          (case find (\<lambda>r. p_key r = hit_key hit \<and> is_pending r) (pending_blocks st) of
             Some row \<Rightarrow>
               (let first_reject = (p_reject_count row = 0);
                    st1 = st\<lparr>pending_blocks := update_rows (\<lambda>r. p_id r = p_id row)
                               (bump_reject resubmission_reason) (pending_blocks st)\<rparr>
                in (log_first_reject first_reject now hit http_status body source st1, False))
           | None \<Rightarrow>
               (let st1 = record_direct_submit now hit http_status body
                            (log_rejection now hit http_status body source st)
                in (fst (enqueue now hit resubmission_reason st1), True))))"

subsection \<open>Accepted submissions\<close>

definition accepted_keys :: "block_store \<Rightarrow> string set" where
  "accepted_keys st = set (map s_key (filter is_accepted_submit (submitted_blocks st)))"

record accepted_submit =
  a_key :: string
  a_hash_str :: string
  a_block_type :: string
  a_submitted_at :: string

definition accepted_kind :: "submitted_row \<Rightarrow> string" where
  "accepted_kind s =
     (let kind = classify_block (s_hash_str s) (s_block_type s) in
      if kind = ''OTHER''
      then py_upper (if s_block_type s = [] then ''XNM'' else s_block_type s)
      else kind)"

fun collect_accepted :: "string set \<Rightarrow> submitted_row list \<Rightarrow> accepted_submit list" where
  "collect_accepted seen [] = []"
| "collect_accepted seen (s # rows) =
     (if s_key s = [] \<or> s_key s \<in> seen then collect_accepted seen rows
      else \<lparr>a_key = s_key s, a_hash_str = s_hash_str s, a_block_type = accepted_kind s,
            a_submitted_at = s_submitted_at s\<rparr> # collect_accepted (insert (s_key s) seen) rows)"

definition list_accepted_submits :: "int \<Rightarrow> block_store \<Rightarrow> accepted_submit list" where
  "list_accepted_submits limit st =
     (let n = max 1 (min limit 20000);
          rows = take (nat n) (rev (filter is_accepted_submit (submitted_blocks st)))
      in collect_accepted {} rows)"

subsection \<open>Maintenance of the queue\<close>

definition reclassified :: "pending_row \<Rightarrow> string option" where
  "reclassified r =
     (let new_type = classify_block (p_hash_str r) (p_block_type r) in
      if new_type \<in> {''OTHER'', p_block_type r} then None else Some new_type)"

fun reclassify_rows :: "pending_row list \<Rightarrow> block_store \<Rightarrow> nat \<Rightarrow> block_store \<times> nat" where
  "reclassify_rows [] st updated = (st, updated)"
| "reclassify_rows (r # rows) st updated =
     (case reclassified r of
        None \<Rightarrow> reclassify_rows rows st updated
      | Some t \<Rightarrow> reclassify_rows rows
          (st\<lparr>pending_blocks := update_rows (\<lambda>x. p_id x = p_id r) (\<lambda>x. x\<lparr>p_block_type := t\<rparr>)
                (pending_blocks st)\<rparr>) (Suc updated))"

definition reclassify_pending :: "block_store \<Rightarrow> block_store \<times> nat" where
  "reclassify_pending st = reclassify_rows (filter is_pending (pending_blocks st)) st 0"

definition has_failed_submit :: "block_store \<Rightarrow> string \<Rightarrow> bool" where
  "has_failed_submit st key = list_ex (\<lambda>s. s_key s = key \<and>
      (s_http_status s < 200 \<or> 300 \<le> s_http_status s)) (submitted_blocks st)"

definition migrate_selects :: "block_store \<Rightarrow> pending_row \<Rightarrow> bool" where
  "migrate_selects st r \<longleftrightarrow> is_pending r \<and> p_queue_reason r \<noteq> resubmission_reason
     \<and> has_failed_submit st (p_key r)"

definition migrate_rejected_pending :: "block_store \<Rightarrow> block_store \<times> nat" where
  "migrate_rejected_pending st =
     (let ids = map p_id (filter (migrate_selects st) (pending_blocks st))
      in (st\<lparr>pending_blocks := update_rows (\<lambda>r. p_id r \<in> set ids)
               (\<lambda>r. r\<lparr>p_queue_reason := resubmission_reason\<rparr>) (pending_blocks st)\<rparr>, length ids))"

text \<open>The columns the INSERT of an import fills; \<open>found_at\<close> and \<open>queued_at\<close> are NOT NULL.\<close>

definition import_row :: "nat \<Rightarrow> queue_record \<Rightarrow> pending_row py" where
  "import_row rid q =
     (case q_queued_at q of
        None \<Rightarrow> Inl IntegrityError
      | Some qa \<Rightarrow> Inr \<lparr>p_id = rid, p_key = q_key q, p_hash_str = q_hash_str q,
          p_block_type = q_block_type q, p_strategy = q_strategy q, p_attempts = q_attempts q,
          p_hps = (case q_hps q of None \<Rightarrow> 0 | Some h \<Rightarrow> h),
          p_found_at = (case q_found_at q of None \<Rightarrow> qa | Some f \<Rightarrow> f), p_queued_at = qa,
          p_queue_reason = (case q_reason q of None \<Rightarrow> ''imported'' | Some r \<Rightarrow> r),
          p_reject_count = 0, p_status = ''pending'', p_memory_cost = None\<rparr>)"

fun import_lines :: "bool \<Rightarrow> string set \<Rightarrow> json_line list \<Rightarrow> string set \<Rightarrow> string set
    \<Rightarrow> block_store \<Rightarrow> nat \<Rightarrow> (block_store \<times> nat) py" where
  "import_lines dry_run accepted [] seen pending st imported = Inr (st, imported)"
| "import_lines dry_run accepted (Blank # ls) seen pending st imported =
     import_lines dry_run accepted ls seen pending st imported"
| "import_lines dry_run accepted (BadLine e # ls) seen pending st imported = Inl e"
| "import_lines dry_run accepted (BadFields k e # ls) seen pending st imported =
     (if k \<in> seen \<or> k \<in> pending \<or> k \<in> accepted
      then import_lines dry_run accepted ls seen pending st imported
      else if dry_run
      then import_lines dry_run accepted ls (insert k seen) pending st (Suc imported)
      else Inl e)"
| "import_lines dry_run accepted (QueueRecord q # ls) seen pending st imported =
     (if q_key q \<in> seen \<or> q_key q \<in> pending \<or> q_key q \<in> accepted
      then import_lines dry_run accepted ls seen pending st imported
      else if dry_run
      then import_lines dry_run accepted ls (insert (q_key q) seen) pending st (Suc imported)
      else py_bind (import_row (Suc (pending_seq st)) q) (\<lambda>row.
        import_lines dry_run accepted ls (insert (q_key q) seen) (insert (q_key q) pending)
          (st\<lparr>pending_blocks := pending_blocks st @ [row], pending_seq := Suc (pending_seq st)\<rparr>)
          (Suc imported)))"

definition pending_keys :: "block_store \<Rightarrow> string set" where
  "pending_keys st = set (map p_key (filter is_pending (pending_blocks st)))"

text \<open>An exception leaves the database as it was: the connection's context rolls back.\<close>

definition import_pending_from_jsonl :: "bool \<Rightarrow> block_store \<Rightarrow> block_store \<times> nat py" where
  "import_pending_from_jsonl dry_run st =
     (case import_lines dry_run (accepted_keys st) (queue_jsonl st) {} (pending_keys st) st 0 of
        Inl e \<Rightarrow> (st, Inl e)
      | Inr (st', n) \<Rightarrow> (st', Inr n))"

subsection \<open>Counting and listing\<close>

definition pending :: "block_store \<Rightarrow> pending_row list" where
  "pending st = filter is_pending (pending_blocks st)"

definition resubmission_clause :: "bool option \<Rightarrow> pending_row \<Rightarrow> bool" where
  "resubmission_clause resub r = (case resub of
       None \<Rightarrow> True
     | Some True \<Rightarrow> p_queue_reason r = resubmission_reason
     | Some False \<Rightarrow> p_queue_reason r \<noteq> resubmission_reason)"

text \<open>\<open>GROUP BY block_type\<close> visits the groups in ascending order of the column.\<close>

definition group_by_type :: "pending_row list \<Rightarrow> (string \<times> nat) list" where
  "group_by_type rows = map (\<lambda>t. (t, length (filter (\<lambda>r. p_block_type r = t) rows)))
     (sort (remdups (map p_block_type rows)))"

definition add_group :: "(block_kind \<Rightarrow> nat) \<Rightarrow> string \<times> nat \<Rightarrow> (block_kind \<Rightarrow> nat)" where
  "add_group counts g =
     (let key = py_upper (fst g) in
      if key = ''XUNI'' then counts(XUNI := snd g)
      else if key = ''XNM'' then counts(XNM := snd g)
      else if key = ''XBLK'' then counts(XBLK := snd g)
      else counts(XBLK := counts XBLK + snd g))"

definition pending_by_type :: "bool option \<Rightarrow> block_store \<Rightarrow> (block_kind \<Rightarrow> nat)" where
  "pending_by_type resub st =
     foldl add_group (\<lambda>_. 0)
       (group_by_type (filter (\<lambda>r. is_pending r \<and> resubmission_clause resub r) (pending_blocks st)))"

definition pending_count :: "bool option \<Rightarrow> block_store \<Rightarrow> nat" where
  "pending_count resub st =
     (let c = pending_by_type resub st in c XUNI + c XNM + c XBLK)"

definition mark_submitted :: "string \<Rightarrow> nat \<Rightarrow> int \<Rightarrow> string \<Rightarrow> block_store \<Rightarrow> block_store" where
  "mark_submitted now row_id http_status body st =
     (case find (\<lambda>r. p_id r = row_id) (pending_blocks st) of
        None \<Rightarrow> st
      | Some row \<Rightarrow>
          st\<lparr>pending_blocks := update_rows (\<lambda>r. p_id r = row_id)
               (\<lambda>r. r\<lparr>p_status := ''submitted''\<rparr>) (pending_blocks st),
             submitted_blocks := submitted_blocks st @
               [\<lparr>s_id = Suc (submitted_seq st), s_key = p_key row, s_hash_str = p_hash_str row,
                 s_block_type = p_block_type row, s_strategy = p_strategy row,
                 s_attempts = p_attempts row, s_http_status = http_status,
                 s_response_body = body, s_submitted_at = now\<rparr>],
             submitted_seq := Suc (submitted_seq st)\<rparr>)"

subsection \<open>The methods as events\<close>

datatype store_event =
    Enqueue string block_hit string
  | MarkReason nat string
  | DirectSubmit string block_hit int string
  | Reject string block_hit int string string "nat option" "string option"
  | Reclassify
  | Migrate
  | Import bool
  | MarkSubmitted string nat int string

definition store_step :: "store_event \<Rightarrow> block_store \<Rightarrow> block_store" where
  "store_step e st = (case e of
       Enqueue now hit reason \<Rightarrow> fst (enqueue now hit reason st)
     | MarkReason i reason \<Rightarrow> mark_pending_reason i reason st
     | DirectSubmit now hit status body \<Rightarrow> record_direct_submit now hit status body st
     | Reject now hit status body source i reason \<Rightarrow>
         fst (record_rejection now hit status body source i reason st)
     | Reclassify \<Rightarrow> fst (reclassify_pending st)
     | Migrate \<Rightarrow> fst (migrate_rejected_pending st)
     | Import dry_run \<Rightarrow> fst (import_pending_from_jsonl dry_run st)
     | MarkSubmitted now i status body \<Rightarrow> mark_submitted now i status body st)"

definition store_run :: "store_event list \<Rightarrow> block_store \<Rightarrow> block_store" where
  "store_run es st = fold store_step es st"

subsection \<open>The invariant\<close>

definition row_ok :: "string set \<Rightarrow> pending_row \<Rightarrow> bool" where
  "row_ok done_keys r \<longleftrightarrow> 0 \<le> p_reject_count r \<and>
     (is_pending r \<or> p_status r = ''submitted'' \<and> p_key r \<in> done_keys)"

definition submitted_keys :: "block_store \<Rightarrow> string set" where
  "submitted_keys st = set (map s_key (submitted_blocks st))"

definition store_inv :: "block_store \<Rightarrow> bool" where
  "store_inv st \<longleftrightarrow> ids_ok p_id (pending_blocks st) (pending_seq st)
     \<and> ids_ok s_id (submitted_blocks st) (submitted_seq st)
     \<and> (\<forall>r \<in> set (pending_blocks st). row_ok (submitted_keys st) r)"

lemma store_invD:
  assumes "store_inv st"
  shows "ids_ok p_id (pending_blocks st) (pending_seq st)"
    and "ids_ok s_id (submitted_blocks st) (submitted_seq st)"
    and "\<And>r. r \<in> set (pending_blocks st) \<Longrightarrow> row_ok (submitted_keys st) r"
  using assms by (auto simp: store_inv_def)

lemma row_ok_mono: "row_ok K r \<Longrightarrow> K \<subseteq> K' \<Longrightarrow> row_ok K' r"
  by (auto simp: row_ok_def)

lemma row_ok_insert: "row_ok K r \<Longrightarrow> row_ok (insert k K) r"
  by (auto simp: row_ok_def)

lemma store_inv_files [simp]:
  "store_inv (st\<lparr>queue_jsonl := q\<rparr>) = store_inv st"
  "store_inv (st\<lparr>rejected_jsonl := j\<rparr>) = store_inv st"
  by (simp_all add: store_inv_def submitted_keys_def)

lemma store_inv_append:
  assumes "store_inv st" "p_id r = Suc (pending_seq st)" "is_pending r" "0 \<le> p_reject_count r"
  shows "store_inv (st\<lparr>pending_blocks := pending_blocks st @ [r], pending_seq := Suc (pending_seq st)\<rparr>)"
  using assms by (auto simp: store_inv_def submitted_keys_def row_ok_def intro: ids_ok_snoc)

lemma store_inv_update:
  assumes "store_inv st" "\<And>r. p_id (f r) = p_id r"
    and "\<And>r K. row_ok K r \<Longrightarrow> row_ok K (f r)"
  shows "store_inv (st\<lparr>pending_blocks := update_rows P f (pending_blocks st)\<rparr>)"
  using assms by (auto simp: store_inv_def submitted_keys_def in_update_rows intro!: ids_ok_update)

lemma store_inv_submit:
  assumes "store_inv st" "s_id s = Suc (submitted_seq st)"
  shows "store_inv (st\<lparr>submitted_blocks := submitted_blocks st @ [s],
      submitted_seq := Suc (submitted_seq st)\<rparr>)"
  using assms by (auto simp: store_inv_def submitted_keys_def intro: ids_ok_snoc row_ok_mono)

lemma row_ok_keep:
  "row_ok K (r\<lparr>p_queue_reason := q\<rparr>) = row_ok K r"
  "row_ok K (r\<lparr>p_block_type := t\<rparr>) = row_ok K r"
  "row_ok K r \<Longrightarrow> row_ok K (bump_reject q r)"
  by (auto simp: row_ok_def is_pending_def bump_reject_def)

lemma bump_reject_simps [simp]:
  "p_id (bump_reject q r) = p_id r"
  "p_key (bump_reject q r) = p_key r"
  "p_status (bump_reject q r) = p_status r"
  "p_queue_reason (bump_reject q r) = q"
  "p_reject_count (bump_reject q r) = p_reject_count r + 1"
  "is_pending (bump_reject q r) = is_pending r"
  by (simp_all add: bump_reject_def is_pending_def)

lemma store_inv_enqueue: "store_inv st \<Longrightarrow> store_inv (fst (enqueue now hit reason st))"
proof -
  assume "store_inv st"
  then have "store_inv (st\<lparr>queue_jsonl := q\<rparr>)" for q by simp
  from store_inv_append [OF this] show ?thesis
    unfolding enqueue_def Let_def fst_conv by (simp add: is_pending_def)
qed

lemma store_inv_log: "store_inv (log_rejection now hit status body src st) = store_inv st"
  by (simp add: log_rejection_def)

lemma store_inv_direct: "store_inv st \<Longrightarrow> store_inv (record_direct_submit now hit status body st)"
  unfolding record_direct_submit_def by (rule store_inv_submit) auto

lemma store_inv_reason: "store_inv st \<Longrightarrow> store_inv (mark_pending_reason i q st)"
  unfolding mark_pending_reason_def by (rule store_inv_update) (auto simp: row_ok_keep)

lemma store_inv_bump:
  "store_inv st \<Longrightarrow> store_inv (st\<lparr>pending_blocks := update_rows P (bump_reject q) (pending_blocks st)\<rparr>)"
  by (rule store_inv_update) (auto simp: row_ok_keep)

lemma store_inv_first:
  "store_inv st \<Longrightarrow> store_inv (log_first_reject b now hit status body src st)"
  by (simp add: log_first_reject_def store_inv_direct store_inv_log)

lemma store_inv_reject: "store_inv st \<Longrightarrow> store_inv (fst (record_rejection now hit status body src i q st))"
  by (auto simp: record_rejection_def Let_def store_inv_log
      intro!: store_inv_first store_inv_bump store_inv_enqueue store_inv_direct split: option.splits)

lemma store_inv_reclassify_rows: "store_inv st \<Longrightarrow> store_inv (fst (reclassify_rows rows st n))"
proof (induction rows st n rule: reclassify_rows.induct)
  case (2 r rows st n)
  have "store_inv (st\<lparr>pending_blocks := update_rows P (\<lambda>x. x\<lparr>p_block_type := t\<rparr>) (pending_blocks st)\<rparr>)"
    for P t using 2(3) by (rule store_inv_update) (auto simp: row_ok_keep)
  with 2 show ?case by (auto split: option.splits)
qed simp

lemma store_inv_migrate: "store_inv st \<Longrightarrow> store_inv (fst (migrate_rejected_pending st))"
  unfolding migrate_rejected_pending_def Let_def fst_conv
  by (rule store_inv_update) (auto simp: row_ok_keep)

lemma import_row_pending:
  "import_row i q = Inr r \<Longrightarrow> is_pending r \<and> p_id r = i \<and> p_key r = q_key q \<and> p_reject_count r = 0"
  by (auto simp: import_row_def is_pending_def split: option.splits)

lemma store_inv_import_lines:
  "import_lines d acc ls seen pend st n = Inr (st', n') \<Longrightarrow> store_inv st \<Longrightarrow> store_inv st'"
proof (induction d acc ls seen pend st n rule: import_lines.induct)
  case (5 d acc q ls seen pend st n)
  then show ?case
    by (auto simp: py_bind_Inr store_inv_append split: if_splits dest!: import_row_pending)
qed (auto split: if_splits)

lemma store_inv_import: "store_inv st \<Longrightarrow> store_inv (fst (import_pending_from_jsonl d st))"
  by (auto simp: import_pending_from_jsonl_def split: sum.splits dest: store_inv_import_lines)

lemma row_ok_submitted:
  "row_ok K r \<Longrightarrow> p_key r = k \<Longrightarrow> row_ok (insert k K) (r\<lparr>p_status := ''submitted''\<rparr>)"
  by (simp add: row_ok_def is_pending_def)

lemma store_inv_mark_submitted: "store_inv st \<Longrightarrow> store_inv (mark_submitted now i status body st)"
proof (cases "find (\<lambda>r. p_id r = i) (pending_blocks st)")
  case (Some row)
  assume inv: "store_inv st"
  from Some have row: "row \<in> set (pending_blocks st)" "p_id row = i" by (auto dest: find_key_Some)
  have key: "p_key r = p_key row" if "r \<in> set (pending_blocks st)" "p_id r = i" for r
    using ids_ok_inj [OF store_invD(1) [OF inv] that(1) row(1)] that(2) row(2) by simp
  show ?thesis using inv key
    by (auto simp: mark_submitted_def Some store_inv_def submitted_keys_def in_update_rows
        row_ok_submitted row_ok_insert intro!: ids_ok_update ids_ok_snoc)
qed (simp add: mark_submitted_def)

lemma store_inv_step: "store_inv st \<Longrightarrow> store_inv (store_step e st)"
  by (cases e) (simp_all add: store_step_def store_inv_enqueue store_inv_reason store_inv_direct
      store_inv_reject store_inv_reclassify_rows reclassify_pending_def store_inv_migrate
      store_inv_import store_inv_mark_submitted)

lemma store_inv_run: "store_inv st \<Longrightarrow> store_inv (store_run es st)"
  unfolding store_run_def by (induction es arbitrary: st) (auto intro: store_inv_step)

lemma store_inv_empty [simp]: "store_inv empty_store"
  by (simp add: store_inv_def empty_store_def)

subsection \<open>No block leaves the table\<close>

definition row_ident :: "pending_row \<Rightarrow> nat \<times> string \<times> string" where
  "row_ident r = (p_id r, p_key r, p_hash_str r)"

definition row_le :: "pending_row \<Rightarrow> pending_row \<Rightarrow> bool" where
  "row_le r r' \<longleftrightarrow> row_ident r' = row_ident r \<and> p_reject_count r \<le> p_reject_count r'"

definition keeps :: "block_store \<Rightarrow> block_store \<Rightarrow> bool" where
  "keeps st st' \<longleftrightarrow> submitted_keys st \<subseteq> submitted_keys st' \<and>
     (\<exists>ys xs. pending_blocks st' = ys @ xs \<and> list_all2 row_le (pending_blocks st) ys)"

lemma rows_le_refl: "list_all2 row_le rows rows"
  by (rule list.rel_refl) (simp add: row_le_def)

lemma keeps_refl [simp]: "keeps st st"
  using rows_le_refl by (auto simp: keeps_def)

lemma keeps_trans:
  assumes "keeps st st'" "keeps st' st''"
  shows "keeps st st''"
proof -
  from assms obtain ys xs zs ws where 1: "pending_blocks st' = ys @ xs"
    "list_all2 row_le (pending_blocks st) ys" "pending_blocks st'' = zs @ ws"
    "list_all2 row_le (ys @ xs) zs" by (auto simp: keeps_def)
  then obtain as bs where 2: "zs = as @ bs" "list_all2 row_le ys as" by (auto simp: list_all2_append1)
  have "list_all2 row_le (pending_blocks st) as"
    by (rule list_all2_trans [OF _ 1(2) 2(2)]) (simp add: row_le_def)
  with 1 2 assms show ?thesis by (auto simp: keeps_def)
qed

lemma keeps_append: "keeps st (st\<lparr>pending_blocks := pending_blocks st @ [r], pending_seq := n\<rparr>)"
  using rows_le_refl by (auto simp: keeps_def submitted_keys_def)

lemma keeps_files: "keeps st (st\<lparr>queue_jsonl := q\<rparr>)" "keeps st (st\<lparr>rejected_jsonl := j\<rparr>)"
  using rows_le_refl by (auto simp: keeps_def submitted_keys_def)

lemma rows_le_update: "(\<And>r. row_le r (f r)) \<Longrightarrow> list_all2 row_le rows (update_rows P f rows)"
  by (induction rows) (auto simp: row_le_def)

lemma keeps_update:
  "(\<And>r. row_le r (f r)) \<Longrightarrow> keeps st (st\<lparr>pending_blocks := update_rows P f (pending_blocks st)\<rparr>)"
proof -
  assume "\<And>r. row_le r (f r)"
  then have "list_all2 row_le (pending_blocks st) (update_rows P f (pending_blocks st))"
    by (rule rows_le_update)
  then show ?thesis by (simp add: keeps_def submitted_keys_def) (metis append_Nil2)
qed

lemma keeps_submit: "keeps st (st\<lparr>submitted_blocks := submitted_blocks st @ [s], submitted_seq := n\<rparr>)"
  using rows_le_refl by (auto simp: keeps_def submitted_keys_def)

lemma row_le_upd [simp]:
  "row_le r (r\<lparr>p_queue_reason := q\<rparr>)"
  "row_le r (r\<lparr>p_block_type := t\<rparr>)"
  "row_le r (r\<lparr>p_status := s\<rparr>)"
  "row_le r (bump_reject q r)"
  by (simp_all add: row_le_def row_ident_def bump_reject_def)

lemma keeps_enqueue: "keeps st (fst (enqueue now hit reason st))"
proof -
  have "keeps st (st\<lparr>queue_jsonl := q\<rparr>)" for q by (rule keeps_files)
  from keeps_trans [OF this keeps_append] show ?thesis unfolding enqueue_def Let_def fst_conv by simp
qed

lemma keeps_direct: "keeps st (record_direct_submit now hit status body st)"
  unfolding record_direct_submit_def by (rule keeps_submit)

lemma keeps_logged: "keeps st (record_direct_submit now hit status body (log_rejection now hit status body src st))"
  by (rule keeps_trans [OF _ keeps_direct]) (simp add: log_rejection_def keeps_files)

lemma keeps_first: "keeps st (log_first_reject b now hit status body src st)"
  by (simp add: log_first_reject_def keeps_logged)

lemma keeps_bump: "keeps st (st\<lparr>pending_blocks := update_rows P (bump_reject q) (pending_blocks st)\<rparr>)"
  by (rule keeps_update) simp

lemma keeps_reject: "keeps st (fst (record_rejection now hit status body src i q st))"
  by (auto simp: record_rejection_def Let_def
      intro: keeps_trans [OF keeps_bump keeps_first] keeps_trans [OF keeps_logged keeps_enqueue]
      split: option.splits)

lemma keeps_reclassify_rows: "keeps st (fst (reclassify_rows rows st n))"
proof (induction rows st n rule: reclassify_rows.induct)
  case (2 r rows st n)
  have "keeps st (st\<lparr>pending_blocks := update_rows P (\<lambda>x. x\<lparr>p_block_type := t\<rparr>) (pending_blocks st)\<rparr>)"
    for P t by (rule keeps_update) simp
  with 2 show ?case by (auto split: option.splits intro: keeps_trans)
qed simp

lemma keeps_import_lines: "import_lines d acc ls seen pend st n = Inr (st', n') \<Longrightarrow> keeps st st'"
proof (induction d acc ls seen pend st n rule: import_lines.induct)
  case (5 d acc q ls seen pend st n)
  then show ?case by (auto simp: py_bind_Inr split: if_splits intro: keeps_trans [OF keeps_append])
qed (auto split: if_splits)

lemma keeps_mark_submitted: "keeps st (mark_submitted now i status body st)"
proof (cases "find (\<lambda>r. p_id r = i) (pending_blocks st)")
  case (Some row)
  have "keeps st (st\<lparr>pending_blocks := update_rows P (\<lambda>r. r\<lparr>p_status := ''submitted''\<rparr>) (pending_blocks st)\<rparr>)"
    for P by (rule keeps_update) simp
  from keeps_trans [OF this keeps_submit] Some show ?thesis by (simp add: mark_submitted_def)
qed (simp add: mark_submitted_def)

lemma keeps_step: "keeps st (store_step e st)"
  by (cases e) (auto simp: store_step_def keeps_enqueue mark_pending_reason_def keeps_direct
      keeps_reject keeps_reclassify_rows reclassify_pending_def migrate_rejected_pending_def Let_def
      import_pending_from_jsonl_def keeps_mark_submitted
      intro!: keeps_update dest: keeps_import_lines split: sum.splits)

lemma keeps_run: "keeps st (store_run es st)"
  unfolding store_run_def
proof (induction es arbitrary: st)
  case (Cons e es)
  show ?case using keeps_trans [OF keeps_step Cons.IH] by simp
qed simp

lemma keeps_row:
  assumes "keeps st st'" "r \<in> set (pending_blocks st)"
  obtains r' where "r' \<in> set (pending_blocks st')" "row_le r r'"
proof -
  from assms obtain ys xs where y: "pending_blocks st' = ys @ xs" "list_all2 row_le (pending_blocks st) ys"
    by (auto simp: keeps_def)
  then obtain r' where "r' \<in> set ys" "row_le r r'"
    using assms(2) by (metis list_all2_conv_all_nth in_set_conv_nth)
  with y that show thesis by auto
qed

text \<open>
  C15: the queue database keeps its identities through any sequence of the store's methods, from an
  empty database: row ids are distinct and given out in increasing order, every row is pending or
  submitted, a row is marked submitted only together with a record of its key in the table of
  submissions, and reject counts never go below 0.
\<close>

theorem store_invariant:
  "store_inv (store_run es empty_store)
   \<and> distinct (map p_id (pending_blocks (store_run es empty_store)))"
  using store_inv_run [OF store_inv_empty, of es] store_invD(1) ids_ok_distinct by blast

text \<open>
  A found block is never lost: whatever methods run afterwards (rejections, flushes, imports,
  relabelling), a queued block stays in the table under its id with its key and hash, and it is
  still pending unless a submission of its key has been recorded.
\<close>

theorem store_never_loses_block:
  assumes "r \<in> set (pending (store_run before empty_store))"
  shows "\<exists>r' \<in> set (pending_blocks (store_run (before @ after) empty_store)).
    p_id r' = p_id r \<and> p_key r' = p_key r \<and> p_hash_str r' = p_hash_str r \<and>
    (is_pending r' \<or> p_key r \<in> submitted_keys (store_run (before @ after) empty_store))"
proof -
  let ?s = "store_run before empty_store" and ?t = "store_run (before @ after) empty_store"
  have "keeps ?s ?t" using keeps_run [of ?s after] by (simp add: store_run_def)
  moreover have "r \<in> set (pending_blocks ?s)" using assms by (simp add: pending_def)
  ultimately obtain r' where r': "r' \<in> set (pending_blocks ?t)" "row_le r r'" by (rule keeps_row)
  have "row_ok (submitted_keys ?t) r'"
    using store_invD(3) [OF store_inv_run [OF store_inv_empty] r'(1)] .
  with r' show ?thesis by (auto simp: row_ok_def row_le_def row_ident_def)
qed

theorem store_never_loses_block_witness:
  "\<exists>r' \<in> set (pending_blocks (store_run ([Enqueue ''t'' sample_hit ''r''] @ [MarkSubmitted ''t'' 1 200 []])
      empty_store)). p_key r' = ''ab12''"
proof -
  let ?s = "store_run [Enqueue ''t'' sample_hit ''r''] empty_store"
  have "\<exists>r \<in> set (pending ?s). p_key r = ''ab12''" by code_simp
  then obtain r where r: "r \<in> set (pending ?s)" "p_key r = ''ab12''" by blast
  show ?thesis
    using store_never_loses_block [OF r(1), of "[MarkSubmitted ''t'' 1 200 []]"] unfolding r(2) by blast
qed

subsection \<open>Rejections\<close>

lemma first_reject_frame [simp]:
  "pending_blocks (log_first_reject b now hit status body src st) = pending_blocks st"
  "pending_blocks (record_direct_submit now hit status body st) = pending_blocks st"
  "pending_blocks (log_rejection now hit status body src st) = pending_blocks st"
  by (simp_all add: log_first_reject_def record_direct_submit_def log_rejection_def)

lemma pending_bump [simp]:
  "pending (st\<lparr>pending_blocks := update_rows P (bump_reject q) (pending_blocks st)\<rparr>)
    = update_rows P (bump_reject q) (pending st)"
proof -
  have "filter is_pending (update_rows P (bump_reject q) rows)
      = update_rows P (bump_reject q) (filter is_pending rows)" for rows
    by (induction rows) auto
  then show ?thesis by (simp add: pending_def)
qed

lemma pending_enqueue:
  "\<exists>r. pending (fst (enqueue now hit reason st)) = pending st @ [r]
    \<and> p_key r = hit_key hit \<and> p_queue_reason r = reason"
  by (simp add: enqueue_def Let_def pending_def is_pending_def)

lemma pending_log [simp]:
  "pending (record_direct_submit now hit status body st) = pending st"
  "pending (log_rejection now hit status body src st) = pending st"
  by (simp_all add: pending_def)

lemma pending_first [simp]:
  "pending (log_first_reject b now hit status body src st) = pending st"
  by (simp add: pending_def)

text \<open>
  Rejecting a block that has no queue id leaves it in the resubmission queue: afterwards a
  pending row carries its key with the reason \<open>resubmission\<close>.  The result says whether the row
  is new, which is the case exactly when no pending row had the key, and the number of pending rows
  grows by one in that case only.
\<close>

theorem reject_requeues:
  "case record_rejection now hit status body src None q st of (st', added) \<Rightarrow>
     (\<exists>r \<in> set (pending st'). p_key r = hit_key hit \<and> p_queue_reason r = resubmission_reason)
     \<and> added = (hit_key hit \<notin> pending_keys st)
     \<and> length (pending st') = length (pending st) + (if added then 1 else 0)"
proof (cases "find (\<lambda>r. p_key r = hit_key hit \<and> is_pending r) (pending_blocks st)")
  case None
  then have "hit_key hit \<notin> pending_keys st" by (auto simp: find_None_iff pending_keys_def)
  with None show ?thesis
    using pending_enqueue [of now hit resubmission_reason
        "record_direct_submit now hit status body (log_rejection now hit status body src st)"]
    by (auto simp: record_rejection_def Let_def)
next
  case (Some row)
  then have row: "row \<in> set (pending st)" "p_key row = hit_key hit"
    by (auto simp: pending_def dest: find_pred_Some)
  then have "bump_reject resubmission_reason row
      \<in> set (update_rows (\<lambda>r. p_id r = p_id row) (bump_reject resubmission_reason) (pending st))"
    by (auto simp: in_update_rows)
  moreover have "hit_key hit \<in> pending_keys st"
    using row by (metis image_eqI list.set_map pending_def pending_keys_def)
  ultimately show ?thesis using Some row(2)
    by (auto simp: record_rejection_def Let_def intro!: bexI [of _ "bump_reject resubmission_reason row"])
qed

lemma reject_by_id:
  "record_rejection now hit status body src (Some i) q st =
    (case find (\<lambda>r. p_id r = i \<and> is_pending r) (pending_blocks st) of
       None \<Rightarrow> (st, False)
     | Some row \<Rightarrow>
         (log_first_reject (p_reject_count row = 0) now hit status body src
            (st\<lparr>pending_blocks := update_rows (\<lambda>r. p_id r = i \<and> is_pending r)
               (bump_reject (case q of None \<Rightarrow> resubmission_reason
                              | Some x \<Rightarrow> if x = [] then resubmission_reason else x))
               (pending_blocks st)\<rparr>), False))"
  by (auto simp: record_rejection_def Let_def split: option.splits)

lemma reject_by_id_rows:
  assumes "find (\<lambda>r. p_id r = i \<and> is_pending r) (pending_blocks st) = Some row"
  shows "\<exists>x. pending_blocks (fst (record_rejection now hit status body src (Some i) q st))
    = update_rows (\<lambda>r. p_id r = i \<and> is_pending r) (bump_reject x) (pending_blocks st)"
proof -
  define x where "x = (case q of None \<Rightarrow> resubmission_reason
      | Some x \<Rightarrow> if x = [] then resubmission_reason else x)"
  show ?thesis unfolding reject_by_id x_def [symmetric] using assms by (intro exI [of _ x]) simp
qed

lemma reject_by_id_counts:
  assumes inv: "store_inv st" and "r \<in> set (pending_blocks st)" "p_id r = i" "is_pending r"
  shows "\<exists>r' \<in> set (pending_blocks (fst (record_rejection now hit status body src (Some i) q st))).
    p_id r' = i \<and> 0 < p_reject_count r'"
proof -
  obtain row where f: "find (\<lambda>r. p_id r = i \<and> is_pending r) (pending_blocks st) = Some row"
    using assms(2-4) by (metis (mono_tags, lifting) find_None_iff not_None_eq)
  have "0 \<le> p_reject_count r" using store_invD(3) [OF inv assms(2)] by (simp add: row_ok_def)
  moreover have "bump_reject x r \<in> set (update_rows (\<lambda>r. p_id r = i \<and> is_pending r)
      (bump_reject x) (pending_blocks st))" for x
    using assms(2-4) by (auto simp: in_update_rows)
  moreover have "p_id (bump_reject x r) = i \<and> 0 < p_reject_count (bump_reject x r)" for x
    using \<open>0 \<le> p_reject_count r\<close> assms(3) by simp
  moreover obtain x where "pending_blocks (fst (record_rejection now hit status body src (Some i) q st))
      = update_rows (\<lambda>r. p_id r = i \<and> is_pending r) (bump_reject x) (pending_blocks st)"
    using reject_by_id_rows [OF f] by blast
  ultimately show ?thesis by (intro bexI [of _ "bump_reject x r"]) simp_all
qed

lemma reject_counted_not_logged:
  assumes inv: "store_inv st" and r: "r \<in> set (pending_blocks st)" "p_id r = i" "0 < p_reject_count r"
  shows "rejected_jsonl (fst (record_rejection now hit status body src (Some i) q st)) = rejected_jsonl st
    \<and> submitted_blocks (fst (record_rejection now hit status body src (Some i) q st)) = submitted_blocks st"
proof (cases "find (\<lambda>r. p_id r = i \<and> is_pending r) (pending_blocks st)")
  case (Some row)
  then have "row = r" using ids_ok_inj [OF store_invD(1) [OF inv]] r by (auto dest: find_pred_Some)
  with Some r show ?thesis by (simp add: reject_by_id log_first_reject_def)
qed (simp add: reject_by_id)

text \<open>
  A queued block that the pool rejects again and again is logged once: after a rejection by
  its queue id, and whatever the store did in between, a further rejection by that id writes no
  line to the rejection log and no row to the table of submissions.
\<close>

theorem reject_by_id_logged_once:
  assumes "r \<in> set (pending (store_run before empty_store))"
  shows "let st = store_run between (store_step (Reject now hit status body src (Some (p_id r)) q)
                    (store_run before empty_store));
             st' = store_step (Reject now' hit' status' body' src' (Some (p_id r)) q') st
         in rejected_jsonl st' = rejected_jsonl st \<and> submitted_blocks st' = submitted_blocks st"
proof -
  let ?s = "store_run before empty_store"
  let ?s1 = "store_step (Reject now hit status body src (Some (p_id r)) q) ?s"
  have inv: "store_inv ?s" by (simp add: store_inv_run)
  then have inv2: "store_inv (store_run between ?s1)" by (rule store_inv_run [OF store_inv_step])
  obtain r1 where r1: "r1 \<in> set (pending_blocks ?s1)" "p_id r1 = p_id r" "0 < p_reject_count r1"
    using reject_by_id_counts [OF inv, of r "p_id r" now hit status body src q] assms
    by (auto simp: pending_def store_step_def)
  obtain r2 where "r2 \<in> set (pending_blocks (store_run between ?s1))" "row_le r1 r2"
    using keeps_run r1(1) by (rule keeps_row)
  then show ?thesis using reject_counted_not_logged [OF inv2, of r2 "p_id r"] r1(2,3)
    by (simp add: store_step_def Let_def row_le_def row_ident_def)
qed

theorem reject_by_id_logged_once_witness:
  "let st = store_run [] (store_step (Reject ''t'' sample_hit 500 ''no'' ''flush'' (Some 1) None)
              (store_run [Enqueue ''t'' sample_hit ''r''] empty_store));
       st' = store_step (Reject ''t'' sample_hit 500 ''no'' ''flush'' (Some 1) None) st
   in rejected_jsonl st' = rejected_jsonl st \<and> length (rejected_jsonl st') = 1"
proof -
  let ?s = "store_run [Enqueue ''t'' sample_hit ''r''] empty_store"
  let ?e = "Reject ''t'' sample_hit 500 ''no'' ''flush'' (Some 1) None"
  have "\<exists>r \<in> set (pending ?s). p_id r = 1" by code_simp
  then obtain r where r: "r \<in> set (pending ?s)" "p_id r = 1" by blast
  have len: "length (rejected_jsonl (store_run [] (store_step ?e ?s))) = 1" by code_simp
  have eq: "rejected_jsonl (store_step ?e (store_run [] (store_step ?e ?s)))
      = rejected_jsonl (store_run [] (store_step ?e ?s))"
    using reject_by_id_logged_once [OF r(1), where between = "[]" and now = "''t''" and hit = sample_hit
        and status = 500 and body = "''no''" and src = "''flush''" and q = None and now' = "''t''"
        and hit' = sample_hit and status' = 500 and body' = "''no''" and src' = "''flush''"
        and q' = None] unfolding r(2) Let_def by (rule conjunct1)
  show ?thesis unfolding Let_def eq by (intro conjI refl len)
qed

subsection \<open>Listing accepted submissions\<close>

lemma collect_accepted_keys:
  "distinct (map a_key (collect_accepted seen rows))
   \<and> set (map a_key (collect_accepted seen rows)) = set (map s_key rows) - insert [] seen"
  by (induction seen rows rule: collect_accepted.induct) auto

lemma length_collect_accepted: "length (collect_accepted seen rows) \<le> length rows"
  by (induction seen rows rule: collect_accepted.induct) auto

text \<open>
  The list of accepted submissions has every key at most once, only non-empty keys of accepted
  submissions, and at most the clamped limit of entries; when the accepted rows fit the limit it
  has every non-empty accepted key.
\<close>

theorem accepted_submits_listed:
  "let out = list_accepted_submits limit st; n = max 1 (min limit 20000) in
     distinct (map a_key out) \<and> int (length out) \<le> n
     \<and> set (map a_key out) \<subseteq> accepted_keys st - {[]}
     \<and> (int (length (filter is_accepted_submit (submitted_blocks st))) \<le> n
         \<longrightarrow> set (map a_key out) = accepted_keys st - {[]})"
proof -
  let ?n = "max 1 (min limit 20000)"
  let ?rows = "rev (filter is_accepted_submit (submitted_blocks st))"
  let ?out = "collect_accepted {} (take (nat ?n) ?rows)"
  have out: "list_accepted_submits limit st = ?out" by (simp add: list_accepted_submits_def Let_def)
  have acc: "accepted_keys st = set (map s_key ?rows)" by (simp add: accepted_keys_def)
  note keys = collect_accepted_keys [of "{}" "take (nat ?n) ?rows"]
  have "length ?out \<le> nat ?n"
    using length_collect_accepted [of "{}" "take (nat ?n) ?rows"] by simp
  then have len: "int (length ?out) \<le> ?n" by (subst (asm) le_nat_iff) simp_all
  have "set (map s_key (take (nat ?n) ?rows)) \<subseteq> set (map s_key ?rows)"
    by (simp only: set_map image_mono set_take_subset)
  with keys acc have sub: "set (map a_key ?out) \<subseteq> accepted_keys st - {[]}" by blast
  have "int (length (filter is_accepted_submit (submitted_blocks st))) \<le> ?n \<longrightarrow>
      take (nat ?n) ?rows = ?rows" by simp
  with keys acc have "int (length (filter is_accepted_submit (submitted_blocks st))) \<le> ?n \<longrightarrow>
      set (map a_key ?out) = accepted_keys st - {[]}" by metis
  with keys len sub show ?thesis unfolding out Let_def by blast
qed

theorem accepted_submits_listed_witness:
  "set (map a_key (list_accepted_submits 5 (store_run
     [DirectSubmit ''t'' sample_hit 200 [], DirectSubmit ''t'' sample_hit 500 []] empty_store))) = {''ab12''}"
proof -
  let ?st = "store_run [DirectSubmit ''t'' sample_hit 200 [], DirectSubmit ''t'' sample_hit 500 []] empty_store"
  have "int (length (filter is_accepted_submit (submitted_blocks ?st))) \<le> max 1 (min 5 20000)"
    by code_simp
  then have "set (map a_key (list_accepted_submits 5 ?st)) = accepted_keys ?st - {[]}"
    using accepted_submits_listed [of 5 ?st] unfolding Let_def by blast
  also have "\<dots> = {''ab12''}" by code_simp
  finally show ?thesis .
qed

subsection \<open>Importing the queue log\<close>

fun line_key :: "json_line \<Rightarrow> string set" where
  "line_key (QueueRecord q) = {q_key q}"
| "line_key (BadFields k e) = {k}"
| "line_key _ = {}"

definition log_keys :: "block_store \<Rightarrow> string set" where
  "log_keys st = \<Union> (line_key ` set (queue_jsonl st))"

lemma import_lines_done:
  "\<Union> (line_key ` set ls) \<subseteq> seen \<union> pend \<union> acc \<Longrightarrow> (\<forall>e. BadLine e \<notin> set ls) \<Longrightarrow>
    import_lines d acc ls seen pend st n = Inr (st, n)"
  by (induction d acc ls seen pend st n rule: import_lines.induct) auto

lemma pending_keys_append [simp]:
  "is_pending r \<Longrightarrow> pending_keys (st\<lparr>pending_blocks := pending_blocks st @ [r], pending_seq := n\<rparr>)
     = insert (p_key r) (pending_keys st)"
  by (auto simp: pending_keys_def)

lemma import_lines_result:
  "import_lines False acc ls seen (pending_keys st) st n = Inr (st', n') \<Longrightarrow> seen \<subseteq> pending_keys st \<Longrightarrow>
    import_lines True acc ls seen' (pending_keys st0) st0 n = Inr (st0, n')
    \<and> (\<forall>e. BadLine e \<notin> set ls)
    \<and> pending_keys st' = pending_keys st \<union> (\<Union> (line_key ` set ls) - acc)
    \<and> length (pending st') + n = length (pending st) + n'
    \<and> queue_jsonl st' = queue_jsonl st \<and> submitted_blocks st' = submitted_blocks st"
  if "seen' \<union> pending_keys st0 = pending_keys st" for seen' :: "string set"
  using that
proof (induction ls arbitrary: seen seen' st n)
  case Nil
  then show ?case by simp
next
  case (Cons l ls)
  show ?case
  proof (cases l)
    case Blank
    with Cons show ?thesis by simp
  next
    case (BadLine e)
    with Cons show ?thesis by simp
  next
    case (BadFields k e)
    with Cons.prems have k: "k \<in> pending_keys st \<or> k \<in> acc"
      and r: "import_lines False acc ls seen (pending_keys st) st n = Inr (st', n')"
      by (auto split: if_splits)
    with Cons.IH [OF r Cons.prems(2,3)] Cons.prems(3) BadFields show ?thesis by auto
  next
    case (QueueRecord q)
    show ?thesis
    proof (cases "q_key q \<in> pending_keys st \<or> q_key q \<in> acc")
      case True
      with Cons.prems QueueRecord have r: "import_lines False acc ls seen (pending_keys st) st n = Inr (st', n')"
        by (auto split: if_splits)
      from True Cons.IH [OF r Cons.prems(2,3)] Cons.prems(3) QueueRecord show ?thesis by auto
    next
      case False
      with Cons.prems QueueRecord obtain row where row: "import_row (Suc (pending_seq st)) q = Inr row"
        and r: "import_lines False acc ls (insert (q_key q) seen) (insert (q_key q) (pending_keys st))
          (st\<lparr>pending_blocks := pending_blocks st @ [row], pending_seq := Suc (pending_seq st)\<rparr>)
          (Suc n) = Inr (st', n')"
        by (auto simp: py_bind_Inr split: if_splits)
      let ?st1 = "st\<lparr>pending_blocks := pending_blocks st @ [row], pending_seq := Suc (pending_seq st)\<rparr>"
      from import_row_pending [OF row] have p: "is_pending row" "p_key row = q_key q" by auto
      then have k: "pending_keys ?st1 = insert (q_key q) (pending_keys st)" by simp
      have l: "length (pending ?st1) = Suc (length (pending st))" using p by (simp add: pending_def)
      have sub: "insert (q_key q) seen \<subseteq> pending_keys ?st1"
        "insert (q_key q) seen' \<union> pending_keys st0 = pending_keys ?st1" using Cons.prems k by auto
      have r1: "import_lines False acc ls (insert (q_key q) seen) (pending_keys ?st1) ?st1 (Suc n)
          = Inr (st', n')" unfolding k by (rule r)
      from Cons.IH [OF r1 sub] k l False QueueRecord Cons.prems(3) show ?thesis by auto
    qed
  qed
qed

text \<open>
  C30: an import of the queue log makes pending exactly the logged keys that were not accepted,
  adds as many rows as it reports and no key twice, a dry run reports the same number and changes
  nothing, and importing again finds nothing to do.
\<close>

theorem import_exact_and_idempotent:
  assumes "import_pending_from_jsonl False st = (st', Inr n)"
  shows "pending_keys st' = pending_keys st \<union> (log_keys st - accepted_keys st)
    \<and> length (pending st') = length (pending st) + n
    \<and> import_pending_from_jsonl True st = (st, Inr n)
    \<and> import_pending_from_jsonl False st' = (st', Inr 0)"
proof -
  have r: "import_lines False (accepted_keys st) (queue_jsonl st) {} (pending_keys st) st 0 = Inr (st', n)"
    using assms by (auto simp: import_pending_from_jsonl_def split: sum.splits)
  note res = import_lines_result [of "{}" st st, OF _ r]
  have res: "import_lines True (accepted_keys st) (queue_jsonl st) {} (pending_keys st) st 0 = Inr (st, n)"
    "\<forall>e. BadLine e \<notin> set (queue_jsonl st)"
    "pending_keys st' = pending_keys st \<union> (log_keys st - accepted_keys st)"
    "length (pending st') = length (pending st) + n"
    "queue_jsonl st' = queue_jsonl st" "accepted_keys st' = accepted_keys st"
    using res by (simp_all add: log_keys_def accepted_keys_def)
  have "import_lines False (accepted_keys st') (queue_jsonl st') {} (pending_keys st') st' 0 = Inr (st', 0)"
    using res(2,3,5,6) by (intro import_lines_done) (auto simp: log_keys_def)
  with res show ?thesis by (simp add: import_pending_from_jsonl_def)
qed

definition sample_record :: queue_record where
  "sample_record = \<lparr>q_key = ''cd34'', q_hash_str = ''xXEN11x'', q_block_type = ''XNM'',
     q_strategy = ''random'', q_attempts = 1, q_hps = None, q_found_at = None,
     q_queued_at = Some ''2026-01-01T00:00:00'', q_reason = None, q_memory_cost = None\<rparr>"

theorem import_exact_and_idempotent_witness:
  "\<exists>st'. import_pending_from_jsonl False
      (empty_store\<lparr>queue_jsonl := [QueueRecord sample_record, Blank, QueueRecord sample_record]\<rparr>)
      = (st', Inr 1) \<and> pending_keys st' = {''cd34''}"
proof -
  let ?st = "empty_store\<lparr>queue_jsonl := [QueueRecord sample_record, Blank, QueueRecord sample_record]\<rparr>"
  have 1: "snd (import_pending_from_jsonl False ?st) = Inr 1" by code_simp
  obtain st' where 2: "import_pending_from_jsonl False ?st = (st', Inr 1)"
    by (metis 1 prod.collapse)
  have "pending_keys st' = pending_keys ?st \<union> (log_keys ?st - accepted_keys ?st)"
    using import_exact_and_idempotent [OF 2] by blast
  also have "\<dots> = {''cd34''}" by code_simp
  finally show ?thesis using 2 by blast
qed

subsection \<open>Counting the queue\<close>

definition counts_total :: "(block_kind \<Rightarrow> nat) \<Rightarrow> nat" where
  "counts_total c = c XUNI + c XNM + c XBLK"

definition canonical_name :: "block_kind \<Rightarrow> string" where
  "canonical_name k = (case k of XUNI \<Rightarrow> ''XUNI'' | XNM \<Rightarrow> ''XNM'' | XBLK \<Rightarrow> ''XBLK'')"

definition canonical_types :: "string set" where
  "canonical_types = {''XUNI'', ''XNM'', ''XBLK''}"

definition selected_rows :: "bool option \<Rightarrow> block_store \<Rightarrow> pending_row list" where
  "selected_rows resub st = filter (resubmission_clause resub) (pending st)"

lemma add_group_total: "counts_total (add_group c g) \<le> counts_total c + snd g"
  by (simp add: add_group_def counts_total_def Let_def)

lemma add_groups_total: "counts_total (foldl add_group c gs) \<le> counts_total c + sum_list (map snd gs)"
proof (induction gs arbitrary: c)
  case (Cons g gs)
  show ?case using Cons.IH [of "add_group c g"] add_group_total [of c g] by simp
qed simp

lemma py_upper_canonical: "py_upper (canonical_name k) = canonical_name k"
proof (cases k)
  case XUNI
  show ?thesis unfolding XUNI by code_simp
next
  case XNM
  show ?thesis unfolding XNM by code_simp
next
  case XBLK
  show ?thesis unfolding XBLK by code_simp
qed

lemma add_group_canonical: "add_group c (canonical_name k, n) = c(k := n)"
  unfolding add_group_def Let_def fst_conv snd_conv py_upper_canonical
  by (cases k) (simp_all add: canonical_name_def)

lemma add_groups_canonical:
  "set (map fst gs) \<subseteq> canonical_types \<Longrightarrow> distinct (map fst gs) \<Longrightarrow> (\<And>k. canonical_name k \<in> fst ` set gs \<Longrightarrow> c k = 0)
    \<Longrightarrow> counts_total (foldl add_group c gs) = counts_total c + sum_list (map snd gs)"
proof (induction gs arbitrary: c)
  case (Cons g gs)
  obtain t n where g: "g = (t, n)" by (cases g)
  with Cons.prems(1) obtain k where t: "t = canonical_name k"
    by (auto simp: canonical_types_def intro: that [of XUNI] that [of XNM] that [of XBLK] simp: canonical_name_def)
  have inj: "canonical_name k' = canonical_name k \<Longrightarrow> k' = k" for k' by (cases k; cases k'; simp add: canonical_name_def)
  have "c k = 0" using Cons.prems(3) [of k] by (simp add: g t)
  then have "counts_total (c(k := n)) = counts_total c + n" by (cases k) (simp_all add: counts_total_def)
  moreover have "counts_total (foldl add_group (c(k := n)) gs) = counts_total (c(k := n)) + sum_list (map snd gs)"
  proof (rule Cons.IH)
    fix k' assume "canonical_name k' \<in> fst ` set gs"
    moreover from this have "k' \<noteq> k" using Cons.prems(2) by (auto simp: g t)
    ultimately show "(c(k := n)) k' = 0" using Cons.prems(3) [of k'] by simp
  qed (use Cons.prems in auto)
  ultimately show ?case by (simp add: g t add_group_canonical)
qed simp

lemma count_list_types: "length (filter (\<lambda>r. p_block_type r = t) rows) = count_list (map p_block_type rows) t"
  by (induction rows) auto

lemma group_by_type_sum: "sum_list (map snd (group_by_type rows)) = length rows"
proof -
  let ?ts = "map p_block_type rows"
  have "sum_list (map snd (group_by_type rows)) = sum_list (map (count_list ?ts) (sort (remdups ?ts)))"
    by (simp add: group_by_type_def count_list_types comp_def)
  also have "\<dots> = sum (count_list ?ts) (set ?ts)"
    by (subst sum_list_distinct_conv_sum_set) auto
  also have "\<dots> = length ?ts" by (simp only: sum_count_set [OF subset_refl finite_set])
  finally show ?thesis by simp
qed

lemma group_by_type_types: "map fst (group_by_type rows) = sort (remdups (map p_block_type rows))"
  by (simp add: group_by_type_def comp_def)

lemma pending_count_groups:
  "pending_count resub st = counts_total (foldl add_group (\<lambda>_. 0) (group_by_type (selected_rows resub st)))"
  by (simp add: pending_count_def pending_by_type_def counts_total_def selected_rows_def pending_def
      Let_def conj_commute)

text \<open>
  The number the queue reports is the number of its pending rows, in all or of one side of
  the resubmission split, provided that their block types are the three canonical labels; and
  whatever the labels are, it never exceeds it.
\<close>

theorem pending_count_exact:
  "pending_count resub st \<le> length (selected_rows resub st)
   \<and> (p_block_type ` set (selected_rows resub st) \<subseteq> canonical_types
       \<longrightarrow> pending_count resub st = length (selected_rows resub st))"
  using add_groups_total [of "\<lambda>_. 0" "group_by_type (selected_rows resub st)"]
    add_groups_canonical [of "group_by_type (selected_rows resub st)" "\<lambda>_. 0"]
  by (simp add: pending_count_groups counts_total_def group_by_type_sum group_by_type_types)

theorem pending_count_exact_witness:
  "pending_count None (store_run [Enqueue ''t'' sample_hit ''r'', Enqueue ''t'' sample_hit ''r'']
     empty_store) = 2"
proof -
  let ?st = "store_run [Enqueue ''t'' sample_hit ''r'', Enqueue ''t'' sample_hit ''r''] empty_store"
  have "p_block_type ` set (selected_rows None ?st) \<subseteq> canonical_types" by code_simp
  then have "pending_count None ?st = length (selected_rows None ?st)" using pending_count_exact by blast
  also have "\<dots> = 2" by code_simp
  finally show ?thesis .
qed

text \<open>
  The count can be too low: a queue with a block of an unknown type and an XBLK block is
  reported as one block, since the group \<open>XBLK\<close>, visited later, overwrites what the unknown type
  had added under \<open>XBLK\<close>.
\<close>

theorem pending_count_undercounts:
  "let st = store_run [Enqueue ''t'' (sample_hit\<lparr>hit_type := ''OTHER''\<rparr>) ''r'',
                       Enqueue ''t'' (sample_hit\<lparr>hit_type := ''XBLK''\<rparr>) ''r''] empty_store
   in length (pending st) = 2 \<and> pending_count None st = 1"
  by code_simp

end
