(* ===== verification/SubmitResult.thy ===== *)
theory SubmitResult
  imports Models
begin

text \<open>
  How a reply of the pool is read (\<open>networking/submit_result.py\<close>), when a queued block may be
  submitted (\<open>block_queue/policy.py\<close>) and how many workers submit (\<open>block_queue/submit_cpu.py\<close>).
  The status is 0 when no HTTP reply arrived; the body is then the text of the exception.  The
  log text of a hint is reduced to what it says (\<open>submit_hint\<close>), with the quoted part of the body.
\<close>

subsection \<open>Reading the reply\<close>

definition submit_accepted :: "int \<Rightarrow> string \<Rightarrow> bool" where
  "submit_accepted status body =
     (if 200 \<le> status \<and> status < 300 then True
      else let lowered = py_lower body in
        if py_in ''already exists'' lowered then True else False)"

definition is_difficulty_mismatch :: "int \<Rightarrow> string \<Rightarrow> bool" where
  "is_difficulty_mismatch status body =
     (if status = 0 then False
      else let lowered = py_lower body in
        if py_in ''hash does not contain 'm='' lowered then True
        else if py_in ''does not contain'' lowered \<and> py_in ''m='' lowered then True
        else if py_in ''memory_cost'' lowered \<and> py_in ''does not contain'' lowered then True
        else False)"

definition is_xuni_window_reject :: "int \<Rightarrow> string \<Rightarrow> bool" where
  "is_xuni_window_reject status body =
     (if status = 0 then False
      else let lowered = py_lower body in
        py_in ''outside of time window'' lowered
        \<or> py_in ''outside of proper time frame'' lowered
        \<or> py_in ''time frame'' lowered
        \<or> py_in ''time window'' lowered)"

definition is_transient_submit_failure :: "int \<Rightarrow> string \<Rightarrow> bool" where
  "is_transient_submit_failure status body =
     (if status = 0 then True
      else let lowered = py_lower body in
        py_in ''timed out'' lowered
        \<or> py_in ''timeout'' lowered
        \<or> py_in ''urlopen error'' lowered
        \<or> (py_in ''connection'' lowered \<and> py_in ''reset'' lowered)
        \<or> py_in ''forcibly closed'' lowered)"

definition counts_as_reject :: "int \<Rightarrow> string \<Rightarrow> bool" where
  "counts_as_reject status body =
     (if submit_accepted status body then False
      else if is_difficulty_mismatch status body then False
      else if is_xuni_window_reject status body then False
      else if is_transient_submit_failure status body then False
      else True)"

datatype submit_hint =
    HintHttp int
  | HintDuplicate
  | HintDifficulty
  | HintWindow
  | HintNetwork string
  | HintOther int string

definition body_snippet :: "nat \<Rightarrow> string \<Rightarrow> string" where
  "body_snippet n body = take n (map (\<lambda>c. if c = CHR 0x0A then CHR 0x20 else c) (py_strip body))"

definition submit_response_hint :: "int \<Rightarrow> string \<Rightarrow> submit_hint" where
  "submit_response_hint status body =
     (if 200 \<le> status \<and> status < 300 then HintHttp status
      else if py_in ''already exists'' (py_lower body) then HintDuplicate
      else if is_difficulty_mismatch status body then HintDifficulty
      else if is_xuni_window_reject status body then HintWindow
      else if is_transient_submit_failure status body then HintNetwork (body_snippet 60 body)
      else HintOther status (body_snippet 80 body))"

text \<open>\<open>"duplicate" in hint\<close>, over the hint's text.\<close>

definition hint_says_duplicate :: "submit_hint \<Rightarrow> bool" where
  "hint_says_duplicate h = (case h of
       HintDuplicate \<Rightarrow> True
     | HintNetwork s \<Rightarrow> py_in ''duplicate'' s
     | HintOther _ s \<Rightarrow> py_in ''duplicate'' s
     | _ \<Rightarrow> False)"

lemmas submit_defs = submit_accepted_def is_difficulty_mismatch_def is_xuni_window_reject_def
  is_transient_submit_failure_def counts_as_reject_def

lemma status_0_never_reject [simp]: "\<not> counts_as_reject 0 body"
  by (simp add: submit_defs)

lemma counts_as_reject_lower: "counts_as_reject status (py_lower body) = counts_as_reject status body"
  by (simp add: submit_defs)

lemma counts_as_reject_not_accepted: "counts_as_reject status body \<Longrightarrow> \<not> submit_accepted status body"
  by (auto simp: counts_as_reject_def split: if_splits)

lemma hint_duplicate_accepted:
  "submit_accepted status body \<Longrightarrow>
    hint_says_duplicate (submit_response_hint status body) \<longleftrightarrow> \<not> (200 \<le> status \<and> status < 300)"
  by (auto simp: submit_response_hint_def submit_accepted_def hint_says_duplicate_def Let_def
      split: if_splits)

lemma accepted_hint: "submit_accepted status body \<longleftrightarrow> submit_response_hint status body \<in> {HintHttp status, HintDuplicate}"
  by (simp add: submit_response_hint_def submit_accepted_def Let_def)

lemma reject_hint: "counts_as_reject status body \<longleftrightarrow>
    submit_response_hint status body = HintOther status (body_snippet 80 body)"
  by (simp add: submit_response_hint_def counts_as_reject_def submit_accepted_def Let_def)

text \<open>
  The pool's verdict on a submission is one of: accepted, held for the difficulty, held for
  the XUNI window, a transient failure, or a reject.  A reject is counted only for a reply of
  the pool (never when the connection failed), and then the hint that is logged names the HTTP
  status and nothing else; the letter case of the body does not matter.
\<close>

theorem reject_classification:
  "(counts_as_reject status body \<longleftrightarrow>
      submit_response_hint status body = HintOther status (body_snippet 80 body))
   \<and> counts_as_reject 0 body = False
   \<and> counts_as_reject status (py_lower body) = counts_as_reject status body
   \<and> (submit_accepted status body \<longleftrightarrow>
       submit_response_hint status body \<in> {HintHttp status, HintDuplicate})"
  by (simp add: counts_as_reject_lower accepted_hint reject_hint [symmetric])

subsection \<open>The XUNI window\<close>

definition in_xuni_window :: "int \<Rightarrow> bool" where
  "in_xuni_window minute \<longleftrightarrow> 56 \<le> minute \<or> minute < 5"

definition ready_to_flush :: "string \<Rightarrow> int \<Rightarrow> bool \<times> string" where
  "ready_to_flush block_type minute =
     (let kind = py_upper block_type in
      if kind = ''XUNI'' \<and> \<not> in_xuni_window minute then (False, ''waiting_for_xuni_window'')
      else (True, ''ready''))"

lemma ready_to_flush_iff: "fst (ready_to_flush bt m) \<longleftrightarrow> py_upper bt \<noteq> ''XUNI'' \<or> in_xuni_window m"
  by (simp add: ready_to_flush_def Let_def)

subsection \<open>Submit workers\<close>

definition submit_worker_count :: "int option \<Rightarrow> pyfloat \<Rightarrow> int" where
  "submit_worker_count cpu_count fraction =
     (let cores = (case cpu_count of None \<Rightarrow> 1 | Some n \<Rightarrow> if n = 0 then 1 else n)
      in max 1 (py_int (fl (fint cores * fraction))))"

definition submit_cpu_affinity :: "int option \<Rightarrow> pyfloat \<Rightarrow> int list" where
  "submit_cpu_affinity cpu_count fraction = [0..submit_worker_count cpu_count fraction - 1]"

definition parallelism_for_single :: "int \<Rightarrow> int \<Rightarrow> int" where
  "parallelism_for_single workers configured = max 1 (min configured workers)"

lemma submit_worker_count_pos: "1 \<le> submit_worker_count c f"
  by (simp add: submit_worker_count_def Let_def)

lemma length_submit_cpu_affinity:
  "int (length (submit_cpu_affinity c f)) = submit_worker_count c f"
  using submit_worker_count_pos [of c f] by (simp add: submit_cpu_affinity_def)

end
