(* ===== verification/QueueFlush.thy ===== *)
theory QueueFlush
  imports BlockStore SubmitResult Metrics
begin

text \<open>
  Submission of the queued blocks (\<open>block_queue/flush.py\<close>, \<open>networking/submitter.py\<close>).  The
  rows are handled by a pool of threads, so the difficulty, the minute of the clock and the reply
  of the pool may differ from row to row: \<open>flush_env\<close> gives them per row id.  The store is the
  record of operations \<open>flush_ops\<close> that the flusher is constructed with; \<open>store_ops\<close> is the
  block store.  Log lines and the report to the block explorer are not modelled.
\<close>

subsection \<open>Environment and outcomes\<close>

record flush_env =
  fe_difficulty :: "nat \<Rightarrow> int"
  fe_minute :: "nat \<Rightarrow> int"
  fe_http :: "nat \<Rightarrow> block_hit \<Rightarrow> int \<times> string"
  fe_now :: string
  fe_argon :: argon2
  fe_salt_hex :: string
  fe_time_cost :: int
  fe_hash_len :: int

record submit_reply =
  sr_ok :: bool
  sr_status :: int
  sr_body :: string

definition submit :: "(block_hit \<Rightarrow> int \<times> string) \<Rightarrow> block_hit \<Rightarrow> submit_reply" where
  "submit http hit = (case http hit of (status, body) \<Rightarrow>
     \<lparr>sr_ok = submit_accepted status body, sr_status = status, sr_body = body\<rparr>)"

record flush_row_outcome =
  o_row_id :: nat
  o_kind :: string
  o_key :: string
  o_hash_str :: string
  o_flushed :: bool
  o_dropped :: bool
  o_waiting_xuni :: bool
  o_waiting_difficulty :: bool
  o_block_memory_cost :: "int option"
  o_shutdown_queued :: bool
  o_counted_reject :: bool
  o_warn :: "submit_hint option"

definition blank_outcome :: "nat \<Rightarrow> flush_row_outcome" where
  "blank_outcome i = \<lparr>o_row_id = i, o_kind = [], o_key = [], o_hash_str = [], o_flushed = False,
     o_dropped = False, o_waiting_xuni = False, o_waiting_difficulty = False,
     o_block_memory_cost = None, o_shutdown_queued = False, o_counted_reject = False, o_warn = None\<rparr>"

record 's flush_ops =
  op_mark_submitted :: "nat \<Rightarrow> int \<Rightarrow> string \<Rightarrow> 's \<Rightarrow> 's"
  op_mark_pending_reason :: "nat \<Rightarrow> string \<Rightarrow> 's \<Rightarrow> 's"
  op_record_rejection :: "block_hit \<Rightarrow> int \<Rightarrow> string \<Rightarrow> string \<Rightarrow> nat \<Rightarrow> string option \<Rightarrow> 's \<Rightarrow> 's"

definition store_ops :: "string \<Rightarrow> block_store flush_ops" where
  "store_ops now = \<lparr>op_mark_submitted = mark_submitted now,
     op_mark_pending_reason = mark_pending_reason,
     op_record_rejection = (\<lambda>hit status body src i reason st.
       fst (record_rejection now hit status body src (Some i) reason st))\<rparr>"

subsection \<open>One row\<close>

definition row_hit :: "string \<Rightarrow> pending_row \<Rightarrow> block_hit" where
  "row_hit now row = \<lparr>hit_key = p_key row, hit_hash = p_hash_str row, hit_type = p_block_type row,
     hit_attempts = p_attempts row, hit_strategy = p_strategy row, hit_hps = p_hps row,
     hit_found_at = now, hit_memory_cost = None\<rparr>"

text \<open>\<open>row.get("memory_cost") or memory_cost_from_hash(hash_str)\<close>: a stored 0 is falsy.\<close>

definition row_memory_cost :: "pending_row \<Rightarrow> int option" where
  "row_memory_cost row = (case p_memory_cost row of
       Some m \<Rightarrow> if m = 0 then memory_cost_from_hash (p_hash_str row) else Some m
     | None \<Rightarrow> memory_cost_from_hash (p_hash_str row))"

definition int_or :: "int option \<Rightarrow> int \<Rightarrow> int" where
  "int_or x d = (case x of None \<Rightarrow> d | Some m \<Rightarrow> if m = 0 then d else m)"

definition row_prepared :: "flush_env \<Rightarrow> pending_row \<Rightarrow> block_hit option" where
  "row_prepared env row = prepare_hit_for_submit (fe_argon env) (row_hit (fe_now env) row)
     (fe_salt_hex env) (int_or (row_memory_cost row) (fe_difficulty env (p_id row)))
     (fe_time_cost env) 1 (fe_hash_len env)"

definition finish_failed :: "'s flush_ops \<Rightarrow> bool \<Rightarrow> pending_row \<Rightarrow> block_hit \<Rightarrow> int option \<Rightarrow> submit_reply
    \<Rightarrow> 's \<Rightarrow> flush_row_outcome \<times> 's" where
  "finish_failed ops on_shutdown row hit cost reply st =
     (let status = sr_status reply; body = sr_body reply; blank = blank_outcome (p_id row) in
      if is_difficulty_mismatch status body then
        (blank\<lparr>o_waiting_difficulty := True, o_key := hit_key hit, o_kind := hit_type hit,
               o_block_memory_cost := cost\<rparr>,
         op_mark_pending_reason ops (p_id row) difficulty_change_reason st)
      else if is_xuni_window_reject status body then
        (blank\<lparr>o_waiting_xuni := True, o_key := hit_key hit, o_kind := hit_type hit\<rparr>,
         op_mark_pending_reason ops (p_id row) outside_xuni_window_reason st)
      else
        (let shutdown_queued = (on_shutdown \<and> py_upper (hit_type hit) \<in> {''XNM'', ''XBLK''});
             fail_reason = (if shutdown_queued then Some shutdown_pending_reason else None);
             rejected = counts_as_reject status body;
             st' = (if rejected
                    then op_record_rejection ops hit status body ''flush'' (p_id row)
                           (Some (case fail_reason of None \<Rightarrow> resubmission_reason | Some r \<Rightarrow> r)) st
                    else (case fail_reason of None \<Rightarrow> st
                          | Some r \<Rightarrow> op_mark_pending_reason ops (p_id row) r st))
         in (blank\<lparr>o_key := hit_key hit, o_kind := hit_type hit,
                   o_shutdown_queued := shutdown_queued, o_counted_reject := rejected,
                   o_warn := Some (submit_response_hint status body)\<rparr>, st')))"

definition prepare_row :: "'s flush_ops \<Rightarrow> flush_env \<Rightarrow> bool \<Rightarrow> pending_row \<Rightarrow> 's
    \<Rightarrow> flush_row_outcome \<times> 's" where
  "prepare_row ops env on_shutdown row st =
     (let current = fe_difficulty env (p_id row);
          known = row_memory_cost row;
          cost = int_or known current;
          shown_cost = (if cost = 0 then None else Some cost);
          blank = blank_outcome (p_id row) in
      if known \<noteq> None \<and> known \<noteq> Some current then
        (blank\<lparr>o_waiting_difficulty := True, o_key := p_key row, o_kind := p_block_type row,
               o_block_memory_cost := known\<rparr>, st)
      else (case row_prepared env row of
        None \<Rightarrow> (blank\<lparr>o_dropped := True, o_key := p_key row\<rparr>,
                 op_mark_submitted ops (p_id row) 0 ''filtered:false_positive'' st)
      | Some hit \<Rightarrow>
          if \<not> fst (ready_to_flush (hit_type hit) (fe_minute env (p_id row))) then
            (blank\<lparr>o_waiting_xuni := True, o_key := hit_key hit, o_kind := hit_type hit\<rparr>,
             if on_shutdown then op_mark_pending_reason ops (p_id row) outside_xuni_window_reason st
             else st)
          else
            (let reply = submit (fe_http env (p_id row)) hit in
             if sr_ok reply then
               (let hint = submit_response_hint (sr_status reply) (sr_body reply) in
                (blank\<lparr>o_flushed := True, o_key := hit_key hit, o_hash_str := hit_hash hit,
                       o_kind := hit_type hit, o_block_memory_cost := shown_cost,
                       o_warn := (if hint_says_duplicate hint then Some hint else None)\<rparr>,
                 op_mark_submitted ops (p_id row) (sr_status reply) (sr_body reply) st))
             else finish_failed ops on_shutdown row hit shown_cost reply st)))"

fun prepare_rows :: "'s flush_ops \<Rightarrow> flush_env \<Rightarrow> bool \<Rightarrow> pending_row list \<Rightarrow> 's
    \<Rightarrow> flush_row_outcome list \<times> 's" where
  "prepare_rows ops env on_shutdown [] st = ([], st)"
| "prepare_rows ops env on_shutdown (row # rows) st =
     (let (o1, st1) = prepare_row ops env on_shutdown row st;
          (os, st2) = prepare_rows ops env on_shutdown rows st1
      in (o1 # os, st2))"

subsection \<open>Counters\<close>

record flusher =
  fl_store :: block_store
  fl_metrics :: "metrics_tracker option"
  fl_local_accepts :: "string list option"
  fl_warned_keys :: "string set"

definition apply_outcome :: "flush_row_outcome \<Rightarrow> flusher \<Rightarrow> flusher \<times> nat" where
  "apply_outcome x f =
     (if o_dropped x then (f\<lparr>fl_metrics := map_option record_dropped_flush (fl_metrics f)\<rparr>, 0)
      else if o_flushed x then
        (f\<lparr>fl_metrics := map_option (record_accepted_flush (o_kind x)) (fl_metrics f),
           fl_local_accepts := map_option (\<lambda>l. l @ [o_kind x]) (fl_local_accepts f)\<rparr>, 1)
      else if o_warn x \<noteq> None then
        (f\<lparr>fl_warned_keys := insert (o_key x) (fl_warned_keys f),
           fl_metrics := (if o_counted_reject x
             then map_option (record_rejected_flush (o_kind x) (o_key x)) (fl_metrics f)
             else fl_metrics f)\<rparr>, 0)
      else (f, 0))"

definition collect_outcome :: "flush_row_outcome \<Rightarrow> flusher \<times> nat \<Rightarrow> flusher \<times> nat" where
  "collect_outcome x s =
     (if o_waiting_difficulty x \<or> o_waiting_xuni x then s
      else case apply_outcome x (fst s) of (f, n) \<Rightarrow> (f, snd s + n))"

definition flush :: "flush_env \<Rightarrow> bool \<Rightarrow> flusher \<Rightarrow> flusher \<times> nat" where
  "flush env on_shutdown f =
     (let rows = pending (fl_store f) in
      if rows = [] then (f, 0)
      else (let (os, st) = prepare_rows (store_ops (fe_now env)) env on_shutdown rows (fl_store f)
            in fold collect_outcome os (f\<lparr>fl_store := st\<rparr>, 0)))"

subsection \<open>Deferral\<close>

definition defer_reason :: "(nat \<Rightarrow> int) \<Rightarrow> pending_row \<Rightarrow> string" where
  "defer_reason minute row =
     (let kind = py_upper (p_block_type row); ok = fst (ready_to_flush kind (minute (p_id row))) in
      if kind = ''XUNI'' \<and> \<not> ok then outside_xuni_window_reason else shutdown_pending_reason)"

definition defer_to_next_start :: "(nat \<Rightarrow> int) \<Rightarrow> block_store \<Rightarrow> block_store \<times> nat" where
  "defer_to_next_start minute st =
     fold (\<lambda>row (s, n). (mark_pending_reason (p_id row) (defer_reason minute row) s, Suc n))
       (pending st) (st, 0)"

subsection \<open>What the flusher needs of the store\<close>

text \<open>A row leaves the queue when it is flushed or dropped.\<close>

definition o_leaves :: "flush_row_outcome \<Rightarrow> bool" where
  "o_leaves x \<longleftrightarrow> o_flushed x \<or> o_dropped x"

definition row_outcome :: "flush_env \<Rightarrow> bool \<Rightarrow> pending_row \<Rightarrow> flush_row_outcome" where
  "row_outcome env on_shutdown row = fst (prepare_row (store_ops []) env on_shutdown row empty_store)"

lemma blank_simps [simp]:
  "o_flushed (blank_outcome i) = False" "o_dropped (blank_outcome i) = False"
  "o_row_id (blank_outcome i) = i" "o_waiting_xuni (blank_outcome i) = False"
  "o_waiting_difficulty (blank_outcome i) = False"
  by (simp_all add: blank_outcome_def)

lemma fst_finish_failed: "fst (finish_failed ops sd row hit c r st) = fst (finish_failed ops' sd row hit c r st')"
  by (simp add: finish_failed_def Let_def)

lemma fst_prepare_row: "fst (prepare_row ops env sd row st) = row_outcome env sd row"
  by (simp add: prepare_row_def row_outcome_def Let_def split: option.splits)
    (metis fst_finish_failed)

lemma finish_failed_stays [simp]:
  "o_flushed (fst (finish_failed ops sd row hit c r st)) = False"
  "o_dropped (fst (finish_failed ops sd row hit c r st)) = False"
  by (simp_all add: finish_failed_def Let_def)

locale flush_store =
  fixes ops :: "'s flush_ops" and row_state :: "'s \<Rightarrow> nat \<rightharpoonup> bool"
  assumes state_reason: "row_state (op_mark_pending_reason ops i q s) = row_state s"
    and state_reject: "row_state (op_record_rejection ops hit status body src i (Some q) s) = row_state s"
    and state_submitted: "i \<in> dom (row_state s) \<Longrightarrow>
      row_state (op_mark_submitted ops i status body s) = (row_state s)(i \<mapsto> False)"
begin

lemma state_finish_failed: "row_state (snd (finish_failed ops sd row hit c r s)) = row_state s"
  by (simp add: finish_failed_def Let_def state_reason state_reject split: option.splits)

lemma state_prepare_row:
  assumes "p_id row \<in> dom (row_state s)"
  shows "row_state (snd (prepare_row ops env sd row s)) =
    (if o_leaves (row_outcome env sd row) then (row_state s)(p_id row \<mapsto> False) else row_state s)"
  using assms unfolding fst_prepare_row [of ops env sd row s, symmetric]
  by (cases "row_prepared env row")
    (simp_all add: prepare_row_def Let_def state_reason state_submitted state_finish_failed
      o_leaves_def)

lemma state_prepare_rows:
  assumes "\<forall>row \<in> set rows. p_id row \<in> dom (row_state s)"
  shows "row_state (snd (prepare_rows ops env sd rows s)) =
    (\<lambda>i. if \<exists>row \<in> set rows. p_id row = i \<and> o_leaves (row_outcome env sd row)
          then Some False else row_state s i)"
  using assms
proof (induction rows arbitrary: s)
  case (Cons row rows)
  let ?s = "snd (prepare_row ops env sd row s)"
  have st: "row_state ?s = (if o_leaves (row_outcome env sd row)
      then (row_state s)(p_id row \<mapsto> False) else row_state s)"
    using Cons.prems by (intro state_prepare_row) simp
  then have "\<forall>row \<in> set rows. p_id row \<in> dom (row_state ?s)" using Cons.prems by auto
  note ih = Cons.IH [OF this]
  have "snd (prepare_rows ops env sd (row # rows) s) = snd (prepare_rows ops env sd rows ?s)"
    by (simp add: case_prod_unfold Let_def)
  with ih st show ?case by (auto simp: fun_eq_iff)
qed simp

end

lemma fst_prepare_rows: "fst (prepare_rows ops env sd rows s) = map (row_outcome env sd) rows"
  by (induction rows arbitrary: s) (simp_all add: case_prod_unfold Let_def fst_prepare_row)

subsection \<open>The block store keeps the contract\<close>

definition store_row_state :: "block_store \<Rightarrow> nat \<rightharpoonup> bool" where
  "store_row_state st = map_of (map (\<lambda>r. (p_id r, is_pending r)) (pending_blocks st))"

lemma map_of_update_rows:
  "(\<And>r. p_id (f r) = p_id r \<and> is_pending (f r) = is_pending r) \<Longrightarrow>
    map_of (map (\<lambda>r. (p_id r, is_pending r)) (update_rows P f rows))
      = map_of (map (\<lambda>r. (p_id r, is_pending r)) rows)"
  by (induction rows) auto

lemma is_pending_upd [simp]:
  "is_pending (r\<lparr>p_queue_reason := q\<rparr>) = is_pending r"
  "is_pending (r\<lparr>p_status := ''submitted''\<rparr>) = False"
  by (simp_all add: is_pending_def)

lemma store_state_reason: "store_row_state (mark_pending_reason i q st) = store_row_state st"
  by (simp add: store_row_state_def mark_pending_reason_def map_of_update_rows)

lemma store_state_reject:
  "store_row_state (fst (record_rejection now hit status body src (Some i) q st)) = store_row_state st"
  by (simp add: store_row_state_def reject_by_id map_of_update_rows split: option.split)

lemma map_of_submitted:
  "i \<in> p_id ` set rows \<Longrightarrow>
    map_of (map (\<lambda>r. (p_id r, is_pending r)) (update_rows (\<lambda>r. p_id r = i) (\<lambda>r. r\<lparr>p_status := ''submitted''\<rparr>) rows))
      = (map_of (map (\<lambda>r. (p_id r, is_pending r)) rows))(i \<mapsto> False)"
proof (induction rows)
  case (Cons x rows)
  show ?case
  proof (cases "i \<in> p_id ` set rows")
    case True
    then show ?thesis using Cons.IH by auto
  next
    case False
    then have "update_rows (\<lambda>r. p_id r = i) (\<lambda>r. r\<lparr>p_status := ''submitted''\<rparr>) rows = rows"
      by (intro update_rows_cong) auto
    with False Cons.prems show ?thesis by auto
  qed
qed simp

lemma dom_store_row_state: "dom (store_row_state st) = p_id ` set (pending_blocks st)"
  by (simp add: store_row_state_def dom_map_of_conv_image_fst image_image)

lemma store_state_submitted:
  assumes "i \<in> dom (store_row_state st)"
  shows "store_row_state (mark_submitted now i status body st) = (store_row_state st)(i \<mapsto> False)"
proof -
  from assms have i: "i \<in> p_id ` set (pending_blocks st)" by (simp add: dom_store_row_state)
  show ?thesis
  proof (cases "find (\<lambda>r. p_id r = i) (pending_blocks st)")
    case None
    with i show ?thesis by (auto simp: find_key_None)
  next
    case (Some row)
    then show ?thesis using map_of_submitted [OF i] by (simp add: mark_submitted_def store_row_state_def)
  qed
qed

interpretation queue: flush_store "store_ops now" store_row_state
  by unfold_locales
    (simp_all add: store_ops_def store_state_reason store_state_reject store_state_submitted)

subsection \<open>What a flush does\<close>

definition held_for_difficulty :: "flush_env \<Rightarrow> pending_row \<Rightarrow> bool" where
  "held_for_difficulty env row \<longleftrightarrow> (\<exists>m. row_memory_cost row = Some m \<and> m \<noteq> fe_difficulty env (p_id row))"

definition may_submit :: "flush_env \<Rightarrow> pending_row \<Rightarrow> block_hit \<Rightarrow> bool" where
  "may_submit env row hit \<longleftrightarrow> \<not> held_for_difficulty env row \<and> row_prepared env row = Some hit
     \<and> (py_upper (hit_type hit) = ''XUNI'' \<longrightarrow> in_xuni_window (fe_minute env (p_id row)))"

definition pool_accepts :: "flush_env \<Rightarrow> pending_row \<Rightarrow> bool" where
  "pool_accepts env row \<longleftrightarrow> (\<exists>hit. may_submit env row hit
     \<and> submit_accepted (fst (fe_http env (p_id row) hit)) (snd (fe_http env (p_id row) hit)))"

definition cannot_prepare :: "flush_env \<Rightarrow> pending_row \<Rightarrow> bool" where
  "cannot_prepare env row \<longleftrightarrow> \<not> held_for_difficulty env row \<and> row_prepared env row = None"

lemma sr_ok_submit: "sr_ok (submit http hit) = submit_accepted (fst (http hit)) (snd (http hit))"
  by (simp add: submit_def case_prod_unfold)

lemma held_iff: "held_for_difficulty env row \<longleftrightarrow>
    row_memory_cost row \<noteq> None \<and> row_memory_cost row \<noteq> Some (fe_difficulty env (p_id row))"
  by (auto simp: held_for_difficulty_def)

lemma outcome_flushed: "o_flushed (row_outcome env sd row) = pool_accepts env row"
  unfolding fst_prepare_row [of "store_ops []" env sd row empty_store, symmetric]
  by (cases "row_prepared env row")
    (simp_all add: prepare_row_def Let_def held_iff pool_accepts_def may_submit_def
      ready_to_flush_iff sr_ok_submit)

lemma outcome_dropped: "o_dropped (row_outcome env sd row) = cannot_prepare env row"
  unfolding fst_prepare_row [of "store_ops []" env sd row empty_store, symmetric]
  by (cases "row_prepared env row") (simp_all add: prepare_row_def Let_def held_iff cannot_prepare_def)

lemma store_row_state_pending:
  "store_inv st \<Longrightarrow> row \<in> set (pending_blocks st) \<Longrightarrow>
    store_row_state st (p_id row) = Some (is_pending row)"
  using ids_ok_distinct [OF store_invD(1), of st]
  by (auto simp: store_row_state_def comp_def intro!: map_of_is_SomeI)

text \<open>
  C16: the submission of the queue removes exactly the right blocks, in whatever order the worker
  threads take the rows and whatever the pool, the clock and the network's difficulty do
  meanwhile.  A pending block stays pending unless the pool accepted it or its hash could not be
  turned into a submission; a block that waits for the network's difficulty or for the XUNI
  window, or was refused, or could not be sent, is kept; no other row changes its status.
\<close>

theorem flush_removes_exactly:
  assumes "store_inv st" "set rows = set (pending st)"
    and "st' = snd (prepare_rows (store_ops now) env on_shutdown rows st)"
  shows "(\<forall>row \<in> set (pending st). store_row_state st' (p_id row)
            = Some (\<not> (pool_accepts env row \<or> cannot_prepare env row)))
    \<and> (\<forall>i. i \<notin> p_id ` set (pending st) \<longrightarrow> store_row_state st' i = store_row_state st i)"
proof -
  have sub: "row \<in> set (pending_blocks st) \<and> is_pending row" if "row \<in> set (pending st)" for row
    using that by (auto simp: pending_def)
  then have dom: "\<forall>row \<in> set rows. p_id row \<in> dom (store_row_state st)"
    using assms(2) by (auto simp: dom_store_row_state)
  have st': "store_row_state st' = (\<lambda>i. if \<exists>row \<in> set (pending st). p_id row = i \<and>
      (pool_accepts env row \<or> cannot_prepare env row) then Some False else store_row_state st i)"
    using queue.state_prepare_rows [OF dom] assms(2,3) by (simp add: o_leaves_def outcome_flushed outcome_dropped)
  have inj: "row' = row" if "row \<in> set (pending st)" "row' \<in> set (pending st)" "p_id row' = p_id row" for row row'
    using ids_ok_inj [OF store_invD(1) [OF assms(1)]] that sub by blast
  have "store_row_state st (p_id row) = Some True" if "row \<in> set (pending st)" for row
    using store_row_state_pending [OF assms(1)] sub [OF that] by simp
  with st' inj show ?thesis by (auto split: if_splits)
qed

definition sample_env :: flush_env where
  "sample_env = \<lparr>fe_difficulty = (\<lambda>_. 100), fe_minute = (\<lambda>_. 30), fe_http = (\<lambda>_ _. (500, ''busy'')),
     fe_now = ''t'', fe_argon = (\<lambda>_ _ _ _ _ _. ''$argon2id$m=100,t=1$xXEN11x''), fe_salt_hex = ''00'',
     fe_time_cost = 1, fe_hash_len = 64\<rparr>"

definition sample_row :: "int option \<Rightarrow> pending_row" where
  "sample_row m = \<lparr>p_id = 1, p_key = ''ab12'', p_hash_str = ''xXEN11x'', p_block_type = ''XNM'',
     p_strategy = ''random'', p_attempts = 1, p_hps = 0, p_found_at = ''t'', p_queued_at = ''t'',
     p_queue_reason = ''r'', p_reject_count = 0, p_status = ''pending'', p_memory_cost = m\<rparr>"

theorem flush_removes_exactly_witness:
  "let st = store_run [Enqueue ''t'' sample_hit ''r''] empty_store;
       st' = snd (prepare_rows (store_ops ''t'') sample_env False (pending st) st)
   in \<forall>row \<in> set (pending st). store_row_state st' (p_id row) = Some True"
proof -
  let ?st = "store_run [Enqueue ''t'' sample_hit ''r''] empty_store"
  have inv: "store_inv ?st" by (rule store_inv_run [OF store_inv_empty])
  have "\<forall>row \<in> set (pending ?st). \<not> o_flushed (row_outcome sample_env False row)
      \<and> \<not> o_dropped (row_outcome sample_env False row)" by code_simp
  then have stay: "\<forall>row \<in> set (pending ?st). \<not> (pool_accepts sample_env row \<or> cannot_prepare sample_env row)"
    unfolding outcome_flushed outcome_dropped by blast
  show ?thesis
    using conjunct1 [OF flush_removes_exactly [OF inv refl refl, of "''t''" sample_env False]] stay
    unfolding Let_def by simp
qed

text \<open>
  Nothing is sent to the pool too early: for a block whose memory cost is known and differs
  from the network's difficulty, and for an XUNI block outside of the window, what the flush does
  is independent of what the pool would answer, and the block is reported as waiting.
\<close>

theorem held_blocks_not_submitted:
  assumes "held_for_difficulty env row \<or>
    (\<exists>hit. row_prepared env row = Some hit \<and> py_upper (hit_type hit) = ''XUNI''
       \<and> \<not> in_xuni_window (fe_minute env (p_id row)))"
  shows "prepare_row ops (env\<lparr>fe_http := http\<rparr>) on_shutdown row st = prepare_row ops env on_shutdown row st
    \<and> (o_waiting_difficulty (row_outcome env on_shutdown row) \<or> o_waiting_xuni (row_outcome env on_shutdown row))"
proof -
  have [simp]: "row_prepared (env\<lparr>fe_http := http\<rparr>) row = row_prepared env row" by (simp add: row_prepared_def)
  note unfold = fst_prepare_row [of "store_ops []" env _ row empty_store, symmetric]
  show ?thesis
  proof (cases "held_for_difficulty env row")
    case True
    then show ?thesis unfolding unfold by (simp add: prepare_row_def Let_def held_iff)
  next
    case False
    with assms obtain hit where "row_prepared env row = Some hit" "py_upper (hit_type hit) = ''XUNI''"
      "\<not> in_xuni_window (fe_minute env (p_id row))" by blast
    with False show ?thesis unfolding unfold held_iff
      by (auto simp: prepare_row_def ready_to_flush_iff Let_def)
  qed
qed

theorem held_blocks_not_submitted_witness:
  "prepare_row (store_ops ''t'') (sample_env\<lparr>fe_http := (\<lambda>_ _. (200, []))\<rparr>) False (sample_row (Some 7)) empty_store
     = prepare_row (store_ops ''t'') sample_env False (sample_row (Some 7)) empty_store"
proof -
  have held: "held_for_difficulty sample_env (sample_row (Some 7))"
    by (simp add: held_for_difficulty_def row_memory_cost_def sample_row_def sample_env_def)
  show ?thesis
    by (rule conjunct1 [OF held_blocks_not_submitted [OF disjI1 [OF held]]])
qed

subsection \<open>What a flush counts\<close>

definition outcome_counts :: "flush_row_outcome \<Rightarrow> bool" where
  "outcome_counts x \<longleftrightarrow> o_flushed x \<and> \<not> o_dropped x \<and> \<not> o_waiting_difficulty x \<and> \<not> o_waiting_xuni x"

lemma collect_outcomes_count:
  "snd (fold collect_outcome os s) = snd s + length (filter outcome_counts os)"
proof (induction os arbitrary: s)
  case (Cons x os)
  have "snd (collect_outcome x s) = snd s + (if outcome_counts x then 1 else 0)"
    by (simp add: collect_outcome_def apply_outcome_def outcome_counts_def)
  with Cons.IH [of "collect_outcome x s"] show ?case by simp
qed simp

lemma collect_outcomes_store: "fl_store (fst (fold collect_outcome os s)) = fl_store (fst s)"
proof (induction os arbitrary: s)
  case (Cons x os)
  have "fl_store (fst (collect_outcome x s)) = fl_store (fst s)"
    by (simp add: collect_outcome_def apply_outcome_def)
  with Cons.IH [of "collect_outcome x s"] show ?case by simp
qed simp

definition flush_total :: "flusher \<Rightarrow> int option" where
  "flush_total f = map_option (\<lambda>m. accepted_flush_total (stats m)) (fl_metrics f)"

lemma record_flush_totals [simp]:
  "accepted_flush_total (stats (record_accepted_flush k m)) = accepted_flush_total (stats m) + 1"
  "accepted_flush_total (stats (record_dropped_flush m)) = accepted_flush_total (stats m)"
  "accepted_flush_total (stats (record_rejected_flush k b m)) = accepted_flush_total (stats m)"
  by (simp_all add: record_accepted_flush_def record_dropped_flush_def record_rejected_flush_def
      accepted_flush_total_def Let_def)

lemma collect_outcomes_metrics:
  "flush_total (fst (fold collect_outcome os s))
    = map_option (\<lambda>t. t + int (length (filter outcome_counts os))) (flush_total (fst s))"
proof (induction os arbitrary: s)
  case Nil
  show ?case by (simp add: option.map_ident)
next
  case (Cons x os)
  have "flush_total (fst (collect_outcome x s))
      = map_option (\<lambda>t. t + (if outcome_counts x then 1 else 0)) (flush_total (fst s))"
    by (cases "fl_metrics (fst s)")
      (simp_all add: collect_outcome_def apply_outcome_def outcome_counts_def flush_total_def)
  with Cons.IH [of "collect_outcome x s"] show ?case
    by (cases "flush_total (fst s)") simp_all
qed

lemma outcome_waits: "o_flushed (row_outcome env sd row) \<Longrightarrow> \<not> o_dropped (row_outcome env sd row)
    \<and> \<not> o_waiting_difficulty (row_outcome env sd row) \<and> \<not> o_waiting_xuni (row_outcome env sd row)"
proof -
  assume "o_flushed (row_outcome env sd row)"
  then obtain hit where "may_submit env row hit"
    "submit_accepted (fst (fe_http env (p_id row) hit)) (snd (fe_http env (p_id row) hit))"
    by (auto simp: outcome_flushed pool_accepts_def)
  then show ?thesis unfolding fst_prepare_row [of "store_ops []" env sd row empty_store, symmetric]
    by (auto simp: may_submit_def held_iff prepare_row_def Let_def ready_to_flush_iff sr_ok_submit)
qed

lemma outcome_counts_iff: "outcome_counts (row_outcome env sd row) = pool_accepts env row"
  unfolding outcome_flushed [of env sd row, symmetric] outcome_counts_def using outcome_waits by blast

text \<open>
  A flush reports the number of queued blocks that the pool accepted in it, adds this number
  to the accepted-at-flush total of the session, and leaves the store as the handling of the rows
  left it.
\<close>

theorem flush_counts_accepted:
  "case flush env on_shutdown f of (f', n) \<Rightarrow>
     n = length (filter (pool_accepts env) (pending (fl_store f)))
     \<and> flush_total f' = map_option (\<lambda>t. t + int n) (flush_total f)
     \<and> fl_store f' = snd (prepare_rows (store_ops (fe_now env)) env on_shutdown (pending (fl_store f)) (fl_store f))"
proof (cases "pending (fl_store f) = []")
  case True
  then show ?thesis by (simp add: flush_def option.map_ident)
next
  case False
  let ?r = "prepare_rows (store_ops (fe_now env)) env on_shutdown (pending (fl_store f)) (fl_store f)"
  have f: "flush env on_shutdown f = fold collect_outcome (fst ?r) (f\<lparr>fl_store := snd ?r\<rparr>, 0)"
    using False by (simp add: flush_def Let_def case_prod_unfold)
  have c: "length (filter outcome_counts (fst ?r)) = length (filter (pool_accepts env) (pending (fl_store f)))"
    by (simp add: fst_prepare_rows filter_map comp_def outcome_counts_iff)
  have t: "flush_total (f\<lparr>fl_store := s\<rparr>) = flush_total f" for s by (simp add: flush_total_def)
  show ?thesis unfolding f case_prod_unfold collect_outcomes_count collect_outcomes_metrics
      collect_outcomes_store c by (simp add: t)
qed

subsection \<open>What a deferral does\<close>

definition give_reason :: "(nat \<Rightarrow> int) \<Rightarrow> pending_row \<Rightarrow> block_store \<Rightarrow> block_store" where
  "give_reason minute row s = mark_pending_reason (p_id row) (defer_reason minute row) s"

lemma defer_fold:
  "fold (\<lambda>row (s, n). (mark_pending_reason (p_id row) (defer_reason minute row) s, Suc n)) rows (st, k)
    = (fold (give_reason minute) rows st, k + length rows)"
  by (induction rows arbitrary: st k) (simp_all add: give_reason_def)

lemma defer_rows:
  "distinct (map p_id rows) \<Longrightarrow> pending (fold (give_reason minute) rows st)
    = map (\<lambda>r. case find (\<lambda>x. p_id x = p_id r) rows of None \<Rightarrow> r
              | Some x \<Rightarrow> r\<lparr>p_queue_reason := defer_reason minute x\<rparr>) (pending st)"
proof (induction rows arbitrary: st)
  case Nil
  show ?case by (simp add: map_idI)
next
  case (Cons x rows)
  have p: "pending (give_reason minute x st)
      = update_rows (\<lambda>r. p_id r = p_id x) (\<lambda>r. r\<lparr>p_queue_reason := defer_reason minute x\<rparr>) (pending st)"
  proof -
    have "filter is_pending (update_rows (\<lambda>r. p_id r = p_id x \<and> is_pending r) (\<lambda>r. r\<lparr>p_queue_reason := q\<rparr>) rs)
        = update_rows (\<lambda>r. p_id r = p_id x) (\<lambda>r. r\<lparr>p_queue_reason := q\<rparr>) (filter is_pending rs)" for q rs
      by (induction rs) auto
    then show ?thesis by (simp add: give_reason_def mark_pending_reason_def pending_def)
  qed
  have "\<forall>y \<in> set rows. p_id y \<noteq> p_id x" using Cons.prems by (simp add: image_iff) metis
  then have "find (\<lambda>y. p_id y = p_id x) rows = None" by (simp only: find_key_None)
  then show ?case using Cons by (auto simp: p update_rows_def eq_commute)
qed

text \<open>
  Deferring the queue to the next start keeps every pending block and changes nothing of it
  but the reason, which says why it waits: outside of the XUNI window, or shut down.
\<close>

theorem defer_keeps_queue:
  assumes "store_inv st"
  shows "case defer_to_next_start minute st of (st', n) \<Rightarrow>
     n = length (pending st)
     \<and> pending st' = map (\<lambda>r. r\<lparr>p_queue_reason := defer_reason minute r\<rparr>) (pending st)"
proof -
  have d: "distinct (map p_id (pending st))"
    using ids_ok_distinct [OF store_invD(1) [OF assms]] by (simp add: pending_def distinct_map_filter)
  have "(case find (\<lambda>x. p_id x = p_id r) (pending st) of None \<Rightarrow> r
      | Some x \<Rightarrow> r\<lparr>p_queue_reason := defer_reason minute x\<rparr>)
    = r\<lparr>p_queue_reason := defer_reason minute r\<rparr>" if "r \<in> set (pending st)" for r
    using find_distinct [OF d that] by simp
  then show ?thesis using defer_rows [OF d, of minute st]
    by (simp add: defer_to_next_start_def defer_fold cong: map_cong)
qed

theorem defer_keeps_queue_witness:
  "map p_queue_reason (pending (fst (defer_to_next_start (\<lambda>_. 30)
     (store_run [Enqueue ''t'' sample_hit ''r''] empty_store)))) = [''shutdown_pending'']"
proof -
  let ?st = "store_run [Enqueue ''t'' sample_hit ''r''] empty_store"
  have "pending (fst (defer_to_next_start (\<lambda>_. 30) ?st))
      = map (\<lambda>r. r\<lparr>p_queue_reason := defer_reason (\<lambda>_. 30) r\<rparr>) (pending ?st)"
    using defer_keeps_queue [OF store_inv_run [OF store_inv_empty], of "[Enqueue ''t'' sample_hit ''r'']" "\<lambda>_. 30"]
    by (simp only: case_prod_unfold)
  moreover have "map p_queue_reason (map (\<lambda>r. r\<lparr>p_queue_reason := defer_reason (\<lambda>_. 30) r\<rparr>) (pending ?st))
      = [''shutdown_pending'']" by code_simp
  ultimately show ?thesis by (simp only:)
qed

end
