(* ===== verification/ThermalPolicy.thy ===== *)
theory ThermalPolicy
  imports Prelude
begin

text \<open>
  Soft derating of power, batch and lanes (\<open>efficiency/thermal_policy.py\<close>).  Every float
  operation of the source is one \<open>fl\<close>; keyword defaults of the source are arguments.  The
  locale \<open>derate_curve\<close> states what its callers rely on: a curve that is full below a start,
  at its floor beyond a limit, and falls in between.
\<close>

subsection \<open>The policy functions\<close>

definition clamp_int :: "int \<Rightarrow> int \<Rightarrow> int \<Rightarrow> int" where
  "clamp_int value lo hi = max lo (min hi value)"

definition clamp_float :: "pyfloat \<Rightarrow> pyfloat \<Rightarrow> pyfloat \<Rightarrow> pyfloat" where
  "clamp_float value lo hi = max lo (min hi value)"

definition normalize_power_range :: "int \<Rightarrow> int \<Rightarrow> int \<Rightarrow> int \<Rightarrow> int \<times> int" where
  "normalize_power_range target_pct min_pct absolute_floor absolute_ceiling =
     (let target = clamp_int target_pct absolute_floor absolute_ceiling;
          flr = clamp_int min_pct absolute_floor absolute_ceiling
      in (target, if flr > target then target else flr))"

text \<open>\<open>clamp(round(a - t * (a - b)))\<close> and \<open>clamp(1.0 - t * (1.0 - flr))\<close>, the two shapes of
  an eased value.\<close>

definition ease_int :: "int \<Rightarrow> int \<Rightarrow> pyfloat \<Rightarrow> int" where
  "ease_int a b t = py_round (fl (fint a - fl (t * fint (a - b))))"

definition ease_scale :: "pyfloat \<Rightarrow> pyfloat \<Rightarrow> pyfloat" where
  "ease_scale flr t = clamp_float (fl (1 - fl (t * fl (1 - flr)))) flr 1"

definition ramp_position :: "int \<Rightarrow> int \<Rightarrow> pyfloat" where
  "ramp_position off width = (if width > 0 then clamp_float (fdivi off width) 0 1 else 1)"

definition difficulty_power_target_pct ::
    "int \<Rightarrow> int \<Rightarrow> int \<Rightarrow> int \<Rightarrow> pyfloat \<Rightarrow> int \<Rightarrow> int" where
  "difficulty_power_target_pct base_target_pct difficulty reference_difficulty min_pct
       full_derate_ratio low_difficulty =
     (let (target, flr) = normalize_power_range base_target_pct min_pct 50 100 in
      if difficulty \<le> 0 \<or> reference_difficulty \<le> 0 then target
      else
        (let low = max 1 low_difficulty;
             ref = max low reference_difficulty;
             dif = max 1 difficulty in
         if dif \<le> low then target
         else
           (let ratio = (if full_derate_ratio > 1 then full_derate_ratio else 2);
                high = max (ref + 1) (py_round (fl (fint ref * ratio)));
                mid = clamp_int (py_round (fl (fint target - fl (fl (35 / 100) * fint (target - flr)))))
                        flr target in
            if dif \<le> ref
            then clamp_int (ease_int target mid (ramp_position (dif - low) (ref - low))) flr target
            else clamp_int (ease_int mid flr (ramp_position (dif - ref) (high - ref))) flr target)))"

definition difficulty_batch_fill_fraction ::
    "int \<Rightarrow> int \<Rightarrow> int \<Rightarrow> pyfloat \<Rightarrow> pyfloat \<Rightarrow> pyfloat \<Rightarrow> pyfloat \<Rightarrow> pyfloat" where
  "difficulty_batch_fill_fraction difficulty reference_difficulty low_difficulty
       fill_at_low fill_at_ref fill_at_high full_derate_ratio =
     (let low_f = clamp_float fill_at_low (fl (40 / 100)) 1;
          ref_f = clamp_float fill_at_ref (fl (40 / 100)) 1;
          high_f = clamp_float fill_at_high (fl (40 / 100)) 1 in
      if difficulty \<le> 0 \<or> reference_difficulty \<le> 0 then ref_f
      else
        (let low = max 1 low_difficulty;
             ref = max low reference_difficulty;
             dif = max 1 difficulty;
             ratio = (if full_derate_ratio > 1 then full_derate_ratio else fl (19 / 10));
             high = max (ref + 1) (py_round (fl (fint ref * ratio))) in
         if dif \<le> low then low_f
         else if dif \<le> ref then
           (let t = ramp_position (dif - low) (ref - low)
            in clamp_float (fl (low_f + fl (t * fl (ref_f - low_f)))) (fl (40 / 100)) 1)
         else
           (let t = ramp_position (dif - ref) (high - ref)
            in clamp_float (fl (ref_f + fl (t * fl (high_f - ref_f)))) (fl (40 / 100)) 1)))"

definition thermal_batch_scale :: "int \<Rightarrow> int \<Rightarrow> int \<Rightarrow> pyfloat \<Rightarrow> int \<Rightarrow> pyfloat" where
  "thermal_batch_scale temperature_c warn_temp_c max_temp_c min_scale cool_margin_c =
     (let flr = clamp_float min_scale (1 / 2) 1 in
      if temperature_c \<le> 0 then 1
      else
        (let hard = max (warn_temp_c + 1) max_temp_c;
             cool_start = warn_temp_c - max 0 cool_margin_c in
         if temperature_c \<le> cool_start then 1
         else if temperature_c \<ge> hard then flr
         else
           (let width = hard - cool_start in
            if width \<le> 0 then flr
            else ease_scale flr (fdivi (temperature_c - cool_start) width))))"

definition apply_batch_scale :: "int \<Rightarrow> pyfloat \<Rightarrow> int" where
  "apply_batch_scale batch_size scale =
     (if batch_size \<le> 0 then 0
      else (let s = clamp_float scale (1 / 2) 1 in max 1 (py_int (fl (fint batch_size * s)))))"

definition vram_pressure_scale :: "int \<Rightarrow> int \<Rightarrow> int \<Rightarrow> pyfloat \<Rightarrow> int \<Rightarrow> pyfloat" where
  "vram_pressure_scale used_mib target_mib emergency_mib min_scale start_slack_mib =
     (let flr = clamp_float min_scale (1 / 2) 1;
          used = max 0 used_mib;
          target = max 1 target_mib;
          emerg = max (target + 1) emergency_mib;
          start = target + max 0 start_slack_mib in
      if used \<le> start then 1
      else if used \<ge> emerg then flr
      else
        (let width = emerg - start in
         if width \<le> 0 then flr
         else ease_scale flr (fdivi (used - start) width)))"

definition vram_pressure_lane_cap :: "int \<Rightarrow> int \<Rightarrow> int \<Rightarrow> int \<Rightarrow> int \<Rightarrow> int" where
  "vram_pressure_lane_cap planned_lanes used_mib target_mib emergency_mib min_lanes =
     (let planned = max 1 planned_lanes;
          flr = clamp_int min_lanes 1 planned in
      if planned \<le> flr then planned
      else
        (let scale = vram_pressure_scale used_mib target_mib emergency_mib (1 / 2) 0 in
         if scale \<ge> fl (999 / 1000) then planned
         else
           (let t = clamp_float (fl (fl (1 - scale) / (1 / 2))) 0 1
            in clamp_int (ease_int planned flr t) flr planned)))"

definition combine_batch_scales :: "pyfloat list \<Rightarrow> pyfloat \<Rightarrow> pyfloat" where
  "combine_batch_scales scales flr =
     (let lo = clamp_float flr (1 / 2) 1 in
      case scales of [] \<Rightarrow> 1
      | s # ss \<Rightarrow> clamp_float (foldl min s ss) lo 1)"

definition thermal_lane_cap :: "int \<Rightarrow> int \<Rightarrow> int \<Rightarrow> int \<Rightarrow> int \<Rightarrow> int \<Rightarrow> int \<Rightarrow> int" where
  "thermal_lane_cap planned_lanes temperature_c warn_temp_c max_temp_c min_lanes cool_margin_c
       start_derate_margin_c =
     (let planned = max 1 planned_lanes;
          flr = clamp_int min_lanes 1 planned in
      if planned \<le> flr then planned
      else if temperature_c \<le> 0 then planned
      else
        (let hard = max (warn_temp_c + 1) max_temp_c;
             cool_start = warn_temp_c - max 0 cool_margin_c;
             derate_start = max cool_start (warn_temp_c - max 0 start_derate_margin_c) in
         if temperature_c \<le> derate_start then planned
         else if temperature_c \<ge> hard then flr
         else
           (let width = hard - derate_start in
            if width \<le> 0 then flr
            else
              (let t = clamp_float (fdivi (temperature_c - derate_start) width) 0 1
               in clamp_int (ease_int planned flr t) flr planned))))"

definition high_diff_temp_tighten_c :: "int \<Rightarrow> int \<Rightarrow> pyfloat \<Rightarrow> pyfloat \<Rightarrow> int \<Rightarrow> int" where
  "high_diff_temp_tighten_c difficulty reference_difficulty start_ratio full_ratio max_tighten_c =
     (if difficulty \<le> 0 \<or> reference_difficulty \<le> 0 \<or> max_tighten_c \<le> 0 then 0
      else
        (let start = fl (fint reference_difficulty * max 1 start_ratio);
             full = fl (fint reference_difficulty * max (fl (start_ratio + fl (1 / 100))) full_ratio) in
         if of_int difficulty \<le> start then 0
         else if of_int difficulty \<ge> full then max_tighten_c
         else
           (let t = fl (fl (fint difficulty - start) / fl (full - start))
            in py_round (fl (clamp_float t 0 1 * fint max_tighten_c)))))"

definition effective_control_temp_c ::
    "int \<Rightarrow> int \<Rightarrow> int \<Rightarrow> pyfloat \<Rightarrow> pyfloat \<Rightarrow> int \<Rightarrow> int" where
  "effective_control_temp_c measured_temp_c difficulty reference_difficulty start_ratio full_ratio
       max_tighten_c =
     (if measured_temp_c \<le> 0 then 0
      else measured_temp_c
        + high_diff_temp_tighten_c difficulty reference_difficulty start_ratio full_ratio max_tighten_c)"

definition difficulty_lane_bias :: "int \<Rightarrow> int \<Rightarrow> int \<Rightarrow> pyfloat \<Rightarrow> int" where
  "difficulty_lane_bias planned_lanes difficulty reference_difficulty full_pack_ratio =
     (let planned = max 1 planned_lanes in
      if planned \<le> 1 \<or> reference_difficulty \<le> 0 \<or> difficulty \<le> 0 then planned
      else if difficulty \<ge> reference_difficulty then 1
      else
        (let full_at = max 1 (py_int (fl (fint reference_difficulty *
                         max (fl (5 / 100)) (min (fl (95 / 100)) full_pack_ratio)))) in
         if difficulty \<le> full_at then planned
         else
           (let width = reference_difficulty - full_at in
            if width \<le> 0 then 1
            else
              (let t = clamp_float (fdivi (difficulty - full_at) width) 0 1
               in clamp_int (ease_int planned 1 t) 1 planned))))"

subsection \<open>Derating curves\<close>

locale derate_curve =
  fixes curve ramp :: "int \<Rightarrow> 'b :: linorder" and full hard :: "int \<Rightarrow> bool" and top bot :: 'b
  assumes shape: "curve x = (if full x then top else if hard x then bot else ramp x)"
    and full_down: "x \<le> y \<Longrightarrow> full y \<Longrightarrow> full x"
    and hard_up: "x \<le> y \<Longrightarrow> hard x \<Longrightarrow> hard y"
    and bot_top: "bot \<le> top"
    and ramp_range: "bot \<le> ramp x \<and> ramp x \<le> top"
    and ramp_falls: "x \<le> y \<Longrightarrow> \<not> full x \<Longrightarrow> \<not> hard y \<Longrightarrow> ramp y \<le> ramp x"
begin

lemma curve_range: "bot \<le> curve x \<and> curve x \<le> top"
  using ramp_range bot_top by (simp add: shape)

lemma curve_falls: "x \<le> y \<Longrightarrow> curve y \<le> curve x"
  using full_down [of x y] hard_up [of x y] ramp_falls [of x y] ramp_range [of x] ramp_range [of y] bot_top
  by (auto simp: shape)

lemma curve_full: "full x \<Longrightarrow> curve x = top"
  by (simp add: shape)

lemma curve_hard: "\<not> full x \<Longrightarrow> hard x \<Longrightarrow> curve x = bot"
  by (simp add: shape)

end

lemma clamp_float_range: "lo \<le> hi \<Longrightarrow> lo \<le> clamp_float x lo hi \<and> clamp_float x lo hi \<le> hi"
  by (simp add: clamp_float_def)

lemma clamp_int_range: "lo \<le> hi \<Longrightarrow> lo \<le> clamp_int x lo hi \<and> clamp_int x lo hi \<le> hi"
  by (simp add: clamp_int_def)

lemma clamp_float_mono: "x \<le> y \<Longrightarrow> clamp_float x lo hi \<le> clamp_float y lo hi"
  unfolding clamp_float_def by (rule max_min_mono)

lemma clamp_int_mono: "x \<le> y \<Longrightarrow> clamp_int x lo hi \<le> clamp_int y lo hi"
  unfolding clamp_int_def by (rule max_min_mono)

lemma fdivi_mono: "0 < c \<Longrightarrow> x \<le> y \<Longrightarrow> fdivi x c \<le> fdivi y c"
  unfolding fdivi_def by (intro fl_mono divide_right_mono) simp_all

lemma ease_int_falls: "b \<le> a \<Longrightarrow> s \<le> t \<Longrightarrow> ease_int a b t \<le> ease_int a b s"
  unfolding ease_int_def by (intro py_round_mono dbl.descend_mono fint_nonneg) simp_all

lemma ease_scale_falls: "flr \<le> 1 \<Longrightarrow> s \<le> t \<Longrightarrow> ease_scale flr t \<le> ease_scale flr s"
  unfolding ease_scale_def by (intro clamp_float_mono dbl.descend_mono dbl.nonneg) simp_all

lemma ease_scale_range: "flr \<le> 1 \<Longrightarrow> flr \<le> ease_scale flr t \<and> ease_scale flr t \<le> 1"
  unfolding ease_scale_def by (rule clamp_float_range)

lemma half_clamp: "1 / 2 \<le> clamp_float x (1 / 2) 1 \<and> clamp_float x (1 / 2) 1 \<le> 1"
  by (rule clamp_float_range) simp

definition cool_start_c :: "int \<Rightarrow> int \<Rightarrow> int" where
  "cool_start_c warn margin = warn - max 0 margin"

interpretation batch: derate_curve "\<lambda>x. thermal_batch_scale x warn limit min_scale margin"
  "\<lambda>x. ease_scale (clamp_float min_scale (1 / 2) 1)
      (fdivi (x - cool_start_c warn margin) (max (warn + 1) limit - cool_start_c warn margin))"
  "\<lambda>x. x \<le> 0 \<or> x \<le> cool_start_c warn margin" "\<lambda>x. max (warn + 1) limit \<le> x"
  1 "clamp_float min_scale (1 / 2) 1"
proof
  show "ease_scale (clamp_float min_scale (1 / 2) 1)
      (fdivi (y - cool_start_c warn margin) (max (warn + 1) limit - cool_start_c warn margin))
    \<le> ease_scale (clamp_float min_scale (1 / 2) 1)
      (fdivi (x - cool_start_c warn margin) (max (warn + 1) limit - cool_start_c warn margin))"
    if "x \<le> y" for x y
    using that half_clamp by (intro ease_scale_falls fdivi_mono) (auto simp: cool_start_c_def)
qed (use half_clamp ease_scale_range in \<open>auto simp: thermal_batch_scale_def cool_start_c_def Let_def\<close>)

text \<open>
  The thermal batch scale is a safe derating curve for every setting: it stays between its
  floor (at least one half) and 1, it is 1 up to the cool margin, it is the floor at the maximum
  temperature, and a hotter GPU never gets a larger scale.
\<close>

theorem thermal_batch_scale_curve:
  "(let s = thermal_batch_scale t warn limit min_scale margin; f = clamp_float min_scale (1 / 2) 1 in
     1 / 2 \<le> f \<and> f \<le> s \<and> s \<le> 1
     \<and> (t \<le> warn - max 0 margin \<longrightarrow> s = 1)
     \<and> (0 < t \<and> max (warn + 1) limit \<le> t \<longrightarrow> s = f))
   \<and> (t \<le> t' \<longrightarrow> thermal_batch_scale t' warn limit min_scale margin
                 \<le> thermal_batch_scale t warn limit min_scale margin)"
  using batch.curve_range [of min_scale t warn limit margin] batch.curve_falls [of t t' warn limit min_scale margin]
    batch.curve_full [of t warn margin limit min_scale] batch.curve_hard [of t warn margin limit min_scale] half_clamp [of min_scale]
  by (auto simp: Let_def cool_start_c_def)

theorem thermal_batch_scale_curve_witness:
  "thermal_batch_scale 95 80 90 (7 / 10) 5 = 7 / 10 \<and> thermal_batch_scale 60 80 90 (7 / 10) 5 = 1"
proof -
  have "clamp_float (7 / 10) (1 / 2) 1 = 7 / 10" by code_simp
  then show ?thesis
    using thermal_batch_scale_curve [of 95 80 90 "7 / 10" 5 95] thermal_batch_scale_curve [of 60 80 90 "7 / 10" 5 60]
    by (simp add: Let_def)
qed

interpretation pressure: derate_curve "\<lambda>x. vram_pressure_scale x target emergency min_scale slack"
  "\<lambda>x. ease_scale (clamp_float min_scale (1 / 2) 1)
      (fdivi (max 0 x - (max 1 target + max 0 slack))
         (max (max 1 target + 1) emergency - (max 1 target + max 0 slack)))"
  "\<lambda>x. max 0 x \<le> max 1 target + max 0 slack" "\<lambda>x. max (max 1 target + 1) emergency \<le> max 0 x"
  1 "clamp_float min_scale (1 / 2) 1"
proof
  let ?flr = "clamp_float min_scale (1 / 2) 1"
  let ?start = "max 1 target + max 0 slack" and ?stop = "max (max 1 target + 1) emergency"
  show "ease_scale ?flr (fdivi (max 0 y - ?start) (?stop - ?start))
      \<le> ease_scale ?flr (fdivi (max 0 x - ?start) (?stop - ?start))"
    if "x \<le> y" "\<not> max 0 x \<le> ?start" "\<not> ?stop \<le> max 0 y" for x y
    using that half_clamp by (intro ease_scale_falls fdivi_mono) auto
qed (use half_clamp ease_scale_range in \<open>auto simp: vram_pressure_scale_def Let_def\<close>)

text \<open>
  The soft reaction to memory pressure is a safe derating curve for every setting: the batch
  scale stays between one half and 1 and never grows when more memory is in use, it is 1 at or
  below the target; and the lane cap stays between one lane and the plan and falls likewise.
\<close>

theorem vram_pressure_curve:
  "(let s = vram_pressure_scale used target emergency min_scale slack in 1 / 2 \<le> s \<and> s \<le> 1)
   \<and> (used \<le> target \<longrightarrow> vram_pressure_scale used target emergency min_scale slack = 1)
   \<and> (used \<le> used' \<longrightarrow> vram_pressure_scale used' target emergency min_scale slack
                       \<le> vram_pressure_scale used target emergency min_scale slack)
   \<and> (let cap = vram_pressure_lane_cap planned used target emergency min_lanes in
        1 \<le> cap \<and> cap \<le> max 1 planned)
   \<and> (used \<le> used' \<longrightarrow> vram_pressure_lane_cap planned used' target emergency min_lanes
                       \<le> vram_pressure_lane_cap planned used target emergency min_lanes)"
proof -
  let ?p = "max 1 planned" and ?flr = "clamp_int min_lanes 1 (max 1 planned)"
  let ?s = "\<lambda>u. vram_pressure_scale u target emergency (1 / 2) 0"
  let ?t = "\<lambda>u. clamp_float (fl (fl (1 - ?s u) / (1 / 2))) 0 1"
  let ?c = "\<lambda>u. clamp_int (ease_int ?p ?flr (?t u)) ?flr ?p"
  have flr: "1 \<le> ?flr" "?flr \<le> ?p" using clamp_int_range [of 1 ?p min_lanes] by auto
  have cap: "vram_pressure_lane_cap planned u target emergency min_lanes
      = (if ?p \<le> ?flr then ?p else if fl (999 / 1000) \<le> ?s u then ?p else ?c u)" for u
    by (simp add: vram_pressure_lane_cap_def Let_def)
  have c: "?flr \<le> ?c u \<and> ?c u \<le> ?p" for u using clamp_int_range [OF flr(2)] by blast
  have mono: "?c v \<le> ?c u \<and> ?s v \<le> ?s u" if "u \<le> v" for u v
  proof -
    have s: "?s v \<le> ?s u" using that by (rule pressure.curve_falls)
    then have "?t u \<le> ?t v" by (intro clamp_float_mono fl_mono divide_right_mono) simp_all
    with s flr show ?thesis by (auto intro!: clamp_int_mono ease_int_falls)
  qed
  have "vram_pressure_lane_cap planned used' target emergency min_lanes
      \<le> vram_pressure_lane_cap planned used target emergency min_lanes" if "used \<le> used'"
    using mono [OF that] c [of used] c [of used'] unfolding cap by (auto split: if_splits)
  moreover have "1 \<le> vram_pressure_lane_cap planned used target emergency min_lanes
      \<and> vram_pressure_lane_cap planned used target emergency min_lanes \<le> ?p"
    using c [of used] flr unfolding cap by auto
  ultimately show ?thesis
    using pressure.curve_range [of min_scale used target emergency slack] half_clamp [of min_scale]
      pressure.curve_falls [of used used' target emergency min_scale slack]
      pressure.curve_full [of used target slack emergency min_scale]
    by (auto simp: Let_def)
qed

theorem vram_pressure_curve_witness:
  "vram_pressure_scale 30000 22528 30252 (55 / 100) 0 \<le> vram_pressure_scale 24000 22528 30252 (55 / 100) 0
   \<and> vram_pressure_scale 20000 22528 30252 (55 / 100) 0 = 1"
  using vram_pressure_curve [of 24000 22528 30252 "55 / 100" 0 30000 4 1]
    vram_pressure_curve [of 20000 22528 30252 "55 / 100" 0 30000 4 1] by simp

definition derate_start_c :: "int \<Rightarrow> int \<Rightarrow> int \<Rightarrow> int" where
  "derate_start_c warn cool_margin start_margin = max (warn - max 0 cool_margin) (warn - max 0 start_margin)"

lemma lane_floor: "1 \<le> clamp_int m 1 (max 1 p)" "clamp_int m 1 (max 1 p) \<le> max 1 p"
  using clamp_int_range [of 1 "max 1 p" m] by auto

interpretation lanes: derate_curve
  "\<lambda>x. thermal_lane_cap planned x warn limit min_lanes cool_margin start_margin"
  "\<lambda>x. clamp_int (ease_int (max 1 planned) (clamp_int min_lanes 1 (max 1 planned))
      (clamp_float (fdivi (x - derate_start_c warn cool_margin start_margin)
         (max (warn + 1) limit - derate_start_c warn cool_margin start_margin)) 0 1))
      (clamp_int min_lanes 1 (max 1 planned)) (max 1 planned)"
  "\<lambda>x. max 1 planned \<le> clamp_int min_lanes 1 (max 1 planned) \<or> x \<le> 0
      \<or> x \<le> derate_start_c warn cool_margin start_margin"
  "\<lambda>x. max (warn + 1) limit \<le> x" "max 1 planned" "clamp_int min_lanes 1 (max 1 planned)"
proof
  let ?p = "max 1 planned" and ?flr = "clamp_int min_lanes 1 (max 1 planned)"
  let ?d = "derate_start_c warn cool_margin start_margin" and ?h = "max (warn + 1) limit"
  show "thermal_lane_cap planned x warn limit min_lanes cool_margin start_margin =
      (if ?p \<le> ?flr \<or> x \<le> 0 \<or> x \<le> ?d then ?p else if ?h \<le> x then ?flr
       else clamp_int (ease_int ?p ?flr (clamp_float (fdivi (x - ?d) (?h - ?d)) 0 1)) ?flr ?p)" for x
    unfolding thermal_lane_cap_def Let_def derate_start_c_def by (auto simp del: max.bounded_iff)
  show "?flr \<le> ?p" by (rule lane_floor)
  show "?flr \<le> clamp_int (ease_int ?p ?flr t) ?flr ?p \<and> clamp_int (ease_int ?p ?flr t) ?flr ?p \<le> ?p" for t
    by (rule clamp_int_range) (rule lane_floor)
  show "clamp_int (ease_int ?p ?flr (clamp_float (fdivi (y - ?d) (?h - ?d)) 0 1)) ?flr ?p
      \<le> clamp_int (ease_int ?p ?flr (clamp_float (fdivi (x - ?d) (?h - ?d)) 0 1)) ?flr ?p"
    if "x \<le> y" "\<not> (?p \<le> ?flr \<or> x \<le> 0 \<or> x \<le> ?d)" "\<not> ?h \<le> y" for x y
    using that lane_floor by (intro clamp_int_mono ease_int_falls clamp_float_mono fdivi_mono) auto
qed auto

text \<open>
  The live lane cap under heat keeps at least one lane and never exceeds the plan, keeps the
  whole plan below the start of the derating, is at its minimum from the maximum temperature on,
  and never rises when the GPU gets hotter.
\<close>

theorem thermal_lane_cap_curve:
  "(let cap = thermal_lane_cap planned t warn limit min_lanes cool_margin start_margin;
        least = clamp_int min_lanes 1 (max 1 planned) in
     1 \<le> cap \<and> cap \<le> max 1 planned
     \<and> (t \<le> derate_start_c warn cool_margin start_margin \<longrightarrow> cap = max 1 planned)
     \<and> (0 < t \<and> max (warn + 1) limit \<le> t \<longrightarrow> cap = least))
   \<and> (t \<le> t' \<longrightarrow> thermal_lane_cap planned t' warn limit min_lanes cool_margin start_margin
                 \<le> thermal_lane_cap planned t warn limit min_lanes cool_margin start_margin)"
proof -
  let ?cap = "thermal_lane_cap planned t warn limit min_lanes cool_margin start_margin"
  let ?least = "clamp_int min_lanes 1 (max 1 planned)"
  have d: "derate_start_c warn cool_margin start_margin < max (warn + 1) limit"
    unfolding derate_start_c_def by linarith
  have range: "?least \<le> ?cap" "?cap \<le> max 1 planned" using lanes.curve_range by blast+
  then have "1 \<le> ?cap" using lane_floor(1) [of min_lanes planned] by linarith
  moreover have "t \<le> derate_start_c warn cool_margin start_margin \<Longrightarrow> ?cap = max 1 planned"
    by (rule lanes.curve_full) blast
  moreover have "?cap = ?least" if t: "0 < t" "max (warn + 1) limit \<le> t"
  proof (cases "max 1 planned \<le> ?least")
    case False
    have "\<not> t \<le> derate_start_c warn cool_margin start_margin" using t d by linarith
    with False t show ?thesis by (intro lanes.curve_hard) simp_all
  next
    case True
    with range show ?thesis by linarith
  qed
  ultimately show ?thesis unfolding Let_def using range lanes.curve_falls by blast
qed

theorem thermal_lane_cap_curve_witness:
  "thermal_lane_cap 4 60 80 90 1 8 3 = 4 \<and> thermal_lane_cap 4 91 80 90 1 8 3 = 1"
proof -
  have "clamp_int 1 1 (max 1 4) = 1" "derate_start_c 80 8 3 = 77" by code_simp+
  then show ?thesis
    using thermal_lane_cap_curve [of 4 60 80 90 1 8 3 60] thermal_lane_cap_curve [of 4 91 80 90 1 8 3 91]
    by (simp add: Let_def)
qed

definition full_pack_limit :: "int \<Rightarrow> pyfloat \<Rightarrow> int" where
  "full_pack_limit ref ratio = max 1 (py_int (fl (fint ref * max (fl (5 / 100)) (min (fl (95 / 100)) ratio))))"

interpretation bias: derate_curve "\<lambda>x. difficulty_lane_bias planned x ref ratio"
  "\<lambda>x. clamp_int (ease_int (max 1 planned) 1 (clamp_float (fdivi (x - full_pack_limit ref ratio)
      (ref - full_pack_limit ref ratio)) 0 1)) 1 (max 1 planned)"
  "\<lambda>x. max 1 planned \<le> 1 \<or> ref \<le> 0 \<or> x \<le> 0 \<or> (x < ref \<and> x \<le> full_pack_limit ref ratio)"
  "\<lambda>x. ref \<le> x \<or> ref \<le> full_pack_limit ref ratio" "max 1 planned" 1
proof
  show "difficulty_lane_bias planned x ref ratio =
      (if max 1 planned \<le> 1 \<or> ref \<le> 0 \<or> x \<le> 0 \<or> (x < ref \<and> x \<le> full_pack_limit ref ratio) then max 1 planned
       else if ref \<le> x \<or> ref \<le> full_pack_limit ref ratio then 1
       else clamp_int (ease_int (max 1 planned) 1 (clamp_float (fdivi (x - full_pack_limit ref ratio)
          (ref - full_pack_limit ref ratio)) 0 1)) 1 (max 1 planned))" for x
  proof -
    define p where "p = max 1 planned"
    show ?thesis unfolding difficulty_lane_bias_def Let_def full_pack_limit_def [symmetric] p_def [symmetric]
      by auto
  qed
  show "1 \<le> clamp_int v 1 (max 1 planned) \<and> clamp_int v 1 (max 1 planned) \<le> max 1 planned" for v
    by (rule clamp_int_range) simp
  show "clamp_int (ease_int (max 1 planned) 1 (clamp_float (fdivi (y - full_pack_limit ref ratio)
          (ref - full_pack_limit ref ratio)) 0 1)) 1 (max 1 planned)
      \<le> clamp_int (ease_int (max 1 planned) 1 (clamp_float (fdivi (x - full_pack_limit ref ratio)
          (ref - full_pack_limit ref ratio)) 0 1)) 1 (max 1 planned)"
    if "x \<le> y" "\<not> (ref \<le> y \<or> ref \<le> full_pack_limit ref ratio)" for x y
    using that by (intro clamp_int_mono ease_int_falls clamp_float_mono fdivi_mono) auto
qed auto

lemma difficulty_lane_bias_range:
  "1 \<le> difficulty_lane_bias planned d ref ratio \<and> difficulty_lane_bias planned d ref ratio \<le> max 1 planned"
  using bias.curve_range by blast

lemma difficulty_lane_bias_falls:
  "d \<le> d' \<Longrightarrow> difficulty_lane_bias planned d' ref ratio \<le> difficulty_lane_bias planned d ref ratio"
  by (rule bias.curve_falls)

subsection \<open>Power against difficulty\<close>

lemma fint_small: "\<bar>n\<bar> \<le> 2 ^ 53 \<Longrightarrow> fint n = of_int n"
  unfolding fint_def by (rule fl_of_int)

lemma ease_int_range:
  assumes "b \<le> a" "0 \<le> t" "t \<le> 1" "\<bar>a\<bar> \<le> 2 ^ 52" "\<bar>b\<bar> \<le> 2 ^ 52"
  shows "b \<le> ease_int a b t \<and> ease_int a b t \<le> a"
proof -
  have e: "fint a = of_int a" "fint (a - b) = of_int (a - b)" "fl (of_int b) = of_int b"
    "fl (of_int (a - b)) = of_int (a - b)" "fl (of_int a) = of_int a"
  proof -
    have "\<bar>a\<bar> \<le> 2 ^ 53" "\<bar>b\<bar> \<le> 2 ^ 53" "\<bar>a - b\<bar> \<le> 2 ^ 53"
      using assms by (auto simp: abs_le_iff)
    then show "fint a = of_int a" "fint (a - b) = of_int (a - b)" "fl (of_int b) = of_int b"
      "fl (of_int (a - b)) = of_int (a - b)" "fl (of_int a) = of_int a"
      by (simp_all only: fint_small fl_of_int)
  qed
  let ?x = "fl (t * of_int (a - b))"
  have "0 \<le> ?x" using assms by (intro dbl.nonneg) simp
  moreover have "?x \<le> of_int (a - b)"
    using assms e(4) by (intro dbl.le_of) (auto intro: mult_left_le_one_le)
  ultimately have "of_int b \<le> of_int a - ?x" "of_int a - ?x \<le> of_int a" by simp_all
  then have "of_int b \<le> fl (of_int a - ?x)" "fl (of_int a - ?x) \<le> of_int a"
    using e by (auto intro: dbl.le_of dbl.ge_of)
  from this [THEN py_round_mono] show ?thesis by (simp add: ease_int_def e)
qed

lemma ramp_position_range: "0 \<le> ramp_position x w \<and> ramp_position x w \<le> 1"
  using clamp_float_range [of 0 1 "fdivi x w"] by (simp add: ramp_position_def)

lemma ramp_position_mono: "x \<le> y \<Longrightarrow> ramp_position x w \<le> ramp_position y w"
  by (simp add: ramp_position_def clamp_float_mono fdivi_mono)

lemma clamp_int_id: "lo \<le> x \<Longrightarrow> x \<le> hi \<Longrightarrow> clamp_int x lo hi = x"
  by (simp add: clamp_int_def)

lemma power_range:
  assumes "normalize_power_range b m 50 100 = (target, flr)"
  shows "50 \<le> flr" "flr \<le> target" "target \<le> 100"
  using assms by (auto simp: normalize_power_range_def Let_def clamp_int_def split: if_splits)

text \<open>
  The power target for a difficulty never leaves the configured range, which itself lies
  between 50 and 100 percent, is the full target up to the low difficulty, and never rises when
  the difficulty does.
\<close>

theorem difficulty_power_curve:
  "case normalize_power_range base_target_pct min_pct 50 100 of (target, flr) \<Rightarrow>
     50 \<le> flr \<and> target \<le> 100
     \<and> (let p = difficulty_power_target_pct base_target_pct d ref min_pct ratio low in
          flr \<le> p \<and> p \<le> target \<and> (d \<le> max 1 low \<longrightarrow> p = target))
     \<and> (d \<le> d' \<longrightarrow> difficulty_power_target_pct base_target_pct d' ref min_pct ratio low
                   \<le> difficulty_power_target_pct base_target_pct d ref min_pct ratio low)"
proof -
  obtain target flr where n: "normalize_power_range base_target_pct min_pct 50 100 = (target, flr)"
    by (metis surj_pair)
  note r = power_range [OF n]
  define low1 where "low1 = max 1 low"
  define ref1 where "ref1 = max low1 ref"
  define high where "high = max (ref1 + 1) (py_round (fl (fint ref1 * (if ratio > 1 then ratio else 2))))"
  define mid where "mid = clamp_int (py_round (fl (fint target - fl (fl (35 / 100) * fint (target - flr))))) flr target"
  define up where "up = (\<lambda>d. ease_int target mid (ramp_position (d - low1) (ref1 - low1)))"
  define dn where "dn = (\<lambda>d. ease_int mid flr (ramp_position (d - ref1) (high - ref1)))"
  have mid: "flr \<le> mid" "mid \<le> target" using clamp_int_range [OF r(2)] by (auto simp: mid_def)
  have up: "mid \<le> up d \<and> up d \<le> target" for d
    unfolding up_def using r mid ramp_position_range by (intro ease_int_range) auto
  have dn: "flr \<le> dn d \<and> dn d \<le> mid" for d
    unfolding dn_def using r mid ramp_position_range by (intro ease_int_range) auto
  have up_mono: "up d' \<le> up d" if "d \<le> d'" for d d'
    unfolding up_def using that mid by (intro ease_int_falls ramp_position_mono) auto
  have dn_mono: "dn d' \<le> dn d" if "d \<le> d'" for d d'
    unfolding dn_def using that mid by (intro ease_int_falls ramp_position_mono) auto
  have upc: "clamp_int (up d) flr target = up d" and dnc: "clamp_int (dn d) flr target = dn d" for d
    using up [of d] dn [of d] mid by (auto intro!: clamp_int_id)
  have p: "difficulty_power_target_pct base_target_pct d ref min_pct ratio low =
      (if d \<le> 0 \<or> ref \<le> 0 \<or> d \<le> low1 then target else if d \<le> ref1 then up d else dn d)" for d
  proof (cases "d \<le> 0 \<or> ref \<le> 0")
    case False
    then have "max 1 d = d" by simp
    have "difficulty_power_target_pct base_target_pct d ref min_pct ratio low =
      (if d \<le> 0 \<or> ref \<le> 0 then target else if d \<le> low1 then target
       else if d \<le> ref1 then clamp_int (up d) flr target else clamp_int (dn d) flr target)"
      unfolding difficulty_power_target_pct_def n Let_def prod.case low1_def [symmetric]
        ref1_def [symmetric] high_def [symmetric] mid_def [symmetric] \<open>max 1 d = d\<close> up_def dn_def by (rule refl)
    with False upc dnc show ?thesis by simp
  qed (auto simp: difficulty_power_target_pct_def n)
  have "flr \<le> difficulty_power_target_pct base_target_pct d ref min_pct ratio low
      \<and> difficulty_power_target_pct base_target_pct d ref min_pct ratio low \<le> target"
    using up [of d] dn [of d] mid unfolding p by auto
  moreover have "difficulty_power_target_pct base_target_pct d' ref min_pct ratio low
      \<le> difficulty_power_target_pct base_target_pct d ref min_pct ratio low" if "d \<le> d'"
    using up [of d] dn [of d'] up [of d'] mid up_mono [OF that] dn_mono [OF that] that
    unfolding p by (auto split: if_splits)
  moreover have "d \<le> max 1 low \<longrightarrow> difficulty_power_target_pct base_target_pct d ref min_pct ratio low = target"
    unfolding p low1_def by simp
  ultimately show ?thesis using r unfolding n prod.case Let_def by blast
qed

theorem difficulty_power_curve_witness:
  "difficulty_power_target_pct 100 90000 60000 75 2 100 \<le> difficulty_power_target_pct 100 50 60000 75 2 100
   \<and> difficulty_power_target_pct 100 50 60000 75 2 100 = 100"
proof -
  have n: "normalize_power_range 100 75 50 100 = (100, 75)" by code_simp
  show ?thesis
    using difficulty_power_curve [where base_target_pct = 100 and min_pct = 75 and d = 50
        and d' = 90000 and ref = 60000 and ratio = 2 and low = 100] unfolding n prod.case Let_def by simp
qed

subsection \<open>The heat proxy\<close>

lemma heat_proxy_fraction:
  "0 \<le> m \<Longrightarrow> 0 \<le> py_round (fl (clamp_float t 0 1 * fint m)) \<and> (m \<le> 2 ^ 53 \<longrightarrow> py_round (fl (clamp_float t 0 1 * fint m)) \<le> m)"
proof -
  assume m: "0 \<le> m"
  have c: "0 \<le> clamp_float t 0 1" "clamp_float t 0 1 \<le> 1" using clamp_float_range [of 0 1 t] by auto
  have f: "0 \<le> fint m" using m by (rule fint_nonneg)
  have "0 \<le> fl (clamp_float t 0 1 * fint m)" using c f by (intro dbl.nonneg) simp
  then have 1: "py_round 0 \<le> py_round (fl (clamp_float t 0 1 * fint m))" by (rule py_round_mono)
  have "clamp_float t 0 1 * fint m \<le> fint m" using c f by (simp add: mult_left_le_one_le)
  then have "fl (clamp_float t 0 1 * fint m) \<le> fint m" by (intro dbl.le_of) simp_all
  then have 2: "py_round (fl (clamp_float t 0 1 * fint m)) \<le> py_round (fint m)" by (rule py_round_mono)
  have "m \<le> 2 ^ 53 \<Longrightarrow> py_round (fint m) = m" using m by (simp add: fint_small)
  with 1 2 show ?thesis using py_round_of_int [of 0] by auto
qed

text \<open>
  The temperature that controls the miner is the measured one plus a proxy for the heat of a
  high difficulty: never below the measured temperature, never above it by more than the
  configured number of degrees, and rising with the difficulty (for ratios that are floats).
\<close>

theorem effective_temp_bounds:
  assumes "0 < measured" "0 \<le> max_tighten" "max_tighten \<le> 2 ^ 53" "d \<le> d'"
  shows "measured \<le> effective_control_temp_c measured d ref start_ratio full_ratio max_tighten
    \<and> effective_control_temp_c measured d ref start_ratio full_ratio max_tighten \<le> measured + max_tighten
    \<and> effective_control_temp_c measured d ref start_ratio full_ratio max_tighten
        \<le> effective_control_temp_c measured d' ref start_ratio full_ratio max_tighten"
proof -
  define start where "start = fl (fint ref * max 1 start_ratio)"
  define full where "full = fl (fint ref * max (fl (start_ratio + fl (1 / 100))) full_ratio)"
  define t where "t = (\<lambda>d. fl (fl (fint d - start) / fl (full - start)))"
  define p where "p = (\<lambda>d. py_round (fl (clamp_float (t d) 0 1 * fint max_tighten)))"
  let ?h = "\<lambda>d. high_diff_temp_tighten_c d ref start_ratio full_ratio max_tighten"
  have h: "?h d = (if d \<le> 0 \<or> ref \<le> 0 \<or> max_tighten \<le> 0 then 0 else if of_int d \<le> start then 0
      else if full \<le> of_int d then max_tighten else p d)" for d
    by (simp add: high_diff_temp_tighten_c_def Let_def start_def full_def t_def p_def)
  have p: "0 \<le> p d \<and> p d \<le> max_tighten" for d
    using heat_proxy_fraction [OF assms(2), of "t d"] assms(3) by (simp add: p_def)
  have pm: "p d \<le> p d'" if "start < of_int d'" "of_int d' < full"
  proof -
    have "0 \<le> fl (full - start)" using that by (intro dbl.nonneg) linarith
    then have "t d \<le> t d'"
      unfolding t_def using assms(4) by (intro fl_mono divide_right_mono) (auto intro: fl_mono fint_mono diff_right_mono)
    then show ?thesis unfolding p_def
      using fint_nonneg [OF assms(2)] by (intro py_round_mono dbl.mult_mono_left clamp_float_mono)
  qed
  have dd: "(of_int d :: rat) \<le> of_int d'" using assms(4) by simp
  have "?h d \<le> ?h d'"
    using p [of d] p [of d'] pm assms(2,4) dd unfolding h by (auto split: if_splits)
  moreover have "0 \<le> ?h d \<and> ?h d \<le> max_tighten" using p [of d] assms(2) unfolding h by auto
  ultimately show ?thesis using assms(1) by (simp add: effective_control_temp_c_def)
qed

theorem effective_temp_bounds_witness:
  "effective_control_temp_c 70 150000 60000 (3 / 2) 2 10 \<le> 80"
  using effective_temp_bounds [of 70 10 150000 150000 60000 "3 / 2" 2] by simp

end
