(* ===== verification/VramPolicy.thy ===== *)
theory VramPolicy
  imports ThermalPolicy Models
begin

text \<open>
  Memory limits of a GPU: the percentages turned into MiB (\<open>efficiency/vram_policy.py\<close>), the
  live budget (\<open>efficiency/vram_budget.py\<close>) and the lane manager that follows it
  (\<open>efficiency/lane_manager.py\<close>).  The keyword arguments of \<open>resolve_vram_caps\<close> are the record
  \<open>vram_limits\<close>; the backend is the number of lanes it was last set to.
\<close>

subsection \<open>Caps\<close>

record vram_caps =
  vc_total_mib :: int
  vc_target_mib :: int
  vc_headroom_mib :: int
  vc_emergency_mib :: int
  vc_min_headroom_mib :: int
  vc_runtime_overhead_mib :: int
  vc_target_pct :: pyfloat
  vc_headroom_pct :: pyfloat
  vc_emergency_pct :: pyfloat
  vc_min_headroom_pct :: pyfloat
  vc_overhead_pct :: pyfloat

record vram_limits =
  vl_target_pct :: pyfloat
  vl_desktop_headroom_pct :: pyfloat
  vl_emergency_vram_pct :: pyfloat
  vl_min_headroom_pct :: pyfloat
  vl_runtime_overhead_pct :: pyfloat
  vl_min_headroom_floor_mib :: int
  vl_overhead_floor_mib :: int
  vl_emergency_free_floor_mib :: int
  vl_target_mib_override :: int
  vl_headroom_mib_override :: int
  vl_emergency_mib_override :: int
  vl_min_headroom_mib_override :: int
  vl_runtime_overhead_mib_override :: int

definition reference_pct :: "int \<Rightarrow> pyfloat" where
  "reference_pct mib = fl (fl (100 * fint mib) / fint 32607)"

definition default_limits :: vram_limits where
  "default_limits = \<lparr>vl_target_pct = reference_pct 22528, vl_desktop_headroom_pct = reference_pct 8192,
     vl_emergency_vram_pct = reference_pct 30252, vl_min_headroom_pct = reference_pct 1200,
     vl_runtime_overhead_pct = reference_pct 2048, vl_min_headroom_floor_mib = 512,
     vl_overhead_floor_mib = 256, vl_emergency_free_floor_mib = 256, vl_target_mib_override = 0,
     vl_headroom_mib_override = 0, vl_emergency_mib_override = 0, vl_min_headroom_mib_override = 0,
     vl_runtime_overhead_mib_override = 0\<rparr>"

definition clamp_pct :: "pyfloat \<Rightarrow> pyfloat" where
  "clamp_pct value = max 0 (min 100 value)"

definition mib_of_pct :: "int \<Rightarrow> pyfloat \<Rightarrow> int \<Rightarrow> int" where
  "mib_of_pct tot pct override =
     (if override > 0 then override else py_int (fl (fl (fint tot * pct) / 100)))"

definition resolve_vram_caps :: "int \<Rightarrow> vram_limits \<Rightarrow> vram_caps" where
  "resolve_vram_caps card_mib l =
     (let tot = max 1 card_mib;
          t_pct = clamp_pct (vl_target_pct l);
          h_pct = clamp_pct (vl_desktop_headroom_pct l);
          e_pct = clamp_pct (vl_emergency_vram_pct l);
          m_pct = clamp_pct (vl_min_headroom_pct l);
          o_pct = clamp_pct (vl_runtime_overhead_pct l);
          target0 = mib_of_pct tot t_pct (vl_target_mib_override l);
          headroom0 = mib_of_pct tot h_pct (vl_headroom_mib_override l);
          emergency0 = mib_of_pct tot e_pct (vl_emergency_mib_override l);
          min_head0 = mib_of_pct tot m_pct (vl_min_headroom_mib_override l);
          overhead0 = mib_of_pct tot o_pct (vl_runtime_overhead_mib_override l);
          headroom = max (vl_min_headroom_floor_mib l) (min headroom0 (max 0 (tot - 1)));
          min_head = max (vl_min_headroom_floor_mib l) (min min_head0 headroom);
          overhead1 = max (vl_overhead_floor_mib l) (min overhead0 (max 0 (tot div 2)));
          emergency1 = min emergency0 (max 0 (tot - vl_emergency_free_floor_mib l));
          emergency = max emergency1 min_head;
          target = max 0 (min target0 (max 0 (tot - headroom)));
          overhead = (if target > 0 then min overhead1 (max (vl_overhead_floor_mib l) (target div 2))
                      else overhead1)
      in \<lparr>vc_total_mib = tot, vc_target_mib = target, vc_headroom_mib = headroom,
          vc_emergency_mib = emergency, vc_min_headroom_mib = min_head,
          vc_runtime_overhead_mib = overhead, vc_target_pct = t_pct, vc_headroom_pct = h_pct,
          vc_emergency_pct = e_pct, vc_min_headroom_pct = m_pct, vc_overhead_pct = o_pct\<rparr>)"

lemma resolve_fields:
  "vc_total_mib (resolve_vram_caps n l) = max 1 n"
  "vc_headroom_mib (resolve_vram_caps n l) = max (vl_min_headroom_floor_mib l)
     (min (mib_of_pct (vc_total_mib (resolve_vram_caps n l)) (vc_headroom_pct (resolve_vram_caps n l))
            (vl_headroom_mib_override l)) (max 0 (vc_total_mib (resolve_vram_caps n l) - 1)))"
  "vc_min_headroom_mib (resolve_vram_caps n l) = max (vl_min_headroom_floor_mib l)
     (min (mib_of_pct (vc_total_mib (resolve_vram_caps n l)) (vc_min_headroom_pct (resolve_vram_caps n l))
            (vl_min_headroom_mib_override l)) (vc_headroom_mib (resolve_vram_caps n l)))"
  "vc_target_mib (resolve_vram_caps n l) = max 0
     (min (mib_of_pct (vc_total_mib (resolve_vram_caps n l)) (vc_target_pct (resolve_vram_caps n l))
            (vl_target_mib_override l))
       (max 0 (vc_total_mib (resolve_vram_caps n l) - vc_headroom_mib (resolve_vram_caps n l))))"
  "vc_emergency_mib (resolve_vram_caps n l) = max
     (min (mib_of_pct (vc_total_mib (resolve_vram_caps n l)) (vc_emergency_pct (resolve_vram_caps n l))
            (vl_emergency_mib_override l))
       (max 0 (vc_total_mib (resolve_vram_caps n l) - vl_emergency_free_floor_mib l)))
     (vc_min_headroom_mib (resolve_vram_caps n l))"
  "vc_runtime_overhead_mib (resolve_vram_caps n l) =
     (let o1 = max (vl_overhead_floor_mib l)
        (min (mib_of_pct (vc_total_mib (resolve_vram_caps n l)) (vc_overhead_pct (resolve_vram_caps n l))
               (vl_runtime_overhead_mib_override l)) (max 0 (vc_total_mib (resolve_vram_caps n l) div 2)))
      in if vc_target_mib (resolve_vram_caps n l) > 0
         then min o1 (max (vl_overhead_floor_mib l) (vc_target_mib (resolve_vram_caps n l) div 2)) else o1)"
  by (simp_all only: resolve_vram_caps_def Let_def vram_caps.simps)

text \<open>
  On any card that is larger than the two floors and for any percentages and overrides, the
  resolved caps are consistent: the target and the desktop headroom fit the card together, the
  least free memory is at most the headroom and at most the emergency limit, the emergency limit
  leaves its free floor or is the least free memory, the overhead is at most half of the card or
  its floor, and a card with a target keeps half of it for batches unless the floor is larger.
\<close>

theorem resolved_caps_consistent:
  assumes "vl_min_headroom_floor_mib l < card_mib" "0 \<le> vl_min_headroom_floor_mib l"
    and "c = resolve_vram_caps card_mib l"
  shows "0 \<le> vc_target_mib c \<and> vc_target_mib c + vc_headroom_mib c \<le> vc_total_mib c
    \<and> vl_min_headroom_floor_mib l \<le> vc_min_headroom_mib c
    \<and> vc_min_headroom_mib c \<le> vc_headroom_mib c
    \<and> vc_min_headroom_mib c \<le> vc_emergency_mib c
    \<and> (vc_emergency_mib c \<le> max 0 (vc_total_mib c - vl_emergency_free_floor_mib l)
        \<or> vc_emergency_mib c = vc_min_headroom_mib c)
    \<and> vc_runtime_overhead_mib c \<le> max (vl_overhead_floor_mib l) (vc_total_mib c div 2)
    \<and> (0 < vc_target_mib c \<longrightarrow>
        vc_runtime_overhead_mib c \<le> max (vl_overhead_floor_mib l) (vc_target_mib c div 2))"
proof -
  note f = resolve_fields [of card_mib l, folded assms(3)]
  define lo fl_oh fl_em where "lo = vl_min_headroom_floor_mib l" and "fl_oh = vl_overhead_floor_mib l"
    and "fl_em = vl_emergency_free_floor_mib l"
  define tot where "tot = vc_total_mib c"
  define tg hr mh oh em where "tg = vc_target_mib c" and "hr = vc_headroom_mib c"
    and "mh = vc_min_headroom_mib c" and "oh = vc_runtime_overhead_mib c" and "em = vc_emergency_mib c"
  have tot: "lo < tot" "1 \<le> tot" using assms(1) f(1) by (simp_all add: lo_def tot_def)
  have hr: "hr \<le> tot - 1" "lo \<le> hr" using f(2) tot by (auto simp: hr_def lo_def tot_def)
  have mh: "lo \<le> mh" "mh \<le> hr" using f(3) hr by (auto simp: mh_def lo_def hr_def)
  have tg: "0 \<le> tg" "tg \<le> tot - hr" using f(4) hr by (auto simp: tg_def tot_def hr_def)
  have em: "mh \<le> em" "em \<le> max 0 (tot - fl_em) \<or> em = mh"
    using f(5) unfolding em_def [symmetric] mh_def [symmetric] tot_def [symmetric] fl_em_def [symmetric]
    by linarith+
  define o1 where "o1 = max fl_oh (min (mib_of_pct tot (vc_overhead_pct c) (vl_runtime_overhead_mib_override l))
      (max 0 (tot div 2)))"
  have o1: "o1 \<le> max fl_oh (tot div 2)" using tot unfolding o1_def by linarith
  have oh: "oh = (if tg > 0 then min o1 (max fl_oh (tg div 2)) else o1)"
    using f(6) unfolding oh_def tg_def o1_def tot_def fl_oh_def Let_def .
  have "oh \<le> max fl_oh (tot div 2)" "0 < tg \<Longrightarrow> oh \<le> max fl_oh (tg div 2)"
    using o1 unfolding oh by (auto intro: min.coboundedI1)
  moreover have "tg + hr \<le> tot" using tg by linarith
  ultimately show ?thesis using tg(1) mh em
    unfolding tg_def hr_def mh_def em_def oh_def tot_def lo_def fl_oh_def fl_em_def by blast
qed

theorem resolved_caps_consistent_witness:
  "vc_target_mib (resolve_vram_caps 32607 default_limits) + vc_headroom_mib (resolve_vram_caps 32607 default_limits)
     \<le> 32607"
proof -
  have "vc_total_mib (resolve_vram_caps 32607 default_limits) = 32607"
    by (simp add: resolve_fields(1))
  then show ?thesis
    using resolved_caps_consistent [OF _ _ refl, of default_limits 32607] by (simp add: default_limits_def)
qed

subsection \<open>Budget and lanes\<close>

record vram_budget =
  vb_target_mib :: int
  vb_headroom_mib :: int

definition over_budget :: "vram_budget \<Rightarrow> gpu_snapshot option \<Rightarrow> bool" where
  "over_budget b snap = (case snap of None \<Rightarrow> False | Some g \<Rightarrow> used_mib g > vb_target_mib b)"

definition can_add_lane :: "vram_budget \<Rightarrow> gpu_snapshot option \<Rightarrow> int \<Rightarrow> bool" where
  "can_add_lane b snap est_lane_mib = (case snap of None \<Rightarrow> True
     | Some g \<Rightarrow> used_mib g + est_lane_mib \<le> vb_target_mib b \<and> headroom_mib g \<ge> vb_headroom_mib b)"

definition should_reduce :: "vram_budget \<Rightarrow> gpu_snapshot option \<Rightarrow> bool" where
  "should_reduce b snap = (case snap of None \<Rightarrow> False
     | Some g \<Rightarrow> used_mib g > vb_target_mib b \<or> headroom_mib g < vb_headroom_mib b div 2)"

record lane_manager =
  lm_budget :: vram_budget
  lm_lanes :: int
  lm_ramp_step :: int
  lm_enabled :: bool
  lm_backend_lanes :: "int option"

definition init_lane_manager :: "vram_budget \<Rightarrow> int \<Rightarrow> int \<Rightarrow> bool \<Rightarrow> lane_manager" where
  "init_lane_manager budget initial_lanes ramp_step enabled =
     \<lparr>lm_budget = budget, lm_lanes = max 1 initial_lanes, lm_ramp_step = max 1 ramp_step,
      lm_enabled = enabled, lm_backend_lanes = (if enabled then Some (max 1 initial_lanes) else None)\<rparr>"

definition set_lanes :: "int \<Rightarrow> lane_manager \<Rightarrow> lane_manager" where
  "set_lanes n m = m\<lparr>lm_lanes := n, lm_backend_lanes := Some n\<rparr>"

definition tune :: "gpu_snapshot option \<Rightarrow> lane_manager \<Rightarrow> lane_manager" where
  "tune gpu m =
     (if \<not> lm_enabled m then m
      else if should_reduce (lm_budget m) gpu then
        (let new_lanes = max 1 (lm_lanes m - lm_ramp_step m)
         in if new_lanes \<noteq> lm_lanes m then set_lanes new_lanes m else m)
      else if can_add_lane (lm_budget m) gpu 1024 then set_lanes (lm_lanes m + lm_ramp_step m) m
      else m)"

definition lanes_inv :: "lane_manager \<Rightarrow> bool" where
  "lanes_inv m \<longleftrightarrow> 1 \<le> lm_lanes m \<and> 1 \<le> lm_ramp_step m
     \<and> lm_backend_lanes m = (if lm_enabled m then Some (lm_lanes m) else None)"

lemma lanes_inv_init [intro]: "lanes_inv (init_lane_manager b n s e)"
  by (simp add: lanes_inv_def init_lane_manager_def)

lemma lanes_inv_tune: "lanes_inv m \<Longrightarrow> lanes_inv (tune gpu m)"
  by (auto simp: lanes_inv_def tune_def set_lanes_def Let_def)

lemma tune_step:
  assumes "lanes_inv m" "lm_enabled m"
  shows "lm_lanes m < lm_lanes (tune gpu m) \<Longrightarrow>
      can_add_lane (lm_budget m) gpu 1024 \<and> \<not> should_reduce (lm_budget m) gpu"
    and "lm_lanes (tune gpu m) < lm_lanes m \<Longrightarrow> should_reduce (lm_budget m) gpu"
  using assms by (auto simp: lanes_inv_def tune_def set_lanes_def Let_def split: if_splits)

lemma lanes_inv_run: "lanes_inv m \<Longrightarrow> lanes_inv (fold tune snaps m)"
  by (induction snaps arbitrary: m) (auto intro: lanes_inv_tune)

text \<open>
  Whatever the GPU reports, the lane manager keeps at least one lane and the backend runs the
  number of lanes the manager believes in; a step adds lanes only when the memory in use leaves
  room for one more under the target, and never while the budget asks for a reduction.
\<close>

theorem lane_manager_sound:
  "(let m = fold tune snaps (init_lane_manager budget initial ramp enabled);
        m' = tune gpu m in
     1 \<le> lm_lanes m \<and> lm_backend_lanes m = (if enabled then Some (lm_lanes m) else None)
     \<and> (lm_lanes m < lm_lanes m' \<longrightarrow> can_add_lane budget gpu 1024 \<and> \<not> should_reduce budget gpu)
     \<and> (lm_lanes m' < lm_lanes m \<longrightarrow> should_reduce budget gpu))"
proof -
  have e: "lm_enabled (fold tune snaps m) = lm_enabled m \<and> lm_budget (fold tune snaps m) = lm_budget m" for m
    by (induction snaps arbitrary: m) (auto simp: tune_def set_lanes_def Let_def)
  define m where "m = fold tune snaps (init_lane_manager budget initial ramp enabled)"
  have inv: "lanes_inv m" unfolding m_def by (intro lanes_inv_run lanes_inv_init)
  have m: "lm_enabled m = enabled" "lm_budget m = budget"
    using e [of "init_lane_manager budget initial ramp enabled"] by (simp_all add: m_def init_lane_manager_def)
  have "tune gpu m = m" if "\<not> enabled" using that m by (simp add: tune_def)
  with inv m tune_step [OF inv, of gpu] show ?thesis
    unfolding m_def [symmetric] Let_def lanes_inv_def by (cases enabled) auto
qed

theorem lane_manager_sound_witness:
  "1 \<le> lm_lanes (fold tune [None, None] (init_lane_manager \<lparr>vb_target_mib = 100, vb_headroom_mib = 10\<rparr> 0 2 True))"
  using lane_manager_sound [of "[None, None]" "\<lparr>vb_target_mib = 100, vb_headroom_mib = 10\<rparr>" 0 2 True None]
  unfolding Let_def by blast

end
