(* ===== verification/VramBatch.thy ===== *)
theory VramBatch
  imports VramPolicy
begin

text \<open>
  Sizing of a CUDA batch against the memory limits (\<open>mining/vram_batch.py\<close>): budgets, lane
  counts, batch sizes, the projection of a plan, and the loop that shrinks a plan until it fits.
  The loop of at most 10000 rounds is a recursion on the number of rounds left.
\<close>

subsection \<open>Budgets and sizes\<close>

definition cuda_engine_reserve_bytes :: int where
  "cuda_engine_reserve_bytes = 100 * 1024 * 1024"

definition default_absolute_max_lanes :: int where
  "default_absolute_max_lanes = 32"

definition clamp_fill_fraction :: "pyfloat \<Rightarrow> pyfloat" where
  "clamp_fill_fraction value = max (fl (40 / 100)) (min 1 value)"

definition bytes_per_attempt :: "int \<Rightarrow> pyfloat" where
  "bytes_per_attempt difficulty = fl (fl (fint difficulty * 1024) * fl (1001 / 1000))"

definition vram_budget_bytes :: "int \<Rightarrow> int \<Rightarrow> int \<Rightarrow> int \<Rightarrow> int" where
  "vram_budget_bytes all_bytes free_bytes target_mib desktop_headroom_mib =
     (let used = max 0 (all_bytes - free_bytes);
          target_b = target_mib * 1024 * 1024;
          headroom_b = desktop_headroom_mib * 1024 * 1024;
          under_target = max 0 (target_b - used);
          under_headroom = max 0 (free_bytes - headroom_b)
      in min under_target under_headroom)"

definition memory_limited_batch_size :: "int \<Rightarrow> int \<Rightarrow> int \<Rightarrow> int" where
  "memory_limited_batch_size free_vram_bytes difficulty reserve_bytes =
     (if difficulty \<le> 0 \<or> free_vram_bytes \<le> reserve_bytes then 0
      else
        (let available = fint (free_vram_bytes - reserve_bytes);
             per_attempt = bytes_per_attempt difficulty
         in if per_attempt \<le> 0 then 0 else py_int (fl (available / per_attempt))))"

definition pack_mode_of :: "string \<Rightarrow> string" where
  "pack_mode_of pack_mode = py_lower (py_strip (if pack_mode = [] then ''fill'' else pack_mode))"

definition cuda_lane_count :: "int \<Rightarrow> int \<Rightarrow> int \<Rightarrow> int \<Rightarrow> int \<Rightarrow> string \<Rightarrow> int" where
  "cuda_lane_count difficulty reference_difficulty max_lanes budget_bytes min_batch_per_lane pack_mode =
     (if max_lanes \<le> 1 \<or> reference_difficulty \<le> 0 \<or> difficulty \<le> 0 then 1
      else if difficulty \<ge> reference_difficulty then 1
      else
        (let cap = max 1 (min max_lanes default_absolute_max_lanes);
             mode = pack_mode_of pack_mode;
             min_bpl = max 1 min_batch_per_lane;
             boost = max 1 (reference_difficulty div difficulty) in
         if mode = ''boost'' \<or> budget_bytes \<le> 0 then max 1 (min cap boost)
         else
           (let dll_free_arg = budget_bytes + cuda_engine_reserve_bytes;
                total_attempts = memory_limited_batch_size dll_free_arg difficulty cuda_engine_reserve_bytes in
            if total_attempts \<le> 0 then 1
            else
              (let max_by_min_batch = max 1 (total_attempts div min_bpl);
                   packed = max boost max_by_min_batch
               in max 1 (min cap packed)))))"

definition vram_cap_batch_budget_bytes ::
    "int \<Rightarrow> int \<Rightarrow> int \<Rightarrow> int \<Rightarrow> int \<Rightarrow> int \<Rightarrow> int \<times> int" where
  "vram_cap_batch_budget_bytes all_bytes target_mib desktop_headroom_mib runtime_overhead_mib
       foreign_used_mib safety_margin_mib =
     (let card_mib = all_bytes div (1024 * 1024);
          effective_target_mib = target_mib;
          foreign = max 0 foreign_used_mib;
          margin = max 0 safety_margin_mib;
          overhead = max 0 runtime_overhead_mib + margin;
          cap_batch_mib = max 0 (effective_target_mib - foreign - overhead);
          headroom_limited_mib = max 0 (card_mib - desktop_headroom_mib - foreign - overhead);
          allowed_mib = min cap_batch_mib headroom_limited_mib
      in (allowed_mib * 1024 * 1024, effective_target_mib))"

definition estimate_foreign_vram_mib :: "int \<Rightarrow> int \<Rightarrow> int \<Rightarrow> int \<Rightarrow> int" where
  "estimate_foreign_vram_mib used_now batch_vram_mib runtime_overhead_mib desktop_baseline_mib =
     (let used = max 0 used_now;
          minerish = max 0 batch_vram_mib + max 0 runtime_overhead_mib;
          inferred = max 0 (used - minerish);
          baseline = max 0 desktop_baseline_mib
      in max baseline inferred)"

definition recommended_batch_size :: "int \<Rightarrow> int" where
  "recommended_batch_size difficulty =
     (if difficulty \<le> 1 then 2048 else if difficulty \<le> 8 then 4096 else if difficulty \<le> 64 then 3072
      else 0)"

definition select_batch_size :: "int \<Rightarrow> int \<Rightarrow> int \<Rightarrow> bool \<Rightarrow> int" where
  "select_batch_size budget_bytes difficulty explicit_max_batch fill_vram_cap =
     (let dll_free_arg = budget_bytes + cuda_engine_reserve_bytes;
          memory_limit = memory_limited_batch_size dll_free_arg difficulty cuda_engine_reserve_bytes in
      if memory_limit \<le> 0 then 0
      else if explicit_max_batch > 0 then min memory_limit explicit_max_batch
      else if \<not> fill_vram_cap \<and> recommended_batch_size difficulty > 0
        then min memory_limit (recommended_batch_size difficulty)
      else memory_limit)"

definition estimate_batch_vram_bytes :: "int \<Rightarrow> int \<Rightarrow> int" where
  "estimate_batch_vram_bytes batch_size difficulty =
     (if batch_size \<le> 0 \<or> difficulty \<le> 0 then 0
      else py_int (fl (fint batch_size * bytes_per_attempt difficulty)))"

subsection \<open>Plans\<close>

record cuda_vram_plan =
  vp_lanes :: int
  vp_batch_per_lane :: int
  vp_lane_reserve :: int
  vp_budget_bytes :: int
  vp_budget_mib :: int
  vp_batch_vram_bytes :: int
  vp_batch_vram_mib :: int
  vp_used_before_mib :: int
  vp_projected_used_mib :: int
  vp_projected_headroom_mib :: int
  vp_runtime_overhead_mib :: int
  vp_target_mib :: int
  vp_effective_target_mib :: int
  vp_vram_scale :: pyfloat
  vp_desktop_headroom_mib :: int
  vp_difficulty :: int
  vp_foreign_used_mib :: int
  vp_concurrent_vram_lanes :: int

definition vp_batch_size :: "cuda_vram_plan \<Rightarrow> int" where
  "vp_batch_size p = vp_batch_per_lane p"

definition effective_concurrent_vram_lanes :: "cuda_vram_plan \<Rightarrow> int" where
  "effective_concurrent_vram_lanes p =
     (if vp_concurrent_vram_lanes p > 0
      then max 1 (min (vp_concurrent_vram_lanes p) (max 1 (vp_lanes p)))
      else max 1 (vp_lanes p))"

definition within_limits :: "cuda_vram_plan \<Rightarrow> bool" where
  "within_limits p \<longleftrightarrow> vp_projected_used_mib p \<le> vp_target_mib p
     \<and> vp_projected_headroom_mib p \<ge> vp_desktop_headroom_mib p"

definition fills_budget :: "cuda_vram_plan \<Rightarrow> int \<Rightarrow> bool" where
  "fills_budget p tolerance_mib \<longleftrightarrow> \<bar>vp_batch_vram_mib p - vp_budget_mib p\<bar> \<le> tolerance_mib"

definition plan_projection :: "int \<Rightarrow> int \<Rightarrow> int \<Rightarrow> int \<Rightarrow> int \<Rightarrow> int \<Rightarrow> int option \<Rightarrow> int \<times> int \<times> int \<times> int" where
  "plan_projection card_mib lanes batch_per_lane difficulty runtime_overhead_mib foreign_used_mib
       concurrent_vram_lanes =
     (let logical = max 1 lanes;
          vram_lanes = (case concurrent_vram_lanes of None \<Rightarrow> logical
                        | Some c \<Rightarrow> if c \<le> 0 then logical else max 1 (min c logical));
          batch_vram_bytes = estimate_batch_vram_bytes batch_per_lane difficulty * vram_lanes;
          batch_vram_mib = batch_vram_bytes div (1024 * 1024);
          projected_used_mib = max 0 foreign_used_mib + batch_vram_mib + runtime_overhead_mib;
          projected_headroom_mib = max 0 (card_mib - projected_used_mib)
      in (batch_vram_bytes, batch_vram_mib, projected_used_mib, projected_headroom_mib))"

text \<open>The arguments that \<open>clamp_plan_to_caps\<close> and \<open>apply_lane_cap\<close> pass on unchanged are the
  plan \<open>p\<close>, whose own size fields \<open>make_plan\<close> replaces.\<close>

definition make_plan :: "cuda_vram_plan \<Rightarrow> int \<Rightarrow> int \<Rightarrow> int \<Rightarrow> int \<Rightarrow> cuda_vram_plan" where
  "make_plan p card_mib lanes batch_per_lane concurrent =
     (let conc = max 1 (min concurrent (max 1 lanes));
          (bytes, mib, used, head) = plan_projection card_mib lanes batch_per_lane (vp_difficulty p)
             (vp_runtime_overhead_mib p) (vp_foreign_used_mib p) (Some conc)
      in p\<lparr>vp_lanes := lanes, vp_batch_per_lane := batch_per_lane, vp_batch_vram_bytes := bytes,
           vp_batch_vram_mib := mib, vp_projected_used_mib := used,
           vp_projected_headroom_mib := head, vp_vram_scale := 1, vp_concurrent_vram_lanes := conc\<rparr>)"

definition shrink_batch :: "int \<Rightarrow> int" where
  "shrink_batch batch_per_lane = max 1 (py_int (fl (fint batch_per_lane * fl (98 / 100))))"

fun clamp_loop :: "nat \<Rightarrow> cuda_vram_plan \<Rightarrow> int \<Rightarrow> int \<Rightarrow> int \<Rightarrow> int \<Rightarrow> cuda_vram_plan" where
  "clamp_loop 0 p card_mib lanes batch_per_lane conc = p"
| "clamp_loop (Suc n) p card_mib lanes batch_per_lane conc =
     (let candidate = make_plan p card_mib lanes batch_per_lane conc in
      if within_limits candidate then candidate
      else if batch_per_lane > 1 then clamp_loop n p card_mib lanes (shrink_batch batch_per_lane) conc
      else if lanes > 1 \<and> conc > 1 then
        (let conc' = min conc (lanes - 1);
             per_lane_budget = max 1 (vp_budget_bytes p div conc')
         in clamp_loop n p card_mib (lanes - 1)
              (select_batch_size per_lane_budget (vp_difficulty p) 0 True) conc')
      else p)"

definition plan_card_mib :: "cuda_vram_plan \<Rightarrow> int" where
  "plan_card_mib p = vp_projected_used_mib p + vp_projected_headroom_mib p"

definition clamp_plan_to_caps :: "cuda_vram_plan \<Rightarrow> cuda_vram_plan" where
  "clamp_plan_to_caps p =
     (if within_limits p then p
      else clamp_loop 10000 p (plan_card_mib p) (vp_lanes p) (vp_batch_per_lane p)
             (effective_concurrent_vram_lanes p))"

definition apply_lane_cap :: "cuda_vram_plan \<Rightarrow> int \<Rightarrow> cuda_vram_plan" where
  "apply_lane_cap p max_lanes =
     (let cap = max 1 max_lanes in
      if vp_lanes p \<le> cap \<or> vp_lanes p \<le> 1 then p
      else
        (let conc = min (effective_concurrent_vram_lanes p) cap;
             batch_per_lane = (if conc \<le> 1 then vp_batch_per_lane p
               else select_batch_size (max 1 (vp_budget_bytes p div conc)) (vp_difficulty p) 0 True)
         in clamp_plan_to_caps (make_plan p (plan_card_mib p) cap batch_per_lane conc)))"

subsection \<open>Planning\<close>

record batch_request =
  br_total_bytes :: int
  br_free_bytes :: int
  br_target_mib :: int
  br_desktop_headroom_mib :: int
  br_difficulty :: int
  br_reference_difficulty :: int
  br_max_lanes :: int
  br_lane_reserve :: int
  br_explicit_batch :: int
  br_explicit_max_batch :: int
  br_runtime_overhead_mib :: int
  br_min_batch_per_lane :: int
  br_pack_mode :: string
  br_foreign_used_mib :: int
  br_safety_margin_mib :: int
  br_concurrent_vram_lanes :: "int option"
  br_budget_fill_fraction :: pyfloat

definition request_budget :: "batch_request \<Rightarrow> int \<times> int" where
  "request_budget r =
     (let (budget0, effective_target) = vram_cap_batch_budget_bytes (br_total_bytes r) (br_target_mib r)
            (br_desktop_headroom_mib r) (max 0 (br_runtime_overhead_mib r))
            (max 0 (br_foreign_used_mib r)) (max 0 (br_safety_margin_mib r));
          fill = clamp_fill_fraction (br_budget_fill_fraction r)
      in (if fill < fl (999 / 1000) then max 1 (py_int (fl (fint budget0 * fill))) else budget0,
          effective_target))"

definition sequential_lanes :: "batch_request \<Rightarrow> int \<Rightarrow> int" where
  "sequential_lanes r budget_bytes =
     (let mode = pack_mode_of (br_pack_mode r);
          cap = max 1 (min (br_max_lanes r) default_absolute_max_lanes) in
      if br_difficulty r \<ge> br_reference_difficulty r then 1
      else if mode \<in> {''coverage'', ''prefixes'', ''sweep''} then
        (let boost = (if br_difficulty r > 0 \<and> br_reference_difficulty r > 0
                      then max 1 (br_reference_difficulty r div br_difficulty r) else 1)
         in max 1 (min cap (max boost cap)))
      else if br_difficulty r \<le> 150 then
        (let min_b = max 1 (br_min_batch_per_lane r);
             max_by_budget = max 1 (budget_bytes div min_b)
         in min cap max_by_budget)
      else 1)"

definition top_up_batch :: "batch_request \<Rightarrow> int \<Rightarrow> int \<Rightarrow> int \<Rightarrow> int" where
  "top_up_batch r budget_bytes conc batch_per_lane =
     (if batch_per_lane > 0 \<and> budget_bytes > 0 \<and> bytes_per_attempt (br_difficulty r) > 0 then
        (let max_total_attempts = py_int (fl (fint budget_bytes / bytes_per_attempt (br_difficulty r)));
             b1 = max_total_attempts div max 1 conc;
             b2 = (if br_explicit_max_batch r > 0 then min b1 (br_explicit_max_batch r) else b1);
             max_bpl = (if br_explicit_batch r > 0 then min b2 (br_explicit_batch r) else b2)
         in if max_bpl > batch_per_lane then max_bpl else batch_per_lane)
      else batch_per_lane)"

definition plan_cuda_batch :: "batch_request \<Rightarrow> cuda_vram_plan" where
  "plan_cuda_batch r =
     (let card_mib = br_total_bytes r div (1024 * 1024);
          used_before = max 0 ((br_total_bytes r - br_free_bytes r) div (1024 * 1024));
          oh_total = max 0 (br_runtime_overhead_mib r) + max 0 (br_safety_margin_mib r);
          (budget_bytes, effective_target) = request_budget r;
          seq_mode = (case br_concurrent_vram_lanes r of None \<Rightarrow> False | Some c \<Rightarrow> c \<le> 1);
          lanes = (if seq_mode then sequential_lanes r budget_bytes
                   else cuda_lane_count (br_difficulty r) (br_reference_difficulty r)
                          (max 1 (br_max_lanes r)) budget_bytes (br_min_batch_per_lane r) (br_pack_mode r));
          conc = (if seq_mode then 1 else lanes);
          per_lane_budget = (if seq_mode then max 1 budget_bytes else max 1 (budget_bytes div max 1 conc));
          reserve = max 0 (min (br_lane_reserve r) (max 0 (lanes - 1)));
          max_batch_per_lane = select_batch_size per_lane_budget (br_difficulty r)
                                 (br_explicit_max_batch r) True;
          batch0 = (if max_batch_per_lane \<le> 0 then 0
                    else if br_explicit_batch r > 0 then min (br_explicit_batch r) max_batch_per_lane
                    else max_batch_per_lane);
          batch_per_lane = top_up_batch r budget_bytes conc batch0;
          blank = \<lparr>vp_lanes = lanes, vp_batch_per_lane = batch_per_lane, vp_lane_reserve = reserve,
            vp_budget_bytes = budget_bytes, vp_budget_mib = budget_bytes div (1024 * 1024),
            vp_batch_vram_bytes = 0, vp_batch_vram_mib = 0, vp_used_before_mib = used_before,
            vp_projected_used_mib = 0, vp_projected_headroom_mib = 0,
            vp_runtime_overhead_mib = oh_total, vp_target_mib = br_target_mib r,
            vp_effective_target_mib = effective_target, vp_vram_scale = 1,
            vp_desktop_headroom_mib = br_desktop_headroom_mib r, vp_difficulty = br_difficulty r,
            vp_foreign_used_mib = max 0 (br_foreign_used_mib r), vp_concurrent_vram_lanes = conc\<rparr>
      in clamp_plan_to_caps (make_plan blank card_mib lanes batch_per_lane conc))"

subsection \<open>Budgets and sizes keep within the memory\<close>

lemma fl_upper: "0 \<le> x \<Longrightarrow> fl x \<le> x * (1 + 1 / 2 ^ 53)"
proof -
  assume x: "0 \<le> x"
  have "fl x - x \<le> \<bar>x\<bar> / 2 ^ 53" using fl_error [of x] abs_ge_self order_trans by blast
  then have "fl x \<le> x + x / 2 ^ 53" using x by linarith
  then show ?thesis by (simp only: distrib_left mult_1_right times_divide_eq_right)
qed

lemma bytes_per_attempt_nonneg: "0 \<le> d \<Longrightarrow> 0 \<le> bytes_per_attempt d"
  unfolding bytes_per_attempt_def by (intro dbl.nonneg mult_nonneg_nonneg fint_nonneg) simp_all

lemma memory_limited_nonneg: "0 \<le> memory_limited_batch_size free d res"
proof (cases "d \<le> 0 \<or> free \<le> res")
  case False
  then have "0 \<le> fint (free - res)" "0 \<le> bytes_per_attempt d"
    by (auto intro: fint_nonneg bytes_per_attempt_nonneg)
  then show ?thesis by (auto simp: memory_limited_batch_size_def Let_def intro!: py_int_nonneg dbl.nonneg)
qed (simp add: memory_limited_batch_size_def)

lemma select_batch_size_le: "select_batch_size b d e f \<le>
    memory_limited_batch_size (b + cuda_engine_reserve_bytes) d cuda_engine_reserve_bytes"
  using memory_limited_nonneg by (auto simp: select_batch_size_def Let_def)

lemma select_batch_size_nonneg: "0 \<le> select_batch_size b d e f"
  by (auto simp: select_batch_size_def Let_def)

text \<open>
  A batch that is sized for a memory budget of at most 2 to the 53 bytes takes no more than
  the budget (each attempt as the miner itself accounts it), up to the relative rounding error of
  one double-precision division; the size is never negative and obeys an explicit limit.
\<close>

theorem batch_fits_budget:
  assumes "0 < budget" "budget \<le> 2 ^ 53" "0 < difficulty"
  shows "0 \<le> select_batch_size budget difficulty limit fill
    \<and> of_int (select_batch_size budget difficulty limit fill) * bytes_per_attempt difficulty
       \<le> of_int budget * (1 + 1 / 2 ^ 53)
    \<and> (0 < limit \<longrightarrow> select_batch_size budget difficulty limit fill \<le> limit)"
proof -
  let ?n = "memory_limited_batch_size (budget + cuda_engine_reserve_bytes) difficulty cuda_engine_reserve_bytes"
  let ?p = "bytes_per_attempt difficulty"
  have p: "0 \<le> ?p" using assms by (intro bytes_per_attempt_nonneg) simp
  have "of_int ?n * ?p \<le> of_int budget * (1 + 1 / 2 ^ 53)"
  proof (cases "?p = 0")
    case True
    show ?thesis using assms(1) by (simp add: True)
  next
    case False
    with p have p0: "0 < ?p" by simp
    let ?x = "of_int budget / ?p"
    have f: "fint budget = of_int budget" using assms by (intro fint_small) simp
    have x: "0 \<le> ?x" using p assms by simp
    have n: "?n = py_int (fl ?x)" using p0 assms f by (simp add: memory_limited_batch_size_def)
    have "of_int ?n \<le> fl ?x" unfolding n using x by (intro py_int_le dbl.nonneg)
    also have "\<dots> \<le> ?x * (1 + 1 / 2 ^ 53)"
      using x by (rule fl_upper)
    finally have "of_int ?n * ?p \<le> ?x * (1 + 1 / 2 ^ 53) * ?p" using p by (rule mult_right_mono)
    also have "\<dots> = of_int budget * (1 + 1 / 2 ^ 53)" using p0 by simp
    finally show ?thesis .
  qed
  moreover have "of_int (select_batch_size budget difficulty limit fill) * ?p \<le> of_int ?n * ?p"
    using select_batch_size_le p by (intro mult_right_mono) simp_all
  ultimately show ?thesis
    using select_batch_size_nonneg by (auto simp: select_batch_size_def Let_def)
qed

theorem batch_fits_budget_witness:
  "of_int (select_batch_size (22528 * 1024 * 1024) 60000 0 True) * bytes_per_attempt 60000
     \<le> of_int (22528 * 1024 * 1024) * (1 + 1 / 2 ^ 53)"
  using batch_fits_budget [of "22528 * 1024 * 1024" 60000 0 True] by simp

subsection \<open>Shrinking a plan\<close>

lemma make_plan_fields [simp]:
  "vp_lanes (make_plan p c l b n) = l"
  "vp_batch_per_lane (make_plan p c l b n) = b"
  "vp_budget_bytes (make_plan p c l b n) = vp_budget_bytes p"
  "vp_difficulty (make_plan p c l b n) = vp_difficulty p"
  "vp_target_mib (make_plan p c l b n) = vp_target_mib p"
  "vp_desktop_headroom_mib (make_plan p c l b n) = vp_desktop_headroom_mib p"
  by (simp_all add: make_plan_def plan_projection_def Let_def)

lemma clamp_loop_result:
  "clamp_loop n p c l b k = p \<or> (within_limits (clamp_loop n p c l b k)
     \<and> vp_lanes (clamp_loop n p c l b k) \<le> l \<and> (1 \<le> l \<longrightarrow> 1 \<le> vp_lanes (clamp_loop n p c l b k))
     \<and> vp_target_mib (clamp_loop n p c l b k) = vp_target_mib p
     \<and> vp_desktop_headroom_mib (clamp_loop n p c l b k) = vp_desktop_headroom_mib p)"
proof (induction n arbitrary: l b k)
  case (Suc n)
  show ?case using Suc.IH [of l "shrink_batch b" k]
      Suc.IH [of "l - 1" "select_batch_size (max 1 (vp_budget_bytes p div min k (l - 1))) (vp_difficulty p) 0 True"
        "min k (l - 1)"]
    by (simp only: clamp_loop.simps Let_def split: if_split) (auto simp del: clamp_loop.simps)
qed simp

lemma clamp_result:
  "clamp_plan_to_caps p = p \<or> (within_limits (clamp_plan_to_caps p)
     \<and> vp_lanes (clamp_plan_to_caps p) \<le> vp_lanes p
     \<and> (1 \<le> vp_lanes p \<longrightarrow> 1 \<le> vp_lanes (clamp_plan_to_caps p))
     \<and> vp_target_mib (clamp_plan_to_caps p) = vp_target_mib p
     \<and> vp_desktop_headroom_mib (clamp_plan_to_caps p) = vp_desktop_headroom_mib p)"
  unfolding clamp_plan_to_caps_def using clamp_loop_result by simp

text \<open>Each round takes at least one and a half percent off the batch, so the rounds suffice.\<close>

lemma shrink_batch_le:
  assumes "2 \<le> b" "b \<le> 2 ^ 53"
  shows "1 \<le> shrink_batch b \<and> of_int (shrink_batch b) * 200 \<le> (197 * of_int b :: rat)"
proof -
  have f: "fint b = of_int b" using assms by (intro fint_small) simp
  have c: "fl (98 / 100) \<le> 981 / 1000" "0 \<le> fl (98 / 100)" by code_simp+
  let ?x = "of_int b * fl (98 / 100)"
  have x: "0 \<le> ?x" using assms c by simp
  have "of_int (py_int (fl ?x)) \<le> fl ?x" using x by (intro py_int_le dbl.nonneg)
  also have "\<dots> \<le> ?x * (1 + 1 / 2 ^ 53)" using x by (rule fl_upper)
  also have "\<dots> \<le> (of_int b * (981 / 1000)) * (1 + 1 / 2 ^ 53)"
    using c assms by (intro mult_right_mono mult_left_mono) simp_all
  also have "\<dots> \<le> of_int b * (197 / 200)" using assms by (simp add: field_simps)
  finally have 1: "of_int (py_int (fl ?x)) * 200 \<le> (197 * of_int b :: rat)" by simp
  have "(2 :: rat) \<le> of_int b" using assms(1) by simp
  then have "200 \<le> (197 * of_int b :: rat)" by linarith
  with 1 show ?thesis by (simp add: shrink_batch_def f max_def)
qed

lemma clamp_loop_reaches_one:
  assumes "1 \<le> b" "b \<le> 2 ^ 53" "of_int b * (197 / 200) ^ k < (2 :: rat)" "k < n"
    and "within_limits (make_plan p c l 1 m)"
  shows "within_limits (clamp_loop n p c l b m)"
  using assms
proof (induction k arbitrary: b n)
  case 0
  then have "b = 1" by simp
  with 0 show ?case by (cases n) (simp_all add: Let_def)
next
  case (Suc k)
  from Suc.prems(4) obtain n' where n: "n = Suc n'" "k < n'" by (cases n) auto
  show ?case
  proof (cases "b = 1 \<or> within_limits (make_plan p c l b m)")
    case True
    with Suc.prems(5) n show ?thesis by (auto simp: Let_def)
  next
    case False
    with Suc.prems(1) have b: "2 \<le> b" by simp
    note s = shrink_batch_le [OF b Suc.prems(2)]
    have "of_int (shrink_batch b) * (197 / 200) ^ k \<le> (of_int b * (197 / 200)) * (197 / 200 :: rat) ^ k"
      using s by (intro mult_right_mono) simp_all
    also have "\<dots> < 2" using Suc.prems(3) by (simp add: mult.assoc)
    finally have lt: "of_int (shrink_batch b) * (197 / 200) ^ k < (2 :: rat)" .
    have "(of_int (shrink_batch b) :: rat) \<le> of_int b" using s b by linarith
    then have "shrink_batch b \<le> 2 ^ 53" using Suc.prems(2) by simp
    with Suc.IH [OF _ _ lt n(2) Suc.prems(5)] s False b show ?thesis by (simp add: n Let_def)
  qed
qed

lemma power_halves: "(197 / 200 :: rat) ^ (64 * j) \<le> (1 / 2) ^ j"
proof -
  have "(197 / 200 :: rat) ^ 64 \<le> 1 / 2" by (simp add: power_divide)
  then have "((197 / 200 :: rat) ^ 64) ^ j \<le> (1 / 2) ^ j" by (rule power_mono) simp
  then show ?thesis by (simp only: power_mult)
qed

lemma enough_rounds:
  assumes "0 \<le> b" "b \<le> 2 ^ 53" "64 * 54 \<le> k"
  shows "of_int b * (197 / 200) ^ k < (2 :: rat)"
proof -
  have "(197 / 200 :: rat) ^ k \<le> (197 / 200) ^ (64 * 54)" using assms(3) by (rule power_decreasing) simp_all
  also have "\<dots> \<le> (1 / 2) ^ 54" by (rule power_halves)
  finally have "of_int b * (197 / 200 :: rat) ^ k \<le> of_int b * (1 / 2) ^ 54"
    using assms(1) by (intro mult_left_mono) simp_all
  also have "of_int b \<le> (2 ^ 53 :: rat)" using assms(2) by (simp flip: of_int_le_iff)
  then have "of_int b * (1 / 2) ^ 54 \<le> (2 ^ 53 :: rat) * (1 / 2) ^ 54" by (rule mult_right_mono) simp
  also have "\<dots> < 2" by (simp add: power_divide)
  finally show ?thesis .
qed

text \<open>
  C19: the loop that shrinks a plan to the configured limits does its job within its 10000 rounds.
  Its result satisfies the limits or is the plan as it was; and whenever the plan with a batch of
  one attempt per lane would satisfy them, the result does.  It never adds lanes and keeps at
  least one.
\<close>

theorem clamp_plan_fits:
  assumes "1 \<le> vp_lanes p" "1 \<le> vp_batch_per_lane p" "vp_batch_per_lane p \<le> 2 ^ 53"
    and "within_limits (make_plan p (plan_card_mib p) (vp_lanes p) 1 (effective_concurrent_vram_lanes p))"
  shows "within_limits (clamp_plan_to_caps p)
    \<and> 1 \<le> vp_lanes (clamp_plan_to_caps p) \<and> vp_lanes (clamp_plan_to_caps p) \<le> vp_lanes p
    \<and> vp_target_mib (clamp_plan_to_caps p) = vp_target_mib p
    \<and> vp_desktop_headroom_mib (clamp_plan_to_caps p) = vp_desktop_headroom_mib p"
proof -
  have "of_int (vp_batch_per_lane p) * (197 / 200) ^ (64 * 54) < (2 :: rat)"
    using assms by (intro enough_rounds) simp_all
  moreover have "64 * 54 < (10000 :: nat)" by simp
  ultimately have "within_limits (clamp_loop 10000 p (plan_card_mib p) (vp_lanes p) (vp_batch_per_lane p)
      (effective_concurrent_vram_lanes p))"
    by (rule clamp_loop_reaches_one [OF assms(2,3) _ _ assms(4)])
  then have "within_limits (clamp_plan_to_caps p)" by (simp only: clamp_plan_to_caps_def split: if_split) simp
  moreover have "vp_lanes (clamp_plan_to_caps p) \<le> vp_lanes p \<and> 1 \<le> vp_lanes (clamp_plan_to_caps p)
      \<and> vp_target_mib (clamp_plan_to_caps p) = vp_target_mib p
      \<and> vp_desktop_headroom_mib (clamp_plan_to_caps p) = vp_desktop_headroom_mib p"
    using clamp_result [of p] assms(1) by (elim disjE) simp_all
  ultimately show ?thesis by blast
qed

text \<open>
  Forcing a plan down to a number of lanes always succeeds: the result has at most that many
  lanes (one, when the number is not positive), and a plan that is within it already is left alone.
\<close>

theorem lane_cap_obeyed:
  "vp_lanes (apply_lane_cap p max_lanes) \<le> max 1 max_lanes
   \<and> (vp_lanes p \<le> max 1 max_lanes \<longrightarrow> apply_lane_cap p max_lanes = p)"
proof -
  have "vp_lanes (clamp_plan_to_caps (make_plan p c l b k)) \<le> l" for c l b k
    using clamp_result [of "make_plan p c l b k"] by (elim disjE) simp_all
  then show ?thesis by (auto simp: apply_lane_cap_def Let_def)
qed

definition sample_plan :: cuda_vram_plan where
  "sample_plan = \<lparr>vp_lanes = 2, vp_batch_per_lane = 3, vp_lane_reserve = 0, vp_budget_bytes = 0,
     vp_budget_mib = 0, vp_batch_vram_bytes = 0, vp_batch_vram_mib = 0, vp_used_before_mib = 0,
     vp_projected_used_mib = 600, vp_projected_headroom_mib = 0, vp_runtime_overhead_mib = 10,
     vp_target_mib = 500, vp_effective_target_mib = 500, vp_vram_scale = 1,
     vp_desktop_headroom_mib = 50, vp_difficulty = 100000, vp_foreign_used_mib = 0,
     vp_concurrent_vram_lanes = 2\<rparr>"

theorem clamp_plan_fits_witness:
  "within_limits (clamp_plan_to_caps sample_plan) \<and> \<not> within_limits sample_plan"
proof -
  have 1: "within_limits (make_plan sample_plan (plan_card_mib sample_plan) (vp_lanes sample_plan) 1
      (effective_concurrent_vram_lanes sample_plan))" by code_simp
  have "within_limits (clamp_plan_to_caps sample_plan)"
    by (rule conjunct1 [OF clamp_plan_fits [OF _ _ _ 1]]) (simp_all add: sample_plan_def)
  moreover have "\<not> within_limits sample_plan" by code_simp
  ultimately show ?thesis by blast
qed

theorem lane_cap_obeyed_witness: "apply_lane_cap sample_plan 4 = sample_plan"
  using lane_cap_obeyed [of sample_plan 4] by (simp add: sample_plan_def)

lemma capped: "1 \<le> cap \<Longrightarrow> 1 \<le> max 1 (min cap x)" "1 \<le> cap \<Longrightarrow> max 1 (min cap x) \<le> (cap :: int)"
  by auto

lemma cuda_lane_count_range: "1 \<le> cuda_lane_count d ref ml b mb mode
    \<and> cuda_lane_count d ref ml b mb mode \<le> max 1 (min ml 32)"
proof -
  define cap where "cap = max 1 (min ml 32)"
  have c: "1 \<le> cap" by (simp add: cap_def)
  show ?thesis
    unfolding cuda_lane_count_def Let_def default_absolute_max_lanes_def cap_def [symmetric]
    by (simp only: capped [OF c] c order_refl simp_thms split: if_split)
qed

lemma sequential_lanes_range: "1 \<le> sequential_lanes r b \<and> sequential_lanes r b \<le> max 1 (min (br_max_lanes r) 32)"
proof -
  define cap where "cap = max 1 (min (br_max_lanes r) 32)"
  have c: "1 \<le> cap" by (simp add: cap_def)
  then have m: "1 \<le> min cap (max 1 x)" "min cap y \<le> cap" for x y :: int by auto
  show ?thesis
    unfolding sequential_lanes_def Let_def default_absolute_max_lanes_def cap_def [symmetric]
    by (simp only: capped [OF c] c m order_refl simp_thms split: if_split)
qed

text \<open>
  A planned batch always runs between one lane and the configured number of lanes, 32 at most,
  and it is made for the limits that were asked for.
\<close>

theorem planned_lanes_bounded:
  "1 \<le> vp_lanes (plan_cuda_batch r) \<and> vp_lanes (plan_cuda_batch r) \<le> max 1 (min (br_max_lanes r) 32)
   \<and> vp_target_mib (plan_cuda_batch r) = br_target_mib r
   \<and> vp_desktop_headroom_mib (plan_cuda_batch r) = br_desktop_headroom_mib r"
proof -
  have "\<exists>p lanes c b k. plan_cuda_batch r = clamp_plan_to_caps (make_plan p c lanes b k)
      \<and> vp_target_mib p = br_target_mib r \<and> vp_desktop_headroom_mib p = br_desktop_headroom_mib r
      \<and> 1 \<le> lanes \<and> lanes \<le> max 1 (min (br_max_lanes r) 32)"
  proof -
    obtain bb et where rb: "request_budget r = (bb, et)" by (metis surj_pair)
    define seq where "seq = (case br_concurrent_vram_lanes r of None \<Rightarrow> False | Some c \<Rightarrow> c \<le> 1)"
    define lanes where "lanes = (if seq then sequential_lanes r bb
      else cuda_lane_count (br_difficulty r) (br_reference_difficulty r)
             (max 1 (br_max_lanes r)) bb (br_min_batch_per_lane r) (br_pack_mode r))"
    have "max 1 (min (max 1 (br_max_lanes r)) 32) = max 1 (min (br_max_lanes r) 32)" by linarith
    then have "1 \<le> lanes \<and> lanes \<le> max 1 (min (br_max_lanes r) 32)"
      using sequential_lanes_range [of r bb] cuda_lane_count_range [of "br_difficulty r" "br_reference_difficulty r"
          "max 1 (br_max_lanes r)" bb "br_min_batch_per_lane r" "br_pack_mode r"]
      by (simp only: lanes_def split: if_split) blast
    then show ?thesis
      unfolding plan_cuda_batch_def Let_def rb prod.case seq_def [symmetric] lanes_def [symmetric]
      by (intro exI conjI) (rule refl | assumption | simp only: cuda_vram_plan.simps)+
  qed
  then obtain p lanes c b k where p: "plan_cuda_batch r = clamp_plan_to_caps (make_plan p c lanes b k)"
    "vp_target_mib p = br_target_mib r" "vp_desktop_headroom_mib p = br_desktop_headroom_mib r"
    "1 \<le> lanes" "lanes \<le> max 1 (min (br_max_lanes r) 32)" by blast
  show ?thesis using clamp_result [of "make_plan p c lanes b k"] p(2-5) unfolding p(1)
    by (elim disjE) simp_all
qed

end
