(* ===== verification/VramGuard.thy ===== *)
theory VramGuard
  imports ThermalPolicy Models
begin

text \<open>
  The hardware guard (\<open>efficiency/vram_guard.py\<close>): die and board temperatures against their own
  limits, and the decision to stop a GPU.  Messages are reduced to the reasons they are built from.
\<close>

subsection \<open>Temperatures\<close>

datatype guard_level = Ok | Warn | Emergency

datatype guard_code =
    OkCode | DieTempEmergency | BoardTempEmergency | TempEmergency | DieTempWarn | BoardTempWarn
  | VramEmergency | HeadroomCritical | DesktopVramLow

datatype temp_reason = DieMax int | BoardMax int | DieWarn int | BoardWarn int

record dual_temp_eval =
  te_level :: guard_level
  te_code :: guard_code
  te_reasons :: "temp_reason list"
  te_die_c :: int
  te_board_c :: int
  te_hotspot_c :: int
  te_eff_die_c :: int
  te_eff_board_c :: int
  te_batch_scale :: pyfloat
  te_lane_cap_from_temp :: "int option"
  te_abort :: bool

definition norm_limit :: "int \<Rightarrow> int \<Rightarrow> int \<times> int" where
  "norm_limit warn hard =
     (let hard = max 1 hard;
          warn = (if hard > 1 then min warn (hard - 1) else warn)
      in (max 1 warn, hard))"

record heat_context =
  hc_difficulty :: int
  hc_reference_difficulty :: int
  hc_high_diff_enabled :: bool
  hc_start_ratio :: pyfloat
  hc_full_ratio :: pyfloat
  hc_max_tighten_c :: int

record temp_limits =
  tl_die_warn_c :: int
  tl_die_max_c :: int
  tl_board_warn_c :: int
  tl_board_max_c :: int
  tl_planned_lanes :: int
  tl_min_lanes :: int
  tl_batch_min_scale :: pyfloat

definition effective_die :: "int \<Rightarrow> int \<Rightarrow> int" where
  "effective_die die hotspot = (if die > 0 then die else if hotspot > 0 then hotspot else 0)"

definition effective_board :: "heat_context \<Rightarrow> int \<Rightarrow> int \<Rightarrow> int \<Rightarrow> int" where
  "effective_board h die board hotspot =
     (if board > 0 then board
      else (let base = max die hotspot in
            if hc_high_diff_enabled h \<and> base > 0 \<and> hc_difficulty h > 0
            then effective_control_temp_c base (hc_difficulty h) (hc_reference_difficulty h)
                   (hc_start_ratio h) (hc_full_ratio h) (hc_max_tighten_c h)
            else base))"

definition temp_verdict :: "int \<Rightarrow> int \<Rightarrow> int \<Rightarrow> int \<Rightarrow> int \<Rightarrow> int
    \<Rightarrow> guard_level \<times> guard_code \<times> temp_reason list" where
  "temp_verdict eff_die die_warn die_max eff_board board_warn board_max =
     (let die_hit = (eff_die > 0 \<and> eff_die \<ge> die_max);
          board_hit = (eff_board > 0 \<and> eff_board \<ge> board_max) in
      if die_hit \<or> board_hit then
        (Emergency,
         if board_hit then (if die_hit then TempEmergency else BoardTempEmergency) else DieTempEmergency,
         (if die_hit then [DieMax eff_die] else []) @ (if board_hit then [BoardMax eff_board] else []))
      else
        (let die_warm = (eff_die > 0 \<and> eff_die \<ge> die_warn);
             board_warm = (eff_board > 0 \<and> eff_board \<ge> board_warn)
         in (if die_warm \<or> board_warm then Warn else Ok,
             if die_warm then DieTempWarn else if board_warm then BoardTempWarn else OkCode,
             (if die_warm then [DieWarn eff_die] else []) @ (if board_warm then [BoardWarn eff_board] else []))))"

definition evaluate_die_board_temps ::
    "temp_limits \<Rightarrow> heat_context \<Rightarrow> int \<Rightarrow> int \<Rightarrow> int \<Rightarrow> dual_temp_eval" where
  "evaluate_die_board_temps l h die_c board_c hotspot_c =
     (let (die_warn, die_max) = norm_limit (tl_die_warn_c l) (tl_die_max_c l);
          (board_warn, board_max) = norm_limit (tl_board_warn_c l) (tl_board_max_c l);
          die = max 0 die_c; board = max 0 board_c; hotspot = max 0 hotspot_c;
          eff_die = effective_die die hotspot;
          eff_board = effective_board h die board hotspot;
          die_scale = (if eff_die > 0
            then thermal_batch_scale eff_die die_warn die_max (tl_batch_min_scale l) 5 else 1);
          board_scale = (if eff_board > 0
            then thermal_batch_scale eff_board board_warn board_max (tl_batch_min_scale l) 5 else 1);
          planned = tl_planned_lanes l;
          lane_from_die = (if eff_die > 0 \<and> planned > 1
            then thermal_lane_cap planned eff_die die_warn die_max (tl_min_lanes l) 8 3 else planned);
          lane_from_board = (if eff_board > 0 \<and> planned > 1
            then thermal_lane_cap planned eff_board board_warn board_max (tl_min_lanes l) 8 3 else planned);
          lane_cap = min lane_from_die lane_from_board;
          (level, code, reasons) = temp_verdict eff_die die_warn die_max eff_board board_warn board_max
      in \<lparr>te_level = level, te_code = code, te_reasons = reasons, te_die_c = die, te_board_c = board,
          te_hotspot_c = hotspot, te_eff_die_c = eff_die, te_eff_board_c = eff_board,
          te_batch_scale = min die_scale board_scale,
          te_lane_cap_from_temp = (if planned > 1 then Some lane_cap else None),
          te_abort = (level = Emergency)\<rparr>)"

definition snapshot_die :: "gpu_snapshot \<Rightarrow> int" where
  "snapshot_die snap =
     (if gpu_temp_c snap \<le> 0
         \<and> (if temp_source snap = [] then ''gpu'' else temp_source snap) \<in> {''gpu'', ''die'', []}
      then temperature_c snap else gpu_temp_c snap)"

definition evaluate_snapshot_temps ::
    "temp_limits \<Rightarrow> heat_context \<Rightarrow> gpu_snapshot option \<Rightarrow> dual_temp_eval option" where
  "evaluate_snapshot_temps l h snap =
     map_option (\<lambda>g. evaluate_die_board_temps l h (snapshot_die g) (board_temp_c g) (hotspot_temp_c g)) snap"

subsection \<open>The guard\<close>

record guard_action =
  ga_level :: guard_level
  ga_code :: guard_code
  ga_should_stop_gpu :: bool
  ga_graceful_stop :: bool
  ga_cooldown_s :: int

record vram_guard =
  vg_target_vram_mib :: int
  vg_desktop_headroom_mib :: int
  vg_emergency_vram_mib :: int
  vg_min_headroom_mib :: int
  vg_max_temp_c :: int
  vg_warn_temp_c :: int
  vg_max_board_temp_c :: int
  vg_warn_board_temp_c :: int
  vg_cooldown_s :: int
  vg_context :: heat_context

definition init_guard ::
    "int \<Rightarrow> int \<Rightarrow> int \<Rightarrow> int \<Rightarrow> int \<Rightarrow> int \<Rightarrow> int \<Rightarrow> int option \<Rightarrow> int option \<Rightarrow> vram_guard" where
  "init_guard target desktop emergency min_headroom max_temp warn_temp cooldown max_board warn_board =
     (let bmax = (case max_board of None \<Rightarrow> max 90 max_temp | Some m \<Rightarrow> m);
          bwarn = (case warn_board of None \<Rightarrow> min 85 (bmax - 1) | Some w \<Rightarrow> w)
      in \<lparr>vg_target_vram_mib = target, vg_desktop_headroom_mib = desktop,
          vg_emergency_vram_mib = emergency, vg_min_headroom_mib = min_headroom,
          vg_max_temp_c = max_temp,
          vg_warn_temp_c = (if max_temp > 1 then min warn_temp (max_temp - 1) else warn_temp),
          vg_max_board_temp_c = bmax, vg_warn_board_temp_c = min bwarn (bmax - 1),
          vg_cooldown_s = cooldown,
          vg_context = \<lparr>hc_difficulty = 0, hc_reference_difficulty = 1100, hc_high_diff_enabled = True,
            hc_start_ratio = 3 / 2, hc_full_ratio = fl (19 / 10), hc_max_tighten_c = 12\<rparr>\<rparr>)"

definition set_difficulty_context ::
    "int \<Rightarrow> int \<Rightarrow> bool \<Rightarrow> pyfloat \<Rightarrow> pyfloat \<Rightarrow> int \<Rightarrow> vram_guard \<Rightarrow> vram_guard" where
  "set_difficulty_context difficulty reference enabled start_ratio full_ratio max_tighten g =
     g\<lparr>vg_context := \<lparr>hc_difficulty = max 0 difficulty, hc_reference_difficulty = max 1 reference,
        hc_high_diff_enabled = enabled, hc_start_ratio = start_ratio, hc_full_ratio = full_ratio,
        hc_max_tighten_c = max_tighten\<rparr>\<rparr>"

definition guard_temp_limits :: "vram_guard \<Rightarrow> temp_limits" where
  "guard_temp_limits g = \<lparr>tl_die_warn_c = vg_warn_temp_c g, tl_die_max_c = vg_max_temp_c g,
     tl_board_warn_c = vg_warn_board_temp_c g, tl_board_max_c = vg_max_board_temp_c g,
     tl_planned_lanes = 1, tl_min_lanes = 1, tl_batch_min_scale = fl (60 / 100)\<rparr>"

definition plain_action :: "guard_level \<Rightarrow> guard_code \<Rightarrow> guard_action" where
  "plain_action level code = \<lparr>ga_level = level, ga_code = code, ga_should_stop_gpu = False,
     ga_graceful_stop = False, ga_cooldown_s = 0\<rparr>"

definition stop_action :: "guard_code \<Rightarrow> bool \<Rightarrow> int \<Rightarrow> guard_action" where
  "stop_action code graceful cooldown = \<lparr>ga_level = Emergency, ga_code = code,
     ga_should_stop_gpu = True, ga_graceful_stop = graceful, ga_cooldown_s = cooldown\<rparr>"

definition emergency_limit :: "vram_guard \<Rightarrow> gpu_snapshot \<Rightarrow> int" where
  "emergency_limit g snap = min (vg_emergency_vram_mib g) (max (total_mib snap - 256) 0)"

definition guard_evaluate :: "vram_guard \<Rightarrow> gpu_snapshot option \<Rightarrow> guard_action" where
  "guard_evaluate g snap = (case snap of
     None \<Rightarrow> plain_action Ok OkCode
   | Some s \<Rightarrow>
       if used_mib s \<ge> emergency_limit g s then stop_action VramEmergency False (vg_cooldown_s g)
       else if headroom_mib s \<le> vg_min_headroom_mib g then stop_action HeadroomCritical False (vg_cooldown_s g)
       else (case evaluate_snapshot_temps (guard_temp_limits g) (vg_context g) snap of
           Some tev \<Rightarrow>
             (if te_level tev = Emergency then stop_action (te_code tev) True (vg_cooldown_s g)
              else if te_level tev = Warn then plain_action Warn (te_code tev)
              else if headroom_mib s < vg_desktop_headroom_mib g then plain_action Warn DesktopVramLow
              else plain_action Ok OkCode)
         | None \<Rightarrow>
             (if headroom_mib s < vg_desktop_headroom_mib g then plain_action Warn DesktopVramLow
              else plain_action Ok OkCode)))"

subsection \<open>Properties\<close>

lemma norm_limit_range: "norm_limit w m = (w', m') \<Longrightarrow> 1 \<le> w' \<and> 1 \<le> m' \<and> (1 < m' \<longrightarrow> w' < m') \<and> m' = max 1 m"
  by (auto simp: norm_limit_def Let_def)

lemma temp_verdict_level:
  "fst (temp_verdict d dw dm b bw bm) = Emergency \<longleftrightarrow> (0 < d \<and> dm \<le> d) \<or> (0 < b \<and> bm \<le> b)"
  by (simp add: temp_verdict_def Let_def)

definition severity :: "guard_level \<Rightarrow> nat" where
  "severity l = (case l of Ok \<Rightarrow> 0 | Warn \<Rightarrow> 1 | Emergency \<Rightarrow> 2)"

lemma temp_verdict_mono:
  "d \<le> d' \<Longrightarrow> b \<le> b' \<Longrightarrow>
    severity (fst (temp_verdict d dw dm b bw bm)) \<le> severity (fst (temp_verdict d' dw dm b' bw bm))"
  by (auto simp: temp_verdict_def Let_def severity_def)

lemma evaluate_level:
  "te_level (evaluate_die_board_temps l h d b s) =
    fst (temp_verdict (effective_die (max 0 d) (max 0 s))
      (fst (norm_limit (tl_die_warn_c l) (tl_die_max_c l))) (snd (norm_limit (tl_die_warn_c l) (tl_die_max_c l)))
      (effective_board h (max 0 d) (max 0 b) (max 0 s))
      (fst (norm_limit (tl_board_warn_c l) (tl_board_max_c l))) (snd (norm_limit (tl_board_warn_c l) (tl_board_max_c l))))"
  by (simp add: evaluate_die_board_temps_def Let_def case_prod_unfold)

lemma snd_norm_limit [simp]: "snd (norm_limit w m) = max 1 m"
  by (simp add: norm_limit_def Let_def)

definition too_hot :: "int \<Rightarrow> int \<Rightarrow> bool" where
  "too_hot temp limit \<longleftrightarrow> 0 < temp \<and> max 1 limit \<le> temp"

definition guard_die :: "gpu_snapshot \<Rightarrow> int" where
  "guard_die s = effective_die (max 0 (snapshot_die s)) (max 0 (hotspot_temp_c s))"

definition guard_board :: "heat_context \<Rightarrow> gpu_snapshot \<Rightarrow> int" where
  "guard_board h s = effective_board h (max 0 (snapshot_die s)) (max 0 (board_temp_c s)) (max 0 (hotspot_temp_c s))"

text \<open>
  C20: the guard stops a GPU exactly when one of the four dangers is present: the memory in use has
  reached the emergency limit, too little memory is free, the die has reached its maximum, or the
  board (its sensor, or the estimate that stands in for it) has.  It stops gracefully only for
  temperature, it reports the level \<open>emergency\<close> exactly when it stops, and it never stops a GPU
  without a reading.
\<close>

theorem guard_stops_iff:
  "(ga_should_stop_gpu (guard_evaluate g (Some s)) \<longleftrightarrow>
      emergency_limit g s \<le> used_mib s \<or> headroom_mib s \<le> vg_min_headroom_mib g
      \<or> too_hot (guard_die s) (vg_max_temp_c g) \<or> too_hot (guard_board (vg_context g) s) (vg_max_board_temp_c g))
   \<and> (ga_graceful_stop (guard_evaluate g (Some s)) \<longleftrightarrow>
      ga_should_stop_gpu (guard_evaluate g (Some s)) \<and> used_mib s < emergency_limit g s
      \<and> vg_min_headroom_mib g < headroom_mib s)
   \<and> (ga_level (guard_evaluate g (Some s)) = Emergency \<longleftrightarrow> ga_should_stop_gpu (guard_evaluate g (Some s)))
   \<and> \<not> ga_should_stop_gpu (guard_evaluate g None)"
proof -
  define tev where "tev = evaluate_die_board_temps (guard_temp_limits g) (vg_context g) (snapshot_die s)
      (board_temp_c s) (hotspot_temp_c s)"
  have e: "te_level tev = Emergency \<longleftrightarrow>
      too_hot (guard_die s) (vg_max_temp_c g) \<or> too_hot (guard_board (vg_context g) s) (vg_max_board_temp_c g)"
    unfolding tev_def evaluate_level temp_verdict_level snd_norm_limit
    by (simp add: too_hot_def guard_die_def guard_board_def guard_temp_limits_def)
  have g: "guard_evaluate g (Some s) =
      (if emergency_limit g s \<le> used_mib s then stop_action VramEmergency False (vg_cooldown_s g)
       else if headroom_mib s \<le> vg_min_headroom_mib g then stop_action HeadroomCritical False (vg_cooldown_s g)
       else if te_level tev = Emergency then stop_action (te_code tev) True (vg_cooldown_s g)
       else if te_level tev = Warn then plain_action Warn (te_code tev)
       else if headroom_mib s < vg_desktop_headroom_mib g then plain_action Warn DesktopVramLow
       else plain_action Ok OkCode)"
    by (simp add: guard_evaluate_def evaluate_snapshot_temps_def tev_def)
  show ?thesis unfolding g e [symmetric] by (simp add: guard_evaluate_def stop_action_def plain_action_def not_le)
qed

text \<open>
  C21: when both sensors are readable, hotter is never treated more mildly: raising the die or the
  board temperature does not lower the level, nor raise the batch scale or the lane cap; and the
  batch scale stays between one half and 1.
\<close>

theorem hotter_never_milder:
  assumes "0 < d" "d \<le> d'" "0 < b" "b \<le> b'"
    and "e = evaluate_die_board_temps l h d b s" "e' = evaluate_die_board_temps l h d' b' s'"
  shows "severity (te_level e) \<le> severity (te_level e') \<and> te_batch_scale e' \<le> te_batch_scale e
    \<and> 1 / 2 \<le> te_batch_scale e' \<and> te_batch_scale e \<le> 1
    \<and> (\<forall>cap cap'. te_lane_cap_from_temp e = Some cap \<and> te_lane_cap_from_temp e' = Some cap' \<longrightarrow> 1 \<le> cap' \<and> cap' \<le> cap)"
proof -
  obtain dw dm where nd: "norm_limit (tl_die_warn_c l) (tl_die_max_c l) = (dw, dm)" by (metis surj_pair)
  obtain bw bm where nb: "norm_limit (tl_board_warn_c l) (tl_board_max_c l) = (bw, bm)" by (metis surj_pair)
  let ?ms = "tl_batch_min_scale l" and ?p = "tl_planned_lanes l" and ?ml = "tl_min_lanes l"
  let ?S = "\<lambda>t w m. thermal_batch_scale t w m ?ms 5" and ?L = "\<lambda>t w m. thermal_lane_cap ?p t w m ?ml 8 3"
  have pos: "max 0 d = d" "max 0 d' = d'" "max 0 b = b" "max 0 b' = b'" "0 < d'" "0 < b'"
    using assms(1-4) by auto
  have ed: "effective_die d x = d" "effective_die d' x = d'" for x using assms(1) pos by (simp_all add: effective_die_def)
  have eb: "effective_board h x b y = b" "effective_board h x b' y = b'" for x y
    using assms(3) pos by (simp_all add: effective_board_def)
  have e: "te_level e = fst (temp_verdict d dw dm b bw bm)" "te_level e' = fst (temp_verdict d' dw dm b' bw bm)"
    unfolding assms(5,6) evaluate_level by (simp_all add: nd nb pos(1-4) ed eb)
  have sc: "te_batch_scale e = min (?S d dw dm) (?S b bw bm)" "te_batch_scale e' = min (?S d' dw dm) (?S b' bw bm)"
    using assms(1,3) pos
    unfolding assms(5,6) evaluate_die_board_temps_def Let_def nd nb case_prod_unfold pos(1-4) ed eb by simp_all
  have lc: "te_lane_cap_from_temp e = (if 1 < ?p then Some (min (?L d dw dm) (?L b bw bm)) else None)"
    "te_lane_cap_from_temp e' = (if 1 < ?p then Some (min (?L d' dw dm) (?L b' bw bm)) else None)"
    using assms(1,3) pos
    unfolding assms(5,6) evaluate_die_board_temps_def Let_def nd nb case_prod_unfold pos(1-4) ed eb by simp_all
  have S: "?S d' dw dm \<le> ?S d dw dm" "?S b' bw bm \<le> ?S b bw bm" "?S t w m \<le> 1" "1 / 2 \<le> ?S t w m" for t w m
    using batch.curve_falls [OF assms(2)] batch.curve_falls [OF assms(4)] batch.curve_range [of ?ms t w m 5]
      half_clamp [of ?ms] by (blast intro: order_trans)+
  have L: "?L d' dw dm \<le> ?L d dw dm" "?L b' bw bm \<le> ?L b bw bm" "1 \<le> ?L t w m" for t w m
    using lanes.curve_falls [OF assms(2)] lanes.curve_falls [OF assms(4)] lanes.curve_range [of ?ml ?p t w m 8 3]
      lane_floor(1) [of ?ml ?p] by (blast intro: order_trans)+
  have "severity (te_level e) \<le> severity (te_level e')" unfolding e using assms(2,4) by (rule temp_verdict_mono)
  moreover have "te_batch_scale e' \<le> te_batch_scale e" unfolding sc using S(1,2) by (rule min.mono)
  moreover have "1 / 2 \<le> te_batch_scale e'" "te_batch_scale e \<le> 1" unfolding sc using S(3,4) by (auto simp: min_le_iff_disj)
  moreover have "1 \<le> cap' \<and> cap' \<le> cap"
    if "te_lane_cap_from_temp e = Some cap" "te_lane_cap_from_temp e' = Some cap'" for cap cap'
    using that L unfolding lc by (auto split: if_splits intro: min.mono)
  ultimately show ?thesis by blast
qed

definition sample_limits :: temp_limits where
  "sample_limits = \<lparr>tl_die_warn_c = 75, tl_die_max_c = 80, tl_board_warn_c = 85, tl_board_max_c = 90,
     tl_planned_lanes = 4, tl_min_lanes = 1, tl_batch_min_scale = fl (60 / 100)\<rparr>"

definition sample_context :: heat_context where
  "sample_context = \<lparr>hc_difficulty = 0, hc_reference_difficulty = 1100, hc_high_diff_enabled = True,
     hc_start_ratio = 3 / 2, hc_full_ratio = 2, hc_max_tighten_c = 12\<rparr>"

theorem hotter_never_milder_witness:
  "te_batch_scale (evaluate_die_board_temps sample_limits sample_context 79 88 0)
     \<le> te_batch_scale (evaluate_die_board_temps sample_limits sample_context 60 70 0)"
  using hotter_never_milder [of 60 79 70 88 _ sample_limits sample_context 0 _ 0, OF _ _ _ _ refl refl] by simp

end
