(* ===== verification/LaneAndPower.thy ===== *)
theory LaneAndPower
  imports ThermalPolicy Models
begin

text \<open>
  Two controllers that react to heat over the life of a session.  The first part is the lane cap
  that survives restarts (\<open>efficiency/cuda_lane_policy.py\<close>): the policy file is absent, unreadable
  (any of the exceptions the loader catches) or a JSON object whose keys may be missing.  The
  second part is the power limit of the GPU (\<open>efficiency/gpu_power.py\<close>): whether the driver
  accepts a new limit is an argument of each operation; the Windows power plan is not modelled.
\<close>

subsection \<open>The lane cap\<close>

record lane_event =
  le_temperature_c :: int
  le_difficulty :: int
  le_cap_before :: int
  le_cap_after :: int
  le_reason :: string

record cuda_lane_policy =
  lp_config_max_lanes :: int
  lp_effective_max_lanes :: int
  lp_temp_reductions :: int
  lp_events :: "lane_event list"

record policy_payload =
  pf_effective_max_lanes :: "int option"
  pf_temp_reductions :: "int option"
  pf_events :: "lane_event list option"

datatype policy_file = NoFile | UnreadableFile | PolicyFile policy_payload

definition last_n :: "nat \<Rightarrow> 'a list \<Rightarrow> 'a list" where
  "last_n n xs = drop (length xs - n) xs"

definition load_lane_policy :: "policy_file \<Rightarrow> int \<Rightarrow> cuda_lane_policy" where
  "load_lane_policy file config_lanes =
     (let config = max 1 config_lanes;
          fresh = \<lparr>lp_config_max_lanes = config, lp_effective_max_lanes = config,
                   lp_temp_reductions = 0, lp_events = []\<rparr> in
      case file of
        NoFile \<Rightarrow> fresh
      | UnreadableFile \<Rightarrow> fresh
      | PolicyFile raw \<Rightarrow>
          (let effective = (case pf_effective_max_lanes raw of None \<Rightarrow> config | Some e \<Rightarrow> e)
           in \<lparr>lp_config_max_lanes = config, lp_effective_max_lanes = max 1 (min config effective),
               lp_temp_reductions = (case pf_temp_reductions raw of None \<Rightarrow> 0 | Some n \<Rightarrow> n),
               lp_events = last_n 50 (case pf_events raw of None \<Rightarrow> [] | Some es \<Rightarrow> es)\<rparr>))"

definition save_lane_policy :: "cuda_lane_policy \<Rightarrow> policy_file" where
  "save_lane_policy s = PolicyFile \<lparr>pf_effective_max_lanes = Some (lp_effective_max_lanes s),
     pf_temp_reductions = Some (lp_temp_reductions s), pf_events = Some (last_n 50 (lp_events s))\<rparr>"

definition record_temp_lane_reduction ::
    "int \<Rightarrow> int \<Rightarrow> int \<Rightarrow> int \<Rightarrow> string \<Rightarrow> cuda_lane_policy \<Rightarrow> cuda_lane_policy \<times> policy_file" where
  "record_temp_lane_reduction temperature difficulty before after reason s =
     (let s' = s\<lparr>lp_effective_max_lanes := after, lp_temp_reductions := lp_temp_reductions s + 1,
                 lp_events := lp_events s @ [\<lparr>le_temperature_c = temperature, le_difficulty = difficulty,
                   le_cap_before = before, le_cap_after = after, le_reason = reason\<rparr>]\<rparr>
      in (s', save_lane_policy s'))"

definition restore_lane_cap_if_cool ::
    "int \<Rightarrow> int \<Rightarrow> int \<Rightarrow> int \<Rightarrow> cuda_lane_policy \<times> policy_file \<Rightarrow> (cuda_lane_policy \<times> policy_file) \<times> bool" where
  "restore_lane_cap_if_cool temperature warn difficulty reference sf =
     (let s = fst sf in
      if difficulty < reference then (sf, False)
      else if temperature \<ge> warn - 5 then (sf, False)
      else if lp_effective_max_lanes s \<ge> lp_config_max_lanes s then (sf, False)
      else
        (let s' = s\<lparr>lp_effective_max_lanes := lp_config_max_lanes s,
                    lp_events := lp_events s @ [\<lparr>le_temperature_c = temperature,
                      le_difficulty = difficulty, le_cap_before = lp_effective_max_lanes s,
                      le_cap_after = lp_config_max_lanes s,
                      le_reason = ''reference_difficulty_cool_restore''\<rparr>]\<rparr>
         in ((s', save_lane_policy s'), True)))"

lemma last_n_idem [simp]: "last_n n (last_n n xs) = last_n n xs"
  by (simp add: last_n_def)

lemma load_range: "1 \<le> lp_effective_max_lanes (load_lane_policy f c)
    \<and> lp_effective_max_lanes (load_lane_policy f c) \<le> max 1 c
    \<and> lp_config_max_lanes (load_lane_policy f c) = max 1 c"
  by (cases f) (simp_all add: load_lane_policy_def Let_def)

text \<open>
  The lane cap survives a restart: loading what a reduction saved gives the reduced cap (kept
  between one lane and the configured ceiling, whatever the file says), the number of reductions
  and the last fifty events; and the cap is lifted again only at or above the reference difficulty
  and five degrees below the warning, and then to the configured ceiling.
\<close>

theorem lane_cap_survives_restart:
  "(case record_temp_lane_reduction t d before after reason s of (s', file) \<Rightarrow>
      load_lane_policy file config = s'\<lparr>lp_config_max_lanes := max 1 config,
         lp_effective_max_lanes := max 1 (min (max 1 config) after), lp_events := last_n 50 (lp_events s')\<rparr>)
   \<and> (let s = load_lane_policy anyfile config in
      1 \<le> lp_effective_max_lanes s \<and> lp_effective_max_lanes s \<le> max 1 config)
   \<and> (snd (restore_lane_cap_if_cool t warn d ref (s, f)) \<longleftrightarrow>
        ref \<le> d \<and> t < warn - 5 \<and> lp_effective_max_lanes s < lp_config_max_lanes s)
   \<and> (let s' = fst (fst (restore_lane_cap_if_cool t warn d ref (s, f)))
      in lp_effective_max_lanes s' = (if snd (restore_lane_cap_if_cool t warn d ref (s, f))
           then lp_config_max_lanes s else lp_effective_max_lanes s))"
proof -
  have "case record_temp_lane_reduction t d before after reason s of (s', file) \<Rightarrow>
      load_lane_policy file config = s'\<lparr>lp_config_max_lanes := max 1 config,
         lp_effective_max_lanes := max 1 (min (max 1 config) after), lp_events := last_n 50 (lp_events s')\<rparr>"
    by (simp add: record_temp_lane_reduction_def load_lane_policy_def save_lane_policy_def Let_def)
  then show ?thesis
    using load_range [of anyfile config] by (auto simp: restore_lane_cap_if_cool_def Let_def)
qed

subsection \<open>The power limit\<close>

record gpu_power =
  gp_target_pct :: int
  gp_min_pct :: int
  gp_warn_temp_c :: int
  gp_enabled :: bool
  gp_reference :: int
  gp_ratio :: pyfloat
  gp_low :: int
  gp_difficulty :: int
  gp_effective_pct :: int
  gp_original_mw :: "int option"
  gp_min_mw :: int
  gp_max_mw :: int
  gp_current_mw :: "int option"
  gp_applied :: bool

definition init_power :: "int \<Rightarrow> int \<Rightarrow> int \<Rightarrow> bool \<Rightarrow> int \<Rightarrow> pyfloat \<Rightarrow> int \<Rightarrow> gpu_power" where
  "init_power target_pct min_pct warn_temp enabled reference ratio low =
     (let (target, flr) = normalize_power_range target_pct min_pct 50 100
      in \<lparr>gp_target_pct = target, gp_min_pct = flr, gp_warn_temp_c = warn_temp, gp_enabled = enabled,
          gp_reference = max 1 reference, gp_ratio = max (fl (101 / 100)) ratio, gp_low = max 1 low,
          gp_difficulty = max 1 reference, gp_effective_pct = target, gp_original_mw = None,
          gp_min_mw = 0, gp_max_mw = 0, gp_current_mw = None, gp_applied = False\<rparr>)"

definition compute_effective_target_pct :: "gpu_power \<Rightarrow> int" where
  "compute_effective_target_pct p =
     (if \<not> gp_enabled p then gp_target_pct p
      else difficulty_power_target_pct (gp_target_pct p) (gp_difficulty p) (gp_reference p)
             (gp_min_pct p) (gp_ratio p) (gp_low p))"

definition set_difficulty :: "int \<Rightarrow> gpu_power \<Rightarrow> gpu_power" where
  "set_difficulty difficulty p =
     (let p' = p\<lparr>gp_difficulty := max 1 difficulty\<rparr>
      in p'\<lparr>gp_effective_pct := compute_effective_target_pct p'\<rparr>)"

definition target_mw_for_pct :: "gpu_power \<Rightarrow> int \<Rightarrow> int" where
  "target_mw_for_pct p pct = gp_min_mw p + py_int (fdivi ((gp_max_mw p - gp_min_mw p) * pct) 100)"

definition apply_boost :: "(int \<times> int \<times> int) option \<Rightarrow> bool \<Rightarrow> gpu_power \<Rightarrow> gpu_power \<times> bool" where
  "apply_boost limits accepted p = (case limits of
     None \<Rightarrow> (p, False)
   | Some (current, lo, hi) \<Rightarrow>
       (let p1 = p\<lparr>gp_original_mw := Some current, gp_min_mw := lo, gp_max_mw := hi\<rparr>;
            p2 = p1\<lparr>gp_effective_pct := compute_effective_target_pct p1\<rparr>;
            target = target_mw_for_pct p2 (gp_effective_pct p2) in
        if target \<le> current then (p2\<lparr>gp_current_mw := Some current, gp_applied := True\<rparr>, False)
        else if \<not> accepted then (p2, False)
        else (p2\<lparr>gp_current_mw := Some target, gp_applied := True\<rparr>, True)))"

definition control_temp :: "gpu_snapshot \<Rightarrow> int" where
  "control_temp s = max (max (temperature_c s) (board_temp_c s)) (gpu_temp_c s)"

definition next_limit :: "gpu_power \<Rightarrow> int \<Rightarrow> int \<Rightarrow> int" where
  "next_limit p cur temp =
     (let target = target_mw_for_pct p (gp_effective_pct p);
          floor0 = target_mw_for_pct p (gp_min_pct p);
          flr = max (gp_min_mw p) (min (min floor0 target) (gp_max_mw p));
          step = max 5000 ((gp_max_mw p - gp_min_mw p) div 20);
          new = (if temp \<ge> gp_warn_temp_c p - 2 then max flr (cur - step)
                 else if temp \<le> gp_warn_temp_c p - 12 then min target (cur + step)
                 else if cur > target then max target (cur - step)
                 else if cur < target \<and> temp \<le> gp_warn_temp_c p - 5 then min target (cur + step)
                 else cur)
      in max flr (min new (gp_max_mw p)))"

definition adjust :: "gpu_snapshot option \<Rightarrow> bool \<Rightarrow> gpu_power \<Rightarrow> gpu_power" where
  "adjust snap accepted p = (case (snap, gp_current_mw p) of
     (Some s, Some cur) \<Rightarrow>
       if \<not> gp_applied p \<or> gp_max_mw p \<le> gp_min_mw p then p
       else
         (let p' = p\<lparr>gp_effective_pct := compute_effective_target_pct p\<rparr>;
              new = next_limit p' cur (control_temp s) in
          if new = cur then p' else if \<not> accepted then p' else p'\<lparr>gp_current_mw := Some new\<rparr>)
   | _ \<Rightarrow> p)"

definition restore :: "bool \<Rightarrow> gpu_power \<Rightarrow> gpu_power \<times> int option" where
  "restore accepted p =
     (if \<not> gp_applied p \<or> gp_original_mw p = None then (p, None)
      else if gp_current_mw p = gp_original_mw p then (p, None)
      else (p\<lparr>gp_applied := False\<rparr>, if accepted then gp_original_mw p else None))"

subsection \<open>The limit stays within the driver's range\<close>

definition power_inv :: "int \<Rightarrow> int \<Rightarrow> gpu_power \<Rightarrow> bool" where
  "power_inv lo hi p \<longleftrightarrow> 0 \<le> gp_min_pct p \<and> gp_min_pct p \<le> 100 \<and> gp_min_mw p = lo \<and> gp_max_mw p = hi
     \<and> (\<forall>c. gp_current_mw p = Some c \<longrightarrow> lo \<le> c \<and> c \<le> hi)"

lemma power_pct_range:
  "0 \<le> difficulty_power_target_pct x d ref y ratio low \<and> difficulty_power_target_pct x d ref y ratio low \<le> 100"
proof -
  obtain target flr where n: "normalize_power_range x y 50 100 = (target, flr)" by (metis surj_pair)
  have "flr \<le> clamp_int v flr target \<and> clamp_int v flr target \<le> target" for v
    using power_range [OF n] by (intro clamp_int_range)
  then have "0 \<le> clamp_int v flr target \<and> clamp_int v flr target \<le> 100" for v
    using power_range [OF n] by (meson order_trans zero_le_numeral)
  then show ?thesis unfolding difficulty_power_target_pct_def Let_def n prod.case
    using power_range [OF n] by (simp only: simp_thms split: if_split) linarith
qed

lemma target_mw_range:
  assumes "gp_min_mw p \<le> gp_max_mw p" "gp_max_mw p - gp_min_mw p \<le> 2 ^ 53" "0 \<le> pct" "pct \<le> 100"
  shows "gp_min_mw p \<le> target_mw_for_pct p pct \<and> target_mw_for_pct p pct \<le> gp_max_mw p"
proof -
  let ?w = "gp_max_mw p - gp_min_mw p"
  have w: "0 \<le> ?w * pct" "?w * pct \<le> ?w * 100" using assms by (simp, intro mult_left_mono) simp_all
  have "0 \<le> rat_of_int (?w * pct)" using w(1) by (rule of_int_nonneg)
  then have "0 \<le> fdivi (?w * pct) 100" unfolding fdivi_def
    by (intro dbl.nonneg divide_nonneg_nonneg) simp_all
  then have 1: "0 \<le> py_int (fdivi (?w * pct) 100)" by (rule py_int_nonneg)
  have r: "py_int (of_int ?w) = ?w" by (rule py_int_of_int)
  have "rat_of_int (?w * pct) \<le> of_int (?w * 100)" using w(2) by (simp only: of_int_le_iff)
  then have "rat_of_int (?w * pct) / of_int 100 \<le> of_int ?w" by simp
  moreover have "fl (of_int ?w) = of_int ?w" using assms by (intro fl_of_int) simp
  ultimately have "fdivi (?w * pct) 100 \<le> of_int ?w" unfolding fdivi_def by (rule dbl.le_of)
  then have "py_int (fdivi (?w * pct) 100) \<le> py_int (of_int ?w)" by (rule py_int_mono)
  then have 2: "py_int (fdivi (?w * pct) 100) \<le> ?w" unfolding r .
  show ?thesis unfolding target_mw_for_pct_def using 1 2 by linarith
qed

lemma next_limit_range:
  assumes "gp_min_mw p \<le> gp_max_mw p"
  shows "gp_min_mw p \<le> next_limit p cur temp \<and> next_limit p cur temp \<le> gp_max_mw p"
proof -
  have "gp_min_mw p \<le> max (max (gp_min_mw p) (min x (gp_max_mw p))) (min y (gp_max_mw p))
      \<and> max (max (gp_min_mw p) (min x (gp_max_mw p))) (min y (gp_max_mw p)) \<le> gp_max_mw p" for x y
    using assms by auto
  then show ?thesis unfolding next_limit_def Let_def by blast
qed

text \<open>A hot GPU: the limit goes down by a step, but not below the floor.\<close>

lemma next_limit_hot:
  assumes "gp_warn_temp_c p - 2 \<le> temp" "gp_min_mw p \<le> target_mw_for_pct p (gp_min_pct p)"
  shows "next_limit p cur temp \<le> max (target_mw_for_pct p (gp_min_pct p)) (cur - 5000)"
proof -
  define flr where "flr = max (gp_min_mw p) (min (min (target_mw_for_pct p (gp_min_pct p))
      (target_mw_for_pct p (gp_effective_pct p))) (gp_max_mw p))"
  define step where "step = max 5000 ((gp_max_mw p - gp_min_mw p) div 20)"
  have "flr \<le> target_mw_for_pct p (gp_min_pct p)" using assms(2) unfolding flr_def by simp
  moreover have "5000 \<le> step" by (simp add: step_def)
  moreover have "next_limit p cur temp = max flr (min (max flr (cur - step)) (gp_max_mw p))"
    unfolding next_limit_def Let_def flr_def step_def using assms(1) by (simp only: if_True)
  moreover have "max a (min (max a b) c) \<le> max e d" if "a \<le> e" "b \<le> d" for a b c d e :: int
    using that by linarith
  ultimately show ?thesis by simp
qed

lemma power_inv_adjust:
  "power_inv lo hi p \<Longrightarrow> lo \<le> hi \<Longrightarrow> power_inv lo hi (adjust snap acc p)"
  using next_limit_range [of "p\<lparr>gp_effective_pct := compute_effective_target_pct p\<rparr>"]
  by (auto simp: power_inv_def adjust_def Let_def split: option.splits)

lemma power_inv_apply:
  assumes "lo \<le> cur" "cur \<le> hi" "hi - lo \<le> 2 ^ 53"
  shows "power_inv lo hi (fst (apply_boost (Some (cur, lo, hi)) acc (init_power t m w e r ra l)))"
proof -
  obtain target flr where n: "normalize_power_range t m 50 100 = (target, flr)" by (metis surj_pair)
  note r = power_range [OF n]
  define p0 where "p0 = init_power t m w e r ra l"
  have p0: "gp_min_pct p0 = flr" "gp_target_pct p0 = target" "gp_current_mw p0 = None"
    by (simp_all add: p0_def init_power_def n)
  define p1 where "p1 = p0\<lparr>gp_original_mw := Some cur, gp_min_mw := lo, gp_max_mw := hi\<rparr>"
  define pct where "pct = compute_effective_target_pct p1"
  have "0 \<le> difficulty_power_target_pct target d rf flr rt lw \<and> difficulty_power_target_pct target d rf flr rt lw \<le> 100" for d rf rt lw
    by (rule power_pct_range)
  then have pct: "0 \<le> pct" "pct \<le> 100"
    using r by (auto simp: pct_def compute_effective_target_pct_def p1_def p0)
  define p2 where "p2 = p1\<lparr>gp_effective_pct := pct\<rparr>"
  have "lo \<le> target_mw_for_pct p2 pct \<and> target_mw_for_pct p2 pct \<le> hi"
    using target_mw_range [of p2 pct] assms pct by (simp add: p2_def p1_def)
  moreover have "fst (apply_boost (Some (cur, lo, hi)) acc p0) =
      (if target_mw_for_pct p2 pct \<le> cur then p2\<lparr>gp_current_mw := Some cur, gp_applied := True\<rparr>
       else if \<not> acc then p2 else p2\<lparr>gp_current_mw := Some (target_mw_for_pct p2 pct), gp_applied := True\<rparr>)"
    by (simp add: apply_boost_def Let_def p2_def pct_def p1_def)
  ultimately show ?thesis using assms r unfolding p0_def [symmetric]
    by (simp add: power_inv_def) (auto simp: p2_def p1_def p0)
qed

text \<open>What happens to the limit in a session: adjustments, and new difficulties of the network.\<close>

datatype power_event = Adjust "gpu_snapshot option" bool | NewDifficulty int

definition power_step :: "power_event \<Rightarrow> gpu_power \<Rightarrow> gpu_power" where
  "power_step e p = (case e of Adjust snap accepted \<Rightarrow> adjust snap accepted p | NewDifficulty d \<Rightarrow> set_difficulty d p)"

definition power_run :: "power_event list \<Rightarrow> gpu_power \<Rightarrow> gpu_power" where
  "power_run = fold power_step"

lemma power_inv_step: "power_inv lo hi p \<Longrightarrow> lo \<le> hi \<Longrightarrow> power_inv lo hi (power_step e p)"
  using power_inv_adjust [of lo hi p]
  by (cases e) (simp_all add: power_step_def, simp add: set_difficulty_def Let_def power_inv_def)

lemma power_inv_run: "power_inv lo hi p \<Longrightarrow> lo \<le> hi \<Longrightarrow> power_inv lo hi (power_run es p)"
  unfolding power_run_def by (induction es arbitrary: p) (auto intro: power_inv_step)

text \<open>
  C22: after the boost at the start of a session, and whatever temperatures, refusals of the driver
  and difficulties follow, the power limit stays within the range the driver reported.  For a GPU
  within two degrees of its warning an adjustment never raises a limit that is at or above the
  configured floor, and never raises a lower one above that floor; and where the driver accepts it
  the limit drops by at least five watts, or to the floor.
\<close>

theorem power_limit_safe:
  assumes "lo \<le> cur" "cur \<le> hi" "hi - lo \<le> 2 ^ 53"
    and "p = power_run es (fst (apply_boost (Some (cur, lo, hi)) acc (init_power t m w e r ra l)))"
    and "gp_current_mw p = Some c" "flr = target_mw_for_pct p (gp_min_pct p)"
  shows "lo \<le> c \<and> c \<le> hi
    \<and> (gp_warn_temp_c p - 2 \<le> control_temp s \<longrightarrow>
        (\<forall>c'. gp_current_mw (adjust (Some s) acc' p) = Some c' \<longrightarrow>
          (flr \<le> c \<longrightarrow> c' \<le> c) \<and> (c < flr \<longrightarrow> c' \<le> flr)
          \<and> (acc' \<and> gp_applied p \<and> lo < hi \<longrightarrow> c' \<le> max flr (c - 5000))))"
proof -
  have lh: "lo \<le> hi" using assms by simp
  have inv: "power_inv lo hi p" unfolding assms(4) by (intro power_inv_run power_inv_apply assms lh)
  let ?p = "p\<lparr>gp_effective_pct := compute_effective_target_pct p\<rparr>"
  have "gp_min_mw ?p \<le> target_mw_for_pct ?p (gp_min_pct ?p)"
    using target_mw_range [of ?p "gp_min_pct p"] inv lh assms(3) by (simp add: power_inv_def)
  moreover have "target_mw_for_pct ?p q = target_mw_for_pct p q" for q by (simp add: target_mw_for_pct_def)
  ultimately have hot: "next_limit ?p c (control_temp s) \<le> max flr (c - 5000)"
    if "gp_warn_temp_c p - 2 \<le> control_temp s"
    using next_limit_hot [of ?p "control_temp s" c] that assms(6) by simp
  have c: "lo \<le> c \<and> c \<le> hi" "gp_min_mw p = lo" "gp_max_mw p = hi" using inv assms(5) by (auto simp: power_inv_def)
  have "(c' = c \<or> c' \<le> max flr (c - 5000)) \<and> (acc' \<and> gp_applied p \<and> lo < hi \<longrightarrow> c' \<le> max flr (c - 5000))"
    if "gp_warn_temp_c p - 2 \<le> control_temp s" "gp_current_mw (adjust (Some s) acc' p) = Some c'" for c'
    using that(2) hot [OF that(1)] assms(5) c(2,3) by (auto simp: adjust_def Let_def split: if_splits)
  then show ?thesis using c(1) by fastforce
qed

definition hot_snapshot :: gpu_snapshot where
  "hot_snapshot = \<lparr>gpu_index = 0, gpu_name = [], total_mib = 32607, used_mib = 0, free_mib = 32607,
     util_pct = 0, power_w = 0, temperature_c = 80, gpu_temp_c = 80, board_temp_c = 0,
     hotspot_temp_c = 0, memory_temp_c = 0, temp_source = ''gpu''\<rparr>"

theorem power_limit_safe_witness:
  "let p = power_run [Adjust (Some hot_snapshot) True, NewDifficulty 2200]
      (fst (apply_boost (Some (400000, 200000, 600000)) True (init_power 100 75 75 False 1100 2 100)))
   in \<exists>c c'. gp_current_mw p = Some c \<and> 200000 \<le> c \<and> c \<le> 600000
    \<and> gp_current_mw (adjust (Some hot_snapshot) True p) = Some c' \<and> c' < c"
proof -
  define p where "p = power_run [Adjust (Some hot_snapshot) True, NewDifficulty 2200]
      (fst (apply_boost (Some (400000, 200000, 600000)) True (init_power 100 75 75 False 1100 2 100)))"
  have "gp_applied (power_run [Adjust (Some hot_snapshot) True, NewDifficulty 2200]
      (fst (apply_boost (Some (400000, 200000, 600000)) True (init_power 100 75 75 False 1100 2 100))))
    \<and> gp_warn_temp_c (power_run [Adjust (Some hot_snapshot) True, NewDifficulty 2200]
      (fst (apply_boost (Some (400000, 200000, 600000)) True (init_power 100 75 75 False 1100 2 100)))) = 75
    \<and> control_temp hot_snapshot = 80" by code_simp
  then have a: "gp_applied p" "gp_warn_temp_c p - 2 \<le> control_temp hot_snapshot" by (simp_all add: p_def)
  have "(case gp_current_mw (power_run [Adjust (Some hot_snapshot) True, NewDifficulty 2200]
      (fst (apply_boost (Some (400000, 200000, 600000)) True (init_power 100 75 75 False 1100 2 100)))) of
        None \<Rightarrow> False | Some c \<Rightarrow> target_mw_for_pct (power_run [Adjust (Some hot_snapshot) True, NewDifficulty 2200]
      (fst (apply_boost (Some (400000, 200000, 600000)) True (init_power 100 75 75 False 1100 2 100)))) 75 < c)" by code_simp
  then obtain c where c: "gp_current_mw p = Some c" "target_mw_for_pct p 75 < c" by (auto simp: p_def split: option.splits)
  have m: "gp_min_pct p = 75"
  proof -
    have "gp_min_pct (power_run [Adjust (Some hot_snapshot) True, NewDifficulty 2200]
      (fst (apply_boost (Some (400000, 200000, 600000)) True (init_power 100 75 75 False 1100 2 100)))) = 75" by code_simp
    then show ?thesis by (simp add: p_def)
  qed
  obtain c' where c': "gp_current_mw (adjust (Some hot_snapshot) True p) = Some c'"
    by (cases "gp_current_mw (adjust (Some hot_snapshot) True p)")
      (use c(1) in \<open>auto simp: adjust_def Let_def split: if_splits\<close>)
  have "200000 \<le> c \<and> c \<le> 600000 \<and> c' \<le> max (target_mw_for_pct p 75) (c - 5000)"
    using power_limit_safe [OF _ _ _ p_def c(1) refl, of hot_snapshot True] a c' m by simp
  then show ?thesis using c c' unfolding p_def [symmetric] Let_def by auto
qed

end
