(* ===== verification/CudaBackend.thy ===== *)
theory CudaBackend
  imports VramBatch LaneAndPower BlockTypes
begin

text \<open>
  The native CUDA backend (\<open>mining/backends/cuda_native.py\<close>): the plan of the running engine, the
  live caps that heat and memory pressure put on it, the lane workers, and the batches it mines.
  The engine itself is a C library outside the Python sources: what its calls answer is the
  record \<open>engine_env\<close>, an argument of the operations that call it.  A method that can raise
  returns the exception with the state it leaves behind.  Log lines are not modelled.
\<close>

subsection \<open>Settings, environment and state\<close>

record cuda_settings =
  cs_memory_cost :: int
  cs_batch_size :: int
  cs_max_batch_size :: int
  cs_max_lanes :: int
  cs_lane_reserve :: int
  cs_min_batch_per_lane :: int
  cs_pack_mode :: string
  cs_allow_dll_copies :: bool
  cs_limits :: vram_limits
  cs_account_desktop :: bool
  cs_safety_margin_mib :: int
  cs_clock_curve_enabled :: bool
  cs_clock_low_difficulty :: int
  cs_fill_low :: pyfloat
  cs_fill_ref :: pyfloat
  cs_fill_high :: pyfloat
  cs_full_ratio :: pyfloat
  cs_reference_difficulty :: int
  cs_lane_bias :: bool
  cs_full_pack_ratio :: pyfloat
  cs_batch_min_scale :: pyfloat
  cs_batch_enabled :: bool
  cs_lane_enabled :: bool
  cs_lane_min :: int
  cs_soft_derate_enabled :: bool
  cs_soft_lane_enabled :: bool
  cs_soft_min_scale :: pyfloat
  cs_warn_temp_c :: int
  cs_max_temp_c :: int

text \<open>\<open>ee_device\<close> is the total and the free memory that \<open>device_info\<close> reports, in bytes (None
  when the call fails); \<open>ee_copy_ok\<close> says of a lane whether copying, loading and initialising its
  worker library succeeds.\<close>

record engine_env =
  ee_parallel_lanes :: bool
  ee_init_ok :: bool
  ee_device :: "(int \<times> int) option"
  ee_lane_count_ok :: "int \<Rightarrow> bool"
  ee_copy_ok :: "int \<Rightarrow> bool"

datatype parallel_mode = Sequential | NativeLanes | DllCopies

record cuda_backend =
  cb_lanes :: int
  cb_batch_per_lane :: int
  cb_batch_size :: int
  cb_difficulty :: int
  cb_started :: bool
  cb_last_hs :: pyfloat
  cb_vram_plan :: "cuda_vram_plan option"
  cb_policy :: "cuda_lane_policy \<times> policy_file"
  cb_max_lanes_cap :: int
  cb_lane_engines :: "int list"
  cb_parallel_mode :: parallel_mode
  cb_vram_caps :: "vram_caps option"
  cb_thermal_scale :: pyfloat
  cb_vram_scale :: pyfloat
  cb_planned_batch :: int
  cb_base_plan :: "cuda_vram_plan option"
  cb_thermal_lane_cap :: "int option"
  cb_vram_lane_cap :: "int option"
  cb_last_temp_c :: int
  cb_desktop_baseline_mib :: int
  cb_foreign_vram_mib :: int
  cb_last_used_mib :: int

definition init_backend :: "cuda_settings \<Rightarrow> policy_file \<Rightarrow> cuda_backend" where
  "init_backend s file =
     (let policy = load_lane_policy file (cs_max_lanes s) in
      \<lparr>cb_lanes = 1, cb_batch_per_lane = cs_batch_size s, cb_batch_size = cs_batch_size s,
       cb_difficulty = cs_memory_cost s, cb_started = False, cb_last_hs = 0, cb_vram_plan = None,
       cb_policy = (policy, file), cb_max_lanes_cap = lp_effective_max_lanes policy,
       cb_lane_engines = [], cb_parallel_mode = Sequential, cb_vram_caps = None,
       cb_thermal_scale = 1, cb_vram_scale = 1, cb_planned_batch = cs_batch_size s,
       cb_base_plan = None, cb_thermal_lane_cap = None, cb_vram_lane_cap = None,
       cb_last_temp_c = 0, cb_desktop_baseline_mib = 0, cb_foreign_vram_mib = 0,
       cb_last_used_mib = 0\<rparr>)"

subsection \<open>Planning for the device\<close>

definition caps_for_total :: "cuda_settings \<Rightarrow> int \<Rightarrow> cuda_backend \<Rightarrow> vram_caps \<times> cuda_backend" where
  "caps_for_total s card_mib b =
     (let caps = resolve_vram_caps card_mib (cs_limits s);
          fresh = (caps, b\<lparr>cb_vram_caps := Some caps\<rparr>) in
      case cb_vram_caps b of
        Some old \<Rightarrow> if vc_total_mib old = card_mib then (old, b) else fresh
      | None \<Rightarrow> fresh)"

definition concurrent_vram_lanes_hint :: "engine_env \<Rightarrow> cuda_backend \<Rightarrow> int option" where
  "concurrent_vram_lanes_hint env b =
     (if cb_parallel_mode b \<in> {NativeLanes, DllCopies} then None
      else if ee_parallel_lanes env then None
      else Some 1)"

definition plan_pack_mode :: "cuda_settings \<Rightarrow> engine_env \<Rightarrow> cuda_backend \<Rightarrow> string" where
  "plan_pack_mode s env b =
     (let base = py_lower (py_strip (if cs_pack_mode s = [] then ''fill'' else cs_pack_mode s)) in
      if concurrent_vram_lanes_hint env b = None then (if base = [] then ''fill'' else base)
      else if base \<in> {''coverage'', ''prefixes'', ''sweep''} then base
      else ''fill'')"

definition mib_of_bytes :: "int \<Rightarrow> int" where
  "mib_of_bytes n = n div (1024 * 1024)"

text \<open>The desktop's share of the used memory: everything, on the first reading before mining.\<close>

definition account_foreign :: "cuda_settings \<Rightarrow> int \<Rightarrow> cuda_backend \<Rightarrow> int \<times> cuda_backend" where
  "account_foreign s used_now b =
     (if \<not> cs_account_desktop s then (0, b\<lparr>cb_foreign_vram_mib := 0\<rparr>)
      else
        (let (batch, overhead) = (case cb_vram_plan b of None \<Rightarrow> (0, 0)
               | Some p \<Rightarrow> (vp_batch_vram_mib p, vp_runtime_overhead_mib p));
             estimate = estimate_foreign_vram_mib used_now batch overhead (cb_desktop_baseline_mib b) in
         if cb_desktop_baseline_mib b \<le> 0 \<and> cb_vram_plan b = None
         then (used_now, b\<lparr>cb_desktop_baseline_mib := used_now, cb_foreign_vram_mib := used_now\<rparr>)
         else (estimate, b\<lparr>cb_foreign_vram_mib := estimate\<rparr>)))"

definition fill_fraction :: "cuda_settings \<Rightarrow> int \<Rightarrow> pyfloat" where
  "fill_fraction s diff =
     (if cs_clock_curve_enabled s
      then difficulty_batch_fill_fraction diff (cs_reference_difficulty s) (cs_clock_low_difficulty s)
             (cs_fill_low s) (cs_fill_ref s) (cs_fill_high s) (cs_full_ratio s)
      else 1)"

definition plan_request :: "cuda_settings \<Rightarrow> engine_env \<Rightarrow> int \<times> int \<Rightarrow> int \<Rightarrow> vram_caps \<Rightarrow> int
    \<Rightarrow> cuda_backend \<Rightarrow> batch_request" where
  "plan_request s env dev diff caps foreign b =
     \<lparr>br_total_bytes = fst dev, br_free_bytes = snd dev, br_target_mib = vc_target_mib caps,
      br_desktop_headroom_mib = vc_headroom_mib caps, br_difficulty = diff,
      br_reference_difficulty = cs_reference_difficulty s, br_max_lanes = cb_max_lanes_cap b,
      br_lane_reserve = cs_lane_reserve s,
      br_explicit_batch = (if cs_batch_size s > 0 then cs_batch_size s else 0),
      br_explicit_max_batch = cs_max_batch_size s,
      br_runtime_overhead_mib = vc_runtime_overhead_mib caps,
      br_min_batch_per_lane = cs_min_batch_per_lane s, br_pack_mode = plan_pack_mode s env b,
      br_foreign_used_mib = foreign,
      br_safety_margin_mib = (if cs_account_desktop s then cs_safety_margin_mib s else 0),
      br_concurrent_vram_lanes = concurrent_vram_lanes_hint env b,
      br_budget_fill_fraction = fill_fraction s diff\<rparr>"

definition accept_plan :: "cuda_settings \<Rightarrow> int \<Rightarrow> cuda_vram_plan \<Rightarrow> cuda_vram_plan py" where
  "accept_plan s diff p =
     (if vp_batch_per_lane p \<le> 0 then Inl RuntimeError
      else if \<not> within_limits p then Inl RuntimeError
      else if diff < cs_reference_difficulty s \<and> \<not> fills_budget p 64 \<and> \<not> cs_clock_curve_enabled s
        \<and> vp_budget_mib p - vp_batch_vram_mib p > max 64 (max 1 (vp_budget_mib p) div 20)
      then Inl RuntimeError
      else Inr p)"

definition plan_from_device :: "cuda_settings \<Rightarrow> engine_env \<Rightarrow> int \<times> int \<Rightarrow> int \<Rightarrow> cuda_backend
    \<Rightarrow> cuda_vram_plan py \<times> cuda_backend" where
  "plan_from_device s env dev diff b =
     (let card_mib = max 1 (mib_of_bytes (fst dev));
          (caps, b1) = caps_for_total s card_mib b;
          used_now = max 0 (mib_of_bytes (fst dev - snd dev));
          (foreign, b2) = account_foreign s used_now b1
      in (accept_plan s diff (plan_cuda_batch (plan_request s env dev diff caps foreign b2)), b2))"

subsection \<open>Live caps\<close>

definition biased_lanes :: "cuda_settings \<Rightarrow> cuda_vram_plan \<Rightarrow> int" where
  "biased_lanes s p =
     (if cs_lane_bias s \<and> vp_lanes p > 1
      then difficulty_lane_bias (vp_lanes p) (vp_difficulty p) (cs_reference_difficulty s) (cs_full_pack_ratio s)
      else vp_lanes p)"

definition live_caps :: "cuda_backend \<Rightarrow> int list" where
  "live_caps b = List.map_filter id [cb_thermal_lane_cap b, cb_vram_lane_cap b]"

definition effective_plan :: "cuda_settings \<Rightarrow> cuda_backend \<Rightarrow> cuda_vram_plan \<Rightarrow> cuda_vram_plan" where
  "effective_plan s b base =
     (let plan = (if biased_lanes s base < vp_lanes base then apply_lane_cap base (biased_lanes s base)
                  else base);
          caps = filter (\<lambda>c. c < vp_lanes plan) (live_caps b)
      in case caps of [] \<Rightarrow> plan | c # cs \<Rightarrow> apply_lane_cap plan (foldl min c cs))"

definition soft_floor :: "cuda_settings \<Rightarrow> pyfloat" where
  "soft_floor s = clamp_float (cs_soft_min_scale s) (1 / 2) 1"

definition thermal_floor :: "cuda_settings \<Rightarrow> pyfloat" where
  "thermal_floor s = clamp_float (cs_batch_min_scale s) (1 / 2) 1"

definition combined_batch_scale :: "cuda_settings \<Rightarrow> cuda_backend \<Rightarrow> pyfloat" where
  "combined_batch_scale s b =
     combine_batch_scales [cb_thermal_scale b, cb_vram_scale b] (min (thermal_floor s) (soft_floor s))"

text \<open>Every caller passes the base plan, so the branch that keeps an older one is not taken.\<close>

definition apply_plan :: "cuda_settings \<Rightarrow> cuda_vram_plan \<Rightarrow> cuda_vram_plan \<Rightarrow> cuda_backend \<Rightarrow> cuda_backend" where
  "apply_plan s plan base b =
     (let batch = apply_batch_scale (vp_batch_per_lane plan) (combined_batch_scale s b)
      in b\<lparr>cb_base_plan := Some base, cb_vram_plan := Some plan, cb_lanes := vp_lanes plan,
           cb_planned_batch := vp_batch_per_lane plan, cb_batch_per_lane := batch,
           cb_batch_size := batch\<rparr>)"

definition use_sequential :: "cuda_backend \<Rightarrow> cuda_backend" where
  "use_sequential b = b\<lparr>cb_lane_engines := [], cb_parallel_mode := Sequential\<rparr>"

definition sync_lane_copy_workers :: "engine_env \<Rightarrow> cuda_backend \<Rightarrow> cuda_backend py" where
  "sync_lane_copy_workers env b =
     (let needed = [1..cb_lanes b - 1];
          kept = filter (\<lambda>l. l \<in> set needed) (cb_lane_engines b);
          missing = filter (\<lambda>l. l \<notin> set kept) needed
      in if list_all (ee_copy_ok env) missing
         then Inr (b\<lparr>cb_lane_engines := kept @ missing, cb_parallel_mode := DllCopies\<rparr>)
         else Inl RuntimeError)"

definition sync_lane_engines :: "cuda_settings \<Rightarrow> engine_env \<Rightarrow> cuda_backend \<Rightarrow> cuda_backend" where
  "sync_lane_engines s env b =
     (if \<not> cb_started b then b
      else if ee_parallel_lanes env then
        (let b1 = b\<lparr>cb_lane_engines := [],
                    cb_parallel_mode := (if cb_lanes b > 1 then NativeLanes else Sequential)\<rparr>
         in if ee_lane_count_ok env (cb_lanes b) then b1 else use_sequential b1)
      else if cb_lanes b > 1 then
        (if \<not> cs_allow_dll_copies s then use_sequential b
         else case sync_lane_copy_workers env b of Inl _ \<Rightarrow> use_sequential b | Inr b1 \<Rightarrow> b1)
      else use_sequential b)"

definition reapply_live_caps :: "cuda_settings \<Rightarrow> engine_env \<Rightarrow> cuda_backend \<Rightarrow> cuda_backend \<times> bool" where
  "reapply_live_caps s env b =
     (case cb_base_plan b of
        None \<Rightarrow> (b, False)
      | Some base \<Rightarrow>
          (let plan = effective_plan s b base;
               b1 = apply_plan s plan base b in
           if vp_lanes plan \<noteq> cb_lanes b then (sync_lane_engines s env b1, True)
           else (b1, cb_batch_per_lane b \<noteq> cb_batch_per_lane b1)))"

text \<open>Scales closer than this are the same: \<open>0.005\<close>.\<close>

definition scale_moved :: "pyfloat \<Rightarrow> pyfloat \<Rightarrow> bool" where
  "scale_moved x y \<longleftrightarrow> \<bar>fl (x - y)\<bar> \<ge> fl (5 / 1000)"

definition rescale_batch :: "cuda_settings \<Rightarrow> cuda_backend \<Rightarrow> cuda_backend" where
  "rescale_batch s b =
     (if cb_planned_batch b > 0 then
        (let batch = apply_batch_scale (cb_planned_batch b) (combined_batch_scale s b)
         in b\<lparr>cb_batch_per_lane := batch, cb_batch_size := batch\<rparr>)
      else b)"

definition set_thermal_batch_scale :: "cuda_settings \<Rightarrow> pyfloat \<Rightarrow> cuda_backend \<Rightarrow> cuda_backend" where
  "set_thermal_batch_scale s scale b =
     (let new_scale = clamp_float scale (thermal_floor s) 1 in
      if \<not> scale_moved new_scale (cb_thermal_scale b) then b
      else rescale_batch s (b\<lparr>cb_thermal_scale := new_scale\<rparr>))"

definition set_vram_batch_scale :: "cuda_settings \<Rightarrow> pyfloat \<Rightarrow> cuda_backend \<Rightarrow> cuda_backend" where
  "set_vram_batch_scale s scale b =
     (let new_scale = clamp_float scale (soft_floor s) 1 in
      if \<not> scale_moved new_scale (cb_vram_scale b) then b
      else rescale_batch s (b\<lparr>cb_vram_scale := new_scale\<rparr>))"

definition update_vram_pressure_from_used :: "cuda_settings \<Rightarrow> engine_env \<Rightarrow> int \<Rightarrow> int \<Rightarrow> int
    \<Rightarrow> cuda_backend \<Rightarrow> cuda_backend \<times> bool" where
  "update_vram_pressure_from_used s env used target emergency b0 =
     (let b = b0\<lparr>cb_last_used_mib := used\<rparr> in
      if \<not> cs_soft_derate_enabled s then
        (let (b1, changed) = reapply_live_caps s env
               ((set_vram_batch_scale s 1 b)\<lparr>cb_vram_lane_cap := None\<rparr>)
         in (b1, changed \<or> scale_moved (cb_vram_scale b) 1))
      else
        (let scale = vram_pressure_scale used target emergency (cs_soft_min_scale s) 0;
             b1 = set_vram_batch_scale s scale b;
             planned = (case cb_base_plan b1 of None \<Rightarrow> cb_lanes b1 | Some base \<Rightarrow> biased_lanes s base);
             cap = (if cs_soft_lane_enabled s \<and> planned > 1
                    then Some (vram_pressure_lane_cap planned used target emergency (max 1 (cs_lane_min s)))
                    else None);
             (b2, changed) = reapply_live_caps s env (b1\<lparr>cb_vram_lane_cap := cap\<rparr>)
         in (b2, changed \<or> scale_moved scale (cb_vram_scale b))))"

definition update_thermal_batch_from_temp :: "cuda_settings \<Rightarrow> int \<Rightarrow> cuda_backend \<Rightarrow> cuda_backend" where
  "update_thermal_batch_from_temp s temperature b0 =
     (let b = b0\<lparr>cb_last_temp_c := temperature\<rparr> in
      if \<not> cs_batch_enabled s then set_thermal_batch_scale s 1 b
      else set_thermal_batch_scale s (thermal_batch_scale temperature (cs_warn_temp_c s)
             (cs_max_temp_c s) (cs_batch_min_scale s) 5) b)"

definition update_thermal_lanes_from_temp :: "cuda_settings \<Rightarrow> engine_env \<Rightarrow> int \<Rightarrow> cuda_backend
    \<Rightarrow> cuda_backend \<times> bool" where
  "update_thermal_lanes_from_temp s env temperature b0 =
     (let b = b0\<lparr>cb_last_temp_c := temperature\<rparr> in
      case cb_base_plan b of
        None \<Rightarrow> (b, False)
      | Some base \<Rightarrow>
          if \<not> cs_lane_enabled s then (b, False)
          else
            (let cap = thermal_lane_cap (biased_lanes s base) temperature (cs_warn_temp_c s)
                   (cs_max_temp_c s) (max 1 (cs_lane_min s)) 8 3;
                 (b1, changed) = reapply_live_caps s env (b\<lparr>cb_thermal_lane_cap := Some cap\<rparr>)
             in (b1, changed \<or> cb_thermal_lane_cap b \<noteq> Some cap)))"

text \<open>The cap that the supervisor sets from its own evaluation of both temperatures.\<close>

definition set_thermal_lane_cap :: "cuda_settings \<Rightarrow> engine_env \<Rightarrow> int \<Rightarrow> cuda_backend \<Rightarrow> cuda_backend \<times> bool" where
  "set_thermal_lane_cap s env cap b = reapply_live_caps s env (b\<lparr>cb_thermal_lane_cap := Some cap\<rparr>)"

subsection \<open>Start, stop, difficulty\<close>

definition lane_memory_limit :: "cuda_vram_plan \<Rightarrow> int \<Rightarrow> int" where
  "lane_memory_limit p difficulty =
     (let per_lane_budget = max 1 (vp_budget_bytes p div max 1 (effective_concurrent_vram_lanes p))
      in memory_limited_batch_size (per_lane_budget + cuda_engine_reserve_bytes) difficulty
           cuda_engine_reserve_bytes)"

definition batch_fits :: "cuda_settings \<Rightarrow> cuda_vram_plan \<Rightarrow> int \<Rightarrow> bool" where
  "batch_fits s p difficulty =
     (let limit = lane_memory_limit p difficulty;
          limit = (if cs_max_batch_size s > 0 then min limit (cs_max_batch_size s) else limit)
      in \<not> (vp_batch_per_lane p > limit \<and> limit > 0))"

definition cuda_start :: "cuda_settings \<Rightarrow> engine_env \<Rightarrow> cuda_backend \<Rightarrow> unit py \<times> cuda_backend" where
  "cuda_start s env b =
     (if cb_started b then (Inr (), b)
      else
        (let (_, b1) = caps_for_total s 32768 b in
         if \<not> ee_init_ok env then (Inl RuntimeError, b1)
         else case ee_device env of
           None \<Rightarrow> (Inl RuntimeError, b1)
         | Some dev \<Rightarrow>
             (let used_now = max 0 (mib_of_bytes (fst dev - snd dev));
                  b2 = b1\<lparr>cb_desktop_baseline_mib := used_now, cb_foreign_vram_mib := used_now\<rparr>;
                  (_, b3) = caps_for_total s (max 1 (mib_of_bytes (fst dev))) b2;
                  (planned, b4) = plan_from_device s env dev (cb_difficulty b3) b3
              in case planned of
                   Inl e \<Rightarrow> (Inl e, b4)
                 | Inr base \<Rightarrow>
                     if \<not> batch_fits s base (cb_difficulty b4) then (Inl RuntimeError, b4)
                     else (Inr (), sync_lane_engines s env
                            ((apply_plan s (effective_plan s b4 base) base b4)\<lparr>cb_started := True\<rparr>)))))"

definition cuda_stop :: "cuda_backend \<Rightarrow> cuda_backend" where
  "cuda_stop b =
     (if cb_started b
      then b\<lparr>cb_lane_engines := [], cb_started := False, cb_vram_plan := None, cb_base_plan := None,
             cb_thermal_lane_cap := None, cb_desktop_baseline_mib := 0, cb_foreign_vram_mib := 0,
             cb_parallel_mode := Sequential\<rparr>
      else b)"

definition clip_batch :: "cuda_settings \<Rightarrow> int \<Rightarrow> cuda_vram_plan \<Rightarrow> cuda_vram_plan" where
  "clip_batch s difficulty base =
     (let limit = lane_memory_limit base difficulty;
          limit = (if cs_max_batch_size s > 0 \<and> limit > 0 then min limit (cs_max_batch_size s) else limit)
      in if limit > 0 \<and> vp_batch_per_lane base > limit then base\<lparr>vp_batch_per_lane := limit\<rparr> else base)"

text \<open>A replan that raises is swallowed: the new difficulty is mined with the plan there is.\<close>

definition cuda_set_difficulty :: "cuda_settings \<Rightarrow> engine_env \<Rightarrow> int \<Rightarrow> cuda_backend \<Rightarrow> cuda_backend" where
  "cuda_set_difficulty s env difficulty b =
     (if difficulty = cb_difficulty b \<and> cb_started b then b
      else
        (let b1 = b\<lparr>cb_difficulty := max 1 difficulty\<rparr> in
         if \<not> cb_started b1 then b1
         else case ee_device env of
           None \<Rightarrow> b1
         | Some dev \<Rightarrow>
             (case plan_from_device s env dev (cb_difficulty b1) b1 of
                (Inl _, b2) \<Rightarrow> b2
              | (Inr base0, b2) \<Rightarrow>
                  (let base = clip_batch s (cb_difficulty b2) base0
                   in sync_lane_engines s env (apply_plan s (effective_plan s b2 base) base b2)))))"

definition set_vram_caps :: "vram_caps option \<Rightarrow> cuda_backend \<Rightarrow> cuda_backend" where
  "set_vram_caps caps b = b\<lparr>cb_vram_caps := caps\<rparr>"

definition reduce_lane_cap :: "cuda_backend \<Rightarrow> cuda_backend" where
  "reduce_lane_cap b =
     (let new_cap = max 1 (cb_max_lanes_cap b - 1);
          policy = (fst (cb_policy b))\<lparr>lp_effective_max_lanes := new_cap\<rparr> in
      if new_cap = cb_max_lanes_cap b then b
      else b\<lparr>cb_max_lanes_cap := new_cap, cb_policy := (policy, save_lane_policy policy)\<rparr>)"

definition backend_restore_lane_cap :: "cuda_settings \<Rightarrow> int \<Rightarrow> int \<Rightarrow> cuda_backend \<Rightarrow> cuda_backend \<times> bool" where
  "backend_restore_lane_cap s temperature difficulty b =
     (let (policy, restored) = restore_lane_cap_if_cool temperature (cs_warn_temp_c s) difficulty
            (cs_reference_difficulty s) (cb_policy b)
      in if \<not> restored then (b, False)
         else (b\<lparr>cb_policy := policy, cb_max_lanes_cap := lp_effective_max_lanes (fst policy)\<rparr>, True))"

subsection \<open>Mining a batch\<close>

record cuda_match =
  cm_key :: string
  cm_hash :: string
  cm_pattern :: string

record cuda_batch_result =
  cr_ok :: bool
  cr_attempts :: int
  cr_hashrate :: pyfloat
  cr_matches :: "cuda_match list"

datatype abort_stage = BeforeBatch | AfterLane nat | AfterParallel nat

record mine_batch_result =
  mb_hashes_done :: int
  mb_hit :: "block_hit option"
  mb_abort :: "abort_stage option"

definition mb_aborted :: "mine_batch_result \<Rightarrow> bool" where
  "mb_aborted r \<longleftrightarrow> mb_abort r \<noteq> None"

text \<open>\<open>mv_run\<close> is the answer of the engine for a lane; \<open>mv_abort\<close> the answers of the abort check,
  in the order of the calls (None when no check is set); \<open>mv_completed\<close> the order in which the
  parallel lanes complete.\<close>

record mine_env =
  mv_run :: "nat \<Rightarrow> cuda_batch_result"
  mv_abort :: "(nat \<Rightarrow> bool) option"
  mv_completed :: "nat list"
  mv_elapsed :: pyfloat
  mv_strategy :: string
  mv_now :: string

definition aborts :: "mine_env \<Rightarrow> nat \<Rightarrow> bool" where
  "aborts env n = (case mv_abort env of None \<Rightarrow> False | Some check \<Rightarrow> check n)"

definition hit_from_result :: "mine_env \<Rightarrow> int \<Rightarrow> cuda_batch_result \<Rightarrow> block_hit option" where
  "hit_from_result env difficulty r = (case cr_matches r of
       [] \<Rightarrow> None
     | m # _ \<Rightarrow> Some \<lparr>hit_key = cm_key m, hit_hash = cm_hash m,
         hit_type = classify_block (cm_hash m) (cm_pattern m), hit_attempts = cr_attempts r,
         hit_strategy = mv_strategy env, hit_hps = cr_hashrate r, hit_found_at = mv_now env,
         hit_memory_cost = Some difficulty\<rparr>)"

record lane_totals =
  lt_hashes :: int
  lt_hs :: pyfloat
  lt_hit :: "block_hit option"
  lt_lanes_done :: nat

definition no_totals :: lane_totals where
  "no_totals = \<lparr>lt_hashes = 0, lt_hs = 0, lt_hit = None, lt_lanes_done = 0\<rparr>"

definition add_lane :: "mine_env \<Rightarrow> int \<Rightarrow> (pyfloat \<Rightarrow> pyfloat \<Rightarrow> pyfloat) \<Rightarrow> cuda_batch_result
    \<Rightarrow> lane_totals \<Rightarrow> lane_totals" where
  "add_lane env difficulty join r t =
     \<lparr>lt_hashes = lt_hashes t + cr_attempts r, lt_hs = join (lt_hs t) (cr_hashrate r),
      lt_hit = (case lt_hit t of None \<Rightarrow> hit_from_result env difficulty r | Some h \<Rightarrow> Some h),
      lt_lanes_done = Suc (lt_lanes_done t)\<rparr>"

text \<open>\<open>_run_lane\<close> raises for a batch that is not ok.  The check is asked once before the batch and
  then before every lane.\<close>

fun run_lanes :: "mine_env \<Rightarrow> int \<Rightarrow> nat list \<Rightarrow> lane_totals \<Rightarrow> (lane_totals \<times> abort_stage option) py" where
  "run_lanes env difficulty [] t = Inr (t, None)"
| "run_lanes env difficulty (lane # lanes) t =
     (if aborts env (Suc (lt_lanes_done t)) then Inr (t, Some (AfterLane (lt_lanes_done t)))
      else if \<not> cr_ok (mv_run env lane) then Inl RuntimeError
      else run_lanes env difficulty lanes (add_lane env difficulty max (mv_run env lane) t))"

fun join_lanes :: "mine_env \<Rightarrow> int \<Rightarrow> nat list \<Rightarrow> lane_totals \<Rightarrow> lane_totals py" where
  "join_lanes env difficulty [] t = Inr t"
| "join_lanes env difficulty (lane # lanes) t =
     (if \<not> cr_ok (mv_run env lane) then Inl RuntimeError
      else join_lanes env difficulty lanes
             (add_lane env difficulty (\<lambda>x y. fl (x + y)) (mv_run env lane) t))"

definition cuda_mine_batch :: "mine_env \<Rightarrow> cuda_backend \<Rightarrow> mine_batch_result py \<times> cuda_backend" where
  "cuda_mine_batch env b =
     (if \<not> cb_started b then (Inr \<lparr>mb_hashes_done = 0, mb_hit = None, mb_abort = None\<rparr>, b)
      else if aborts env 0 then
        (Inr \<lparr>mb_hashes_done = 0, mb_hit = None, mb_abort = Some BeforeBatch\<rparr>, b)
      else if \<not> (cb_lanes b > 1 \<and> cb_parallel_mode b \<noteq> Sequential) then
        (case run_lanes env (cb_difficulty b) [0..<nat (cb_lanes b)] no_totals of
           Inl e \<Rightarrow> (Inl e, b)
         | Inr (t, abort) \<Rightarrow>
             (let elapsed = max (mv_elapsed env) (fl (1 / 10 ^ 9));
                  measured = (if lt_hashes t > 0 then fl (fint (lt_hashes t) / elapsed) else lt_hs t)
              in (Inr \<lparr>mb_hashes_done = lt_hashes t, mb_hit = lt_hit t, mb_abort = abort\<rparr>,
                  b\<lparr>cb_last_hs := (if measured > 0 then measured else lt_hs t)\<rparr>)))
      else
        (case join_lanes env (cb_difficulty b) (mv_completed env) no_totals of
           Inl e \<Rightarrow> (Inl e, b)
         | Inr t \<Rightarrow>
             (Inr \<lparr>mb_hashes_done = lt_hashes t, mb_hit = lt_hit t,
                   mb_abort = (if aborts env 1 then Some (AfterParallel (lt_lanes_done t)) else None)\<rparr>,
              b\<lparr>cb_last_hs := lt_hs t\<rparr>)))"

end
