(* ===== verification/CpuBackend.thy ===== *)
theory CpuBackend
  imports BlockTypes
begin

text \<open>
  The CPU backend (\<open>mining/backends/cpu.py\<close>), the backend that supervises an external miner
  (\<open>mining/backends/xenblocks_gpu.py\<close>) and the reader of its database
  (\<open>mining/xenblocks_watcher.py\<close>).  A stop event of the CPU workers is a number, and a worker
  process keeps the event it was started with; \<open>cp_set\<close> are the events that are set.  What the
  other processes do between two calls are the operations \<open>worker_attempt\<close>.
\<close>

subsection \<open>A worker process\<close>

record raw_hit =
  rh_key :: string
  rh_hash_str :: string
  rh_block_type :: string
  rh_attempts :: int
  rh_lane :: nat

record cpu_worker =
  cw_lane :: nat
  cw_event :: nat
  cw_index :: int
  cw_done :: bool

record cpu_backend =
  cp_lanes :: int
  cp_workers :: "cpu_worker list"
  cp_event :: nat
  cp_set :: "nat set"
  cp_queue :: "raw_hit list"
  cp_count :: int
  cp_last_count :: int

definition init_cpu :: "int \<Rightarrow> cpu_backend" where
  "init_cpu lanes = \<lparr>cp_lanes = lanes, cp_workers = [], cp_event = 0, cp_set = {}, cp_queue = [],
     cp_count = 0, cp_last_count = 0\<rparr>"

text \<open>One pass through the worker's loop: the event is looked at before every attempt, the worker
  returns after a hit.  The key of an index is \<open>key_fn\<close>, its hash \<open>hash_of\<close>.\<close>

definition worker_attempt :: "(nat \<Rightarrow> int \<Rightarrow> string) \<Rightarrow> (string \<Rightarrow> string) \<Rightarrow> nat \<Rightarrow> cpu_backend \<Rightarrow> cpu_backend" where
  "worker_attempt key_fn hash_of i b =
     (if i < length (cp_workers b) then
        (let w = cp_workers b ! i in
         if cw_done w \<or> cw_event w \<in> cp_set b then b\<lparr>cp_workers := (cp_workers b)[i := w\<lparr>cw_done := True\<rparr>]\<rparr>
         else
           (let key = key_fn (cw_lane w) (cw_index w); h = hash_of key; index = cw_index w + 1 in
            case classify_hash h of
              None \<Rightarrow> b\<lparr>cp_workers := (cp_workers b)[i := w\<lparr>cw_index := index\<rparr>], cp_count := cp_count b + 1\<rparr>
            | Some kind \<Rightarrow>
                b\<lparr>cp_workers := (cp_workers b)[i := w\<lparr>cw_index := index, cw_done := True\<rparr>],
                  cp_count := cp_count b + 1,
                  cp_queue := cp_queue b @ [\<lparr>rh_key = key, rh_hash_str = h, rh_block_type = kind,
                    rh_attempts = index, rh_lane = cw_lane w\<rparr>]\<rparr>))
      else b)"

subsection \<open>The backend\<close>

definition spawn_workers :: "cpu_backend \<Rightarrow> cpu_backend" where
  "spawn_workers b = b\<lparr>cp_workers := cp_workers b @
     map (\<lambda>lane. \<lparr>cw_lane = lane, cw_event = cp_event b, cw_index = int lane * 1000000, cw_done = False\<rparr>)
       [0..<nat (cp_lanes b)]\<rparr>"

definition cpu_start :: "cpu_backend \<Rightarrow> cpu_backend" where
  "cpu_start b = spawn_workers b"

definition cpu_stop :: "cpu_backend \<Rightarrow> cpu_backend" where
  "cpu_stop b = b\<lparr>cp_set := insert (cp_event b) (cp_set b), cp_workers := []\<rparr>"

text \<open>The new event and the new queue are those of this call: the number is not used before.\<close>

definition cpu_set_lanes :: "int \<Rightarrow> cpu_backend \<Rightarrow> cpu_backend" where
  "cpu_set_lanes lanes b =
     (let lanes = max 1 lanes in
      if lanes = cp_lanes b \<and> cp_workers b \<noteq> [] then b
      else spawn_workers ((cpu_stop b)\<lparr>cp_lanes := lanes, cp_event := Suc (cp_event b), cp_queue := []\<rparr>))"

definition cpu_hit :: "string \<Rightarrow> string \<Rightarrow> raw_hit \<Rightarrow> block_hit" where
  "cpu_hit strategy now r = \<lparr>hit_key = rh_key r, hit_hash = rh_hash_str r, hit_type = rh_block_type r,
     hit_attempts = rh_attempts r, hit_strategy = strategy, hit_hps = 0, hit_found_at = now,
     hit_memory_cost = None\<rparr>"

definition cpu_mine_batch :: "string \<Rightarrow> string \<Rightarrow> cpu_backend \<Rightarrow> (int \<times> block_hit option) \<times> cpu_backend" where
  "cpu_mine_batch strategy now b =
     (let (hit, b1) = (case cp_queue b of
            [] \<Rightarrow> (None, b)
          | r # rs \<Rightarrow> (Some (cpu_hit strategy now r),
              b\<lparr>cp_queue := rs, cp_set := insert (cp_event b) (cp_set b)\<rparr>));
          hashes = cp_count b1 - cp_last_count b1
      in ((max hashes 0, hit), b1\<lparr>cp_last_count := cp_count b1\<rparr>))"

subsection \<open>The supervised miner and its database\<close>

record xen_gpu =
  xg_running :: bool
  xg_lanes :: int
  xg_last_hs :: int

definition xen_start :: "bool \<Rightarrow> xen_gpu \<Rightarrow> unit option \<times> xen_gpu" where
  "xen_start exe_exists g = (if \<not> exe_exists then (None, g) else (Some (), g\<lparr>xg_running := True\<rparr>))"

definition xen_stop :: "xen_gpu \<Rightarrow> xen_gpu" where
  "xen_stop g = g\<lparr>xg_running := False\<rparr>"

definition xen_set_lanes :: "int \<Rightarrow> xen_gpu \<Rightarrow> xen_gpu" where
  "xen_set_lanes lanes g = g\<lparr>xg_lanes := max 1 lanes\<rparr>"

text \<open>\<open>hs\<close> is the last rate in the log.\<close>

definition xen_mine_batch :: "int \<Rightarrow> xen_gpu \<Rightarrow> int \<times> xen_gpu" where
  "xen_mine_batch hs g =
     (if \<not> xg_running g then (0, g)
      else (if hs \<ge> xg_last_hs g then max 0 (hs - xg_last_hs g) else hs, g\<lparr>xg_last_hs := hs\<rparr>))"

record unprocessed_row =
  ub_id :: int
  ub_block_hash :: string
  ub_block_type :: "string option"
  ub_private_key :: string

definition watcher_type :: "string option \<Rightarrow> string" where
  "watcher_type t =
     (let raw = (case t of None \<Rightarrow> [] | Some s \<Rightarrow> s);
          clean = py_strip (filter (\<lambda>c. c \<noteq> CHR 0x00) raw)
      in if clean = [] then ''NORMAL'' else clean)"

definition watcher_hit :: "string \<Rightarrow> unprocessed_row \<Rightarrow> block_hit" where
  "watcher_hit now r = \<lparr>hit_key = ub_private_key r, hit_hash = ub_block_hash r, hit_type = watcher_type (ub_block_type r),
     hit_attempts = 1, hit_strategy = ''xenblocks_gpu'', hit_hps = 0, hit_found_at = now,
     hit_memory_cost = None\<rparr>"

text \<open>The rows of \<open>unprocessed_blocks\<close> are read in the order of their ids (None when there is no
  database); \<open>seen\<close> starts as the ids of \<open>processed_blocks\<close>.\<close>

definition load_seen :: "int list option \<Rightarrow> int set" where
  "load_seen processed = (case processed of None \<Rightarrow> {} | Some ids \<Rightarrow> set ids)"

fun poll_rows :: "string \<Rightarrow> unprocessed_row list \<Rightarrow> int set \<Rightarrow> block_hit list \<times> int set" where
  "poll_rows now [] seen = ([], seen)"
| "poll_rows now (r # rows) seen =
     (if ub_id r \<in> seen then poll_rows now rows seen
      else (let (hits, seen') = poll_rows now rows (insert (ub_id r) seen)
            in (watcher_hit now r # hits, seen')))"

definition poll_new_hits :: "string \<Rightarrow> unprocessed_row list option \<Rightarrow> int set \<Rightarrow> block_hit list \<times> int set" where
  "poll_new_hits now rows seen = (case rows of None \<Rightarrow> ([], seen)
     | Some rs \<Rightarrow> poll_rows now (sort_key ub_id rs) seen)"

subsection \<open>Properties\<close>

datatype cpu_event = CpuStart | CpuStop | CpuSetLanes int | CpuMine | CpuAttempt nat

definition cpu_step :: "(nat \<Rightarrow> int \<Rightarrow> string) \<Rightarrow> (string \<Rightarrow> string) \<Rightarrow> string \<Rightarrow> string
    \<Rightarrow> cpu_event \<Rightarrow> cpu_backend \<Rightarrow> cpu_backend" where
  "cpu_step key_fn hash_of strategy now e b = (case e of
       CpuStart \<Rightarrow> cpu_start b
     | CpuStop \<Rightarrow> cpu_stop b
     | CpuSetLanes n \<Rightarrow> cpu_set_lanes n b
     | CpuMine \<Rightarrow> snd (cpu_mine_batch strategy now b)
     | CpuAttempt i \<Rightarrow> worker_attempt key_fn hash_of i b)"

definition is_set_lanes :: "cpu_event \<Rightarrow> bool" where
  "is_set_lanes e = (case e of CpuSetLanes _ \<Rightarrow> True | _ \<Rightarrow> False)"

text \<open>All the workers have an event that was set: none of them will hash again.\<close>

definition all_stopped :: "cpu_backend \<Rightarrow> bool" where
  "all_stopped b \<longleftrightarrow> cp_event b \<in> cp_set b \<and> (\<forall>w \<in> set (cp_workers b). cw_event w \<in> cp_set b)"

lemma all_stopped_step:
  assumes "all_stopped b" "\<not> is_set_lanes e"
  shows "all_stopped (cpu_step key_fn hash_of strategy now e b)
    \<and> cp_count (cpu_step key_fn hash_of strategy now e b) = cp_count b"
proof (cases e)
  case (CpuAttempt i)
  with assms show ?thesis
    by (auto simp: cpu_step_def worker_attempt_def all_stopped_def Let_def
        dest!: set_update_subset_insert [THEN subsetD])
qed (use assms in \<open>auto simp: cpu_step_def is_set_lanes_def cpu_start_def spawn_workers_def cpu_stop_def
    cpu_mine_batch_def all_stopped_def Let_def split: list.splits prod.splits\<close>)

definition cpu_run :: "(nat \<Rightarrow> int \<Rightarrow> string) \<Rightarrow> (string \<Rightarrow> string) \<Rightarrow> string \<Rightarrow> string
    \<Rightarrow> cpu_event list \<Rightarrow> cpu_backend \<Rightarrow> cpu_backend" where
  "cpu_run key_fn hash_of strategy now es b = fold (cpu_step key_fn hash_of strategy now) es b"

lemma all_stopped_run:
  assumes "all_stopped b" "\<not> list_ex is_set_lanes es"
  shows "all_stopped (cpu_run key_fn hash_of strategy now es b)
    \<and> cp_count (cpu_run key_fn hash_of strategy now es b) = cp_count b"
  using assms
proof (induction es arbitrary: b)
  case (Cons e es)
  then show ?case using all_stopped_step [of b e key_fn hash_of strategy now] by (simp add: cpu_run_def)
qed (simp add: cpu_run_def)

definition cpu_inv :: "cpu_backend \<Rightarrow> bool" where
  "cpu_inv b \<longleftrightarrow> (\<forall>w \<in> set (cp_workers b). cw_event w \<in> cp_set b \<or> cw_event w = cp_event b)
     \<and> (\<forall>e \<in> cp_set b. e \<le> cp_event b)"

lemma cpu_inv_step: "cpu_inv b \<Longrightarrow> cpu_inv (cpu_step key_fn hash_of strategy now e b)"
proof (cases e)
  case (CpuAttempt i)
  assume "cpu_inv b"
  with CpuAttempt show ?thesis
    by (auto simp: cpu_step_def worker_attempt_def cpu_inv_def Let_def split: option.split
        dest!: set_update_subset_insert [THEN subsetD])
qed (auto simp: cpu_step_def cpu_start_def cpu_set_lanes_def spawn_workers_def cpu_stop_def
    cpu_mine_batch_def cpu_inv_def Let_def split: list.splits prod.splits)

lemma cpu_inv_run: "cpu_inv b \<Longrightarrow> cpu_inv (cpu_run key_fn hash_of strategy now es b)"
  unfolding cpu_run_def by (induction es arbitrary: b) (auto intro: cpu_inv_step)

text \<open>
  Once a batch has reported a hit, the CPU backend never hashes again: whatever starts, stops,
  batches and worker steps follow, as long as nobody changes the number of lanes, not one more
  attempt is counted.  The restart after a hit hands the new workers the event that is still set.
\<close>

theorem cpu_dead_after_hit:
  assumes "b = cpu_run key_fn hash_of strategy now es (init_cpu lanes)"
    and "cpu_mine_batch strategy now b = ((hashes, Some hit), b')" "\<not> list_ex is_set_lanes later"
  shows "cp_count (cpu_run key_fn hash_of strategy now (CpuStart # later) b') = cp_count b'"
proof -
  have "cpu_inv b" unfolding assms(1) by (rule cpu_inv_run) (simp add: cpu_inv_def init_cpu_def)
  then have "all_stopped b'" using assms(2)
    by (auto simp: cpu_mine_batch_def all_stopped_def cpu_inv_def Let_def split: list.splits)
  then show ?thesis using assms(3) by (intro all_stopped_run [THEN conjunct2]) (simp_all add: is_set_lanes_def)
qed

definition sample_hash :: "string \<Rightarrow> string" where
  "sample_hash key = (if key = ''k2'' then ''XEN11'' else ''none'')"

definition sample_key :: "nat \<Rightarrow> int \<Rightarrow> string" where
  "sample_key lane i = (if i = 2 then ''k2'' else ''k'')"

theorem cpu_dead_after_hit_witness:
  "let b = cpu_run sample_key sample_hash [] [] [CpuStart, CpuAttempt 0, CpuAttempt 0, CpuAttempt 0] (init_cpu 1);
       r = cpu_mine_batch [] [] b
   in snd (fst r) \<noteq> None
      \<and> cp_count (cpu_run sample_key sample_hash [] [] [CpuStart, CpuAttempt 1, CpuMine, CpuAttempt 1] (snd r)) = 3"
proof -
  let ?b = "cpu_run sample_key sample_hash [] [] [CpuStart, CpuAttempt 0, CpuAttempt 0, CpuAttempt 0] (init_cpu 1)"
  have c: "classify_hash ''XEN11'' = Some ''XNM''" "classify_hash ''none'' = None" by code_simp+
  have n: "nat 1 = Suc 0" by simp
  obtain hashes hit b' where r: "cpu_mine_batch [] [] ?b = ((hashes, Some hit), b')" and k: "cp_count b' = 3"
    by (simp add: cpu_run_def cpu_step_def cpu_start_def spawn_workers_def init_cpu_def worker_attempt_def
        sample_key_def sample_hash_def c n cpu_mine_batch_def)
  have "\<not> list_ex is_set_lanes [CpuAttempt 1, CpuMine, CpuAttempt 1]" by (simp add: is_set_lanes_def)
  from cpu_dead_after_hit [OF refl r this] r k show ?thesis by (simp add: Let_def)
qed

text \<open>The watcher hands on every row once, in the order of the ids.\<close>

lemma poll_rows_seen: "snd (poll_rows now rows seen) = seen \<union> ub_id ` set rows"
  by (induction rows arbitrary: seen) (auto simp: case_prod_unfold Let_def)

lemma poll_rows_hits:
  "distinct (map ub_id rows) \<Longrightarrow>
    fst (poll_rows now rows seen) = map (watcher_hit now) (filter (\<lambda>r. ub_id r \<notin> seen) rows)"
proof (induction rows arbitrary: seen)
  case (Cons r rows)
  have "filter (\<lambda>x. ub_id x \<notin> insert (ub_id r) seen) rows = filter (\<lambda>x. ub_id x \<notin> seen) rows"
    using Cons.prems by (intro filter_cong) (auto simp: image_iff)
  with Cons show ?case by (simp add: case_prod_unfold Let_def)
qed simp

text \<open>
  A poll of the external miner's database hands on exactly the rows whose id was not seen before,
  by ascending id, and a second poll of the same rows hands on none.
\<close>

theorem watcher_polls_once:
  assumes "distinct (map ub_id rows)"
  shows "fst (poll_new_hits now (Some rows) seen)
      = map (watcher_hit now) (filter (\<lambda>r. ub_id r \<notin> seen) (sort_key ub_id rows))
    \<and> fst (poll_new_hits now' (Some rows) (snd (poll_new_hits now (Some rows) seen))) = []"
proof -
  have d: "distinct (map ub_id (sort_key ub_id rows))"
    using assms by (simp add: distinct_map)
  show ?thesis using poll_rows_hits [OF d] poll_rows_seen [of _ "sort_key ub_id rows"]
    by (simp add: poll_new_hits_def filter_empty_conv)
qed

theorem watcher_polls_once_witness:
  "fst (poll_new_hits ''b'' (Some [\<lparr>ub_id = 7, ub_block_hash = ''h'', ub_block_type = None, ub_private_key = ''k''\<rparr>])
     (snd (poll_new_hits ''a'' (Some [\<lparr>ub_id = 7, ub_block_hash = ''h'', ub_block_type = None, ub_private_key = ''k''\<rparr>]) {}))) = []"
  by (rule watcher_polls_once [THEN conjunct2]) simp

end
