(* ===== verification/Difficulty.thy ===== *)
theory Difficulty
  imports BlockTypes
begin

text \<open>
  The network difficulty (\<open>networking/difficulty.py\<close>) and its poller (\<open>networking/poller.py\<close>).
  The JSON decoder is the parameter \<open>loads\<close> (None when it raises \<open>JSONDecodeError\<close>); numbers
  that \<open>int\<close> cannot convert, which the decoder accepts, are \<open>JNan\<close> and \<open>JInfinity\<close>.  The reply
  of a URL is a function of the URL; the lock and the thread of the poller are one atomic
  operation \<open>poll_once\<close>.
\<close>

subsection \<open>Reading a body\<close>

datatype json_value =
    JNull
  | JBool bool
  | JInt int
  | JFloat pyfloat
  | JNan
  | JInfinity
  | JString string
  | JList "json_value list"
  | JObject "(string \<times> json_value) list"

datatype int_error = IntTypeError | IntValueError | IntOverflowError

definition accept_network_difficulty :: "int \<Rightarrow> int \<Rightarrow> int" where
  "accept_network_difficulty diff fallback = (if diff \<le> 0 then fallback else diff)"

definition diff_keys :: "string list" where
  "diff_keys = [''difficulty'', ''diff'', ''memory_cost'', ''memoryCost'', ''network_difficulty'',
     ''networkDifficulty'', ''m'']"

text \<open>\<open>int(s)\<close> of a text: surrounding white space, a sign, and digits with single underscores
  between them.\<close>

fun underscored_digits :: "string \<Rightarrow> string option" where
  "underscored_digits [] = None"
| "underscored_digits [c] = (if is_digit_char c then Some [c] else None)"
| "underscored_digits (c # d # s) =
     (if \<not> is_digit_char c then None
      else map_option (Cons c) (underscored_digits (if d = CHR ''_'' then s else d # s)))"

definition signed_text :: "string \<Rightarrow> (string \<Rightarrow> int option) \<Rightarrow> int option" where
  "signed_text s digits = (case s of
       c # r \<Rightarrow> if c = CHR ''-'' then map_option uminus (digits r)
                else if c = CHR ''+'' then digits r else digits s
     | [] \<Rightarrow> None)"

definition int_of_text :: "string \<Rightarrow> int option" where
  "int_of_text s = signed_text (py_strip s) (\<lambda>t. map_option digits_value (underscored_digits t))"

definition py_int_of :: "json_value \<Rightarrow> int_error + int" where
  "py_int_of v = (case v of
       JBool b \<Rightarrow> Inr (if b then 1 else 0)
     | JInt n \<Rightarrow> Inr n
     | JFloat x \<Rightarrow> Inr (py_int x)
     | JNan \<Rightarrow> Inl IntValueError
     | JInfinity \<Rightarrow> Inl IntOverflowError
     | JString s \<Rightarrow> (case int_of_text s of None \<Rightarrow> Inl IntValueError | Some n \<Rightarrow> Inr n)
     | _ \<Rightarrow> Inl IntTypeError)"

definition positive :: "int \<Rightarrow> int option" where
  "positive n = (if n > 0 then Some n else None)"

text \<open>The keys in the order of the source; \<open>TypeError\<close> and \<open>ValueError\<close> pass on to the next one.\<close>

fun first_key :: "string list \<Rightarrow> (string \<times> json_value) list \<Rightarrow> int_error + int option" where
  "first_key [] obj = Inr None"
| "first_key (k # ks) obj = (case map_of obj k of
       None \<Rightarrow> first_key ks obj
     | Some v \<Rightarrow> (case py_int_of v of
           Inl IntOverflowError \<Rightarrow> Inl IntOverflowError
         | Inl _ \<Rightarrow> first_key ks obj
         | Inr n \<Rightarrow> if n > 0 then Inr (Some n) else first_key ks obj))"

fun first_nested :: "string list \<Rightarrow> (string \<times> json_value) list \<Rightarrow> int_error + int option" where
  "first_nested [] obj = Inr None"
| "first_nested (k # ks) obj = (case map_of obj k of
       Some (JObject nested) \<Rightarrow> (case first_key diff_keys nested of
           Inr None \<Rightarrow> first_nested ks obj
         | r \<Rightarrow> r)
     | _ \<Rightarrow> first_nested ks obj)"

definition read_json :: "json_value \<Rightarrow> int_error + int option" where
  "read_json data = (case data of
       JInt n \<Rightarrow> Inr (positive n)
     | JFloat x \<Rightarrow> Inr (positive (py_int x))
     | JNan \<Rightarrow> Inl IntValueError
     | JInfinity \<Rightarrow> Inl IntOverflowError
     | JObject obj \<Rightarrow> (case first_key diff_keys obj of
           Inr None \<Rightarrow> first_nested [''data'', ''result'', ''network'', ''status''] obj
         | r \<Rightarrow> r)
     | _ \<Rightarrow> Inr None)"

definition is_word_char :: "char \<Rightarrow> bool" where
  "is_word_char c \<longleftrightarrow> is_digit_char c \<or> is_upper_char c \<or> is_lower_char c \<or> c = CHR ''_''"

text \<open>The first match of two to six digits between word boundaries: a run of word characters that
  are all digits.\<close>

function number_search :: "string \<Rightarrow> int option" where
  "number_search s =
     (let t = dropWhile (\<lambda>c. \<not> is_word_char c) s; w = takeWhile is_word_char t in
      if t = [] then None
      else if list_all is_digit_char w \<and> 2 \<le> length w \<and> length w \<le> 6 then Some (digits_value w)
      else number_search (dropWhile is_word_char t))"
  by pat_completeness auto

termination
proof (relation "measure length")
  fix s t w :: string
  assume t: "t = dropWhile (\<lambda>c. \<not> is_word_char c) s" "t \<noteq> []"
  then have "is_word_char (hd t)" using hd_dropWhile [of "\<lambda>c. \<not> is_word_char c" s] by auto
  with t(2) have "length (dropWhile is_word_char t) < length t"
    by (cases t) (auto simp: le_imp_less_Suc length_dropWhile_le)
  also have "\<dots> \<le> length s" unfolding t(1) by (rule length_dropWhile_le)
  finally show "(dropWhile is_word_char t, s) \<in> measure length" by simp
qed simp

declare number_search.simps [simp del]

text \<open>\<open>re.fullmatch(r"-?\d+", text)\<close>\<close>

definition bare_integer :: "string \<Rightarrow> int option" where
  "bare_integer text = (let neg = (case text of c # _ \<Rightarrow> c = CHR ''-'' | [] \<Rightarrow> False);
       ds = (if neg then tl text else text)
     in if ds \<noteq> [] \<and> list_all is_digit_char ds
        then Some (if neg then - digits_value ds else digits_value ds) else None)"

definition parse_difficulty_payload ::
    "(string \<Rightarrow> json_value option) \<Rightarrow> string \<Rightarrow> int_error + int option" where
  "parse_difficulty_payload loads body =
     (let text = py_strip body in
      if text = [] then Inr None
      else case bare_integer text of
        Some value \<Rightarrow> Inr (positive value)
      | None \<Rightarrow> (case loads text of
            None \<Rightarrow> Inr (case number_search text of None \<Rightarrow> None | Some value \<Rightarrow> positive value)
          | Some data \<Rightarrow> read_json data))"

subsection \<open>Fetching\<close>

fun unique :: "string set \<Rightarrow> string list \<Rightarrow> string list" where
  "unique seen [] = []"
| "unique seen (x # xs) = (if x \<in> seen then unique seen xs else x # unique (insert x seen) xs)"

definition candidate_urls :: "string \<Rightarrow> string list" where
  "candidate_urls url =
     (let primary = py_strip url in
      unique {} ((if primary = [] then [] else [primary]) @
        (if py_startswith primary ''http://'' then
           (let host = drop 7 primary; base = take (length host - length ''/difficulty'') host in
            [''https://'' @ host] @
            (if py_endswith host ''/difficulty''
             then [''http://'' @ base @ ''/getdifficulty'', ''https://'' @ base @ ''/getdifficulty'']
             else []))
         else if py_startswith primary ''https://'' then [''http://'' @ drop 8 primary]
         else [])))"

datatype url_reply = ReplyBody string pyfloat | ReplyHttpError int | ReplyFailure

datatype fetch_error = Starting | NoUrl | Unparsed string | HttpError int string | FetchFailed string

text \<open>The texts of the errors are reduced to what they name; an exception of the parser is caught
  with those of the connection.  \<open>saw_http\<close> is set before the body is parsed.\<close>

fun fetch_from :: "(string \<Rightarrow> json_value option) \<Rightarrow> (string \<Rightarrow> url_reply) \<Rightarrow> string list \<Rightarrow> bool
    \<Rightarrow> fetch_error \<Rightarrow> bool \<times> (int \<times> pyfloat) option \<times> fetch_error option" where
  "fetch_from loads reply [] saw_http last_error = (saw_http, None, Some last_error)"
| "fetch_from loads reply (u # us) saw_http last_error = (case reply u of
       ReplyHttpError code \<Rightarrow> fetch_from loads reply us True (HttpError code u)
     | ReplyFailure \<Rightarrow> fetch_from loads reply us saw_http (FetchFailed u)
     | ReplyBody body latency \<Rightarrow> (case parse_difficulty_payload loads body of
           Inl _ \<Rightarrow> fetch_from loads reply us True (FetchFailed u)
         | Inr None \<Rightarrow> fetch_from loads reply us True (Unparsed u)
         | Inr (Some d) \<Rightarrow> (True, Some (d, latency), None)))"

record poll_status =
  ps_port80_up :: bool
  ps_difficulty :: "int option"
  ps_latency_ms :: "pyfloat option"
  ps_error :: "fetch_error option"

definition fetch_difficulty :: "(string \<Rightarrow> json_value option) \<Rightarrow> (string \<Rightarrow> url_reply) \<Rightarrow> string \<Rightarrow> poll_status" where
  "fetch_difficulty loads reply url =
     (case fetch_from loads reply (candidate_urls url) False NoUrl of
        (saw_http, Some (d, latency), _) \<Rightarrow>
          \<lparr>ps_port80_up = True, ps_difficulty = Some d, ps_latency_ms = Some latency, ps_error = None\<rparr>
      | (saw_http, None, err) \<Rightarrow>
          \<lparr>ps_port80_up = saw_http, ps_difficulty = None, ps_latency_ms = None, ps_error = err\<rparr>)"

subsection \<open>The poller\<close>

record poller =
  pl_url :: string
  pl_poll_interval_s :: pyfloat
  pl_down_poll_interval_s :: pyfloat
  pl_timeout_s :: pyfloat
  pl_initial_timeout_s :: pyfloat
  pl_status :: poll_status
  pl_last_poll_at :: pyfloat

definition starting_status :: poll_status where
  "starting_status = \<lparr>ps_port80_up = False, ps_difficulty = None, ps_latency_ms = None, ps_error = Some Starting\<rparr>"

definition init_poller :: "string \<Rightarrow> pyfloat \<Rightarrow> pyfloat \<Rightarrow> pyfloat \<Rightarrow> poller" where
  "init_poller url interval down timeout =
     (let up = max 5 interval; t = max 1 timeout
      in \<lparr>pl_url = url, pl_poll_interval_s = up, pl_down_poll_interval_s = max up down,
          pl_timeout_s = t, pl_initial_timeout_s = t, pl_status = starting_status, pl_last_poll_at = 0\<rparr>)"

definition poll_once :: "(string \<Rightarrow> json_value option) \<Rightarrow> (string \<Rightarrow> url_reply) \<Rightarrow> pyfloat \<Rightarrow> poller
    \<Rightarrow> poll_status \<times> poller" where
  "poll_once loads reply now p =
     (let status = fetch_difficulty loads reply (pl_url p)
      in (status, p\<lparr>pl_status := status, pl_last_poll_at := now\<rparr>))"

definition start_poller :: "pyfloat option \<Rightarrow> poller \<Rightarrow> poll_status \<times> poller" where
  "start_poller initial p =
     (let p' = (case initial of None \<Rightarrow> p | Some t \<Rightarrow> p\<lparr>pl_initial_timeout_s := max 1 t\<rparr>)
      in (pl_status p', p'))"

text \<open>One round of the thread: the timeout it uses, the poll, and how long it then waits.\<close>

definition poll_round :: "(string \<Rightarrow> json_value option) \<Rightarrow> (string \<Rightarrow> url_reply) \<Rightarrow> pyfloat \<Rightarrow> bool \<Rightarrow> poller
    \<Rightarrow> pyfloat \<times> pyfloat \<times> poller" where
  "poll_round loads reply now first p =
     (let timeout = (if first then pl_initial_timeout_s p else pl_timeout_s p);
          (status, p') = poll_once loads reply now p
      in (timeout, if ps_difficulty status \<noteq> None then pl_poll_interval_s p' else pl_down_poll_interval_s p', p'))"

text \<open>\<open>wait_for_difficulty\<close> over the states it reads until its deadline; the last one is read after it.\<close>

fun wait_for_difficulty :: "poller list \<Rightarrow> poller \<Rightarrow> poll_status" where
  "wait_for_difficulty [] final = pl_status final"
| "wait_for_difficulty (p # ps) final =
     (if ps_difficulty (pl_status p) \<noteq> None then pl_status p
      else if ps_error (pl_status p) \<notin> {None, Some Starting} \<and> pl_last_poll_at p > 0 then pl_status p
      else wait_for_difficulty ps final)"

subsection \<open>Properties\<close>

lemma first_key_positive: "first_key ks obj = Inr (Some d) \<Longrightarrow> 0 < d"
  by (induction ks) (auto split: option.splits sum.splits int_error.splits if_splits)

lemma first_nested_positive: "first_nested ks obj = Inr (Some d) \<Longrightarrow> 0 < d"
proof (induction ks)
  case (Cons k ks)
  show ?case
  proof (cases "map_of obj k")
    case None
    with Cons show ?thesis by simp
  next
    case (Some v)
    with Cons show ?thesis
      by (cases v) (auto dest: first_key_positive split: sum.splits option.splits)
  qed
qed simp

lemma positive_Some: "positive n = Some d \<longleftrightarrow> n = d \<and> 0 < d"
  by (auto simp: positive_def)

lemma read_json_positive: "read_json v = Inr (Some d) \<Longrightarrow> 0 < d"
proof (cases v)
  case (JObject obj)
  assume "read_json v = Inr (Some d)"
  with JObject have "first_key diff_keys obj = Inr (Some d) \<or>
      first_nested [''data'', ''result'', ''network'', ''status''] obj = Inr (Some d)"
    by (simp add: read_json_def del: first_nested.simps split: sum.splits option.splits)
  then show ?thesis using first_key_positive first_nested_positive by blast
qed (auto simp: read_json_def positive_Some)

lemma parse_positive: "parse_difficulty_payload loads body = Inr (Some d) \<Longrightarrow> 0 < d"
  by (auto simp: parse_difficulty_payload_def Let_def positive_Some dest: read_json_positive
      split: if_splits option.splits)

definition usable :: "(string \<Rightarrow> json_value option) \<Rightarrow> (string \<Rightarrow> url_reply) \<Rightarrow> string \<Rightarrow> int option" where
  "usable loads reply u = (case reply u of
       ReplyBody body _ \<Rightarrow> (case parse_difficulty_payload loads body of Inr (Some d) \<Rightarrow> Some d | _ \<Rightarrow> None)
     | _ \<Rightarrow> None)"

definition first_usable :: "(string \<Rightarrow> json_value option) \<Rightarrow> (string \<Rightarrow> url_reply) \<Rightarrow> string list \<Rightarrow> int option" where
  "first_usable loads reply us = (case List.map_filter (usable loads reply) us of [] \<Rightarrow> None | d # _ \<Rightarrow> Some d)"

lemma usable_positive: "usable loads reply u = Some d \<Longrightarrow> 0 < d"
  by (auto simp: usable_def dest: parse_positive split: url_reply.splits sum.splits option.splits)

lemma fetch_from_first:
  "map_option fst (fst (snd (fetch_from loads reply us saw err))) = first_usable loads reply us
   \<and> (fst (snd (fetch_from loads reply us saw err)) = None \<longleftrightarrow> snd (snd (fetch_from loads reply us saw err)) \<noteq> None)"
  by (induction us arbitrary: saw err)
    (auto simp: first_usable_def usable_def List.map_filter_simps split: url_reply.split sum.split option.split)

lemma set_unique: "set (unique seen xs) = set xs - seen"
  by (induction xs arbitrary: seen) auto

lemma distinct_unique: "distinct (unique seen xs)"
  by (induction xs arbitrary: seen) (auto simp: set_unique)

lemma length_unique: "length (unique seen xs) \<le> length xs"
proof (induction xs arbitrary: seen)
  case (Cons x xs)
  then show ?case using le_SucI [OF Cons.IH [of seen]] by simp
qed simp

lemma first_usable_positive: "first_usable loads reply us = Some d \<Longrightarrow> 0 < d"
proof -
  assume "first_usable loads reply us = Some d"
  then have "d \<in> set (List.map_filter (usable loads reply) us)"
    by (auto simp: first_usable_def split: list.splits)
  then show ?thesis by (auto simp: List.map_filter_def dest: usable_positive)
qed

lemma distinct_candidates: "distinct (candidate_urls url)"
  by (simp add: candidate_urls_def Let_def distinct_unique)

text \<open>
  A poll takes the difficulty of the first candidate address whose reply can be read, which is
  always positive, and reports an error exactly when there is none, whatever the decoder makes of
  the bodies.  The candidates are different addresses, at most four, and the configured one comes
  first.
\<close>

theorem fetch_takes_first_usable:
  "ps_difficulty (fetch_difficulty loads reply url) = first_usable loads reply (candidate_urls url)
   \<and> (ps_error (fetch_difficulty loads reply url) = None \<longleftrightarrow> ps_difficulty (fetch_difficulty loads reply url) \<noteq> None)
   \<and> (case ps_difficulty (fetch_difficulty loads reply url) of None \<Rightarrow> True | Some d \<Rightarrow> 0 < d)
   \<and> distinct (candidate_urls url) \<and> length (candidate_urls url) \<le> 4
   \<and> take 1 (candidate_urls url) = (if py_strip url = [] then [] else [py_strip url])"
proof -
  have f: "ps_difficulty (fetch_difficulty loads reply url) = first_usable loads reply (candidate_urls url)
     \<and> (ps_error (fetch_difficulty loads reply url) = None \<longleftrightarrow> ps_difficulty (fetch_difficulty loads reply url) \<noteq> None)"
    using fetch_from_first [of loads reply "candidate_urls url" False NoUrl]
    by (auto simp: fetch_difficulty_def split: prod.split option.split)
  have "length (candidate_urls url) \<le> 4"
    unfolding candidate_urls_def Let_def
    by (rule order_trans [OF length_unique]) auto
  moreover have "take 1 (candidate_urls url) = (if py_strip url = [] then [] else [py_strip url])"
    by (auto simp: candidate_urls_def Let_def py_startswith_def)
  ultimately show ?thesis using f first_usable_positive [of loads reply "candidate_urls url"]
    using distinct_candidates [of url] by (auto split: option.split)
qed

lemma digits_value_snoc: "digits_value (ds @ [c]) = 10 * digits_value ds + digit_value c"
  by (simp add: digits_value_def)

lemma digits_value_nat_text: "digits_value (nat_text n) = int n"
proof (induction n rule: nat_text.induct)
  case (1 n)
  have d: "digit_value (char_of (48 + k)) = int k" if "k < 10" for k :: nat
    using that by (simp add: digit_value_def)
  show ?case
  proof (cases "n < 10")
    case True
    then show ?thesis by (simp add: nat_text.simps [of n] digits_value_def d)
  next
    case False
    then show ?thesis using 1 by (simp add: nat_text.simps [of n] digits_value_snoc d zdiv_int zmod_int)
  qed
qed

text \<open>
  Whatever a decoder does, the plain decimal text of a positive number is read as that number.
\<close>

theorem bare_difficulty_roundtrip:
  assumes "0 < n"
  shows "parse_difficulty_payload loads (nat_text n) = Inr (Some (int n))"
proof -
  have ne: "nat_text n \<noteq> []" by (simp add: nat_text.simps [of n])
  have digit: "list_all is_digit_char (nat_text n)" by (auto simp: list_all_iff dest: nat_text_digits)
  have "is_digit_char c \<Longrightarrow> \<not> is_space_char c" for c by (auto simp: is_digit_char_def is_space_char_def)
  then have sp: "\<not> is_space_char c" if "c \<in> set (nat_text n)" for c using that nat_text_digits by blast
  have strip: "py_strip (nat_text n) = nat_text n"
  proof -
    have "dropWhile is_space_char xs = xs" if "\<forall>c \<in> set xs. \<not> is_space_char c" for xs
      using that by (cases xs) auto
    from this [of "nat_text n"] this [of "rev (nat_text n)"] sp show ?thesis by (simp add: py_strip_def)
  qed
  have "hd (nat_text n) \<noteq> CHR ''-''" using nat_text_digits [of "hd (nat_text n)" n] ne
    by (auto simp: is_digit_char_def char_code_def)
  then have "bare_integer (nat_text n) = Some (digits_value (nat_text n))"
    using ne digit by (cases "nat_text n") (auto simp: bare_integer_def)
  with assms show ?thesis using ne by (simp add: parse_difficulty_payload_def strip digits_value_nat_text positive_def)
qed

theorem bare_difficulty_roundtrip_witness:
  "parse_difficulty_payload (\<lambda>_. None) ''1100'' = Inr (Some 1100)"
proof -
  have "nat_text 1100 = ''1100''" by code_simp
  then show ?thesis using bare_difficulty_roundtrip [of 1100 "\<lambda>_. None"] by simp
qed

lemma json_true_is_one: "read_json (JObject [(''difficulty'', JBool True)]) = Inr (Some 1)"
  by (simp add: read_json_def diff_keys_def py_int_of_def)

end
