(* ===== verification/Supervisor.thy ===== *)
theory Supervisor
  imports QueueFlush VramGuard CudaBackend CpuBackend Difficulty
begin

text \<open>
  The miner's supervisor (\<open>core/supervisor.py\<close>): the network state, what happens to a found hit,
  the queue and the shutdown.  A method is one atomic step: \<open>sup_env\<close> gives the clock and the
  outside world it sees, the poller's thread acts between the methods.  The dashboard, log lines,
  reports and uptime statistics are not modelled; a queue flush does not raise.
\<close>

subsection \<open>Settings, environment and state\<close>

record sup_settings =
  ss_memory_cost :: int
  ss_salt_hex :: string
  ss_time_cost :: int
  ss_parallelism :: int
  ss_hash_len :: int
  ss_submit_workers :: int
  ss_sample_interval_s :: pyfloat
  ss_reference_difficulty :: int
  ss_legacy_gpu :: bool
  ss_high_diff_enabled :: bool
  ss_high_start_ratio :: pyfloat
  ss_high_full_ratio :: pyfloat
  ss_high_max_tighten_c :: int
  ss_temp_limits :: temp_limits
  ss_gpu_cooldown_s :: int
  ss_stats_interval_s :: pyfloat
  ss_network_poll_interval_s :: pyfloat
  ss_min_headroom_floor_mib :: int
  ss_cuda :: cuda_settings

record sup_env =
  se_time :: pyfloat
  se_minute :: int
  se_now :: string
  se_loads :: "string \<Rightarrow> json_value option"
  se_reply :: "string \<Rightarrow> url_reply"
  se_http :: "block_hit \<Rightarrow> int \<times> string"
  se_argon :: argon2
  se_engine :: engine_env
  se_exe_exists :: bool
  se_snapshot :: "gpu_snapshot option"
  se_power_limits :: "(int \<times> int \<times> int) option"
  se_power_ok :: bool

datatype miner_backend =
    CudaNativeBackend cuda_backend
  | CpuArgon2Backend cpu_backend
  | XenblocksGpuBackend xen_gpu

record supervisor =
  sv_flusher :: flusher
  sv_backend :: miner_backend
  sv_guard :: vram_guard
  sv_vram_caps :: "vram_caps option"
  sv_power :: "gpu_power option"
  sv_poller :: poller
  sv_running :: bool
  sv_shutting_down :: bool
  sv_network_ok :: bool
  sv_network_difficulty :: "int option"
  sv_last_log_ok :: "bool option"
  sv_defer_until :: pyfloat
  sv_cooldown_until :: pyfloat
  sv_reduce_lanes :: bool
  sv_was_in_window :: bool
  sv_warn_at :: pyfloat
  sv_warn_code :: "guard_code option"

definition sv_store :: "supervisor \<Rightarrow> block_store" where
  "sv_store sv = fl_store (sv_flusher sv)"

definition map_store :: "(block_store \<Rightarrow> block_store) \<Rightarrow> supervisor \<Rightarrow> supervisor" where
  "map_store f sv = sv\<lparr>sv_flusher := (sv_flusher sv)\<lparr>fl_store := f (sv_store sv)\<rparr>\<rparr>"

definition map_metrics :: "(metrics_tracker \<Rightarrow> metrics_tracker) \<Rightarrow> supervisor \<Rightarrow> supervisor" where
  "map_metrics f sv = sv\<lparr>sv_flusher := (sv_flusher sv)\<lparr>fl_metrics := map_option f (fl_metrics (sv_flusher sv))\<rparr>\<rparr>"

definition record_accept :: "string \<Rightarrow> supervisor \<Rightarrow> supervisor" where
  "record_accept kind sv = sv\<lparr>sv_flusher := (sv_flusher sv)\<lparr>fl_local_accepts :=
     map_option (\<lambda>l. l @ [kind]) (fl_local_accepts (sv_flusher sv))\<rparr>\<rparr>"

definition sync_queue :: "supervisor \<Rightarrow> supervisor" where
  "sync_queue sv = map_metrics (sync_pending (int (pending_count None (sv_store sv)))) sv"

definition is_cuda :: "supervisor \<Rightarrow> bool" where
  "is_cuda sv = (case sv_backend sv of CudaNativeBackend _ \<Rightarrow> True | _ \<Rightarrow> False)"

definition is_gpu :: "sup_settings \<Rightarrow> supervisor \<Rightarrow> bool" where
  "is_gpu s sv \<longleftrightarrow> is_cuda sv \<or> ss_legacy_gpu s"

definition map_cuda :: "(cuda_backend \<Rightarrow> cuda_backend) \<Rightarrow> supervisor \<Rightarrow> supervisor" where
  "map_cuda f sv = (case sv_backend sv of
       CudaNativeBackend b \<Rightarrow> sv\<lparr>sv_backend := CudaNativeBackend (f b)\<rparr> | _ \<Rightarrow> sv)"

definition backend_stop :: "miner_backend \<Rightarrow> miner_backend" where
  "backend_stop b = (case b of
       CudaNativeBackend c \<Rightarrow> CudaNativeBackend (cuda_stop c)
     | CpuArgon2Backend c \<Rightarrow> CpuArgon2Backend (cpu_stop c)
     | XenblocksGpuBackend g \<Rightarrow> XenblocksGpuBackend (xen_stop g))"

definition backend_active_lanes :: "miner_backend \<Rightarrow> int" where
  "backend_active_lanes b = (case b of
       CudaNativeBackend c \<Rightarrow> cb_lanes c
     | CpuArgon2Backend c \<Rightarrow> cp_lanes c
     | XenblocksGpuBackend g \<Rightarrow> xg_lanes g)"

subsection \<open>Difficulty\<close>

text \<open>
  The memory cost that live hits are labelled with and checked against.  For CUDA it is what the
  backend hashes with; for the CPU and external backends it is the supervisor's network difficulty,
  whatever their workers hash with (the CPU workers use the configured memory cost).
\<close>

definition mining_difficulty :: "sup_settings \<Rightarrow> supervisor \<Rightarrow> int" where
  "mining_difficulty s sv = (case sv_backend sv of
       CudaNativeBackend b \<Rightarrow> cb_difficulty b
     | _ \<Rightarrow> int_or (sv_network_difficulty sv) (ss_memory_cost s))"

definition guard_context :: "sup_settings \<Rightarrow> int \<Rightarrow> supervisor \<Rightarrow> supervisor" where
  "guard_context s difficulty sv = sv\<lparr>sv_guard := set_difficulty_context difficulty (ss_reference_difficulty s)
     (ss_high_diff_enabled s) (ss_high_start_ratio s) (ss_high_full_ratio s) (ss_high_max_tighten_c s)
     (sv_guard sv)\<rparr>"

definition configure_guard_temp_context :: "sup_settings \<Rightarrow> supervisor \<Rightarrow> supervisor" where
  "configure_guard_temp_context s sv = guard_context s (mining_difficulty s sv) sv"

definition in_difficulty_transition :: "sup_env \<Rightarrow> supervisor \<Rightarrow> bool" where
  "in_difficulty_transition env sv \<longleftrightarrow> se_time env < sv_defer_until sv"

definition transition_settle_s :: "sup_settings \<Rightarrow> pyfloat" where
  "transition_settle_s s = max 5 (ss_sample_interval_s s)"

definition begin_difficulty_transition :: "sup_settings \<Rightarrow> sup_env \<Rightarrow> supervisor \<Rightarrow> supervisor" where
  "begin_difficulty_transition s env sv = sv\<lparr>sv_defer_until := fl (se_time env + transition_settle_s s)\<rparr>"

definition maybe_restore_cuda_lane_cap :: "sup_settings \<Rightarrow> sup_env \<Rightarrow> int \<Rightarrow> supervisor \<Rightarrow> supervisor" where
  "maybe_restore_cuda_lane_cap s env difficulty sv =
     (if difficulty < ss_reference_difficulty s then sv
      else case se_snapshot env of
        None \<Rightarrow> sv
      | Some snap \<Rightarrow> map_cuda (\<lambda>b. fst (backend_restore_lane_cap (ss_cuda s) (temperature_c snap) difficulty b)) sv)"

definition apply_network_difficulty :: "sup_settings \<Rightarrow> sup_env \<Rightarrow> int \<Rightarrow> supervisor \<Rightarrow> int \<times> supervisor" where
  "apply_network_difficulty s env raw_diff sv =
     (let fallback = int_or (sv_network_difficulty sv) (ss_memory_cost s);
          diff = accept_network_difficulty raw_diff fallback;
          sv1 = (if raw_diff \<le> 0 then sv
                 else case sv_network_difficulty sv of
                   None \<Rightarrow> sv
                 | Some old_diff \<Rightarrow>
                     if diff = old_diff then sv
                     else begin_difficulty_transition s env
                       (if diff \<ge> ss_reference_difficulty s \<and> old_diff < ss_reference_difficulty s
                        then maybe_restore_cuda_lane_cap s env diff sv else sv));
          sv2 = sv1\<lparr>sv_power := map_option (LaneAndPower.set_difficulty diff) (sv_power sv1)\<rparr>
      in (diff, guard_context s diff sv2))"

subsection \<open>Network and queue\<close>

definition flush_env_of :: "sup_settings \<Rightarrow> sup_env \<Rightarrow> supervisor \<Rightarrow> flush_env" where
  "flush_env_of s env sv = \<lparr>fe_difficulty = (\<lambda>_. mining_difficulty s sv), fe_minute = (\<lambda>_. se_minute env),
     fe_http = (\<lambda>_. se_http env), fe_now = se_now env, fe_argon = se_argon env,
     fe_salt_hex = ss_salt_hex s, fe_time_cost = ss_time_cost s, fe_hash_len = ss_hash_len s\<rparr>"

definition run_flush :: "sup_settings \<Rightarrow> sup_env \<Rightarrow> bool \<Rightarrow> supervisor \<Rightarrow> nat \<times> supervisor" where
  "run_flush s env on_shutdown sv =
     (let (f, n) = flush (flush_env_of s env sv) on_shutdown (sv_flusher sv)
      in (n, sync_queue (sv\<lparr>sv_flusher := f\<rparr>)))"

definition read_poller :: "sup_env \<Rightarrow> bool \<Rightarrow> supervisor \<Rightarrow> poll_status \<times> supervisor" where
  "read_poller env blocking sv =
     (if blocking then
        (let (status, p) = poll_once (se_loads env) (se_reply env) (se_time env) (sv_poller sv)
         in (status, sv\<lparr>sv_poller := p\<rparr>))
      else (pl_status (sv_poller sv), sv))"

definition network_up :: "sup_settings \<Rightarrow> sup_env \<Rightarrow> int \<Rightarrow> supervisor \<Rightarrow> supervisor" where
  "network_up s env raw_diff sv =
     (let sv1 = (if sv_network_difficulty sv = Some raw_diff then sv
                 else (let (diff, sv') = apply_network_difficulty s env raw_diff sv
                       in map_cuda (cuda_set_difficulty (ss_cuda s) (se_engine env) diff)
                            (sv'\<lparr>sv_network_difficulty := Some diff\<rparr>)))
      in sv1\<lparr>sv_network_ok := True, sv_last_log_ok := Some True\<rparr>)"

definition network_down :: "supervisor \<Rightarrow> supervisor" where
  "network_down sv = sv\<lparr>sv_network_ok := False, sv_last_log_ok := Some False\<rparr>"

lemma network_up_log [simp]: "sv_last_log_ok (network_up s env d sv) = Some True"
  by (simp add: network_up_def Let_def)

lemma read_poller_log [simp]: "sv_last_log_ok (snd (read_poller env b sv)) = sv_last_log_ok sv"
  by (simp add: read_poller_def case_prod_unfold Let_def)

text \<open>
  A refresh that finds the network back flushes the queue, and a flush refreshes first: the two
  call each other.  The flag that asks for the recovery is cleared before, which ends the recursion.
\<close>

function refresh_network :: "sup_settings \<Rightarrow> sup_env \<Rightarrow> bool \<Rightarrow> supervisor \<Rightarrow> bool \<times> supervisor"
  and try_flush_pending_queue :: "sup_settings \<Rightarrow> sup_env \<Rightarrow> supervisor \<Rightarrow> nat \<times> supervisor" where
  "refresh_network s env blocking sv =
     (case ps_difficulty (fst (read_poller env blocking sv)) of
        None \<Rightarrow> (False, network_down (snd (read_poller env blocking sv)))
      | Some raw_diff \<Rightarrow>
          (let sv1 = network_up s env raw_diff (snd (read_poller env blocking sv)) in
           (True, if sv_last_log_ok sv = Some False \<and> 0 < pending_count None (sv_store sv1)
                  then snd (try_flush_pending_queue s env sv1) else sv1)))"
| "try_flush_pending_queue s env sv =
     (if pending_count None (sv_store sv) = 0 then (0, sv)
      else if in_difficulty_transition env sv then (0, sv)
      else (case refresh_network s env False sv of
          (False, sv1) \<Rightarrow> (0, sv1)
        | (True, sv1) \<Rightarrow> run_flush s env False sv1))"
  by pat_completeness auto

termination
  by (relation "measure (case_sum
       (\<lambda>(s, env, b, sv). if sv_last_log_ok sv = Some False then 2 else 0)
       (\<lambda>(s, env, sv). if sv_last_log_ok sv = Some False then 3 else 1))") auto

declare refresh_network.simps [simp del] try_flush_pending_queue.simps [simp del]

definition queue_hit :: "sup_env \<Rightarrow> block_hit \<Rightarrow> string \<Rightarrow> string \<Rightarrow> supervisor \<Rightarrow> supervisor" where
  "queue_hit env hit kind reason sv =
     sync_queue (map_metrics (record_enqueued kind)
       (map_store (\<lambda>st. fst (enqueue (se_now env) hit reason st)) sv))"

subsection \<open>A found hit\<close>

definition attach_hit_memory_cost :: "sup_settings \<Rightarrow> supervisor \<Rightarrow> block_hit \<Rightarrow> block_hit" where
  "attach_hit_memory_cost s sv hit = (case hit_memory_cost hit of
       Some _ \<Rightarrow> hit | None \<Rightarrow> hit\<lparr>hit_memory_cost := Some (mining_difficulty s sv)\<rparr>)"

definition hit_kind :: "block_hit \<Rightarrow> string" where
  "hit_kind hit = (let kind = classify_block (hit_hash hit) (hit_type hit) in
     if kind = ''OTHER'' then (if hit_type hit = [] then ''OTHER'' else hit_type hit) else kind)"

definition prepare_live_hit :: "sup_settings \<Rightarrow> sup_env \<Rightarrow> supervisor \<Rightarrow> block_hit \<Rightarrow> block_hit option" where
  "prepare_live_hit s env sv hit = prepare_hit_for_submit (se_argon env) hit (ss_salt_hex s)
     (mining_difficulty s sv) (ss_time_cost s)
     (parallelism_for_single (ss_submit_workers s) (ss_parallelism s)) (ss_hash_len s)"

definition network_down_reason :: string where
  "network_down_reason = ''network_down''"

definition live_rejected :: "sup_env \<Rightarrow> block_hit \<Rightarrow> string \<Rightarrow> int \<Rightarrow> string \<Rightarrow> supervisor \<Rightarrow> supervisor" where
  "live_rejected env hit kind status body sv =
     (let (st, newly_queued) = record_rejection (se_now env) hit status body ''live'' None None (sv_store sv);
          sv1 = map_store (\<lambda>_. st) sv;
          sv2 = (if counts_as_reject status body then map_metrics (record_rejected_live kind (hit_key hit)) sv1 else sv1)
      in if newly_queued then sync_queue (map_metrics (record_resubmission kind) sv2) else sv2)"

definition live_reply :: "sup_env \<Rightarrow> block_hit \<Rightarrow> string \<Rightarrow> submit_reply \<Rightarrow> supervisor \<Rightarrow> supervisor" where
  "live_reply env hit kind reply sv =
     (let status = sr_status reply; body = sr_body reply in
      if sr_ok reply then
        map_store (record_direct_submit (se_now env) hit status body)
          (record_accept kind (map_metrics (record_accepted_live kind) sv))
      else if status = 0 \<or> \<not> sv_network_ok sv then
        queue_hit env hit kind network_down_reason
          (map_store (record_direct_submit (se_now env) hit status body) sv)
      else if is_difficulty_mismatch status body then queue_hit env hit kind difficulty_change_reason sv
      else if is_xuni_window_reject status body then queue_hit env hit kind outside_xuni_window_reason sv
      else live_rejected env hit kind status body sv)"

definition handle_hit :: "sup_settings \<Rightarrow> sup_env \<Rightarrow> block_hit \<Rightarrow> supervisor \<Rightarrow> supervisor" where
  "handle_hit s env raw sv =
     (let hit0 = attach_hit_memory_cost s sv raw;
          kind = hit_kind hit0;
          sv1 = map_metrics (record_found kind) sv in
      if in_difficulty_transition env sv1 then queue_hit env hit0 kind difficulty_change_reason sv1
      else case prepare_live_hit s env sv1 hit0 of
        None \<Rightarrow> sv1
      | Some hit \<Rightarrow>
          if sv_shutting_down sv1 then
            (if kind = ''XUNI'' \<and> \<not> in_xuni_window (se_minute env)
             then queue_hit env hit kind outside_xuni_window_reason sv1
             else queue_hit env hit kind shutdown_pending_reason sv1)
          else if kind = ''XUNI'' \<and> \<not> in_xuni_window (se_minute env)
          then queue_hit env hit kind outside_xuni_window_reason sv1
          else (case refresh_network s env False sv1 of
              (False, sv2) \<Rightarrow> queue_hit env hit kind network_down_reason sv2
            | (True, sv2) \<Rightarrow> live_reply env hit kind (submit (se_http env) hit) sv2))"

subsection \<open>Serving the queue\<close>

definition service_pending_queue :: "sup_settings \<Rightarrow> sup_env \<Rightarrow> pyfloat \<Rightarrow> pyfloat \<times> pyfloat \<Rightarrow> pyfloat \<Rightarrow> bool
    \<Rightarrow> supervisor \<Rightarrow> (pyfloat \<times> pyfloat) \<times> supervisor" where
  "service_pending_queue s env now flushed xuni_interval aggressive sv =
     (let in_window = in_xuni_window (se_minute env);
          pending_xuni = pending_by_type None (sv_store sv) XUNI;
          interval = (if aggressive then 5 else 30 :: pyfloat);
          (last1, sv1) =
            (if in_window \<and> \<not> sv_was_in_window sv then
               (let sv' = sv\<lparr>sv_was_in_window := True\<rparr> in
                if pending_xuni > 0 then ((now, now), snd (try_flush_pending_queue s env sv')) else (flushed, sv'))
             else if \<not> in_window then (flushed, sv\<lparr>sv_was_in_window := False\<rparr>) else (flushed, sv))
      in if aggressive \<or> fl (now - fst last1) \<ge> interval
         then ((now, snd last1), snd (try_flush_pending_queue s env sv1))
         else if in_window \<and> pending_xuni > 0 \<and> fl (now - snd last1) \<ge> xuni_interval
         then ((fst last1, now), snd (try_flush_pending_queue s env sv1))
         else (last1, sv1))"

definition resume_queued_blocks :: "sup_settings \<Rightarrow> sup_env \<Rightarrow> supervisor \<Rightarrow> supervisor" where
  "resume_queued_blocks s env sv =
     (let counts = pending_by_type None (sv_store sv);
          waiting = (if counts XUNI > 0 \<and> \<not> in_xuni_window (se_minute env) then counts XUNI else 0);
          ready = counts XUNI - waiting;
          submit_now = counts XNM + counts XBLK + ready in
      if counts XUNI + counts XNM + counts XBLK = 0 then sv
      else if \<not> sv_network_ok sv then sv
      else if submit_now > 0 then snd (run_flush s env False sv)
      else sv)"

definition graceful_shutdown :: "sup_settings \<Rightarrow> sup_env \<Rightarrow> supervisor \<Rightarrow> supervisor" where
  "graceful_shutdown s env sv =
     (if sv_shutting_down sv then sv
      else
        (let sv1 = sv\<lparr>sv_shutting_down := True, sv_running := False, sv_backend := backend_stop (sv_backend sv)\<rparr>;
             counts = pending_by_type None (sv_store sv1);
             held = (if counts XUNI > 0 \<and> \<not> in_xuni_window (se_minute env) then counts XUNI else 0);
             sending = counts XNM + counts XBLK + (counts XUNI - held) in
         if sending = 0 then sv1
         else
           (let (network_up, sv2) = (if sv_network_ok sv1 then refresh_network s env True sv1 else (False, sv1))
            in if network_up then snd (run_flush s env True sv2)
               else sync_queue (map_store (\<lambda>st. fst (defer_to_next_start (\<lambda>_. se_minute env) st)) sv2))))"

end
