(* ===== verification/SupervisorInv.thy ===== *)
theory SupervisorInv
  imports Supervisor
begin

text \<open>
  What every operation of the supervisor keeps.  \<open>sup_contract\<close> names what an operation on the
  network state, the queue flush and the counters has to respect; a relation that respects it is
  respected by the composed operations, whose recursion is handled once.  Its interpretations are
  the store (only the store's own operations touch it), the counter of queued blocks and the
  difficulty.
\<close>

subsection \<open>The contract\<close>

locale sup_contract =
  fixes s :: sup_settings and env :: sup_env and rel :: "supervisor \<Rightarrow> supervisor \<Rightarrow> bool"
  assumes rel_refl: "rel sv sv"
    and rel_trans: "rel sv sv' \<Longrightarrow> rel sv' sv'' \<Longrightarrow> rel sv sv''"
    and rel_poller: "rel sv (snd (read_poller env blocking sv))"
    and rel_up: "ps_difficulty (fst (read_poller env blocking sv)) = Some d \<Longrightarrow>
      rel (snd (read_poller env blocking sv)) (network_up s env d (snd (read_poller env blocking sv)))"
    and rel_down: "rel sv (network_down sv)"
    and rel_flush: "rel sv (snd (run_flush s env on_shutdown sv))"
    and rel_window: "rel sv (sv\<lparr>sv_was_in_window := w\<rparr>)"
begin

lemma rel_refresh_flush:
  "e = env \<Longrightarrow> t = s \<Longrightarrow> rel sv (snd (refresh_network t e b sv))"
  "e = env \<Longrightarrow> t = s \<Longrightarrow> rel sv (snd (try_flush_pending_queue t e sv))"
proof (induction t e b sv and t e sv rule: refresh_network_try_flush_pending_queue.induct)
  case (1 t e b sv)
  show ?case
  proof (cases "ps_difficulty (fst (read_poller env b sv))")
    case None
    then show ?thesis using rel_trans [OF rel_poller rel_down] 1
      by (simp add: refresh_network.simps [of s env b])
  next
    case (Some d)
    note up = rel_trans [OF rel_poller rel_up [OF Some]]
    have "sv_last_log_ok sv = Some False \<Longrightarrow> 0 < pending_count None (sv_store (network_up s env d (snd (read_poller env b sv))))
      \<Longrightarrow> rel sv (snd (try_flush_pending_queue s env (network_up s env d (snd (read_poller env b sv)))))"
      using rel_trans [OF up] 1(1) [of d, OF _ refl] 1(2,3) Some by simp
    then show ?thesis using up 1(2,3)
      by (simp add: refresh_network.simps [of s env b] Some Let_def)
  qed
next
  case (2 t e sv)
  obtain ok sv1 where r: "refresh_network s env False sv = (ok, sv1)" by fastforce
  show ?case
  proof (cases "pending_count None (sv_store sv) = 0 \<or> in_difficulty_transition env sv")
    case True
    then show ?thesis using 2 by (auto simp: try_flush_pending_queue.simps [of s env] rel_refl)
  next
    case False
    then have "rel sv sv1" using 2 r by simp
    with False r show ?thesis using rel_trans [OF _ rel_flush] 2(2,3)
      by (cases ok) (auto simp: try_flush_pending_queue.simps [of s env])
  qed
qed

lemmas rel_refresh = rel_refresh_flush(1) [OF refl refl]
lemmas rel_try_flush = rel_refresh_flush(2) [OF refl refl]

lemma rel_window_flush: "rel sv (snd (try_flush_pending_queue s env (sv\<lparr>sv_was_in_window := w\<rparr>)))"
  by (rule rel_trans [OF rel_window rel_try_flush])

lemma rel_service: "rel sv (snd (service_pending_queue s env now flushed iv agg sv))"
proof -
  have "rel sv sv1 \<Longrightarrow> rel sv (snd (try_flush_pending_queue s env sv1))" for sv1
    by (rule rel_trans [OF _ rel_try_flush])
  then show ?thesis using rel_window rel_window_flush rel_refl
    by (simp add: service_pending_queue_def Let_def case_prod_unfold)
qed

lemma rel_resume: "rel sv (resume_queued_blocks s env sv)"
  by (simp add: resume_queued_blocks_def Let_def rel_refl rel_flush)

end

locale sup_hit_contract = sup_contract s env rel for s env rel +
  assumes rel_found: "rel sv (map_metrics (record_found kind) sv)"
    and rel_queue: "rel sv (queue_hit env hit kind reason sv)"
    and rel_reply: "rel sv (live_reply env hit kind reply sv)"
begin

lemma rel_handle_hit: "rel sv (handle_hit s env hit sv)"
proof -
  have q: "rel sv sv1 \<Longrightarrow> rel sv (queue_hit env h k r sv1)" for sv1 h k r
    by (rule rel_trans [OF _ rel_queue])
  have l: "rel sv sv1 \<Longrightarrow> rel sv (live_reply env h k r sv1)" for sv1 h k r
    by (rule rel_trans [OF _ rel_reply])
  have "rel sv (snd (refresh_network s env False (map_metrics (record_found k) sv)))" for k
    by (rule rel_trans [OF rel_found rel_refresh])
  then show ?thesis
    by (auto simp: handle_hit_def Let_def rel_found case_prod_unfold
        intro!: q l split: option.split bool.split prod.split)
qed

lemma rel_hits: "rel sv (fold (handle_hit s env) hits sv)"
  by (induction hits arbitrary: sv) (auto intro: rel_refl rel_trans [OF rel_handle_hit])

end

subsection \<open>The store\<close>

text \<open>Everything the supervisor does to the store is a sequence of the store's operations.\<close>

definition store_reaches :: "block_store \<Rightarrow> block_store \<Rightarrow> bool" where
  "store_reaches st st' \<longleftrightarrow> (\<exists>es. st' = store_run es st)"

lemma reaches_refl [simp]: "store_reaches st st"
  unfolding store_reaches_def by (rule exI [of _ "[]"]) (simp add: store_run_def)

lemma reaches_trans: "store_reaches st st' \<Longrightarrow> store_reaches st' st'' \<Longrightarrow> store_reaches st st''"
  unfolding store_reaches_def store_run_def by (metis fold_append comp_apply)

lemma reaches_step: "store_reaches st (store_step e st)"
  unfolding store_reaches_def by (rule exI [of _ "[e]"]) (simp add: store_run_def)

lemmas reaches_steps [simp] =
  reaches_step [of st "Enqueue now hit reason", unfolded store_step_def store_event.case]
  reaches_step [of st "MarkReason i reason", unfolded store_step_def store_event.case]
  reaches_step [of st "DirectSubmit now hit status body", unfolded store_step_def store_event.case]
  reaches_step [of st "Reject now hit status body source pid q", unfolded store_step_def store_event.case]
  reaches_step [of st "MarkSubmitted now i status body", unfolded store_step_def store_event.case]
  for st now hit reason i status body source pid q

lemma reaches_finish_failed:
  "store_reaches st (snd (finish_failed (store_ops now) sd row hit c r st))"
  by (simp add: finish_failed_def store_ops_def Let_def split: option.split)

lemma reaches_prepare_row: "store_reaches st (snd (prepare_row (store_ops now) e sd row st))"
  using reaches_finish_failed [of st now sd row]
  by (auto simp: prepare_row_def Let_def store_ops_def split: option.split)

lemma reaches_prepare_rows: "store_reaches st (snd (prepare_rows (store_ops now) e sd rows st))"
proof (induction rows arbitrary: st)
  case (Cons row rows)
  show ?case using reaches_trans [OF reaches_prepare_row Cons.IH, of st now e sd row]
    by (simp add: case_prod_unfold Let_def)
qed simp

lemma flush_store: "fl_store (fst (flush e sd f))
    = (if pending (fl_store f) = [] then fl_store f
       else snd (prepare_rows (store_ops (fe_now e)) e sd (pending (fl_store f)) (fl_store f)))"
  by (simp add: flush_def Let_def case_prod_unfold collect_outcomes_store)

lemma reaches_flush: "store_reaches (fl_store f) (fl_store (fst (flush e sd f)))"
  by (simp add: flush_store reaches_prepare_rows)

lemma reaches_defer: "store_reaches st (fst (defer_to_next_start minute st))"
proof -
  have "store_reaches st (fold (give_reason minute) rows st)" for rows
  proof (induction rows arbitrary: st)
    case (Cons row rows)
    show ?case using reaches_trans [OF reaches_steps(2) Cons] by (simp add: give_reason_def)
  qed simp
  then show ?thesis by (simp add: defer_to_next_start_def defer_fold)
qed

text \<open>What the parts of an operation read and leave of the store.\<close>

lemma sv_store_simps [simp]:
  "sv_store (map_store g sv) = g (sv_store sv)"
  "sv_store (map_metrics m sv) = sv_store sv"
  "sv_store (record_accept kind sv) = sv_store sv"
  "sv_store (sync_queue sv) = sv_store sv"
  "sv_store (map_cuda c sv) = sv_store sv"
  "sv_store (guard_context t d sv) = sv_store sv"
  "sv_store (network_down sv) = sv_store sv"
  "sv_store (sv\<lparr>sv_was_in_window := w\<rparr>) = sv_store sv"
  by (simp_all add: sv_store_def map_store_def map_metrics_def record_accept_def sync_queue_def map_cuda_def
      guard_context_def network_down_def split: miner_backend.split)

lemma sv_flusher_simps [simp]:
  "sv_flusher (map_cuda c sv) = sv_flusher sv"
  "sv_flusher (guard_context t d sv) = sv_flusher sv"
  "sv_flusher (network_down sv) = sv_flusher sv"
  "sv_flusher (begin_difficulty_transition t e sv) = sv_flusher sv"
  "sv_flusher (maybe_restore_cuda_lane_cap t e d sv) = sv_flusher sv"
  "sv_flusher (snd (read_poller e b sv)) = sv_flusher sv"
  by (simp_all add: map_cuda_def guard_context_def network_down_def begin_difficulty_transition_def
      maybe_restore_cuda_lane_cap_def read_poller_def case_prod_unfold Let_def
      split: miner_backend.split option.split)

lemma flusher_apply [simp]: "sv_flusher (snd (apply_network_difficulty t e d sv)) = sv_flusher sv"
  by (simp add: apply_network_difficulty_def Let_def split: option.split)

lemma flusher_network_up [simp]: "sv_flusher (network_up t e d sv) = sv_flusher sv"
  by (simp add: network_up_def Let_def case_prod_unfold)

lemma store_network_up [simp]: "sv_store (network_up t e d sv) = sv_store sv"
  by (simp add: sv_store_def)

lemma store_read_poller [simp]: "sv_store (snd (read_poller e b sv)) = sv_store sv"
  by (simp add: sv_store_def)

lemma store_run_flush:
  "sv_store (snd (run_flush t e sd sv)) = fl_store (fst (flush (flush_env_of t e sv) sd (sv_flusher sv)))"
  by (simp add: run_flush_def case_prod_unfold Let_def) (simp add: sv_store_def)

lemma reaches_live_rejected: "store_reaches (sv_store sv) (sv_store (live_rejected e hit kind status body sv))"
  by (simp add: live_rejected_def Let_def case_prod_unfold)

lemma reaches_live_reply: "store_reaches (sv_store sv) (sv_store (live_reply e hit kind reply sv))"
  using reaches_live_rejected reaches_trans [OF reaches_steps(3) reaches_steps(1)]
  by (simp add: live_reply_def Let_def queue_hit_def)

interpretation stored: sup_hit_contract s env "\<lambda>sv sv'. store_reaches (sv_store sv) (sv_store sv')" for s env
proof unfold_locales
  fix sv sv' sv''
  assume "store_reaches (sv_store sv) (sv_store sv')" "store_reaches (sv_store sv') (sv_store sv'')"
  then show "store_reaches (sv_store sv) (sv_store sv'')" by (rule reaches_trans)
next
  show "store_reaches (sv_store sv) (sv_store (snd (run_flush s env sd sv)))" for sd sv
    using reaches_flush [of "sv_flusher sv"] by (simp add: store_run_flush) (simp add: sv_store_def)
qed (simp_all add: queue_hit_def reaches_live_reply)

subsection \<open>The counter of queued blocks\<close>

definition queue_synced :: "supervisor \<Rightarrow> bool" where
  "queue_synced sv = (case fl_metrics (sv_flusher sv) of None \<Rightarrow> True
     | Some m \<Rightarrow> queued (stats m) = int (pending_count None (sv_store sv)))"

lemma group_by_type_cong: "map p_block_type rows = map p_block_type rows' \<Longrightarrow> group_by_type rows = group_by_type rows'"
proof -
  have l: "length (filter (\<lambda>r. p_block_type r = t) xs) = length (filter (\<lambda>u. u = t) (map p_block_type xs))" for xs t
    by (simp add: filter_map comp_def)
  show "map p_block_type rows = map p_block_type rows' \<Longrightarrow> group_by_type rows = group_by_type rows'"
    unfolding group_by_type_def l by simp
qed

lemma pending_count_cong:
  "map p_block_type (pending st) = map p_block_type (pending st') \<Longrightarrow> pending_count None st = pending_count None st'"
  using group_by_type_cong [of "pending st" "pending st'"]
  by (simp add: pending_count_def pending_by_type_def pending_def resubmission_clause_def)

lemma pending_count_files [simp]:
  "pending_count None (record_direct_submit now hit status body st) = pending_count None st"
  "pending_count None (log_rejection now hit status body src st) = pending_count None st"
  "pending_count None (log_first_reject b now hit status body src st) = pending_count None st"
  by (rule pending_count_cong, simp add: pending_def log_first_reject_def record_direct_submit_def log_rejection_def)+

lemma pending_count_bump:
  "pending_count None (st\<lparr>pending_blocks := update_rows P (bump_reject q) (pending_blocks st)\<rparr>) = pending_count None st"
proof (rule pending_count_cong)
  have "map p_block_type (filter is_pending (update_rows P (bump_reject q) rows)) = map p_block_type (filter is_pending rows)" for rows
    by (induction rows) (auto simp: is_pending_def bump_reject_def)
  then show "map p_block_type (pending (st\<lparr>pending_blocks := update_rows P (bump_reject q) (pending_blocks st)\<rparr>))
    = map p_block_type (pending st)" by (simp add: pending_def)
qed

lemma pending_count_reject:
  "\<not> snd (record_rejection now hit status body src None q st) \<Longrightarrow>
    pending_count None (fst (record_rejection now hit status body src None q st)) = pending_count None st"
  by (auto simp: record_rejection_def Let_def pending_count_bump split: option.splits)

lemma queued_record [simp]:
  "queued (stats (record_found k m)) = queued (stats m)"
  "queued (stats (record_accepted_live k m)) = queued (stats m)"
  "queued (stats (record_rejected_live k b m)) = queued (stats m)"
  by (simp_all add: record_defs Let_def)

lemma queue_synced_sync [simp]: "queue_synced (sync_queue sv)"
  by (simp add: queue_synced_def sync_queue_def map_metrics_def sync_pending_def sv_store_def split: option.split)

lemma queue_synced_metrics:
  "(\<And>m. queued (stats (f m)) = queued (stats m)) \<Longrightarrow> queue_synced (map_metrics f sv) = queue_synced sv"
  by (simp add: queue_synced_def map_metrics_def sv_store_def split: option.split)

lemma queue_synced_store:
  "pending_count None (g (sv_store sv)) = pending_count None (sv_store sv) \<Longrightarrow>
    queue_synced (map_store g sv) = queue_synced sv"
  by (simp add: queue_synced_def map_store_def sv_store_def split: option.split)

lemma queue_synced_accept [simp]: "queue_synced (record_accept k sv) = queue_synced sv"
  by (simp add: queue_synced_def record_accept_def sv_store_def split: option.split)

lemma queue_synced_frame:
  "sv_flusher sv' = sv_flusher sv \<Longrightarrow> queue_synced sv' = queue_synced sv"
  by (simp add: queue_synced_def sv_store_def split: option.split)

lemma synced_live_rejected: "queue_synced sv \<Longrightarrow> queue_synced (live_rejected e hit kind status body sv)"
  by (simp add: live_rejected_def Let_def case_prod_unfold queue_synced_metrics queue_synced_store pending_count_reject)

lemma synced_live_reply: "queue_synced sv \<Longrightarrow> queue_synced (live_reply e hit kind reply sv)"
  by (simp add: live_reply_def Let_def queue_hit_def synced_live_rejected queue_synced_metrics queue_synced_store)

interpretation counted: sup_hit_contract s env "\<lambda>sv sv'. queue_synced sv \<longrightarrow> queue_synced sv'" for s env
proof unfold_locales
  show "queue_synced sv \<longrightarrow> queue_synced (snd (read_poller env b sv))" for b sv
    using queue_synced_frame [of "snd (read_poller env b sv)" sv] by simp
  show "queue_synced (snd (read_poller env b sv)) \<longrightarrow> queue_synced (network_up s env d (snd (read_poller env b sv)))" for b d sv
    using queue_synced_frame [of "network_up s env d (snd (read_poller env b sv))" "snd (read_poller env b sv)"] by simp
  show "queue_synced sv \<longrightarrow> queue_synced (network_down sv)" for sv
    using queue_synced_frame [of "network_down sv" sv] by simp
  show "queue_synced sv \<longrightarrow> queue_synced (sv\<lparr>sv_was_in_window := w\<rparr>)" for w sv
    using queue_synced_frame [of "sv\<lparr>sv_was_in_window := w\<rparr>" sv] by simp
qed (simp_all add: run_flush_def case_prod_unfold Let_def queue_hit_def queue_synced_metrics synced_live_reply)

subsection \<open>The difficulty\<close>

text \<open>
  A difficulty that was read is positive; the backend mines at the network's difficulty, and the
  temperature guard is set for it.
\<close>

definition poller_positive :: "poller \<Rightarrow> bool" where
  "poller_positive p = (case ps_difficulty (pl_status p) of None \<Rightarrow> True | Some d \<Rightarrow> 0 < d)"

definition difficulty_synced :: "sup_settings \<Rightarrow> supervisor \<Rightarrow> bool" where
  "difficulty_synced s sv \<longleftrightarrow> poller_positive (sv_poller sv) \<and>
     (case sv_network_difficulty sv of None \<Rightarrow> False
      | Some d \<Rightarrow> 0 < d \<and> mining_difficulty s sv = d \<and> hc_difficulty (vg_context (sv_guard sv)) = d)"

lemma apply_plan_difficulty [simp]: "cb_difficulty (apply_plan s p q b) = cb_difficulty b"
  by (simp add: apply_plan_def Let_def)

lemma sync_difficulty [simp]: "cb_difficulty (sync_lane_engines s e b) = cb_difficulty b"
  by (auto simp: sync_lane_engines_def use_sequential_def sync_lane_copy_workers_def Let_def split: sum.splits if_splits)

lemma plan_difficulty [simp]: "cb_difficulty (snd (plan_from_device s e dev d b)) = cb_difficulty b"
  by (simp add: plan_from_device_def caps_for_total_def account_foreign_def Let_def case_prod_unfold
      split: option.split)

lemma set_difficulty_cuda:
  assumes "0 < d"
  shows "cb_difficulty (cuda_set_difficulty cs e d b) = d"
proof -
  have p: "cb_difficulty (snd r) = d \<Longrightarrow> cb_difficulty (case r of (Inl (x :: py_exn), b2) \<Rightarrow> b2
      | (Inr base0, b2) \<Rightarrow> (let base = clip_batch cs (cb_difficulty b2) base0
          in sync_lane_engines cs e (apply_plan cs (effective_plan cs b2 base) base b2))) = d" for r
    by (cases r) (simp add: Let_def split: sum.split)
  show ?thesis
  proof (cases "ee_device e")
    case None
    with assms show ?thesis by (simp add: cuda_set_difficulty_def Let_def max_def)
  next
    case (Some dev)
    with assms show ?thesis by (simp add: cuda_set_difficulty_def max_def Let_def [of "b\<lparr>cb_difficulty := d\<rparr>"] p)
  qed
qed

lemma poller_positive_poll: "poller_positive (snd (poll_once loads reply now p))"
proof -
  have "ps_difficulty (fetch_difficulty loads reply u) = first_usable loads reply (candidate_urls u)" for u
    using fetch_from_first [of loads reply "candidate_urls u" False NoUrl]
    by (auto simp: fetch_difficulty_def split: prod.split option.split)
  then show ?thesis using first_usable_positive
    by (auto simp: poller_positive_def poll_once_def Let_def split: option.split)
qed

lemma poller_after_read:
  "poller_positive (sv_poller sv) \<Longrightarrow> poller_positive (sv_poller (snd (read_poller e b sv)))"
  using poller_positive_poll by (simp add: read_poller_def Let_def case_prod_unfold)

lemma read_poller_frame [simp]:
  "sv_backend (snd (read_poller e b sv)) = sv_backend sv"
  "sv_network_difficulty (snd (read_poller e b sv)) = sv_network_difficulty sv"
  "sv_guard (snd (read_poller e b sv)) = sv_guard sv"
  by (simp_all add: read_poller_def Let_def case_prod_unfold)

lemma status_after_read: "fst (read_poller e b sv) = pl_status (sv_poller (snd (read_poller e b sv)))"
  by (simp add: read_poller_def Let_def case_prod_unfold poll_once_def)

lemma mining_difficulty_cong:
  "sv_backend sv' = sv_backend sv \<Longrightarrow> sv_network_difficulty sv' = sv_network_difficulty sv \<Longrightarrow>
    mining_difficulty s sv' = mining_difficulty s sv"
  by (simp add: mining_difficulty_def split: miner_backend.split)

text \<open>What the difficulty invariant reads.\<close>

definition same_difficulty :: "supervisor \<Rightarrow> supervisor \<Rightarrow> bool" where
  "same_difficulty sv sv' \<longleftrightarrow> sv_backend sv' = sv_backend sv \<and> sv_poller sv' = sv_poller sv
     \<and> sv_network_difficulty sv' = sv_network_difficulty sv \<and> sv_guard sv' = sv_guard sv"

lemma same_difficulty_synced: "same_difficulty sv sv' \<Longrightarrow> difficulty_synced s sv' = difficulty_synced s sv"
  using mining_difficulty_cong [of sv' sv s] by (auto simp: same_difficulty_def difficulty_synced_def split: option.splits)

lemma same_difficulty_simps [simp]:
  "same_difficulty sv sv"
  "same_difficulty sv (sv'\<lparr>sv_flusher := f\<rparr>) = same_difficulty sv sv'"
  "same_difficulty sv (map_metrics g sv') = same_difficulty sv sv'"
  "same_difficulty sv (map_store h sv') = same_difficulty sv sv'"
  "same_difficulty sv (record_accept k sv') = same_difficulty sv sv'"
  "same_difficulty sv (sync_queue sv') = same_difficulty sv sv'"
  "same_difficulty sv (queue_hit e hit k r sv') = same_difficulty sv sv'"
  "same_difficulty sv (network_down sv') = same_difficulty sv sv'"
  by (simp_all add: same_difficulty_def map_metrics_def map_store_def record_accept_def sync_queue_def
      queue_hit_def network_down_def)

lemma same_difficulty_reply [simp]: "same_difficulty sv (live_reply e hit kind reply sv)"
  by (simp add: live_reply_def live_rejected_def Let_def case_prod_unfold)

lemma network_up_difficulty:
  assumes "0 < d" "poller_positive (sv_poller sv)"
    and same: "sv_network_difficulty sv = Some d \<Longrightarrow> difficulty_synced s sv"
  shows "difficulty_synced s (network_up s e d sv)"
proof (cases "sv_network_difficulty sv = Some d")
  case True
  then have "same_difficulty sv (network_up s e d sv)" by (simp add: network_up_def same_difficulty_def)
  with same [OF True] show ?thesis by (simp add: same_difficulty_synced)
next
  case False
  obtain sv1 where a: "apply_network_difficulty s e d sv = (d, sv1)"
    using assms(1) by (simp add: apply_network_difficulty_def accept_network_difficulty_def Let_def)
  have g: "hc_difficulty (vg_context (sv_guard sv1)) = d"
    using assms(1) a by (auto simp: apply_network_difficulty_def guard_context_def set_difficulty_context_def Let_def)
  have p: "sv_poller sv1 = sv_poller sv"
    using a by (auto simp: apply_network_difficulty_def guard_context_def begin_difficulty_transition_def
        maybe_restore_cuda_lane_cap_def map_cuda_def Let_def split: option.split miner_backend.split)
  let ?sv = "map_cuda (cuda_set_difficulty (ss_cuda s) (se_engine e) d) (sv1\<lparr>sv_network_difficulty := Some d\<rparr>)"
  have "mining_difficulty s ?sv = d" "sv_network_difficulty ?sv = Some d" "sv_guard ?sv = sv_guard sv1"
    "sv_poller ?sv = sv_poller sv1"
    using assms(1) by (simp_all add: map_cuda_def mining_difficulty_def set_difficulty_cuda int_or_def
        split: miner_backend.split)
  then have "difficulty_synced s ?sv" using assms(1,2) g p by (simp add: difficulty_synced_def)
  moreover have "network_up s e d sv = ?sv\<lparr>sv_network_ok := True, sv_last_log_ok := Some True\<rparr>"
    using False by (simp add: network_up_def a)
  ultimately show ?thesis using same_difficulty_synced [of ?sv "network_up s e d sv" s]
    by (simp add: same_difficulty_def)
qed

interpretation tuned: sup_hit_contract s env "\<lambda>sv sv'. difficulty_synced s sv \<longrightarrow> difficulty_synced s sv'" for s env
proof unfold_locales
  have read: "difficulty_synced s (snd (read_poller env b sv))" if "difficulty_synced s sv" for b sv
    using that poller_after_read [of sv env b] mining_difficulty_cong [of "snd (read_poller env b sv)" sv s]
    by (auto simp: difficulty_synced_def split: option.splits)
  then show "difficulty_synced s sv \<longrightarrow> difficulty_synced s (snd (read_poller env b sv))" for b sv by blast
  show "difficulty_synced s (snd (read_poller env b sv)) \<longrightarrow> difficulty_synced s (network_up s env d (snd (read_poller env b sv)))"
    if "ps_difficulty (fst (read_poller env b sv)) = Some d" for b d sv
  proof
    assume inv: "difficulty_synced s (snd (read_poller env b sv))"
    then have p: "poller_positive (sv_poller (snd (read_poller env b sv)))" by (simp add: difficulty_synced_def)
    with that have "0 < d" by (simp add: poller_positive_def status_after_read)
    with p inv show "difficulty_synced s (network_up s env d (snd (read_poller env b sv)))"
      by (intro network_up_difficulty)
  qed
  show "difficulty_synced s sv \<longrightarrow> difficulty_synced s (sv\<lparr>sv_was_in_window := w\<rparr>)" for w sv
    using same_difficulty_synced [of sv "sv\<lparr>sv_was_in_window := w\<rparr>" s] by (simp add: same_difficulty_def)
  show "difficulty_synced s sv \<longrightarrow> difficulty_synced s (snd (run_flush s env sd sv))" for sd sv
    using same_difficulty_synced [of sv "snd (run_flush s env sd sv)" s]
    by (simp add: run_flush_def case_prod_unfold Let_def)
  show "difficulty_synced s sv \<longrightarrow> difficulty_synced s (network_down sv)" for sv
    using same_difficulty_synced [of sv "network_down sv" s] by simp
  show "difficulty_synced s sv \<longrightarrow> difficulty_synced s (map_metrics (record_found k) sv)" for k sv
    using same_difficulty_synced [of sv "map_metrics (record_found k) sv" s] by simp
  show "difficulty_synced s sv \<longrightarrow> difficulty_synced s (queue_hit env hit k r sv)" for hit k r sv
    using same_difficulty_synced [of sv "queue_hit env hit k r sv" s] by simp
  show "difficulty_synced s sv \<longrightarrow> difficulty_synced s (live_reply env hit k r sv)" for hit k r sv
    using same_difficulty_synced [of sv "live_reply env hit k r sv" s] by simp
qed auto

end
