(* ===== verification/VramPlans.thy ===== *)
theory VramPlans
  imports VramBatch
begin

text \<open>
  Plans that stay within their limits.  A plan is sound (\<open>plan_sound\<close>) when it satisfies its
  limits and one attempt per resident lane would satisfy them too; forcing a sound plan down to
  fewer lanes (\<open>apply_lane_cap\<close>) gives a sound plan.  Sizes are at most 2 to the 53, so that
  they are exact as floats.
\<close>

definition size_bound :: int where
  "size_bound = 2 ^ 53"

definition projected_use :: "cuda_vram_plan \<Rightarrow> int \<Rightarrow> int \<Rightarrow> int" where
  "projected_use p batch conc = max 0 (vp_foreign_used_mib p)
     + estimate_batch_vram_bytes batch (vp_difficulty p) * conc div (1024 * 1024)
     + vp_runtime_overhead_mib p"

definition one_fits :: "cuda_vram_plan \<Rightarrow> int \<Rightarrow> int \<Rightarrow> bool" where
  "one_fits p card_mib conc \<longleftrightarrow> projected_use p 1 conc \<le> vp_target_mib p
     \<and> vp_desktop_headroom_mib p \<le> max 0 (card_mib - projected_use p 1 conc)"

definition plan_sound :: "cuda_vram_plan \<Rightarrow> bool" where
  "plan_sound p \<longleftrightarrow> 1 \<le> vp_lanes p \<and> 0 \<le> vp_batch_per_lane p \<and> vp_batch_per_lane p \<le> size_bound
     \<and> vp_budget_bytes p \<le> size_bound \<and> within_limits p
     \<and> one_fits p (plan_card_mib p) (effective_concurrent_vram_lanes p)"

subsection \<open>Estimates\<close>

lemma estimate_nonneg: "0 \<le> estimate_batch_vram_bytes b d"
proof (cases "b \<le> 0 \<or> d \<le> 0")
  case False
  then have "0 \<le> fint b * bytes_per_attempt d"
    by (intro mult_nonneg_nonneg fint_nonneg bytes_per_attempt_nonneg) auto
  then show ?thesis by (simp add: estimate_batch_vram_bytes_def py_int_nonneg dbl.nonneg)
qed (auto simp: estimate_batch_vram_bytes_def)

lemma estimate_mono: "a \<le> b \<Longrightarrow> estimate_batch_vram_bytes a d \<le> estimate_batch_vram_bytes b d"
proof (cases "a \<le> 0 \<or> d \<le> 0")
  case False
  assume ab: "a \<le> b"
  have "fint a * bytes_per_attempt d \<le> fint b * bytes_per_attempt d"
    using False ab by (intro mult_right_mono fint_mono bytes_per_attempt_nonneg) auto
  then show ?thesis using False ab by (simp add: estimate_batch_vram_bytes_def py_int_mono dbl.mono)
next
  case True
  then have "estimate_batch_vram_bytes a d = 0" by (auto simp: estimate_batch_vram_bytes_def)
  then show ?thesis by (simp add: estimate_nonneg)
qed

lemma projected_use_mono:
  assumes "a \<le> b" "0 \<le> c" "c \<le> c'"
  shows "projected_use p a c \<le> projected_use p b c'"
proof -
  have "estimate_batch_vram_bytes a (vp_difficulty p) * c \<le> estimate_batch_vram_bytes b (vp_difficulty p) * c'"
    using assms estimate_mono [OF assms(1)] estimate_nonneg by (intro mult_mono) auto
  then show ?thesis by (simp add: projected_use_def zdiv_mono1)
qed

lemma one_fits_mono:
  assumes "one_fits p k c" "k \<le> k'" "0 \<le> c'" "c' \<le> c"
  shows "one_fits p k' c'"
  using assms projected_use_mono [of 1 1 c' c p] by (auto simp: one_fits_def)

lemma fl_one [simp]: "fl 1 = 1"
  using fl_of_int [of 1] by simp

lemma bytes_ge_one:
  assumes "1 \<le> d"
  shows "1 \<le> bytes_per_attempt d"
proof -
  have "fint 1 \<le> fint d" using assms by (intro fint_mono)
  then have "1 \<le> fint d" using fint_small [of 1] by simp
  then have "1 \<le> fl (fint d * 1024)" by (intro dbl.ge_of fl_one) simp
  moreover have "1 \<le> fl (1001 / 1000)" by (intro dbl.ge_of fl_one) simp
  ultimately have "1 * 1 \<le> fl (fint d * 1024) * fl (1001 / 1000)" by (intro mult_mono) simp_all
  then show ?thesis unfolding bytes_per_attempt_def by (intro dbl.ge_of fl_one) simp
qed

lemma attempts_bound:
  assumes "0 \<le> x" "x \<le> size_bound" "1 \<le> d"
  shows "0 \<le> py_int (fl (fint x / bytes_per_attempt d)) \<and> py_int (fl (fint x / bytes_per_attempt d)) \<le> size_bound"
proof -
  note per = bytes_ge_one [OF assms(3)]
  have f: "fint x = of_int x" using assms by (intro fint_small) (simp add: size_bound_def)
  have "of_int x / bytes_per_attempt d \<le> of_int x / 1" using assms(1) per by (intro divide_left_mono) auto
  also have "\<dots> \<le> of_int size_bound" using assms(2) by simp
  finally have "fl (fint x / bytes_per_attempt d) \<le> of_int size_bound"
    unfolding f by (rule dbl.le_of) (rule fl_of_int, simp add: size_bound_def)
  then have "py_int (fl (fint x / bytes_per_attempt d)) \<le> size_bound"
    using py_int_mono py_int_of_int by metis
  moreover have "0 \<le> fint x / bytes_per_attempt d" using assms(1) per by (simp add: f)
  ultimately show ?thesis by (simp add: py_int_nonneg dbl.nonneg)
qed

lemma memory_limited_bound:
  assumes "free - res \<le> size_bound"
  shows "memory_limited_batch_size free d res \<le> size_bound"
proof (cases "d \<le> 0 \<or> free \<le> res")
  case False
  with assms attempts_bound [of "free - res" d] bytes_ge_one [of d] show ?thesis
    by (simp add: memory_limited_batch_size_def Let_def)
qed (auto simp: memory_limited_batch_size_def size_bound_def)

lemma select_bound: "b \<le> size_bound \<Longrightarrow> select_batch_size b d e f \<le> size_bound"
  using select_batch_size_le [of b d e f] memory_limited_bound [of "b + cuda_engine_reserve_bytes"
      cuda_engine_reserve_bytes d] by (simp add: order_trans)

lemma share_bound: "b \<le> size_bound \<Longrightarrow> 1 \<le> k \<Longrightarrow> max 1 (b div k) \<le> size_bound"
proof -
  assume b: "b \<le> size_bound" and k: "1 \<le> k"
  have "b div k \<le> max 0 b"
  proof (cases "0 \<le> b")
    case True
    then have "b div k \<le> b" using k div_by_1 [of b] zdiv_mono2 [of b 1 k] by simp
    with True show ?thesis by simp
  next
    case False
    then show ?thesis using k by (simp add: div_nonpos_pos_le0)
  qed
  with b show ?thesis by (simp add: size_bound_def)
qed

subsection \<open>Made plans\<close>

lemma make_plan_more [simp]:
  "vp_foreign_used_mib (make_plan p c l b n) = vp_foreign_used_mib p"
  "vp_runtime_overhead_mib (make_plan p c l b n) = vp_runtime_overhead_mib p"
  "vp_concurrent_vram_lanes (make_plan p c l b n) = max 1 (min n (max 1 l))"
  by (simp_all add: make_plan_def plan_projection_def Let_def)

lemma make_plan_projection:
  "vp_projected_used_mib (make_plan p c l b n) = projected_use p b (max 1 (min n (max 1 l)))"
  "vp_projected_headroom_mib (make_plan p c l b n) = max 0 (c - projected_use p b (max 1 (min n (max 1 l))))"
  by (simp_all add: make_plan_def plan_projection_def projected_use_def Let_def min_def max_def)

lemma projected_use_make [simp]: "projected_use (make_plan p c l b n) = projected_use p"
  by (simp add: projected_use_def fun_eq_iff)

lemma one_fits_make [simp]: "one_fits (make_plan p c l b n) = one_fits p"
  by (simp add: one_fits_def fun_eq_iff)

lemma card_make: "c \<le> plan_card_mib (make_plan p c l b n)"
  by (simp add: plan_card_mib_def make_plan_projection)

lemma conc_make: "effective_concurrent_vram_lanes (make_plan p c l b n) = max 1 (min n (max 1 l))"
  by (simp add: effective_concurrent_vram_lanes_def)

lemma conc_pos: "1 \<le> effective_concurrent_vram_lanes p"
  by (simp add: effective_concurrent_vram_lanes_def)

lemma within_make:
  "within_limits (make_plan p c l b n) \<longleftrightarrow>
    projected_use p b (max 1 (min n (max 1 l))) \<le> vp_target_mib p
    \<and> vp_desktop_headroom_mib p \<le> max 0 (c - projected_use p b (max 1 (min n (max 1 l))))"
  by (simp add: within_limits_def make_plan_projection)

lemma within_make_one: "one_fits p c m \<Longrightarrow> max 1 (min n (max 1 l)) \<le> m \<Longrightarrow> b \<le> 1
    \<Longrightarrow> within_limits (make_plan p c l b n)"
  using projected_use_mono [of b 1 "max 1 (min n (max 1 l))" m p]
  unfolding within_make one_fits_def by linarith

lemma make_plan_sound:
  assumes "1 \<le> l" "0 \<le> b" "b \<le> size_bound" "vp_budget_bytes p \<le> size_bound"
    and "within_limits (make_plan p c l b n)" "one_fits p c m" "max 1 (min n (max 1 l)) \<le> m"
  shows "plan_sound (make_plan p c l b n)"
  using assms one_fits_mono [OF assms(6) card_make [of c p l b n]]
  by (simp add: plan_sound_def conc_make)

subsection \<open>The loop\<close>

lemma shrink_batch_below:
  assumes "1 < b"
  shows "1 \<le> shrink_batch b \<and> shrink_batch b \<le> b"
proof -
  have c: "fl (98 / 100) \<le> 981 / 1000" "0 \<le> fl (98 / 100)" by code_simp+
  let ?x = "fint b * fl (98 / 100)"
  have f: "0 \<le> fint b" "fint b \<le> of_int b * (1 + 1 / 2 ^ 53)"
    using assms by (rule_tac fint_nonneg, simp) (unfold fint_def, rule fl_upper, use assms in simp)
  then have x: "0 \<le> ?x" using c by simp
  have "fl ?x \<le> ?x * (1 + 1 / 2 ^ 53)" using x by (rule fl_upper)
  also have "\<dots> \<le> (of_int b * (1 + 1 / 2 ^ 53)) * (981 / 1000) * (1 + 1 / 2 ^ 53)"
    using c f assms by (intro mult_right_mono mult_mono) simp_all
  also have "\<dots> \<le> of_int b" using assms by (simp add: field_simps)
  finally have "py_int (fl ?x) \<le> b" using py_int_mono [of "fl ?x" "of_int b"] by simp
  then show ?thesis using assms by (simp add: shrink_batch_def)
qed

lemma clamp_loop_form:
  assumes "0 \<le> b" "b \<le> M" "1 \<le> l"
    and "\<And>k. 1 \<le> k \<Longrightarrow> select_batch_size (max 1 (vp_budget_bytes p div k)) (vp_difficulty p) 0 True \<le> M"
  shows "clamp_loop n p c l b m = p \<or> (\<exists>l' b' m'. clamp_loop n p c l b m = make_plan p c l' b' m'
    \<and> within_limits (make_plan p c l' b' m') \<and> 1 \<le> l' \<and> l' \<le> l \<and> 0 \<le> b' \<and> b' \<le> M \<and> m' \<le> m)"
  using assms(1-3)
proof (induction n arbitrary: b l m)
  case (Suc n)
  let ?q = "make_plan p c l b m"
  consider "within_limits ?q" | "\<not> within_limits ?q" "b > 1" | "\<not> within_limits ?q" "b \<le> 1" "l > 1" "m > 1"
    | "\<not> within_limits ?q" "b \<le> 1" "\<not> (l > 1 \<and> m > 1)" by linarith
  then show ?case
  proof cases
    case 1
    then have "clamp_loop (Suc n) p c l b m = ?q" by simp
    with 1 Suc.prems show ?thesis by (metis order_refl)
  next
    case 2
    then have e: "clamp_loop (Suc n) p c l b m = clamp_loop n p c l (shrink_batch b) m" by (simp add: Let_def)
    have "0 \<le> shrink_batch b" "shrink_batch b \<le> M"
      using 2 Suc.prems shrink_batch_below [of b] by auto
    from Suc.IH [OF this Suc.prems(3)] show ?thesis unfolding e .
  next
    case 3
    let ?m = "min m (l - 1)"
    let ?b = "select_batch_size (max 1 (vp_budget_bytes p div ?m)) (vp_difficulty p) 0 True"
    have e: "clamp_loop (Suc n) p c l b m = clamp_loop n p c (l - 1) ?b ?m"
      using 3 by (simp add: Let_def)
    have "0 \<le> ?b" "?b \<le> M" "1 \<le> l - 1" using 3 assms(4) by (auto simp: select_batch_size_nonneg)
    from Suc.IH [OF this, of ?m] show ?thesis unfolding e by (metis min.boundedE order_trans diff_le_self zle_diff1_eq less_imp_le order_refl)
  next
    case 4
    then show ?thesis by (auto simp: Let_def)
  qed
qed simp

lemma clamp_sound:
  assumes q: "q = make_plan p K l b m" "1 \<le> l" "0 \<le> b" "b \<le> size_bound"
    and p: "vp_budget_bytes p \<le> size_bound" "one_fits p K c" "max 1 (min m (max 1 l)) \<le> c"
  shows "plan_sound (clamp_plan_to_caps q)"
proof (cases "within_limits q")
  case True
  with q p show ?thesis by (simp add: clamp_plan_to_caps_def make_plan_sound)
next
  case False
  let ?m = "max 1 (min m (max 1 l))"
  let ?K = "plan_card_mib q"
  have one: "one_fits q ?K ?m" using p one_fits_mono [OF p(2) card_make, of ?m] unfolding q(1) by simp
  have b: "1 \<le> b" using within_make_one [OF p(2,3), of b] False q(1) by force
  have e: "clamp_plan_to_caps q = clamp_loop 10000 q ?K l b ?m"
    using False conc_make by (simp add: clamp_plan_to_caps_def q(1))
  have wo: "within_limits (make_plan q ?K l 1 ?m)" using one by (rule within_make_one) simp_all
  have "of_int b * (197 / 200) ^ (64 * 54) < (2 :: rat)"
    using b q(4) by (intro enough_rounds) (simp_all add: size_bound_def)
  then have w: "within_limits (clamp_plan_to_caps q)"
    unfolding e using q(4) by (intro clamp_loop_reaches_one [OF b _ _ _ wo, of "64 * 54"]) (simp_all add: size_bound_def)
  have bq: "vp_budget_bytes q \<le> size_bound" using p(1) by (simp add: q(1))
  have "select_batch_size (max 1 (vp_budget_bytes q div k)) (vp_difficulty q) 0 True \<le> size_bound"
    if "1 \<le> k" for k
    using that by (intro select_bound share_bound bq)
  from clamp_loop_form [OF q(3,4,2) this, of 10000 ?K ?m] w False
  obtain l' b' m' where f: "clamp_plan_to_caps q = make_plan q ?K l' b' m'" "1 \<le> l'" "l' \<le> l"
    "0 \<le> b'" "b' \<le> size_bound" "m' \<le> ?m" unfolding e by metis
  have "plan_sound (make_plan q ?K l' b' m')"
    using f w bq one by (intro make_plan_sound [where m = ?m]) simp_all
  then show ?thesis by (simp only: f(1))
qed

theorem lane_cap_sound:
  assumes "plan_sound p"
  shows "plan_sound (apply_lane_cap p n)"
proof (cases "vp_lanes p \<le> max 1 n \<or> vp_lanes p \<le> 1")
  case True
  with assms show ?thesis by (auto simp: apply_lane_cap_def)
next
  case False
  let ?c = "min (effective_concurrent_vram_lanes p) (max 1 n)"
  let ?b = "if ?c \<le> 1 then vp_batch_per_lane p
    else select_batch_size (max 1 (vp_budget_bytes p div ?c)) (vp_difficulty p) 0 True"
  have e: "apply_lane_cap p n = clamp_plan_to_caps (make_plan p (plan_card_mib p) (max 1 n) ?b ?c)"
    using False by (auto simp: apply_lane_cap_def Let_def)
  have p: "vp_budget_bytes p \<le> size_bound" "0 \<le> vp_batch_per_lane p" "vp_batch_per_lane p \<le> size_bound"
    "one_fits p (plan_card_mib p) (effective_concurrent_vram_lanes p)"
    using assms by (simp_all add: plan_sound_def)
  have "1 \<le> ?c" using conc_pos [of p] by simp
  then have "select_batch_size (max 1 (vp_budget_bytes p div ?c)) (vp_difficulty p) 0 True \<le> size_bound"
    using p(1) by (intro select_bound share_bound)
  then have "?b \<le> size_bound" using p(3) by (cases "?c \<le> 1") (simp_all only: if_True if_False)
  moreover have "0 \<le> ?b" using p(2) select_batch_size_nonneg by (cases "?c \<le> 1") (simp_all only: if_True if_False)
  moreover have "max 1 (min ?c (max 1 (max 1 n))) \<le> effective_concurrent_vram_lanes p"
    using conc_pos [of p] by simp
  ultimately show ?thesis unfolding e using p(1,4) by (intro clamp_sound [OF refl]) (assumption | simp)+
qed

subsection \<open>Planned batches\<close>

lemma made_sound:
  assumes "1 \<le> l" "1 \<le> b" "b \<le> size_bound" "vp_budget_bytes p \<le> size_bound"
    and w: "within_limits (make_plan p c l b n)"
  shows "plan_sound (make_plan p c l b n)"
proof -
  let ?m = "max 1 (min n (max 1 l))"
  have "projected_use p 1 ?m \<le> projected_use p b ?m" using assms(2) by (intro projected_use_mono) simp_all
  then have "one_fits p c ?m" using w unfolding within_make one_fits_def by linarith
  with assms show ?thesis by (intro make_plan_sound [where m = ?m]) simp_all
qed

lemma clamped_sound:
  assumes "1 \<le> l" "0 \<le> b" "b \<le> size_bound" "vp_budget_bytes p \<le> size_bound"
    and q: "q = clamp_plan_to_caps (make_plan p c l b n)" "within_limits q" "1 \<le> vp_batch_per_lane q"
  shows "plan_sound q"
proof -
  let ?p = "make_plan p c l b n"
  have "select_batch_size (max 1 (vp_budget_bytes ?p div k)) (vp_difficulty ?p) 0 True \<le> size_bound"
    if "1 \<le> k" for k
    using that assms(4) by (intro select_bound share_bound) simp_all
  from clamp_loop_form [OF assms(2,3,1) this]
  consider "q = ?p" | l' b' m' where "q = make_plan ?p (plan_card_mib ?p) l' b' m'" "1 \<le> l'" "b' \<le> size_bound"
    unfolding q(1) clamp_plan_to_caps_def by (metis make_plan_fields(1,2))
  then show ?thesis
  proof cases
    case 1
    with assms show ?thesis by (simp add: made_sound)
  next
    case 2
    have "within_limits (make_plan ?p (plan_card_mib ?p) l' b' m')" "1 \<le> b'"
      using assms(6,7) unfolding 2(1) by simp_all
    then show ?thesis unfolding 2(1) using 2(2,3) assms(4) by (intro made_sound) simp_all
  qed
qed

lemma budget_bound:
  assumes "br_target_mib r * (1024 * 1024) \<le> size_bound"
  shows "fst (request_budget r) \<le> size_bound"
proof -
  define d where "d = fst (vram_cap_batch_budget_bytes (br_total_bytes r) (br_target_mib r)
    (br_desktop_headroom_mib r) (max 0 (br_runtime_overhead_mib r)) (max 0 (br_foreign_used_mib r))
    (max 0 (br_safety_margin_mib r)))"
  define f where "f = clamp_fill_fraction (br_budget_fill_fraction r)"
  have "min (max 0 (t - f - (v + g))) w \<le> max 0 t" if "0 \<le> f" "0 \<le> v" "0 \<le> g" for t f v g w :: int
    using that by linarith
  then have "d \<le> max 0 (br_target_mib r) * (1024 * 1024)"
    unfolding d_def vram_cap_batch_budget_bytes_def Let_def fst_conv mult.assoc
    by (intro mult_right_mono) simp_all
  then have d: "d \<le> size_bound" using assms by (simp add: max_def size_bound_def split: if_splits)
  have d0: "0 \<le> d" unfolding d_def vram_cap_batch_budget_bytes_def Let_def by simp
  have fd: "fint d = of_int d" using d d0 by (intro fint_small) (simp add: size_bound_def)
  have "f \<le> 1" unfolding f_def clamp_fill_fraction_def by (simp add: dbl.le_of fl_of_int [of 1, simplified])
  then have "fint d * f \<le> of_int d" using d0 by (simp add: fd mult_left_le)
  then have "fl (fint d * f) \<le> of_int d"
    using d d0 by (rule_tac dbl.le_of) (simp, rule fl_of_int, simp add: size_bound_def)
  then have "py_int (fl (fint d * f)) \<le> d" using py_int_mono py_int_of_int by metis
  then show ?thesis using d
    by (simp add: request_budget_def case_prod_unfold Let_def size_bound_def flip: d_def f_def)
qed

lemma top_up_bound:
  assumes "0 \<le> b" "b \<le> size_bound" "budget \<le> size_bound" "1 \<le> conc"
  shows "0 \<le> top_up_batch r budget conc b \<and> top_up_batch r budget conc b \<le> size_bound"
proof (cases "b > 0 \<and> budget > 0 \<and> bytes_per_attempt (br_difficulty r) > 0")
  case True
  define n where "n = py_int (fl (fint budget / bytes_per_attempt (br_difficulty r)))"
  have "1 \<le> br_difficulty r"
  proof (rule ccontr)
    assume "\<not> 1 \<le> br_difficulty r"
    then have "fint (br_difficulty r) \<le> 0" using fint_mono [of "br_difficulty r" 0] by simp
    then have "fl (fint (br_difficulty r) * 1024) \<le> 0" by (intro dbl.nonpos) simp
    moreover have "0 \<le> fl (1001 / 1000)" by (intro dbl.nonneg) simp
    ultimately have "bytes_per_attempt (br_difficulty r) \<le> 0"
      unfolding bytes_per_attempt_def by (rule_tac dbl.nonpos) (rule mult_nonpos_nonneg)
    with True show False by simp
  qed
  with attempts_bound [of budget "br_difficulty r"] True assms(3)
  have "0 \<le> n" "n \<le> size_bound" by (simp_all add: n_def)
  then have "n div conc \<le> size_bound" using share_bound [of n conc] assms(4) by simp
  moreover have "max 1 conc = conc" using assms(4) by simp
  ultimately show ?thesis using True assms(1,2)
    unfolding top_up_batch_def Let_def n_def [symmetric] by auto
qed (use assms in \<open>auto simp: top_up_batch_def\<close>)

lemma planned_sound:
  assumes "br_target_mib r * (1024 * 1024) \<le> size_bound"
    and "within_limits (plan_cuda_batch r)" "1 \<le> vp_batch_per_lane (plan_cuda_batch r)"
  shows "plan_sound (plan_cuda_batch r)"
proof -
  obtain bb et where rb: "request_budget r = (bb, et)" by (metis surj_pair)
  have bb: "bb \<le> size_bound" using budget_bound [OF assms(1)] by (simp add: rb)
  define seq where "seq = (case br_concurrent_vram_lanes r of None \<Rightarrow> False | Some c \<Rightarrow> c \<le> 1)"
  define lanes where "lanes = (if seq then sequential_lanes r bb
    else cuda_lane_count (br_difficulty r) (br_reference_difficulty r)
           (max 1 (br_max_lanes r)) bb (br_min_batch_per_lane r) (br_pack_mode r))"
  define conc where "conc = (if seq then 1 else lanes)"
  define most where "most = select_batch_size (if seq then max 1 bb else max 1 (bb div max 1 conc))
    (br_difficulty r) (br_explicit_max_batch r) True"
  define first where "first = (if most \<le> 0 then 0
    else if br_explicit_batch r > 0 then min (br_explicit_batch r) most else most)"
  define batch where "batch = top_up_batch r bb conc first"
  have l: "1 \<le> lanes" using sequential_lanes_range cuda_lane_count_range by (simp add: lanes_def)
  then have c: "1 \<le> conc" by (simp add: conc_def)
  have "most \<le> size_bound"
    using share_bound [OF bb c] share_bound [OF bb, of 1] c by (simp add: most_def select_bound max_def)
  moreover have "0 \<le> most" by (simp add: most_def select_batch_size_nonneg)
  ultimately have "0 \<le> first" "first \<le> size_bound" by (auto simp: first_def size_bound_def)
  from top_up_bound [OF this bb c] have b: "0 \<le> batch" "batch \<le> size_bound" by (simp_all add: batch_def)
  have "\<exists>p k. plan_cuda_batch r = clamp_plan_to_caps (make_plan p k lanes batch conc)
      \<and> vp_budget_bytes p = bb"
    unfolding plan_cuda_batch_def Let_def rb prod.case seq_def [symmetric] lanes_def [symmetric]
      conc_def [symmetric] most_def [symmetric] first_def [symmetric] batch_def [symmetric]
    by (intro exI conjI) (rule refl | simp only: cuda_vram_plan.simps)+
  then obtain p k where p: "plan_cuda_batch r = clamp_plan_to_caps (make_plan p k lanes batch conc)"
    "vp_budget_bytes p = bb" by metis
  show ?thesis using clamped_sound [OF l b _ p(1) assms(2,3)] bb p(2) by simp
qed

end
