(* ===== verification/CudaInv.thy ===== *)
theory CudaInv
  imports CudaBackend VramPlans
begin

text \<open>
  The running backend keeps its plan within the limits.  The methods are events; \<open>backend_run\<close>
  applies any sequence of them.  The invariant says that a running backend holds a sound base
  plan, that its lanes are those of the plan that heat and memory pressure leave of it, and that
  the batch is the planned one times the combined scale.
\<close>

subsection \<open>The methods as events\<close>

datatype backend_event =
    StartBackend engine_env
  | StopBackend
  | SetVramCaps int
  | SetBackendDifficulty engine_env int
  | SetThermalScale pyfloat
  | ThermalBatch int
  | ThermalLanes engine_env int
  | ThermalCap engine_env int
  | VramPressure engine_env int int int
  | ReduceCap
  | RestoreCap int int
  | MineBatch mine_env

definition backend_step :: "cuda_settings \<Rightarrow> backend_event \<Rightarrow> cuda_backend \<Rightarrow> cuda_backend" where
  "backend_step s e b = (case e of
       StartBackend env \<Rightarrow> snd (cuda_start s env b)
     | StopBackend \<Rightarrow> cuda_stop b
     | SetVramCaps card_mib \<Rightarrow> set_vram_caps (Some (resolve_vram_caps card_mib (cs_limits s))) b
     | SetBackendDifficulty env d \<Rightarrow> cuda_set_difficulty s env d b
     | SetThermalScale x \<Rightarrow> set_thermal_batch_scale s x b
     | ThermalBatch t \<Rightarrow> update_thermal_batch_from_temp s t b
     | ThermalLanes env t \<Rightarrow> fst (update_thermal_lanes_from_temp s env t b)
     | ThermalCap env c \<Rightarrow> fst (set_thermal_lane_cap s env c b)
     | VramPressure env used target emergency \<Rightarrow> fst (update_vram_pressure_from_used s env used target emergency b)
     | ReduceCap \<Rightarrow> reduce_lane_cap b
     | RestoreCap t d \<Rightarrow> fst (backend_restore_lane_cap s t d b)
     | MineBatch env \<Rightarrow> snd (cuda_mine_batch env b))"

definition backend_run :: "cuda_settings \<Rightarrow> backend_event list \<Rightarrow> cuda_backend \<Rightarrow> cuda_backend" where
  "backend_run s es b = fold (backend_step s) es b"

text \<open>The device's memory is at most 2 to the 53 bytes.\<close>

definition env_ok :: "engine_env \<Rightarrow> bool" where
  "env_ok env = (case ee_device env of None \<Rightarrow> True | Some dev \<Rightarrow> fst dev \<le> size_bound)"

definition event_ok :: "backend_event \<Rightarrow> bool" where
  "event_ok e = (case e of StartBackend env \<Rightarrow> env_ok env | SetBackendDifficulty env _ \<Rightarrow> env_ok env | _ \<Rightarrow> True)"

subsection \<open>The invariant\<close>

definition plan_applied :: "cuda_settings \<Rightarrow> cuda_backend \<Rightarrow> cuda_vram_plan \<Rightarrow> bool" where
  "plan_applied s b base \<longleftrightarrow> plan_sound base \<and> cb_base_plan b = Some base
     \<and> cb_vram_plan b = Some (effective_plan s b base) \<and> cb_lanes b = vp_lanes (effective_plan s b base)
     \<and> cb_planned_batch b = vp_batch_per_lane (effective_plan s b base)
     \<and> cb_batch_per_lane b = apply_batch_scale (cb_planned_batch b) (combined_batch_scale s b)"

definition caps_resolved :: "cuda_settings \<Rightarrow> cuda_backend \<Rightarrow> bool" where
  "caps_resolved s b = (case cb_vram_caps b of None \<Rightarrow> True
     | Some caps \<Rightarrow> \<exists>card_mib. caps = resolve_vram_caps card_mib (cs_limits s))"

definition backend_inv :: "cuda_settings \<Rightarrow> cuda_backend \<Rightarrow> bool" where
  "backend_inv s b \<longleftrightarrow> cb_batch_size b = cb_batch_per_lane b \<and> caps_resolved s b
     \<and> (if cb_started b then \<exists>base. plan_applied s b base
        else cb_base_plan b = None \<and> cb_vram_plan b = None)"

lemma effective_cong:
  "cb_thermal_lane_cap b = cb_thermal_lane_cap b' \<Longrightarrow> cb_vram_lane_cap b = cb_vram_lane_cap b' \<Longrightarrow>
    effective_plan s b = effective_plan s b'"
  by (simp add: effective_plan_def live_caps_def fun_eq_iff)

lemma combined_cong:
  "cb_thermal_scale b = cb_thermal_scale b' \<Longrightarrow> cb_vram_scale b = cb_vram_scale b' \<Longrightarrow>
    combined_batch_scale s b = combined_batch_scale s b'"
  by (simp add: combined_batch_scale_def)

lemma effective_sound: "plan_sound base \<Longrightarrow> plan_sound (effective_plan s b base)"
  by (auto simp: effective_plan_def Let_def lane_cap_sound split: list.split)

text \<open>What an operation may change without touching the plan.\<close>

definition same_plan :: "cuda_backend \<Rightarrow> cuda_backend \<Rightarrow> bool" where
  "same_plan b b' \<longleftrightarrow> cb_base_plan b' = cb_base_plan b \<and> cb_vram_plan b' = cb_vram_plan b
     \<and> cb_lanes b' = cb_lanes b \<and> cb_planned_batch b' = cb_planned_batch b
     \<and> cb_batch_per_lane b' = cb_batch_per_lane b \<and> cb_batch_size b' = cb_batch_size b
     \<and> cb_thermal_lane_cap b' = cb_thermal_lane_cap b \<and> cb_vram_lane_cap b' = cb_vram_lane_cap b
     \<and> cb_thermal_scale b' = cb_thermal_scale b \<and> cb_vram_scale b' = cb_vram_scale b
     \<and> cb_started b' = cb_started b"

lemma same_plan_inv:
  assumes "same_plan b b'" "backend_inv s b" "caps_resolved s b'"
  shows "backend_inv s b'"
proof -
  have "effective_plan s b' = effective_plan s b" "combined_batch_scale s b' = combined_batch_scale s b"
    using assms(1) by (auto simp: same_plan_def intro!: effective_cong combined_cong)
  then show ?thesis using assms by (auto simp: backend_inv_def same_plan_def plan_applied_def split: if_splits)
qed

lemma same_plan_trans: "same_plan a b \<Longrightarrow> same_plan b c \<Longrightarrow> same_plan a c"
  by (simp add: same_plan_def)

lemma same_plan_sync: "same_plan b (sync_lane_engines s env b)"
  by (auto simp: same_plan_def sync_lane_engines_def use_sequential_def sync_lane_copy_workers_def Let_def
      split: sum.splits if_splits)

lemma sync_caps [simp]: "cb_vram_caps (sync_lane_engines s env b) = cb_vram_caps b"
  by (auto simp: sync_lane_engines_def use_sequential_def sync_lane_copy_workers_def Let_def split: sum.splits if_splits)

lemma inv_sync: "backend_inv s b \<Longrightarrow> backend_inv s (sync_lane_engines s env b)"
  by (rule same_plan_inv [OF same_plan_sync]) (auto simp: backend_inv_def caps_resolved_def)

lemma applied_apply_plan:
  assumes "plan_sound base"
  shows "plan_applied s (apply_plan s (effective_plan s b base) base b) base"
proof -
  let ?b = "apply_plan s (effective_plan s b base) base b"
  have "effective_plan s ?b = effective_plan s b" "combined_batch_scale s ?b = combined_batch_scale s b"
    by (auto simp: apply_plan_def Let_def intro!: effective_cong combined_cong)
  with assms show ?thesis by (simp add: plan_applied_def) (simp add: apply_plan_def Let_def)
qed

lemma apply_plan_simps [simp]:
  "cb_started (apply_plan s p q b) = cb_started b" "cb_vram_caps (apply_plan s p q b) = cb_vram_caps b"
  "cb_batch_size (apply_plan s p q b) = cb_batch_per_lane (apply_plan s p q b)"
  by (simp_all add: apply_plan_def Let_def)

lemma sync_started [simp]: "cb_started (sync_lane_engines s env b) = cb_started b"
  using same_plan_sync [of b s env] by (simp add: same_plan_def)

lemma caps_resolved_cong: "cb_vram_caps b = cb_vram_caps b' \<Longrightarrow> caps_resolved s b = caps_resolved s b'"
  by (simp add: caps_resolved_def)

subsection \<open>Every operation keeps it\<close>

text \<open>Whatever \<open>b\<close> held before, applying a sound plan to it establishes the invariant.\<close>

lemma inv_apply_plan:
  assumes "plan_sound base" "cb_started b" "caps_resolved s b"
  shows "backend_inv s (apply_plan s (effective_plan s b base) base b)"
  using assms applied_apply_plan [OF assms(1)] caps_resolved_cong [of b "apply_plan s (effective_plan s b base) base b" s]
  by (auto simp: backend_inv_def)

lemma inv_reapply:
  assumes "cb_started b \<Longrightarrow> \<exists>base. plan_sound base \<and> cb_base_plan b = Some base"
    and "\<not> cb_started b \<Longrightarrow> cb_base_plan b = None \<and> cb_vram_plan b = None"
    and "caps_resolved s b" "cb_batch_size b = cb_batch_per_lane b"
  shows "backend_inv s (fst (reapply_live_caps s env b))"
proof (cases "cb_started b")
  case True
  with assms(1) obtain base where base: "plan_sound base" "cb_base_plan b = Some base" by blast
  from inv_apply_plan [OF base(1) True assms(3)] base(2) show ?thesis
    by (simp add: reapply_live_caps_def Let_def inv_sync)
next
  case False
  with assms show ?thesis by (simp add: reapply_live_caps_def backend_inv_def)
qed

lemma inv_base:
  assumes "backend_inv s b"
  shows "cb_started b \<Longrightarrow> \<exists>base. plan_sound base \<and> cb_base_plan b = Some base"
    and "\<not> cb_started b \<Longrightarrow> cb_base_plan b = None \<and> cb_vram_plan b = None"
    and "caps_resolved s b" "cb_batch_size b = cb_batch_per_lane b"
  using assms by (auto simp: backend_inv_def plan_applied_def)

lemma inv_rescale:
  assumes "backend_inv s b" and b': "b' = b\<lparr>cb_thermal_scale := x\<rparr> \<or> b' = b\<lparr>cb_vram_scale := x\<rparr>"
  shows "backend_inv s (rescale_batch s b')"
proof -
  have "combined_batch_scale s (rescale_batch s b') = combined_batch_scale s b'"
    by (rule combined_cong) (simp_all add: rescale_batch_def Let_def)
  moreover have "effective_plan s (rescale_batch s b') = effective_plan s b"
    using b' by (intro effective_cong) (auto simp: rescale_batch_def Let_def)
  moreover have "apply_batch_scale n z = 0" if "\<not> 0 < n" for n z using that by (simp add: apply_batch_scale_def)
  ultimately show ?thesis using assms
    by (auto simp: backend_inv_def plan_applied_def caps_resolved_def rescale_batch_def Let_def)
qed

lemma inv_thermal_scale [inv_intros]: "backend_inv s b \<Longrightarrow> backend_inv s (set_thermal_batch_scale s x b)"
  by (auto simp: set_thermal_batch_scale_def Let_def intro: inv_rescale)

lemma inv_vram_scale [inv_intros]: "backend_inv s b \<Longrightarrow> backend_inv s (set_vram_batch_scale s x b)"
  by (auto simp: set_vram_batch_scale_def Let_def intro: inv_rescale)

text \<open>Fields that the plan does not depend on.\<close>

lemma inv_touch [inv_intros]:
  assumes "backend_inv s b"
  shows "backend_inv s (b\<lparr>cb_last_temp_c := t\<rparr>)" "backend_inv s (b\<lparr>cb_last_used_mib := t\<rparr>)"
    "backend_inv s (b\<lparr>cb_last_hs := h\<rparr>)" "backend_inv s (b\<lparr>cb_difficulty := d\<rparr>)"
    "backend_inv s (b\<lparr>cb_max_lanes_cap := n, cb_policy := f\<rparr>)"
    "backend_inv s (b\<lparr>cb_policy := f, cb_max_lanes_cap := n\<rparr>)"
  using assms inv_base(3) [OF assms]
  by (auto simp: caps_resolved_def same_plan_def intro!: same_plan_inv [of b _ s])

lemma inv_thermal_batch [inv_intros]: "backend_inv s b \<Longrightarrow> backend_inv s (update_thermal_batch_from_temp s t b)"
  by (auto simp: update_thermal_batch_from_temp_def Let_def intro!: inv_intros)

lemma inv_lane_cap [inv_intros]:
  assumes "backend_inv s b"
  shows "backend_inv s (fst (reapply_live_caps s env (b\<lparr>cb_thermal_lane_cap := c\<rparr>)))"
    and "backend_inv s (fst (reapply_live_caps s env (b\<lparr>cb_vram_lane_cap := c\<rparr>)))"
  using inv_base [OF assms] by (auto simp: caps_resolved_def intro!: inv_reapply)

lemma inv_thermal_lanes [inv_intros]: "backend_inv s b \<Longrightarrow> backend_inv s (fst (update_thermal_lanes_from_temp s env t b))"
  by (auto simp: update_thermal_lanes_from_temp_def Let_def case_prod_unfold split: option.split intro!: inv_intros)

lemma inv_pressure [inv_intros]: "backend_inv s b \<Longrightarrow> backend_inv s (fst (update_vram_pressure_from_used s env u t e b))"
  by (auto simp: update_vram_pressure_from_used_def Let_def case_prod_unfold intro!: inv_intros)

lemma inv_reduce [inv_intros]: "backend_inv s b \<Longrightarrow> backend_inv s (reduce_lane_cap b)"
  by (auto simp: reduce_lane_cap_def Let_def intro!: inv_intros)

lemma inv_restore [inv_intros]: "backend_inv s b \<Longrightarrow> backend_inv s (fst (backend_restore_lane_cap s t d b))"
  by (simp add: backend_restore_lane_cap_def Let_def case_prod_unfold inv_touch(6))

lemma inv_mine [inv_intros]: "backend_inv s b \<Longrightarrow> backend_inv s (snd (cuda_mine_batch env b))"
  by (auto simp: cuda_mine_batch_def Let_def split: sum.split intro!: inv_intros)

lemma inv_stop [inv_intros]: "backend_inv s b \<Longrightarrow> backend_inv s (cuda_stop b)"
  by (auto simp: cuda_stop_def backend_inv_def caps_resolved_def)

lemma inv_set_caps [inv_intros]:
  "backend_inv s b \<Longrightarrow> backend_inv s (set_vram_caps (Some (resolve_vram_caps k (cs_limits s))) b)"
  by (rule same_plan_inv [of b]) (auto simp: set_vram_caps_def same_plan_def caps_resolved_def)

lemma resolved_target:
  assumes "0 \<le> vl_min_headroom_floor_mib l"
  shows "vc_target_mib (resolve_vram_caps k l) \<le> vc_total_mib (resolve_vram_caps k l)"
proof -
  have "0 \<le> vc_headroom_mib (resolve_vram_caps k l)" using assms resolve_fields(2) [of k l] by linarith
  then show ?thesis using resolve_fields(1,4) [of k l] by linarith
qed

lemma caps_for_total_spec:
  assumes "caps_resolved s b" "1 \<le> card_mib" "caps_for_total s card_mib b = (caps, b')"
  shows "same_plan b b'" "caps_resolved s b'" "vc_total_mib caps = card_mib"
    "\<exists>k. caps = resolve_vram_caps k (cs_limits s)"
  using assms resolve_fields(1) [of card_mib "cs_limits s"]
  by (auto simp: caps_for_total_def Let_def same_plan_def caps_resolved_def split: option.splits if_splits)
    metis+

lemma account_foreign_spec:
  "same_plan b (snd (account_foreign s u b))" "cb_vram_caps (snd (account_foreign s u b)) = cb_vram_caps b"
  by (auto simp: account_foreign_def Let_def same_plan_def case_prod_unfold)

lemma plan_from_device_spec:
  assumes res: "caps_resolved s b" and r: "plan_from_device s env dev d b = (r, b')"
  shows "same_plan b b'" "caps_resolved s b'"
    and "0 \<le> vl_min_headroom_floor_mib (cs_limits s) \<Longrightarrow> fst dev \<le> size_bound \<Longrightarrow> r = Inr base \<Longrightarrow> plan_sound base"
proof -
  let ?k = "max 1 (mib_of_bytes (fst dev))"
  let ?u = "max 0 (mib_of_bytes (fst dev - snd dev))"
  obtain caps b1 where c: "caps_for_total s ?k b = (caps, b1)" by (metis surj_pair)
  obtain foreign b2 where f: "account_foreign s ?u b1 = (foreign, b2)" by (metis surj_pair)
  have b': "b' = b2" and r': "r = accept_plan s d (plan_cuda_batch (plan_request s env dev d caps foreign b2))"
    using r by (auto simp: plan_from_device_def c f)
  note cs = caps_for_total_spec [OF res _ c, simplified]
  show "same_plan b b'" using same_plan_trans [OF cs(1)] account_foreign_spec(1) [of b1 s ?u] by (simp add: f b')
  show "caps_resolved s b'" using cs(2) account_foreign_spec(2) [of s ?u b1] by (simp add: caps_resolved_def f b')
  assume floor: "0 \<le> vl_min_headroom_floor_mib (cs_limits s)" and dev: "fst dev \<le> size_bound"
    and base: "r = Inr base"
  have "vc_target_mib caps \<le> ?k" using cs(3,4) resolved_target [OF floor] by metis
  then have "vc_target_mib caps * (1024 * 1024) \<le> ?k * (1024 * 1024)" by simp
  also have "\<dots> \<le> size_bound"
  proof -
    have "fst dev div (1024 * 1024) * (1024 * 1024) \<le> fst dev" by (simp add: minus_mod_eq_div_mult [symmetric])
    with dev show ?thesis by (simp add: mib_of_bytes_def max_def size_bound_def)
  qed
  finally have "br_target_mib (plan_request s env dev d caps foreign b2) * (1024 * 1024) \<le> size_bound"
    by (simp add: plan_request_def)
  from planned_sound [OF this] base show "plan_sound base"
    unfolding r' by (auto simp: accept_plan_def split: if_splits)
qed

lemma clip_sound: "plan_sound p \<Longrightarrow> plan_sound (clip_batch s d p)"
  by (auto simp: clip_batch_def Let_def plan_sound_def within_limits_def one_fits_def plan_card_mib_def
      projected_use_def effective_concurrent_vram_lanes_def)

lemma inv_replan:
  assumes "plan_sound base" "cb_started b" "caps_resolved s b"
  shows "backend_inv s (sync_lane_engines s env (apply_plan s (effective_plan s b base) base b))"
  using assms by (intro inv_sync inv_apply_plan)

lemma inv_set_difficulty [inv_intros]:
  assumes floor: "0 \<le> vl_min_headroom_floor_mib (cs_limits s)" and env: "env_ok env" and inv: "backend_inv s b"
  shows "backend_inv s (cuda_set_difficulty s env d b)"
proof -
  let ?b = "b\<lparr>cb_difficulty := max 1 d\<rparr>"
  have inv1: "backend_inv s ?b" using inv by (rule inv_touch(4))
  consider "d = cb_difficulty b \<and> cb_started b \<or> \<not> cb_started b \<or> ee_device env = None"
    | dev r b2 where "\<not> (d = cb_difficulty b \<and> cb_started b)" "cb_started b" "ee_device env = Some dev"
        "plan_from_device s env dev (max 1 d) ?b = (r, b2)"
    by (metis not_Some_eq surj_pair)
  then show ?thesis
  proof cases
    case 1
    with inv inv1 show ?thesis by (auto simp: cuda_set_difficulty_def Let_def)
  next
    case 2
    note spec = plan_from_device_spec [OF inv_base(3) [OF inv1] 2(4)]
    have "fst dev \<le> size_bound" using env 2(3) by (simp add: env_ok_def)
    note sound = spec(3) [OF floor this]
    have inv2: "backend_inv s b2" by (rule same_plan_inv [OF spec(1) inv1 spec(2)])
    have st: "cb_started b2" using spec(1) 2(2) by (simp add: same_plan_def)
    show ?thesis
    proof (cases r)
      case (Inl e)
      with 2 inv2 show ?thesis by (simp add: cuda_set_difficulty_def Let_def)
    next
      case (Inr base)
      have "plan_sound (clip_batch s (cb_difficulty b2) base)" using sound [OF Inr] by (rule clip_sound)
      from inv_replan [OF this st spec(2)] 2 Inr show ?thesis by (simp add: cuda_set_difficulty_def Let_def)
    qed
  qed
qed

lemma inv_start [inv_intros]:
  assumes floor: "0 \<le> vl_min_headroom_floor_mib (cs_limits s)" and env: "env_ok env" and inv: "backend_inv s b"
  shows "backend_inv s (snd (cuda_start s env b))"
proof (cases "cb_started b")
  case True
  with inv show ?thesis by (simp add: cuda_start_def)
next
  case False
  obtain c1 b1 where c1: "caps_for_total s 32768 b = (c1, b1)" by (metis surj_pair)
  note s1 = caps_for_total_spec [OF inv_base(3) [OF inv] _ c1, simplified]
  have inv1: "backend_inv s b1" using s1(1) inv s1(2) by (rule same_plan_inv)
  show ?thesis
  proof (cases "ee_init_ok env \<and> ee_device env \<noteq> None")
    case False
    with inv1 \<open>\<not> cb_started b\<close> show ?thesis
      by (cases "ee_device env") (auto simp: cuda_start_def c1)
  next
    case True
    then obtain dev where dev: "ee_device env = Some dev" by auto
    define u where "u = max 0 (mib_of_bytes (fst dev - snd dev))"
    define b2 where "b2 = b1\<lparr>cb_desktop_baseline_mib := u, cb_foreign_vram_mib := u\<rparr>"
    have s2: "same_plan b1 b2" "caps_resolved s b2" using s1(2) by (auto simp: b2_def same_plan_def caps_resolved_def)
    obtain c3 b3 where c3: "caps_for_total s (max 1 (mib_of_bytes (fst dev))) b2 = (c3, b3)" by (metis surj_pair)
    note s3 = caps_for_total_spec [OF s2(2) _ c3, simplified]
    obtain r b4 where r: "plan_from_device s env dev (cb_difficulty b3) b3 = (r, b4)" by (metis surj_pair)
    note s4 = plan_from_device_spec [OF s3(2) r]
    have "same_plan b1 b4" using s2(1) s3(1) s4(1) by (meson same_plan_trans)
    then have inv4: "backend_inv s b4" using inv1 s4(2) by (rule same_plan_inv)
    have start: "snd (cuda_start s env b) = (case r of Inl e \<Rightarrow> b4
        | Inr base \<Rightarrow> if \<not> batch_fits s base (cb_difficulty b4) then b4
            else sync_lane_engines s env ((apply_plan s (effective_plan s b4 base) base b4)\<lparr>cb_started := True\<rparr>))"
      using True False dev by (simp add: cuda_start_def c1 c3 r Let_def flip: u_def b2_def split: sum.split)
    show ?thesis
    proof (cases r)
      case (Inl e)
      with inv4 show ?thesis by (simp add: start)
    next
      case (Inr base)
      have "plan_sound base" using s4(3) [OF floor _ Inr] env dev by (simp add: env_ok_def)
      then have "backend_inv s (apply_plan s (effective_plan s (b4\<lparr>cb_started := True\<rparr>) base) base (b4\<lparr>cb_started := True\<rparr>))"
        using s4(2) by (intro inv_apply_plan) (simp_all add: caps_resolved_def)
      moreover have "apply_plan s (effective_plan s (b4\<lparr>cb_started := True\<rparr>) base) base (b4\<lparr>cb_started := True\<rparr>)
          = (apply_plan s (effective_plan s b4 base) base b4)\<lparr>cb_started := True\<rparr>"
        using effective_cong [of "b4\<lparr>cb_started := True\<rparr>" b4 s] combined_cong [of "b4\<lparr>cb_started := True\<rparr>" b4 s]
        by (simp add: apply_plan_def Let_def)
      ultimately show ?thesis using Inr inv4 by (simp add: start inv_sync)
    qed
  qed
qed

lemma inv_init: "backend_inv s (init_backend s file)"
  by (simp add: backend_inv_def init_backend_def caps_resolved_def Let_def)

lemma inv_step:
  assumes "0 \<le> vl_min_headroom_floor_mib (cs_limits s)" "event_ok e" "backend_inv s b"
  shows "backend_inv s (backend_step s e b)"
  using assms by (cases e) (auto simp: backend_step_def event_ok_def set_thermal_lane_cap_def intro!: inv_intros)

lemma inv_run:
  assumes "0 \<le> vl_min_headroom_floor_mib (cs_limits s)" "list_all event_ok es" "backend_inv s b"
  shows "backend_inv s (backend_run s es b)"
  using assms(2,3) unfolding backend_run_def
  by (induction es arbitrary: b) (auto intro: inv_step [OF assms(1)])

subsection \<open>What a running backend promises\<close>

lemma lane_cap_lanes: "vp_lanes (apply_lane_cap p n) \<le> max 1 n" "vp_lanes (apply_lane_cap p n) \<le> max 1 (vp_lanes p)"
  using lane_cap_obeyed [of p n] lane_cap_obeyed [of p "vp_lanes p"]
  by (auto simp: apply_lane_cap_def Let_def split: if_splits)

lemma foldl_min: "foldl min c cs \<le> c \<and> (\<forall>x \<in> set cs. foldl min c cs \<le> (x :: int))"
  by (induction cs arbitrary: c) (force simp: min.coboundedI1)+

lemma effective_lanes:
  assumes "1 \<le> vp_lanes base"
  shows "vp_lanes (effective_plan s b base) \<le> vp_lanes base"
    and "c \<in> set (live_caps b) \<Longrightarrow> vp_lanes (effective_plan s b base) \<le> max 1 c"
proof -
  define plan where "plan = (if biased_lanes s base < vp_lanes base
    then apply_lane_cap base (biased_lanes s base) else base)"
  define caps where "caps = filter (\<lambda>c. c < vp_lanes plan) (live_caps b)"
  have e: "effective_plan s b base = (case caps of [] \<Rightarrow> plan | c # cs \<Rightarrow> apply_lane_cap plan (foldl min c cs))"
    by (simp only: effective_plan_def Let_def plan_def [symmetric] caps_def [symmetric])
  have p: "vp_lanes plan \<le> vp_lanes base" using lane_cap_lanes(2) [of base] assms by (auto simp: plan_def)
  have le: "vp_lanes (effective_plan s b base) \<le> max 1 (vp_lanes plan)"
    using lane_cap_lanes(2) [of plan] unfolding e by (auto split: list.split)
  then show "vp_lanes (effective_plan s b base) \<le> vp_lanes base" using p assms by linarith
  show "vp_lanes (effective_plan s b base) \<le> max 1 c" if c: "c \<in> set (live_caps b)"
  proof (cases "c < vp_lanes plan")
    case False
    with le show ?thesis by linarith
  next
    case True
    with c have "c \<in> set caps" by (simp add: caps_def)
    then obtain d ds where caps: "caps = d # ds" "c \<in> set (d # ds)" by (cases caps) auto
    then have "foldl min d ds \<le> c" using foldl_min [of d ds] by auto
    with lane_cap_lanes(1) [of plan "foldl min d ds"] show ?thesis unfolding e caps(1) by simp
  qed
qed

lemma apply_scale_le: "0 \<le> n \<Longrightarrow> n \<le> size_bound \<Longrightarrow> 0 \<le> apply_batch_scale n x \<and> apply_batch_scale n x \<le> n"
proof (cases "n \<le> 0")
  case False
  assume n: "0 \<le> n" "n \<le> size_bound"
  have f: "fint n = of_int n" using n by (intro fint_small) (simp add: size_bound_def)
  have s: "0 \<le> clamp_float x (1 / 2) 1 \<and> clamp_float x (1 / 2) 1 \<le> 1" using half_clamp [of x] by linarith
  then have "fint n * clamp_float x (1 / 2) 1 \<le> of_int n" using n f by (simp add: mult_left_le)
  then have "fl (fint n * clamp_float x (1 / 2) 1) \<le> of_int n"
    using n by (rule_tac dbl.le_of) (simp, rule fl_of_int, simp add: size_bound_def)
  then have "py_int (fl (fint n * clamp_float x (1 / 2) 1)) \<le> n" using py_int_mono py_int_of_int by metis
  with False show ?thesis by (simp add: apply_batch_scale_def Let_def)
qed (simp add: apply_batch_scale_def)

lemma inv_limits:
  assumes "backend_inv s b" "cb_started b"
  shows "\<exists>plan. cb_vram_plan b = Some plan \<and> within_limits plan
    \<and> cb_lanes b = vp_lanes plan \<and> 1 \<le> cb_lanes b \<and> list_all (\<lambda>c. cb_lanes b \<le> max 1 c) (live_caps b)
    \<and> 0 \<le> cb_batch_per_lane b \<and> cb_batch_per_lane b \<le> vp_batch_per_lane plan
    \<and> cb_batch_per_lane b = apply_batch_scale (vp_batch_per_lane plan) (combined_batch_scale s b)"
proof -
  from assms obtain base where a: "plan_applied s b base" by (auto simp: backend_inv_def)
  then have base: "plan_sound base" by (simp add: plan_applied_def)
  let ?p = "effective_plan s b base"
  have p: "plan_sound ?p" using base by (rule effective_sound)
  have "list_all (\<lambda>c. vp_lanes ?p \<le> max 1 c) (live_caps b)"
    using effective_lanes(2) [of base] base by (auto simp: list_all_iff plan_sound_def)
  with a p apply_scale_le [of "vp_batch_per_lane ?p"] show ?thesis
    by (intro exI [of _ ?p]) (simp add: plan_applied_def plan_sound_def)
qed

text \<open>
  Whatever sequence of starts, stops, difficulties, temperatures, memory readings, lane reductions
  and batches a backend goes through, with devices of at most 2 to the 53 bytes: while it runs, the
  plan in force satisfies its memory limits (target and desktop headroom), the lanes are those of
  that plan, at least one, and obey both live caps, and the batch of a lane is between zero and the
  planned one.
\<close>

theorem backend_within_limits:
  assumes "0 \<le> vl_min_headroom_floor_mib (cs_limits s)" "list_all event_ok es"
    and "b = backend_run s es (init_backend s file)" "cb_started b"
  shows "\<exists>plan. cb_vram_plan b = Some plan \<and> within_limits plan
    \<and> cb_lanes b = vp_lanes plan \<and> 1 \<le> cb_lanes b \<and> list_all (\<lambda>c. cb_lanes b \<le> max 1 c) (live_caps b)
    \<and> 0 \<le> cb_batch_per_lane b \<and> cb_batch_per_lane b \<le> vp_batch_per_lane plan
    \<and> cb_batch_per_lane b = apply_batch_scale (vp_batch_per_lane plan) (combined_batch_scale s b)"
proof (rule inv_limits)
  show "backend_inv s b" unfolding assms(3) by (intro inv_run assms(1,2) inv_init)
qed (rule assms(4))

subsection \<open>The cap on the lanes\<close>

definition cap_saved :: "cuda_settings \<Rightarrow> cuda_backend \<Rightarrow> bool" where
  "cap_saved s b \<longleftrightarrow> lp_effective_max_lanes (fst (cb_policy b)) = cb_max_lanes_cap b
     \<and> lp_config_max_lanes (fst (cb_policy b)) = max 1 (cs_max_lanes s)
     \<and> lp_effective_max_lanes (load_lane_policy (snd (cb_policy b)) (cs_max_lanes s)) = cb_max_lanes_cap b"

definition cap_of :: "cuda_backend \<Rightarrow> (cuda_lane_policy \<times> policy_file) \<times> int" where
  "cap_of b = (cb_policy b, cb_max_lanes_cap b)"

lemma cap_saved_cong: "cap_of b' = cap_of b \<Longrightarrow> cap_saved s b \<Longrightarrow> cap_saved s b'"
  by (simp add: cap_saved_def cap_of_def)

lemma load_saved: "lp_effective_max_lanes (load_lane_policy (save_lane_policy p) c)
    = max 1 (min (max 1 c) (lp_effective_max_lanes p))"
  by (simp add: load_lane_policy_def save_lane_policy_def Let_def)

lemma cap_saved_range: "cap_saved s b \<Longrightarrow> 1 \<le> cb_max_lanes_cap b \<and> cb_max_lanes_cap b \<le> max 1 (cs_max_lanes s)"
  using load_range [of "snd (cb_policy b)" "cs_max_lanes s"] by (simp add: cap_saved_def)

lemma cap_saved_reduce: "cap_saved s b \<Longrightarrow> cap_saved s (reduce_lane_cap b)"
  using cap_saved_range [of s b] by (auto simp: reduce_lane_cap_def Let_def cap_saved_def load_saved)

lemma cap_saved_restore: "cap_saved s b \<Longrightarrow> cap_saved s (fst (backend_restore_lane_cap s t d b))"
  by (auto simp: backend_restore_lane_cap_def restore_lane_cap_if_cool_def Let_def cap_saved_def load_saved
      case_prod_unfold)

lemma cap_saved_init: "cap_saved s (init_backend s file)"
  using load_range [of "file" "cs_max_lanes s"] by (simp add: cap_saved_def init_backend_def Let_def)

lemma cap_of_update [simp]:
  "cap_of (b\<lparr>cb_started := x\<rparr>) = cap_of b" "cap_of (b\<lparr>cb_difficulty := d\<rparr>) = cap_of b"
  "cap_of (b\<lparr>cb_thermal_lane_cap := c\<rparr>) = cap_of b" "cap_of (b\<lparr>cb_vram_lane_cap := c\<rparr>) = cap_of b"
  "cap_of (b\<lparr>cb_last_temp_c := d\<rparr>) = cap_of b" "cap_of (b\<lparr>cb_last_used_mib := d\<rparr>) = cap_of b"
  "cap_of (b\<lparr>cb_last_hs := h\<rparr>) = cap_of b" "cap_of (b\<lparr>cb_vram_caps := v\<rparr>) = cap_of b"
  "cap_of (b\<lparr>cb_desktop_baseline_mib := d, cb_foreign_vram_mib := f\<rparr>) = cap_of b"
  by (simp_all add: cap_of_def)

lemma cap_of_ops [simp]:
  "cap_of (sync_lane_engines s env b) = cap_of b"
  "cap_of (apply_plan s p q b) = cap_of b"
  "cap_of (set_thermal_batch_scale s x b) = cap_of b"
  "cap_of (set_vram_batch_scale s x b) = cap_of b"
  "cap_of (snd (caps_for_total s k b)) = cap_of b"
  "cap_of (snd (account_foreign s u b)) = cap_of b"
  "cap_of (cuda_stop b) = cap_of b"
  "cap_of (set_vram_caps v b) = cap_of b"
  by (auto simp: cap_of_def sync_lane_engines_def use_sequential_def sync_lane_copy_workers_def
      apply_plan_def set_thermal_batch_scale_def set_vram_batch_scale_def rescale_batch_def
      caps_for_total_def account_foreign_def cuda_stop_def set_vram_caps_def case_prod_unfold Let_def
      split: sum.splits option.splits if_splits)

lemma cap_of_plan [simp]: "cap_of (snd (plan_from_device s env dev d b)) = cap_of b"
  by (simp add: plan_from_device_def case_prod_unfold Let_def)

lemma cap_of_reapply [simp]: "cap_of (fst (reapply_live_caps s env b)) = cap_of b"
  by (simp add: reapply_live_caps_def Let_def split: option.split)

lemma cap_of_methods [simp]:
  "cap_of (cuda_set_difficulty s env d b) = cap_of b"
  "cap_of (snd (cuda_start s env b)) = cap_of b"
  "cap_of (update_thermal_batch_from_temp s t b) = cap_of b"
  "cap_of (fst (update_thermal_lanes_from_temp s env t b)) = cap_of b"
  "cap_of (fst (update_vram_pressure_from_used s env u t e b)) = cap_of b"
  "cap_of (snd (cuda_mine_batch m b)) = cap_of b"
  by (simp_all add: cuda_set_difficulty_def cuda_start_def update_thermal_batch_from_temp_def
      update_thermal_lanes_from_temp_def update_vram_pressure_from_used_def cuda_mine_batch_def
      case_prod_unfold Let_def split: sum.split option.split)

lemma cap_saved_step: "cap_saved s b \<Longrightarrow> cap_saved s (backend_step s e b)"
  by (cases e) (auto simp: backend_step_def set_thermal_lane_cap_def
      intro: cap_saved_reduce cap_saved_restore cap_saved_cong)

text \<open>
  The cap on the lanes survives a restart: after any such sequence, a backend constructed from the
  policy file that is then on disk starts with the cap the running one had.
\<close>

theorem cap_survives_restart:
  "cb_max_lanes_cap (init_backend s (snd (cb_policy (backend_run s es (init_backend s file0)))))
     = cb_max_lanes_cap (backend_run s es (init_backend s file0))
   \<and> 1 \<le> cb_max_lanes_cap (backend_run s es (init_backend s file0))
   \<and> cb_max_lanes_cap (backend_run s es (init_backend s file0)) \<le> max 1 (cs_max_lanes s)"
proof -
  have "cap_saved s b \<Longrightarrow> cap_saved s (backend_run s es b)" for b
    unfolding backend_run_def by (induction es arbitrary: b) (auto intro: cap_saved_step)
  then have c: "cap_saved s (backend_run s es (init_backend s file0))" using cap_saved_init by blast
  with cap_saved_range [OF c] show ?thesis
    by (simp add: cap_saved_def init_backend_def [of s "snd _"] Let_def)
qed

end
