(* ===== verification/SupervisorLoop.thy ===== *)
theory SupervisorLoop
  imports SupervisorInv CudaInv VramPolicy
begin

text \<open>
  The supervisor's handling of heat and memory pressure and its main loop
  (\<open>core/supervisor.py\<close>): cooling down, restarting the backend, tuning it, and one round of
  \<open>run\<close>.  The clock and the outside world are read anew at every point of a round: \<open>loop_env\<close>
  gives a \<open>sup_env\<close> per point.  An exception ends the loop; the session is then shut down.
\<close>

subsection \<open>VRAM policy and temperatures\<close>

definition resolve_total_vram_mib :: "sup_env \<Rightarrow> supervisor \<Rightarrow> int option" where
  "resolve_total_vram_mib env sv =
     (let device = (if is_cuda sv then case ee_device (se_engine env) of
            None \<Rightarrow> None
          | Some dev \<Rightarrow> if mib_of_bytes (fst dev) > 0 then Some (mib_of_bytes (fst dev)) else None else None)
      in case se_snapshot env of
        Some snap \<Rightarrow> if total_mib snap > 0 then Some (total_mib snap) else device
      | None \<Rightarrow> device)"

text \<open>While the supervisor is constructed it has no network difficulty yet (\<open>fresh\<close>), and the guard is
  configured for the configured memory cost.\<close>

definition configure_guard :: "sup_settings \<Rightarrow> bool \<Rightarrow> supervisor \<Rightarrow> supervisor" where
  "configure_guard s fresh sv = (if fresh then guard_context s (ss_memory_cost s) sv
     else configure_guard_temp_context s sv)"

definition guard_for :: "sup_settings \<Rightarrow> int \<Rightarrow> int \<Rightarrow> int \<Rightarrow> int \<Rightarrow> vram_guard" where
  "guard_for s target headroom emergency min_headroom = (let l = ss_temp_limits s in
     init_guard target headroom emergency min_headroom (tl_die_max_c l) (tl_die_warn_c l) (ss_gpu_cooldown_s s)
       (Some (tl_board_max_c l)) (Some (tl_board_warn_c l)))"

definition apply_vram_policy :: "sup_settings \<Rightarrow> sup_env \<Rightarrow> bool \<Rightarrow> int option \<Rightarrow> supervisor \<Rightarrow> supervisor" where
  "apply_vram_policy s env fresh total_arg sv =
     (case (case total_arg of Some t \<Rightarrow> Some t | None \<Rightarrow> resolve_total_vram_mib env sv) of
        None \<Rightarrow> sv
      | Some card_mib \<Rightarrow>
          if card_mib \<le> 0 then sv
          else
            (let caps = resolve_vram_caps card_mib (cs_limits (ss_cuda s)) in
             if sv_vram_caps sv = Some caps then sv
             else map_cuda (set_vram_caps (Some caps))
               (configure_guard s fresh
                 (sv\<lparr>sv_vram_caps := Some caps,
                     sv_guard := guard_for s (vc_target_mib caps) (vc_headroom_mib caps) (vc_emergency_mib caps)
                       (vc_min_headroom_mib caps)\<rparr>))))"

definition init_supervisor :: "sup_settings \<Rightarrow> sup_env \<Rightarrow> flusher \<Rightarrow> miner_backend \<Rightarrow> poller \<Rightarrow> gpu_power option \<Rightarrow> supervisor" where
  "init_supervisor s env f backend net_poller gpu_pw = apply_vram_policy s env True None
     (configure_guard s True \<lparr>sv_flusher = f, sv_backend = backend,
       sv_guard = guard_for s 0 0 0 (ss_min_headroom_floor_mib s), sv_vram_caps = None, sv_power = gpu_pw,
       sv_poller = net_poller, sv_running = False, sv_shutting_down = False, sv_network_ok = False,
       sv_network_difficulty = None, sv_last_log_ok = None, sv_defer_until = 0, sv_cooldown_until = 0,
       sv_reduce_lanes = False, sv_was_in_window = False, sv_warn_at = 0, sv_warn_code = None\<rparr>)"

text \<open>The start-up checks: the lock of the instance, the calibration and what the diagnostics say of the GPU.\<close>

record diagnosis =
  dg_lock_acquired :: bool
  dg_calibration_m100 :: bool
  dg_used_mib :: int
  dg_total_mib :: int

definition startup_checks :: "sup_settings \<Rightarrow> sup_env \<Rightarrow> diagnosis \<Rightarrow> supervisor \<Rightarrow> bool \<times> supervisor" where
  "startup_checks s env d sv =
     (if \<not> dg_lock_acquired d then (False, sv)
      else if \<not> dg_calibration_m100 d then (False, sv)
      else if is_cuda sv then
        (let sv1 = apply_vram_policy s env False None sv;
             card_mib = (if dg_total_mib d \<noteq> 0 then dg_total_mib d
                      else case sv_vram_caps sv1 of None \<Rightarrow> 0 | Some c \<Rightarrow> vc_total_mib c);
             target = (case sv_vram_caps sv1 of None \<Rightarrow> 0 | Some c \<Rightarrow> vc_target_mib c);
             slack = (if card_mib \<noteq> 0 then max 2048 (py_int (fl (fint card_mib * fl (5 / 100)))) else 2048)
         in (\<not> (target > 0 \<and> dg_used_mib d > target + slack), sv1))
      else (True, sv))"

definition planned_lanes :: "supervisor \<Rightarrow> int" where
  "planned_lanes sv =
     (let active = backend_active_lanes (sv_backend sv); planned = (if active = 0 then 1 else active) in
      case sv_backend sv of
        CudaNativeBackend b \<Rightarrow> (case cb_base_plan b of None \<Rightarrow> planned
          | Some p \<Rightarrow> max planned (if vp_lanes p = 0 then planned else vp_lanes p))
      | _ \<Rightarrow> planned)"

definition policy_temp_eval :: "sup_settings \<Rightarrow> supervisor \<Rightarrow> gpu_snapshot option \<Rightarrow> dual_temp_eval option" where
  "policy_temp_eval s sv snap =
     evaluate_snapshot_temps
       ((ss_temp_limits s)\<lparr>tl_planned_lanes := planned_lanes sv, tl_min_lanes := max 1 (tl_min_lanes (ss_temp_limits s))\<rparr>)
       \<lparr>hc_difficulty = mining_difficulty s sv, hc_reference_difficulty = ss_reference_difficulty s,
        hc_high_diff_enabled = ss_high_diff_enabled s, hc_start_ratio = ss_high_start_ratio s,
        hc_full_ratio = ss_high_full_ratio s, hc_max_tighten_c = ss_high_max_tighten_c s\<rparr>
       snap"

definition policy_temp_c :: "sup_settings \<Rightarrow> supervisor \<Rightarrow> gpu_snapshot option \<Rightarrow> int" where
  "policy_temp_c s sv snap = (case policy_temp_eval s sv snap of
       None \<Rightarrow> 0
     | Some tev \<Rightarrow>
         if te_eff_board_c tev > 0 \<and> te_board_c tev > 0 then te_eff_board_c tev
         else if te_eff_board_c tev > te_eff_die_c tev then te_eff_board_c tev
         else if te_eff_die_c tev \<noteq> 0 then te_eff_die_c tev else te_eff_board_c tev)"

definition policy_snap :: "sup_settings \<Rightarrow> supervisor \<Rightarrow> gpu_snapshot option \<Rightarrow> gpu_snapshot option" where
  "policy_snap s sv snap = (case snap of
       None \<Rightarrow> None
     | Some g \<Rightarrow>
         (let eff = policy_temp_c s sv snap in
          if eff = temperature_c g then Some g
          else Some (g\<lparr>temperature_c := eff,
                       temp_source := (if eff > temperature_c g then temp_source g @ ''+policy'' else temp_source g)\<rparr>)))"

definition gpu_temp_abort_check :: "sup_settings \<Rightarrow> supervisor \<Rightarrow> gpu_snapshot option \<Rightarrow> bool" where
  "gpu_temp_abort_check s sv snap = (case policy_temp_eval s sv snap of None \<Rightarrow> False | Some tev \<Rightarrow> te_abort tev)"

subsection \<open>Cooling down\<close>

definition gpu_paused_for_cooldown :: "sup_settings \<Rightarrow> sup_env \<Rightarrow> supervisor \<Rightarrow> bool" where
  "gpu_paused_for_cooldown s env sv \<longleftrightarrow> is_gpu s sv \<and> se_time env < sv_cooldown_until sv"

definition gpu_backend_running :: "sup_settings \<Rightarrow> supervisor \<Rightarrow> bool" where
  "gpu_backend_running s sv =
     (if \<not> is_gpu s sv then True
      else case sv_backend sv of
        CudaNativeBackend b \<Rightarrow> cb_started b
      | XenblocksGpuBackend g \<Rightarrow> xg_running g
      | CpuArgon2Backend _ \<Rightarrow> True)"

definition note_temp_cooldown :: "gpu_snapshot option \<Rightarrow> supervisor \<Rightarrow> supervisor" where
  "note_temp_cooldown snap sv =
     (if \<not> is_cuda sv \<or> snap = None then sv
      else if backend_active_lanes (sv_backend sv) > 1 then sv\<lparr>sv_reduce_lanes := True\<rparr>
      else sv)"

definition cooldown_until :: "sup_env \<Rightarrow> int \<Rightarrow> supervisor \<Rightarrow> supervisor" where
  "cooldown_until env cooldown_s sv = sv\<lparr>sv_cooldown_until := fl (se_time env + fint cooldown_s)\<rparr>"

definition stop_backend :: "supervisor \<Rightarrow> supervisor" where
  "stop_backend sv = sv\<lparr>sv_backend := backend_stop (sv_backend sv)\<rparr>"

definition graceful_gpu_stop :: "sup_settings \<Rightarrow> sup_env \<Rightarrow> int \<Rightarrow> gpu_snapshot option \<Rightarrow> supervisor \<Rightarrow> supervisor" where
  "graceful_gpu_stop s env cooldown_s snap sv =
     cooldown_until env cooldown_s
       (stop_backend (snd (try_flush_pending_queue s env (note_temp_cooldown snap sv))))"

definition apply_gpu_safety :: "sup_settings \<Rightarrow> sup_env \<Rightarrow> gpu_snapshot option \<Rightarrow> supervisor \<Rightarrow> bool \<times> supervisor" where
  "apply_gpu_safety s env snap sv =
     (let sv1 = configure_guard_temp_context s sv; action = guard_evaluate (sv_guard sv1) snap in
      case ga_level action of
        Warn \<Rightarrow>
          (True, if Some (ga_code action) \<noteq> sv_warn_code sv1 \<or> fl (se_time env - sv_warn_at sv1) \<ge> 60
                 then sv1\<lparr>sv_warn_code := Some (ga_code action), sv_warn_at := se_time env\<rparr> else sv1)
      | Emergency \<Rightarrow>
          if ga_graceful_stop action then
            (True, if gpu_paused_for_cooldown s env sv1 \<and> \<not> gpu_backend_running s sv1 then sv1
                   else graceful_gpu_stop s env (ga_cooldown_s action) snap sv1)
          else
            (let sv2 = (case sv_backend sv1 of CpuArgon2Backend _ \<Rightarrow> sv1 | _ \<Rightarrow> stop_backend sv1)
             in (False, cooldown_until env (ga_cooldown_s action) (snd (try_flush_pending_queue s env sv2))))
      | Ok \<Rightarrow> (True, sv1))"

definition temp_cap_reason :: string where
  "temp_cap_reason = ''GPU temp cap hit during multi-lane low-difficulty mining''"

definition apply_lane_cap_after_temp :: "sup_settings \<Rightarrow> gpu_snapshot option \<Rightarrow> supervisor \<Rightarrow> supervisor" where
  "apply_lane_cap_after_temp s snap sv =
     (if \<not> sv_reduce_lanes sv then sv
      else
        (let sv' = sv\<lparr>sv_reduce_lanes := False\<rparr> in
         case sv_backend sv of
           CudaNativeBackend b \<Rightarrow>
             if cb_lanes b \<le> 1 then sv'
             else
               (let b1 = reduce_lane_cap b;
                    temp = (case snap of None \<Rightarrow> 0 | Some g \<Rightarrow> temperature_c g);
                    policy = record_temp_lane_reduction temp (mining_difficulty s sv) (cb_max_lanes_cap b)
                      (cb_max_lanes_cap b1) temp_cap_reason (fst (cb_policy b1))
                in if cb_max_lanes_cap b1 \<ge> cb_max_lanes_cap b
                   then sv'\<lparr>sv_backend := CudaNativeBackend b1\<rparr>
                   else sv'\<lparr>sv_backend := CudaNativeBackend (b1\<lparr>cb_policy := policy\<rparr>)\<rparr>)
         | _ \<Rightarrow> sv'))"

text \<open>The exception of a start that fails is not caught here.\<close>

datatype loop_error = EngineError py_exn | ExeNotFound

definition maybe_restart_gpu :: "sup_settings \<Rightarrow> sup_env \<Rightarrow> supervisor \<Rightarrow> loop_error option \<times> supervisor" where
  "maybe_restart_gpu s env sv =
     (if se_time env < sv_cooldown_until sv then (None, sv)
      else case sv_backend sv of
        XenblocksGpuBackend g \<Rightarrow>
          if xg_running g then (None, sv)
          else (case xen_start (se_exe_exists env) g of
              (None, g') \<Rightarrow> (Some ExeNotFound, sv\<lparr>sv_backend := XenblocksGpuBackend g'\<rparr>)
            | (Some _, g') \<Rightarrow> (None, sv\<lparr>sv_backend := XenblocksGpuBackend g'\<rparr>))
      | CudaNativeBackend b \<Rightarrow>
          if cb_started b then (None, sv)
          else
            (let sv1 = apply_lane_cap_after_temp s (se_snapshot env) sv in
             case sv_backend sv1 of
               CudaNativeBackend b1 \<Rightarrow>
                 (case cuda_start (ss_cuda s) (se_engine env) b1 of
                    (r, b2) \<Rightarrow> (case r of Inl e \<Rightarrow> Some (EngineError e) | Inr _ \<Rightarrow> None, sv1\<lparr>sv_backend := CudaNativeBackend b2\<rparr>))
             | _ \<Rightarrow> (None, sv1))
      | CpuArgon2Backend _ \<Rightarrow> (None, sv))"

subsection \<open>One round\<close>

datatype loop_point = AtHead | AtPoll | AtSafety | AtPause | AtRestart | AtLate | AtWatch | AtAbort | AtHit | AtServe

text \<open>\<open>en_abort_snaps\<close> are the readings of the abort check in the order of its calls,
  \<open>en_perf\<close> is \<open>perf_counter\<close>, \<open>en_attempts\<close> what the CPU workers do before the batch is read.\<close>

record loop_env =
  en_at :: "loop_point \<Rightarrow> sup_env"
  en_snap :: "gpu_snapshot option"
  en_rows :: "unprocessed_row list option"
  en_mine :: mine_env
  en_abort_snaps :: "nat \<Rightarrow> gpu_snapshot option"
  en_perf :: pyfloat
  en_xen_hs :: int
  en_key_fn :: "nat \<Rightarrow> int \<Rightarrow> string"
  en_hash_of :: "string \<Rightarrow> string"
  en_attempts :: "nat list"

record loop_state =
  ls_sv :: supervisor
  ls_lanes :: lane_manager
  ls_seen :: "int set option"
  ls_net_check :: pyfloat
  ls_flushed :: "pyfloat \<times> pyfloat"
  ls_tune :: pyfloat
  ls_gpu_poll :: pyfloat
  ls_power_tune :: pyfloat

definition map_sv :: "(supervisor \<Rightarrow> supervisor) \<Rightarrow> loop_state \<Rightarrow> loop_state" where
  "map_sv f ls = ls\<lparr>ls_sv := f (ls_sv ls)\<rparr>"

definition tune_cuda :: "sup_settings \<Rightarrow> engine_env \<Rightarrow> gpu_snapshot \<Rightarrow> dual_temp_eval \<Rightarrow> vram_caps option
    \<Rightarrow> cuda_backend \<Rightarrow> cuda_backend" where
  "tune_cuda s eng snap tev caps b =
     (let cs = ss_cuda s;
          b1 = set_thermal_batch_scale cs (if cs_batch_enabled cs then te_batch_scale tev else 1) b;
          b2 = (if \<not> cs_lane_enabled cs then b1
                else case te_lane_cap_from_temp tev of
                  Some cap \<Rightarrow> fst (set_thermal_lane_cap cs eng cap b1)
                | None \<Rightarrow> fst (update_thermal_lanes_from_temp cs eng
                    (if te_eff_board_c tev \<noteq> 0 then te_eff_board_c tev else te_eff_die_c tev) b1))
      in case caps of
           None \<Rightarrow> b2
         | Some c \<Rightarrow> fst (update_vram_pressure_from_used cs eng (used_mib snap) (vc_target_mib c) (vc_emergency_mib c) b2))"

definition tune_gpu :: "sup_settings \<Rightarrow> loop_env \<Rightarrow> supervisor \<Rightarrow> supervisor" where
  "tune_gpu s en sv =
     (let sv1 = configure_guard_temp_context s sv;
          sv2 = sv1\<lparr>sv_power := map_option (adjust (policy_snap s sv1 (en_snap en)) (se_power_ok (en_at en AtHead))) (sv_power sv1)\<rparr>
      in case (en_snap en, policy_temp_eval s sv1 (en_snap en)) of
           (Some snap, Some tev) \<Rightarrow>
             map_cuda (tune_cuda s (se_engine (en_at en AtHead)) snap tev (sv_vram_caps sv2)) sv2
         | _ \<Rightarrow> sv2)"

definition tune_lanes :: "loop_env \<Rightarrow> loop_state \<Rightarrow> loop_state" where
  "tune_lanes en ls =
     (let m = tune (en_snap en) (ls_lanes ls);
          ls1 = ls\<lparr>ls_lanes := m\<rparr>
      in if lm_lanes m = lm_lanes (ls_lanes ls) then ls1
         else case sv_backend (ls_sv ls) of
           CpuArgon2Backend c \<Rightarrow> map_sv (\<lambda>sv. sv\<lparr>sv_backend := CpuArgon2Backend (cpu_set_lanes (lm_lanes m) c)\<rparr>) ls1
         | _ \<Rightarrow> ls1)"

definition service :: "sup_settings \<Rightarrow> sup_env \<Rightarrow> pyfloat \<Rightarrow> bool \<Rightarrow> loop_state \<Rightarrow> loop_state" where
  "service s env now aggressive ls =
     (case service_pending_queue s env now (ls_flushed ls) (min 5 (ss_stats_interval_s s)) aggressive (ls_sv ls) of
        (flushed, sv) \<Rightarrow> ls\<lparr>ls_flushed := flushed, ls_sv := sv\<rparr>)"

definition restart :: "sup_settings \<Rightarrow> sup_env \<Rightarrow> loop_state \<Rightarrow> loop_error option \<times> loop_state" where
  "restart s env ls = (case maybe_restart_gpu s env (ls_sv ls) of (r, sv) \<Rightarrow> (r, ls\<lparr>ls_sv := sv\<rparr>))"

definition pause_round :: "sup_settings \<Rightarrow> loop_env \<Rightarrow> pyfloat \<Rightarrow> loop_state \<Rightarrow> loop_error option \<times> loop_state" where
  "pause_round s en now ls = restart s (en_at en AtLate) (service s (en_at en AtPause) now True ls)"

text \<open>The mined batch of each kind of backend: the hashes, the hit and whether it was aborted.\<close>

definition backend_mine :: "sup_settings \<Rightarrow> loop_env \<Rightarrow> supervisor
    \<Rightarrow> (loop_error + int \<times> block_hit option \<times> bool) \<times> supervisor" where
  "backend_mine s en sv = (case sv_backend sv of
       CudaNativeBackend b \<Rightarrow>
         (case cuda_mine_batch ((en_mine en)\<lparr>mv_abort := Some (\<lambda>n. gpu_temp_abort_check s sv (en_abort_snaps en n))\<rparr>) b of
            (Inl e, b') \<Rightarrow> (Inl (EngineError e), sv\<lparr>sv_backend := CudaNativeBackend b'\<rparr>)
          | (Inr r, b') \<Rightarrow> (Inr (mb_hashes_done r, mb_hit r, mb_aborted r), sv\<lparr>sv_backend := CudaNativeBackend b'\<rparr>))
     | CpuArgon2Backend c \<Rightarrow>
         (case cpu_mine_batch (mv_strategy (en_mine en)) (mv_now (en_mine en))
              (fold (worker_attempt (en_key_fn en) (en_hash_of en)) (en_attempts en) c) of
            ((n, hit), c') \<Rightarrow> (Inr (n, hit, False), sv\<lparr>sv_backend := CpuArgon2Backend c'\<rparr>))
     | XenblocksGpuBackend g \<Rightarrow>
         (case xen_mine_batch (en_xen_hs en) g of
            (n, g') \<Rightarrow> (Inr (n, None, False), sv\<lparr>sv_backend := XenblocksGpuBackend g'\<rparr>)))"

definition start_cpu :: "supervisor \<Rightarrow> supervisor" where
  "start_cpu sv = (case sv_backend sv of
       CpuArgon2Backend c \<Rightarrow> sv\<lparr>sv_backend := CpuArgon2Backend (cpu_start c)\<rparr> | _ \<Rightarrow> sv)"

definition mine_round :: "sup_settings \<Rightarrow> loop_env \<Rightarrow> loop_state \<Rightarrow> loop_error option \<times> loop_state" where
  "mine_round s en ls = (case backend_mine s en (ls_sv ls) of
       (Inl e, sv) \<Rightarrow> (Some e, ls\<lparr>ls_sv := sv\<rparr>)
     | (Inr (hashes, hit, aborted), sv) \<Rightarrow>
         (let ls1 = ls\<lparr>ls_sv := map_metrics (record_hashes (en_perf en) hashes (backend_active_lanes (sv_backend sv))) sv\<rparr> in
          if aborted then
            restart s (en_at en AtLate)
              (service s (en_at en AtPause) (se_time (en_at en AtPause)) True
                (map_sv (graceful_gpu_stop s (en_at en AtAbort) (ss_gpu_cooldown_s s) (en_snap en)) ls1))
          else
            (let ls2 = (case hit of None \<Rightarrow> ls1
                   | Some h \<Rightarrow> map_sv (\<lambda>x. start_cpu (handle_hit s (en_at en AtHit) h x)) ls1)
             in (None, service s (en_at en AtServe) (se_time (en_at en AtServe)) False ls2))))"

definition watch_hits :: "sup_settings \<Rightarrow> loop_env \<Rightarrow> pyfloat \<Rightarrow> loop_state \<Rightarrow> loop_state" where
  "watch_hits s en now ls = (case ls_seen ls of
       None \<Rightarrow> ls
     | Some seen \<Rightarrow>
         if fl (now - ls_gpu_poll ls) < 3 then ls
         else (case poll_new_hits (se_now (en_at en AtWatch)) (en_rows en) seen of
             (hits, seen') \<Rightarrow> map_sv (fold (handle_hit s (en_at en AtWatch)) hits)
               (ls\<lparr>ls_seen := Some seen', ls_gpu_poll := now\<rparr>)))"

text \<open>The part of a round that only a GPU session has; None: the round goes on to mine.\<close>

definition gpu_round :: "sup_settings \<Rightarrow> loop_env \<Rightarrow> pyfloat \<Rightarrow> loop_state
    \<Rightarrow> loop_error option option \<times> loop_state" where
  "gpu_round s en now ls =
     (let (safe, sv1) = apply_gpu_safety s (en_at en AtSafety) (en_snap en) (ls_sv ls);
          ls1 = ls\<lparr>ls_sv := sv1\<rparr> in
      if \<not> safe then (case pause_round s en now ls1 of (e, ls2) \<Rightarrow> (Some e, ls2))
      else (case restart s (en_at en AtRestart) ls1 of
          (Some e, ls2) \<Rightarrow> (Some (Some e), ls2)
        | (None, ls2) \<Rightarrow>
            if gpu_paused_for_cooldown s (en_at en AtRestart) (ls_sv ls2) \<and> \<not> gpu_backend_running s (ls_sv ls2)
            then (case pause_round s en now ls2 of (e, ls3) \<Rightarrow> (Some e, ls3))
            else (None, watch_hits s en now ls2)))"

definition loop_round :: "sup_settings \<Rightarrow> loop_env \<Rightarrow> loop_state \<Rightarrow> loop_error option \<times> loop_state" where
  "loop_round s en ls =
     (let now = se_time (en_at en AtHead);
          ls1 = (if fl (now - ls_net_check ls) \<ge> ss_network_poll_interval_s s
                 then (map_sv (\<lambda>sv. snd (refresh_network s (en_at en AtPoll) False sv)) ls)\<lparr>ls_net_check := now\<rparr> else ls);
          ls2 = (if fl (now - ls_power_tune ls1) \<ge> ss_sample_interval_s s
                 then (map_sv (tune_gpu s en) ls1)\<lparr>ls_power_tune := now\<rparr> else ls1)
      in if is_gpu s (ls_sv ls2) then
           (case gpu_round s en now ls2 of
              (Some e, ls3) \<Rightarrow> (e, ls3)
            | (None, ls3) \<Rightarrow> mine_round s en ls3)
         else if fl (now - ls_tune ls2) \<ge> ss_sample_interval_s s
         then mine_round s en ((tune_lanes en ls2)\<lparr>ls_tune := now\<rparr>)
         else mine_round s en ls2)"

subsection \<open>A session\<close>

definition recover_queue :: "(block_kind \<Rightarrow> int) \<Rightarrow> supervisor \<Rightarrow> supervisor" where
  "recover_queue today sv =
     map_metrics (\<lambda>m. m\<lparr>stats := (stats m)\<lparr>accepted_live := today\<rparr>\<rparr>)
       (sync_queue (map_store (\<lambda>st. fst (reclassify_pending (fst (migrate_rejected_pending
          (fst (import_pending_from_jsonl False st)))))) sv))"

text \<open>\<open>polled\<close> is the poller as the start-up reads it last.\<close>

definition connect_network :: "sup_settings \<Rightarrow> sup_env \<Rightarrow> poller \<Rightarrow> supervisor \<Rightarrow> supervisor" where
  "connect_network s env polled sv0 =
     (let sv = sv0\<lparr>sv_poller := polled\<rparr> in
      case ps_difficulty (pl_status polled) of
        Some raw_diff \<Rightarrow>
          (let (diff, sv1) = apply_network_difficulty s env raw_diff sv
           in map_cuda (cuda_set_difficulty (ss_cuda s) (se_engine env) diff)
                (sv1\<lparr>sv_network_difficulty := Some diff, sv_network_ok := True, sv_last_log_ok := Some True\<rparr>))
      | None \<Rightarrow>
          map_cuda (cuda_set_difficulty (ss_cuda s) (se_engine env) (ss_memory_cost s))
            (sv\<lparr>sv_network_difficulty := Some (ss_memory_cost s), sv_network_ok := False,
                sv_last_log_ok := Some False\<rparr>))"

definition start_backend :: "sup_settings \<Rightarrow> sup_env \<Rightarrow> miner_backend \<Rightarrow> miner_backend" where
  "start_backend s env b = (case b of
       CudaNativeBackend c \<Rightarrow> CudaNativeBackend (snd (cuda_start (ss_cuda s) (se_engine env) c))
     | CpuArgon2Backend c \<Rightarrow> CpuArgon2Backend (cpu_start c)
     | XenblocksGpuBackend g \<Rightarrow> XenblocksGpuBackend (snd (xen_start (se_exe_exists env) g)))"

definition start_mining :: "sup_settings \<Rightarrow> sup_env \<Rightarrow> supervisor \<Rightarrow> supervisor" where
  "start_mining s env sv = sv\<lparr>
     sv_backend := (if se_time env < sv_cooldown_until sv then sv_backend sv
                    else start_backend s env (sv_backend sv)),
     sv_power := map_option (\<lambda>p. fst (apply_boost (se_power_limits env) (se_power_ok env) p)) (sv_power sv),
     sv_running := True, sv_was_in_window := in_xuni_window (se_minute env)\<rparr>"

definition run_startup :: "sup_settings \<Rightarrow> sup_env \<Rightarrow> (block_kind \<Rightarrow> int) \<Rightarrow> poller \<Rightarrow> supervisor \<Rightarrow> supervisor" where
  "run_startup s env today polled sv = start_mining s env
     (sync_queue (resume_queued_blocks s env (connect_network s env polled (recover_queue today sv))))"

definition finalize_session :: "sup_env \<Rightarrow> supervisor \<Rightarrow> supervisor" where
  "finalize_session env sv =
     (let sv1 = stop_backend sv in sv1\<lparr>sv_power := map_option (\<lambda>p. fst (restore (se_power_ok env) p)) (sv_power sv1)\<rparr>)"

definition end_session :: "sup_settings \<Rightarrow> sup_env \<Rightarrow> loop_state \<Rightarrow> loop_state" where
  "end_session s env = map_sv (\<lambda>sv. finalize_session env (graceful_shutdown s env sv))"

text \<open>Between two rounds the poller's thread may poll and the user may interrupt; \<open>stop_at\<close> is the
  time the session may run to, and the last argument the environment of the shutdown.\<close>

datatype session_event = Round loop_env | PollerTick sup_env | Interrupt

definition round_ends :: "pyfloat option \<Rightarrow> loop_env \<Rightarrow> bool" where
  "round_ends stop_at en = (case stop_at of None \<Rightarrow> False | Some t \<Rightarrow> se_time (en_at en AtHead) \<ge> t)"

fun run_loop :: "sup_settings \<Rightarrow> pyfloat option \<Rightarrow> sup_env \<Rightarrow> session_event list \<Rightarrow> loop_state \<Rightarrow> loop_state" where
  "run_loop s stop_at last_env [] ls = ls"
| "run_loop s stop_at last_env (Interrupt # es) ls = end_session s last_env ls"
| "run_loop s stop_at last_env (PollerTick env # es) ls =
     run_loop s stop_at last_env es (map_sv (\<lambda>sv. snd (read_poller env True sv)) ls)"
| "run_loop s stop_at last_env (Round en # es) ls =
     (if \<not> sv_running (ls_sv ls) \<or> round_ends stop_at en then end_session s last_env ls
      else case loop_round s en ls of
        (Some e, ls') \<Rightarrow> end_session s last_env ls'
      | (None, ls') \<Rightarrow> run_loop s stop_at last_env es ls')"

definition run_session :: "sup_settings \<Rightarrow> sup_env \<Rightarrow> (block_kind \<Rightarrow> int) \<Rightarrow> poller \<Rightarrow> pyfloat option \<Rightarrow> sup_env
    \<Rightarrow> session_event list \<Rightarrow> loop_state \<Rightarrow> loop_state" where
  "run_session s env today polled stop_at last_env es ls =
     run_loop s stop_at last_env es (map_sv (run_startup s env today polled) ls)"

text \<open>A start that the checks refuse returns at once, with nothing released.\<close>

definition run_checked :: "sup_settings \<Rightarrow> sup_env \<Rightarrow> diagnosis \<Rightarrow> (block_kind \<Rightarrow> int) \<Rightarrow> poller \<Rightarrow> pyfloat option
    \<Rightarrow> sup_env \<Rightarrow> session_event list \<Rightarrow> loop_state \<Rightarrow> loop_state" where
  "run_checked s env d today polled stop_at last_env es ls =
     (case startup_checks s env d (ls_sv ls) of
        (False, sv) \<Rightarrow> ls\<lparr>ls_sv := sv\<rparr>
      | (True, sv) \<Rightarrow> run_session s env today polled stop_at last_env es (ls\<lparr>ls_sv := sv\<rparr>))"

end
