(* ===== verification/Session.thy ===== *)
theory Session
  imports SupervisorLoop
begin

text \<open>
  What a whole session keeps.  \<open>local_step\<close> is a change of the backend, the guard and the
  supervisor's own flags; \<open>session_contract\<close> names a relation that such a step and the operations
  of \<open>sup_hit_contract\<close> respect, and shows once that every round, and so every session, respects it.
\<close>

subsection \<open>Local steps\<close>

definition device_ok :: "sup_settings \<Rightarrow> sup_env \<Rightarrow> bool" where
  "device_ok s env \<longleftrightarrow> 0 \<le> vl_min_headroom_floor_mib (cs_limits (ss_cuda s)) \<and> env_ok (se_engine env)"

definition cuda_ok :: "sup_settings \<Rightarrow> cuda_backend \<Rightarrow> bool" where
  "cuda_ok s b \<longleftrightarrow> backend_inv (ss_cuda s) b \<and> cap_saved (ss_cuda s) b"

definition backend_ok :: "sup_settings \<Rightarrow> supervisor \<Rightarrow> bool" where
  "backend_ok s sv = (case sv_backend sv of CudaNativeBackend b \<Rightarrow> cuda_ok s b | _ \<Rightarrow> True)"

definition local_step :: "sup_settings \<Rightarrow> sup_env \<Rightarrow> supervisor \<Rightarrow> supervisor \<Rightarrow> bool" where
  "local_step s env sv sv' \<longleftrightarrow> sv_flusher sv' = sv_flusher sv \<and> sv_poller sv' = sv_poller sv
     \<and> sv_network_difficulty sv' = sv_network_difficulty sv \<and> mining_difficulty s sv' = mining_difficulty s sv
     \<and> is_cuda sv' = is_cuda sv
     \<and> hc_difficulty (vg_context (sv_guard sv'))
         \<in> {hc_difficulty (vg_context (sv_guard sv)), max 0 (mining_difficulty s sv)}
     \<and> (device_ok s env \<longrightarrow> backend_ok s sv \<longrightarrow> backend_ok s sv')"

definition cuda_step :: "sup_settings \<Rightarrow> sup_env \<Rightarrow> cuda_backend \<Rightarrow> cuda_backend \<Rightarrow> bool" where
  "cuda_step s env b b' \<longleftrightarrow> cb_difficulty b' = cb_difficulty b \<and> (device_ok s env \<longrightarrow> cuda_ok s b \<longrightarrow> cuda_ok s b')"

lemma local_refl [simp]: "local_step s env sv sv"
  by (simp add: local_step_def)

lemma local_trans: "local_step s env sv sv' \<Longrightarrow> local_step s env sv' sv'' \<Longrightarrow> local_step s env sv sv''"
  by (auto simp: local_step_def)

lemma cuda_step_refl [simp]: "cuda_step s env b b"
  by (simp add: cuda_step_def)

lemma cuda_step_trans: "cuda_step s env b b' \<Longrightarrow> cuda_step s env b' b'' \<Longrightarrow> cuda_step s env b b''"
  by (auto simp: cuda_step_def)

lemma step_ok:
  assumes "cuda_ok s b" "device_ok s env" "e \<in> {StartBackend (se_engine env), StopBackend, SetThermalScale x,
      ThermalLanes (se_engine env) t, ThermalCap (se_engine env) c, VramPressure (se_engine env) u v w, ReduceCap,
      RestoreCap t d, SetBackendDifficulty (se_engine env) d, MineBatch m}"
  shows "cuda_ok s (backend_step (ss_cuda s) e b)"
  using assms inv_step [of "ss_cuda s" e b] cap_saved_step [of "ss_cuda s" b e]
  by (auto simp: cuda_ok_def device_ok_def event_ok_def)

lemma difficulty_simps [simp]:
  "cb_difficulty (cuda_stop b) = cb_difficulty b"
  "cb_difficulty (reduce_lane_cap b) = cb_difficulty b"
  "cb_difficulty (rescale_batch cs b) = cb_difficulty b"
  "cb_difficulty (set_thermal_batch_scale cs x b) = cb_difficulty b"
  "cb_difficulty (set_vram_batch_scale cs x b) = cb_difficulty b"
  "cb_difficulty (fst (reapply_live_caps cs e b)) = cb_difficulty b"
  "cb_difficulty (snd (cuda_mine_batch m b)) = cb_difficulty b"
  by (simp_all add: cuda_stop_def reduce_lane_cap_def rescale_batch_def set_thermal_batch_scale_def
      set_vram_batch_scale_def reapply_live_caps_def cuda_mine_batch_def Let_def split: option.split sum.split prod.split)

lemma difficulty_simps2 [simp]:
  "cb_difficulty (fst (update_thermal_lanes_from_temp cs e t b)) = cb_difficulty b"
  "cb_difficulty (fst (update_vram_pressure_from_used cs e u v w b)) = cb_difficulty b"
  "cb_difficulty (fst (set_thermal_lane_cap cs e c b)) = cb_difficulty b"
  by (simp_all add: update_thermal_lanes_from_temp_def update_vram_pressure_from_used_def set_thermal_lane_cap_def
      Let_def case_prod_unfold split: option.split)

lemma difficulty_start [simp]: "cb_difficulty (snd (cuda_start cs e b)) = cb_difficulty b"
proof -
  have c: "cb_difficulty (snd (caps_for_total cs m b)) = cb_difficulty b" for m b
    by (simp add: caps_for_total_def Let_def split: option.split)
  show ?thesis
    by (simp add: cuda_start_def Let_def case_prod_unfold c split: option.split sum.split)
qed


lemma cuda_steps [simp]:
  "cuda_step s env b (cuda_stop b)"
  "cuda_step s env b (snd (cuda_start (ss_cuda s) (se_engine env) b))"
  "cuda_step s env b (reduce_lane_cap b)"
  "cuda_step s env b (set_thermal_batch_scale (ss_cuda s) x b)"
  "cuda_step s env b (fst (set_thermal_lane_cap (ss_cuda s) (se_engine env) c b))"
  "cuda_step s env b (fst (update_thermal_lanes_from_temp (ss_cuda s) (se_engine env) t b))"
  "cuda_step s env b (fst (update_vram_pressure_from_used (ss_cuda s) (se_engine env) u v w b))"
  "cuda_step s env b (snd (cuda_mine_batch m b))"
proof -
  note ok = step_ok [of s b env, unfolded backend_step_def]
  show "cuda_step s env b (cuda_stop b)"
    using ok [of StopBackend] by (simp add: cuda_step_def)
  show "cuda_step s env b (snd (cuda_start (ss_cuda s) (se_engine env) b))"
    using ok [of "StartBackend (se_engine env)"] by (simp add: cuda_step_def)
  show "cuda_step s env b (reduce_lane_cap b)"
    using ok [of ReduceCap] by (simp add: cuda_step_def)
  show "cuda_step s env b (set_thermal_batch_scale (ss_cuda s) x b)"
    using ok [of "SetThermalScale x" x] by (simp add: cuda_step_def)
  show "cuda_step s env b (fst (set_thermal_lane_cap (ss_cuda s) (se_engine env) c b))"
    using ok [of "ThermalCap (se_engine env) c" _ _ c] by (simp add: cuda_step_def)
  show "cuda_step s env b (fst (update_thermal_lanes_from_temp (ss_cuda s) (se_engine env) t b))"
    using ok [of "ThermalLanes (se_engine env) t" _ t] by (simp add: cuda_step_def)
  show "cuda_step s env b (fst (update_vram_pressure_from_used (ss_cuda s) (se_engine env) u v w b))"
    using ok [of "VramPressure (se_engine env) u v w" _ _ _ u v w] by (simp add: cuda_step_def)
  show "cuda_step s env b (snd (cuda_mine_batch m b))"
    using ok [of "MineBatch m" _ _ _ _ _ _ _ m] by (simp add: cuda_step_def)
qed

lemma local_cuda:
  "sv_backend sv = CudaNativeBackend b \<Longrightarrow> cuda_step s env b b' \<Longrightarrow>
    local_step s env sv (sv\<lparr>sv_backend := CudaNativeBackend b'\<rparr>)"
  by (simp add: local_step_def cuda_step_def mining_difficulty_def backend_ok_def is_cuda_def)

lemma local_other:
  "\<not> is_cuda sv \<Longrightarrow> \<not> is_cuda (sv\<lparr>sv_backend := b\<rparr>) \<Longrightarrow> local_step s env sv (sv\<lparr>sv_backend := b\<rparr>)"
  by (auto simp: local_step_def mining_difficulty_def is_cuda_def backend_ok_def split: miner_backend.splits)

lemma local_flags:
  "sv_flusher sv' = sv_flusher sv \<Longrightarrow> sv_poller sv' = sv_poller sv \<Longrightarrow> sv_guard sv' = sv_guard sv \<Longrightarrow>
    sv_network_difficulty sv' = sv_network_difficulty sv \<Longrightarrow> sv_backend sv' = sv_backend sv \<Longrightarrow> local_step s env sv sv'"
  using mining_difficulty_cong [of sv' sv s] by (simp add: local_step_def backend_ok_def is_cuda_def)

lemma local_flag_simps [simp]:
  "local_step s env sv (sv\<lparr>sv_was_in_window := w\<rparr>)"
  "local_step s env sv (sv\<lparr>sv_reduce_lanes := w\<rparr>)"
  "local_step s env sv (sv\<lparr>sv_running := w\<rparr>)"
  "local_step s env sv (sv\<lparr>sv_shutting_down := w\<rparr>)"
  "local_step s env sv (sv\<lparr>sv_power := p\<rparr>)"
  "local_step s env sv (sv\<lparr>sv_warn_code := c, sv_warn_at := t\<rparr>)"
  "local_step s env sv (note_temp_cooldown snap sv)"
  "local_step s env sv (cooldown_until e n sv)"
  by (auto simp: note_temp_cooldown_def cooldown_until_def intro: local_flags)

lemma local_guard [simp]: "local_step s env sv (configure_guard_temp_context s sv)"
  using mining_difficulty_cong [of "configure_guard_temp_context s sv" sv s]
  by (simp add: local_step_def configure_guard_temp_context_def guard_context_def set_difficulty_context_def
      backend_ok_def is_cuda_def)

lemma local_stop [simp]: "local_step s env sv (stop_backend sv)"
proof (cases "sv_backend sv")
  case (CudaNativeBackend b)
  then show ?thesis using local_cuda [OF CudaNativeBackend cuda_steps(1)]
    by (simp add: stop_backend_def backend_stop_def)
qed (simp_all add: stop_backend_def backend_stop_def local_other is_cuda_def)

lemma local_map_cuda: "(\<And>b. cuda_step s env b (f b)) \<Longrightarrow> local_step s env sv (map_cuda f sv)"
  by (auto simp: map_cuda_def intro: local_cuda split: miner_backend.split)

lemma cuda_step_tune [simp]: "cuda_step s env b (tune_cuda s (se_engine env) snap tev caps b)"
proof -
  have 1: "cuda_step s env b b1 \<Longrightarrow> cuda_step s env b (fst (set_thermal_lane_cap (ss_cuda s) (se_engine env) c b1))" for b1 c
    using cuda_step_trans cuda_steps(5) by blast
  have 2: "cuda_step s env b b1 \<Longrightarrow> cuda_step s env b (fst (update_thermal_lanes_from_temp (ss_cuda s) (se_engine env) t b1))" for b1 t
    using cuda_step_trans cuda_steps(6) by blast
  have 3: "cuda_step s env b b1 \<Longrightarrow> cuda_step s env b (fst (update_vram_pressure_from_used (ss_cuda s) (se_engine env) u v w b1))" for b1 u v w
    using cuda_step_trans cuda_steps(7) by blast
  show ?thesis by (auto simp: tune_cuda_def Let_def intro!: 1 2 3 split: option.split)
qed

lemma local_tune [simp]: "local_step s (en_at en AtHead) sv (tune_gpu s en sv)"
proof -
  let ?c = "configure_guard_temp_context s sv"
  have p: "local_step s (en_at en AtHead) sv (?c\<lparr>sv_power := p\<rparr>)" for p
    using local_trans [OF local_guard local_flag_simps(5)] .
  show ?thesis using p local_trans [OF p local_map_cuda [OF cuda_step_tune]]
    by (auto simp: tune_gpu_def Let_def split: option.split)
qed

text \<open>A reduction after a cooldown saves the reduced cap once more, with the event.\<close>

lemma cuda_step_reduction:
  "cuda_step s env b ((reduce_lane_cap b)\<lparr>cb_policy := record_temp_lane_reduction t d c
     (cb_max_lanes_cap (reduce_lane_cap b)) reason (fst (cb_policy (reduce_lane_cap b)))\<rparr>)"
proof -
  let ?b = "reduce_lane_cap b"
  let ?b' = "?b\<lparr>cb_policy := record_temp_lane_reduction t d c (cb_max_lanes_cap ?b) reason (fst (cb_policy ?b))\<rparr>"
  have "cuda_ok s ?b \<Longrightarrow> cuda_ok s ?b'"
    using inv_touch(5) [of "ss_cuda s" ?b, where n = "cb_max_lanes_cap ?b"]
      cap_saved_range [of "ss_cuda s" ?b]
    by (auto simp: cuda_ok_def cap_saved_def record_temp_lane_reduction_def Let_def load_saved)
  then have "cuda_step s env ?b ?b'" by (simp add: cuda_step_def)
  then show ?thesis using cuda_step_trans [OF cuda_steps(3)] by blast
qed

lemma local_lane_cap [simp]: "local_step s env sv (apply_lane_cap_after_temp s snap sv)"
proof (cases "sv_backend sv")
  case (CudaNativeBackend b)
  let ?sv = "sv\<lparr>sv_reduce_lanes := False\<rparr>"
  have l: "cuda_step s env b b' \<Longrightarrow> local_step s env sv (?sv\<lparr>sv_backend := CudaNativeBackend b'\<rparr>)" for b'
    by (rule local_trans [OF local_flag_simps(2) local_cuda]) (use CudaNativeBackend in simp_all)
  show ?thesis using l [OF cuda_steps(3)] l [OF cuda_step_reduction] CudaNativeBackend
    by (simp add: apply_lane_cap_after_temp_def Let_def)
qed (simp_all add: apply_lane_cap_after_temp_def Let_def)

lemma lane_cap_backend: "is_cuda (apply_lane_cap_after_temp s snap sv) = is_cuda sv"
  by (simp add: apply_lane_cap_after_temp_def Let_def is_cuda_def split: miner_backend.split)

lemma local_restart [simp]: "local_step s env sv (snd (maybe_restart_gpu s env sv))"
proof (cases "sv_backend sv")
  case (CudaNativeBackend b)
  let ?sv = "apply_lane_cap_after_temp s (se_snapshot env) sv"
  have "is_cuda ?sv" using CudaNativeBackend by (simp add: lane_cap_backend) (simp add: is_cuda_def)
  then obtain b1 where b1: "sv_backend ?sv = CudaNativeBackend b1" by (auto simp: is_cuda_def split: miner_backend.splits)
  show ?thesis using CudaNativeBackend b1 local_trans [OF local_lane_cap local_cuda [OF b1 cuda_steps(2)]]
    by (simp add: maybe_restart_gpu_def Let_def case_prod_unfold)
next
  case (XenblocksGpuBackend g)
  then show ?thesis
    by (auto simp: maybe_restart_gpu_def is_cuda_def intro!: local_other split: prod.split option.split)
next
  case (CpuArgon2Backend c)
  then show ?thesis by (simp add: maybe_restart_gpu_def)
qed

lemma local_mine: "backend_mine s en sv = (r, sv') \<Longrightarrow> local_step s env sv sv'"
proof (cases "sv_backend sv")
  case (CudaNativeBackend b)
  assume "backend_mine s en sv = (r, sv')"
  then have "sv' = sv\<lparr>sv_backend := CudaNativeBackend (snd (cuda_mine_batch
      ((en_mine en)\<lparr>mv_abort := Some (\<lambda>n. gpu_temp_abort_check s sv (en_abort_snaps en n))\<rparr>) b))\<rparr>"
    using CudaNativeBackend by (auto simp: backend_mine_def split: prod.splits sum.splits)
  then show ?thesis using local_cuda [OF CudaNativeBackend cuda_steps(8)] by simp
qed (auto simp: backend_mine_def is_cuda_def intro!: local_other split: prod.splits)

lemma local_start_cpu [simp]: "local_step s env sv (start_cpu sv)"
  by (auto simp: start_cpu_def is_cuda_def intro: local_other split: miner_backend.split)

lemma local_tune_lanes [simp]: "local_step s env (ls_sv ls) (ls_sv (tune_lanes en ls))"
  by (auto simp: tune_lanes_def Let_def map_sv_def is_cuda_def intro!: local_other split: miner_backend.split)

subsection \<open>The contract of a session\<close>

locale session_contract =
  fixes s :: sup_settings and good :: "sup_env \<Rightarrow> bool" and rel :: "supervisor \<Rightarrow> supervisor \<Rightarrow> bool"
  assumes hits: "good env \<Longrightarrow> sup_hit_contract s env rel"
    and rel_local: "good env \<Longrightarrow> local_step s env sv sv' \<Longrightarrow> rel sv sv'"
    and rel_hashes: "rel sv (map_metrics (record_hashes t n l) sv)"
    and rel_defer: "rel sv (sync_queue (map_store (\<lambda>st. fst (defer_to_next_start m st)) sv))"
    and refl_rel: "rel sv sv"
    and trans_rel: "rel sv sv' \<Longrightarrow> rel sv' sv'' \<Longrightarrow> rel sv sv''"
begin

lemma rel_try: "good env \<Longrightarrow> rel sv (snd (try_flush_pending_queue s env sv))"
  by (rule sup_contract.rel_try_flush [OF sup_hit_contract.axioms(1) [OF hits]])

lemma rel_refresh: "good env \<Longrightarrow> rel sv (snd (refresh_network s env b sv))"
  by (rule sup_contract.rel_refresh [OF sup_hit_contract.axioms(1) [OF hits]])

lemma rel_service: "good env \<Longrightarrow> rel sv (snd (service_pending_queue s env now flushed iv agg sv))"
  by (rule sup_contract.rel_service [OF sup_hit_contract.axioms(1) [OF hits]])

lemma rel_poll: "good env \<Longrightarrow> rel sv (snd (read_poller env b sv))"
  by (rule sup_contract.rel_poller [OF sup_hit_contract.axioms(1) [OF hits]])

lemma rel_hit: "good env \<Longrightarrow> rel sv (handle_hit s env hit sv)"
  by (rule sup_hit_contract.rel_handle_hit [OF hits])

lemma rel_watched: "good env \<Longrightarrow> rel sv (fold (handle_hit s env) hs sv)"
  by (rule sup_hit_contract.rel_hits [OF hits])

lemma local_after: "good env \<Longrightarrow> rel sv sv' \<Longrightarrow> local_step s env sv' sv'' \<Longrightarrow> rel sv sv''"
  using trans_rel rel_local by blast

lemma rel_gpu_stop: "good env \<Longrightarrow> rel sv (graceful_gpu_stop s env n snap sv)"
proof -
  assume g: "good env"
  have "rel sv (snd (try_flush_pending_queue s env (note_temp_cooldown snap sv)))"
    using trans_rel [OF rel_local [OF g local_flag_simps(7)] rel_try [OF g]] .
  then show ?thesis unfolding graceful_gpu_stop_def
    by (rule local_after [OF g local_after [OF g _ local_stop] local_flag_simps(8)])
qed

lemma rel_safety: "good env \<Longrightarrow> rel sv (snd (apply_gpu_safety s env snap sv))"
proof -
  assume g: "good env"
  let ?c = "configure_guard_temp_context s sv"
  have c: "rel sv ?c" by (rule rel_local [OF g local_guard])
  have w: "rel sv (?c\<lparr>sv_warn_code := x, sv_warn_at := t\<rparr>)" for x t
    by (rule local_after [OF g c local_flag_simps(6)])
  have stop: "rel sv (case sv_backend ?c of CpuArgon2Backend _ \<Rightarrow> ?c | _ \<Rightarrow> stop_backend ?c)"
    using c local_after [OF g c local_stop] by (simp split: miner_backend.split)
  show ?thesis
    using c w trans_rel [OF c rel_gpu_stop [OF g]] local_after [OF g trans_rel [OF stop rel_try [OF g]] local_flag_simps(8)]
    by (simp add: apply_gpu_safety_def Let_def split: guard_level.split)
qed

lemma rel_restart: "good env \<Longrightarrow> rel (ls_sv ls) (ls_sv (snd (restart s env ls)))"
  using rel_local [OF _ local_restart, of env "ls_sv ls"] by (simp add: restart_def case_prod_unfold)

lemma rel_serve: "good env \<Longrightarrow> rel (ls_sv ls) (ls_sv (service s env now agg ls))"
  using rel_service by (simp add: service_def case_prod_unfold)

definition env_good :: "loop_env \<Rightarrow> bool" where
  "env_good en \<longleftrightarrow> (\<forall>p. good (en_at en p))"

definition event_good :: "session_event \<Rightarrow> bool" where
  "event_good e = (case e of Round en \<Rightarrow> env_good en | PollerTick env \<Rightarrow> good env | Interrupt \<Rightarrow> True)"

lemma env_goodD: "env_good en \<Longrightarrow> good (en_at en p)"
  by (simp add: env_good_def)

lemma rel_shutdown:
  assumes g: "good env"
  shows "rel sv (graceful_shutdown s env sv)"
proof -
  define sv1 where "sv1 = sv\<lparr>sv_shutting_down := True, sv_running := False, sv_backend := backend_stop (sv_backend sv)\<rparr>"
  have "sv1 = stop_backend sv\<lparr>sv_running := False, sv_shutting_down := True\<rparr>"
    by (simp add: sv1_def stop_backend_def)
  then have 1: "rel sv sv1"
    using local_after [OF g local_after [OF g rel_local [OF g local_stop] local_flag_simps(3)] local_flag_simps(4)] by simp
  have f: "rel v (snd (run_flush s env b v))" for b v
    by (rule sup_contract.rel_flush [OF sup_hit_contract.axioms(1) [OF hits [OF g]]])
  note up = trans_rel [OF 1 rel_refresh [OF g]]
  show ?thesis
    using refl_rel 1 up trans_rel [OF up f] trans_rel [OF up rel_defer] trans_rel [OF 1 rel_defer]
    by (simp add: graceful_shutdown_def Let_def case_prod_unfold sv1_def)
qed

lemma rel_pause: "env_good en \<Longrightarrow> rel (ls_sv ls) (ls_sv (snd (pause_round s en now ls)))"
  using trans_rel [OF rel_serve rel_restart] env_goodD by (simp add: pause_round_def)

lemma rel_mine_round:
  assumes g: "env_good en"
  shows "rel (ls_sv ls) (ls_sv (snd (mine_round s en ls)))"
proof -
  obtain r sv where m: "backend_mine s en (ls_sv ls) = (r, sv)" by fastforce
  have sv: "rel (ls_sv ls) sv" by (rule rel_local [OF env_goodD [OF g, of AtHead] local_mine [OF m]])
  show ?thesis
  proof (cases r)
    case (Inl e)
    with sv m show ?thesis by (simp add: mine_round_def)
  next
    case (Inr x)
    obtain n hit aborted where x: "x = (n, hit, aborted)" by (cases x) auto
    let ?sv1 = "map_metrics (record_hashes (en_perf en) n (backend_active_lanes (sv_backend sv))) sv"
    let ?ls1 = "ls\<lparr>ls_sv := ?sv1\<rparr>"
    have r1: "rel (ls_sv ls) ?sv1" using trans_rel [OF sv rel_hashes] .
    show ?thesis
    proof (cases aborted)
      case True
      let ?stop = "map_sv (graceful_gpu_stop s (en_at en AtAbort) (ss_gpu_cooldown_s s) (en_snap en)) ?ls1"
      have "rel ?sv1 (ls_sv ?stop)" using rel_gpu_stop [OF env_goodD [OF g]] by (simp add: map_sv_def)
      from trans_rel [OF r1 this] show ?thesis
        using trans_rel [OF trans_rel [OF _ rel_serve [OF env_goodD [OF g]]] rel_restart [OF env_goodD [OF g]]] True Inr m x
        by (simp add: mine_round_def Let_def)
    next
      case False
      let ?ls2 = "case hit of None \<Rightarrow> ?ls1 | Some h \<Rightarrow> map_sv (\<lambda>v. start_cpu (handle_hit s (en_at en AtHit) h v)) ?ls1"
      have "rel ?sv1 (ls_sv ?ls2)"
        using refl_rel local_after [OF env_goodD [OF g] rel_hit [OF env_goodD [OF g]] local_start_cpu]
        by (simp add: map_sv_def split: option.split)
      from trans_rel [OF r1 this] show ?thesis
        using trans_rel [OF _ rel_serve [OF env_goodD [OF g]]] False Inr m x by (simp add: mine_round_def Let_def)
    qed
  qed
qed

lemma rel_watch: "env_good en \<Longrightarrow> rel (ls_sv ls) (ls_sv (watch_hits s en now ls))"
  using rel_watched [OF env_goodD] refl_rel
  by (simp add: watch_hits_def map_sv_def case_prod_unfold split: option.split)

lemma rel_gpu_round:
  assumes g: "env_good en"
  shows "rel (ls_sv ls) (ls_sv (snd (gpu_round s en now ls)))"
proof -
  obtain safe sv1 where a: "apply_gpu_safety s (en_at en AtSafety) (en_snap en) (ls_sv ls) = (safe, sv1)" by fastforce
  let ?ls1 = "ls\<lparr>ls_sv := sv1\<rparr>"
  have "rel (ls_sv ls) (snd (apply_gpu_safety s (en_at en AtSafety) (en_snap en) (ls_sv ls)))"
    by (rule rel_safety [OF env_goodD [OF g]])
  with a have r1: "rel (ls_sv ls) (ls_sv ?ls1)" by simp
  obtain e ls2 where b: "restart s (en_at en AtRestart) ?ls1 = (e, ls2)" by fastforce
  have "rel (ls_sv ls) (ls_sv (snd (restart s (en_at en AtRestart) ?ls1)))"
    by (rule trans_rel [OF r1 rel_restart [OF env_goodD [OF g]]])
  with b have r2: "rel (ls_sv ls) (ls_sv ls2)" by simp
  show ?thesis
    using trans_rel [OF r1 rel_pause [OF g]] r2 trans_rel [OF r2 rel_pause [OF g]] trans_rel [OF r2 rel_watch [OF g]] a b
    by (simp add: gpu_round_def Let_def case_prod_unfold split: option.split)
qed

lemma rel_round:
  assumes g: "env_good en"
  shows "rel (ls_sv ls) (ls_sv (snd (loop_round s en ls)))"
proof -
  let ?now = "se_time (en_at en AtHead)"
  define ls1 where "ls1 = (if fl (?now - ls_net_check ls) \<ge> ss_network_poll_interval_s s
    then (map_sv (\<lambda>sv. snd (refresh_network s (en_at en AtPoll) False sv)) ls)\<lparr>ls_net_check := ?now\<rparr> else ls)"
  define ls2 where "ls2 = (if fl (?now - ls_power_tune ls1) \<ge> ss_sample_interval_s s
    then (map_sv (tune_gpu s en) ls1)\<lparr>ls_power_tune := ?now\<rparr> else ls1)"
  have r1: "rel (ls_sv ls) (ls_sv ls1)"
    using rel_refresh [OF env_goodD [OF g]] refl_rel by (simp add: map_sv_def ls1_def)
  have "rel (ls_sv ls1) (ls_sv ls2)"
    using rel_local [OF env_goodD [OF g] local_tune] refl_rel by (simp add: map_sv_def ls2_def)
  with r1 have r2': "rel (ls_sv ls) (ls_sv ls2)" by (rule trans_rel)
  have tl: "rel (ls_sv k) (ls_sv ((tune_lanes en k)\<lparr>ls_tune := t\<rparr>))" for k t
    using rel_local [OF env_goodD [OF g] local_tune_lanes] by simp
  have l: "loop_round s en ls = (if is_gpu s (ls_sv ls2) then
           (case gpu_round s en ?now ls2 of (Some e, ls3) \<Rightarrow> (e, ls3) | (None, ls3) \<Rightarrow> mine_round s en ls3)
         else if fl (?now - ls_tune ls2) \<ge> ss_sample_interval_s s
         then mine_round s en ((tune_lanes en ls2)\<lparr>ls_tune := ?now\<rparr>)
         else mine_round s en ls2)"
    unfolding loop_round_def Let_def ls2_def ls1_def ..
  obtain x ls3 where gr: "gpu_round s en ?now ls2 = (x, ls3)" by fastforce
  have r3: "rel (ls_sv ls) (ls_sv ls3)" using trans_rel [OF r2' rel_gpu_round [OF g, of ls2 ?now]] gr by simp
  show ?thesis
    using r3 trans_rel [OF r3 rel_mine_round [OF g]] trans_rel [OF r2' rel_mine_round [OF g]]
      trans_rel [OF trans_rel [OF r2' tl] rel_mine_round [OF g]]
    by (simp add: l gr split: option.split)
qed

lemma rel_end: "good env \<Longrightarrow> rel (ls_sv ls) (ls_sv (end_session s env ls))"
proof -
  assume g: "good env"
  show ?thesis
    using local_after [OF g local_after [OF g rel_shutdown [OF g] local_stop] local_flag_simps(5)]
    by (simp add: end_session_def map_sv_def finalize_session_def Let_def)
qed

lemma rel_loop:
  "good last_env \<Longrightarrow> list_all event_good es \<Longrightarrow> rel (ls_sv ls) (ls_sv (run_loop s stop_at last_env es ls))"
proof (induction es arbitrary: ls)
  case Nil
  show ?case by (simp add: refl_rel)
next
  case (Cons e es)
  show ?case
  proof (cases e)
    case (Round en)
    obtain x ls1 where r: "loop_round s en ls = (x, ls1)" by fastforce
    have "rel (ls_sv ls) (ls_sv ls1)"
      using rel_round [of en ls] Cons.prems(2) Round r by (simp add: event_good_def)
    then show ?thesis
      using Cons Round r rel_end [OF Cons.prems(1)] trans_rel [OF _ rel_end [OF Cons.prems(1)], of "ls_sv ls" ls1] trans_rel
      by (auto split: option.split)
  next
    case (PollerTick env)
    have "rel (ls_sv ls) (snd (read_poller env True (ls_sv ls)))"
      using rel_poll Cons.prems(2) PollerTick by (simp add: event_good_def)
    then show ?thesis using Cons.IH [of "map_sv (\<lambda>sv. snd (read_poller env True sv)) ls"] Cons.prems PollerTick trans_rel
      by (auto simp: map_sv_def)
  next
    case Interrupt
    then show ?thesis using rel_end [OF Cons.prems(1)] by simp
  qed
qed

end

subsection \<open>What a session keeps\<close>

text \<open>The store is only changed by its own operations.\<close>

lemma store_cong: "sv_flusher sv' = sv_flusher sv \<Longrightarrow> sv_store sv' = sv_store sv"
  by (simp add: sv_store_def)

interpretation store_session: session_contract s "\<lambda>_. True" "\<lambda>sv sv'. store_reaches (sv_store sv) (sv_store sv')" for s
proof unfold_locales
  show "store_reaches (sv_store sv) (sv_store sv'')"
    if "store_reaches (sv_store sv) (sv_store sv')" "store_reaches (sv_store sv') (sv_store sv'')" for sv sv' sv''
    using that by (rule reaches_trans)
  show "store_reaches (sv_store sv) (sv_store sv')" if "local_step s env sv sv'" for env sv sv'
    using that store_cong [of sv' sv] by (simp add: local_step_def)
qed (simp_all add: reaches_defer)

text \<open>The counter of queued blocks is exact.\<close>

interpretation count_session: session_contract s "\<lambda>_. True" "\<lambda>sv sv'. queue_synced sv \<longrightarrow> queue_synced sv'" for s
proof unfold_locales
  show "queue_synced sv \<longrightarrow> queue_synced sv'" if "local_step s env sv sv'" for env sv sv'
    using that queue_synced_frame [of sv' sv] by (simp add: local_step_def)
  show "queue_synced sv \<longrightarrow> queue_synced (map_metrics (record_hashes t n l) sv)" for t n l sv
    by (simp add: queue_synced_metrics record_hashes_def Let_def)
qed simp_all

text \<open>The difficulty stays in step with the network.\<close>

interpretation difficulty_session: session_contract s "\<lambda>_. True" "\<lambda>sv sv'. difficulty_synced s sv \<longrightarrow> difficulty_synced s sv'" for s
proof unfold_locales
  show "difficulty_synced s sv \<longrightarrow> difficulty_synced s sv'" if "local_step s env sv sv'" for env sv sv'
    using that by (auto simp: local_step_def difficulty_synced_def split: option.splits)
  show "difficulty_synced s sv \<longrightarrow> difficulty_synced s (map_metrics f sv)" for f sv
    using same_difficulty_synced [of sv "map_metrics f sv" s] by simp
  show "difficulty_synced s sv \<longrightarrow> difficulty_synced s (sync_queue (map_store g sv))" for g sv
    using same_difficulty_synced [of sv "sync_queue (map_store g sv)" s] by simp
qed auto

text \<open>The kind of the backend is fixed.\<close>

lemma is_cuda_simps [simp]:
  "is_cuda (sv\<lparr>sv_flusher := f\<rparr>) = is_cuda sv"
  "is_cuda (sv\<lparr>sv_was_in_window := w\<rparr>) = is_cuda sv"
  "is_cuda (map_metrics g sv) = is_cuda sv"
  "is_cuda (map_store h sv) = is_cuda sv"
  "is_cuda (record_accept k sv) = is_cuda sv"
  "is_cuda (sync_queue sv) = is_cuda sv"
  "is_cuda (queue_hit e hit k r sv) = is_cuda sv"
  "is_cuda (network_down sv) = is_cuda sv"
  "is_cuda (snd (read_poller e b sv)) = is_cuda sv"
  "is_cuda (map_cuda c sv) = is_cuda sv"
  "is_cuda (guard_context t d sv) = is_cuda sv"
  by (simp_all add: is_cuda_def map_metrics_def map_store_def record_accept_def sync_queue_def queue_hit_def
      network_down_def map_cuda_def guard_context_def split: miner_backend.split)

lemma is_cuda_apply [simp]: "is_cuda (snd (apply_network_difficulty s e d sv)) = is_cuda sv"
proof -
  have p: "is_cuda (v\<lparr>sv_power := x\<rparr>) = is_cuda v" "is_cuda (begin_difficulty_transition s e v) = is_cuda v"
    "is_cuda (maybe_restore_cuda_lane_cap s e n v) = is_cuda v" for x v n
    by (simp_all add: is_cuda_def begin_difficulty_transition_def maybe_restore_cuda_lane_cap_def map_cuda_def
        split: option.split miner_backend.split)
  show ?thesis by (simp add: apply_network_difficulty_def Let_def p split: option.split)
qed

lemma is_cuda_up [simp]: "is_cuda (network_up s e d sv) = is_cuda sv"
proof -
  have "is_cuda (v\<lparr>sv_network_ok := o1, sv_last_log_ok := l\<rparr>) = is_cuda v" "is_cuda (v\<lparr>sv_network_difficulty := x\<rparr>) = is_cuda v"
    for v o1 l x by (simp_all add: is_cuda_def)
  then show ?thesis by (simp add: network_up_def case_prod_unfold Let_def)
qed

interpretation cuda_session: session_contract s "\<lambda>_. True" "\<lambda>sv sv'. is_cuda sv' = is_cuda sv" for s
proof unfold_locales
  show "is_cuda (snd (run_flush s env b sv)) = is_cuda sv" for env b sv
    by (simp add: run_flush_def case_prod_unfold Let_def)
  show "is_cuda (live_reply env hit k r sv) = is_cuda sv" for env hit k r sv
    by (simp add: live_reply_def live_rejected_def Let_def case_prod_unfold)
  show "is_cuda sv' = is_cuda sv" if "local_step s env sv sv'" for env sv sv'
    using that by (simp add: local_step_def)
qed simp_all

text \<open>The CUDA backend stays within its limits, and its lane cap is the saved one.\<close>

lemma backend_ok_cong: "sv_backend sv' = sv_backend sv \<Longrightarrow> backend_ok s sv' = backend_ok s sv"
  by (simp add: backend_ok_def)

lemma backend_ok_simps [simp]:
  "backend_ok s (sv\<lparr>sv_flusher := f\<rparr>) = backend_ok s sv"
  "backend_ok s (map_metrics g sv) = backend_ok s sv"
  "backend_ok s (map_store h sv) = backend_ok s sv"
  "backend_ok s (record_accept k sv) = backend_ok s sv"
  "backend_ok s (sync_queue sv) = backend_ok s sv"
  "backend_ok s (queue_hit e hit k r sv) = backend_ok s sv"
  "backend_ok s (network_down sv) = backend_ok s sv"
  "backend_ok s (snd (read_poller e b sv)) = backend_ok s sv"
  "backend_ok s (guard_context t d sv) = backend_ok s sv"
  "backend_ok s (begin_difficulty_transition t e sv) = backend_ok s sv"
  by (simp_all add: backend_ok_def map_metrics_def map_store_def record_accept_def sync_queue_def
      queue_hit_def network_down_def guard_context_def begin_difficulty_transition_def)

lemma backend_ok_reply [simp]: "backend_ok s (live_reply e hit kind reply sv) = backend_ok s sv"
  by (simp add: live_reply_def live_rejected_def Let_def case_prod_unfold)

lemma backend_ok_flush [simp]: "backend_ok s (snd (run_flush s env b sv)) = backend_ok s sv"
  by (simp add: run_flush_def case_prod_unfold Let_def)

lemma backend_ok_map_cuda:
  "(\<And>b. cuda_ok s b \<Longrightarrow> cuda_ok s (f b)) \<Longrightarrow> backend_ok s sv \<Longrightarrow> backend_ok s (map_cuda f sv)"
  by (auto simp: backend_ok_def map_cuda_def split: miner_backend.splits)

lemma backend_ok_apply:
  assumes d: "device_ok s env" and b: "backend_ok s sv"
  shows "backend_ok s (snd (apply_network_difficulty s env raw sv))"
proof -
  have r: "backend_ok s (maybe_restore_cuda_lane_cap s env n v)" if "backend_ok s v" for n v
  proof -
    have "cuda_ok s c \<Longrightarrow> cuda_ok s (fst (backend_restore_lane_cap (ss_cuda s) t n c))" for t c
      using step_ok [of s c env "RestoreCap t n" _ t _ _ _ _ n] d by (simp add: backend_step_def)
    then show ?thesis using that
      by (auto simp: maybe_restore_cuda_lane_cap_def intro!: backend_ok_map_cuda split: option.split)
  qed
  have "backend_ok s (v\<lparr>sv_power := x\<rparr>) = backend_ok s v" for v x by (simp add: backend_ok_def)
  then show ?thesis using b r by (simp add: apply_network_difficulty_def Let_def split: option.split)
qed

lemma backend_ok_up:
  assumes d: "device_ok s env" and b: "backend_ok s sv"
  shows "backend_ok s (network_up s env raw sv)"
proof -
  have c: "cuda_ok s c \<Longrightarrow> cuda_ok s (cuda_set_difficulty (ss_cuda s) (se_engine env) n c)" for n c
    using step_ok [of s c env "SetBackendDifficulty (se_engine env) n" _ _ _ _ _ _ n] d by (simp add: backend_step_def)
  have q: "backend_ok s (v\<lparr>sv_network_ok := True, sv_last_log_ok := l\<rparr>) = backend_ok s v"
    "backend_ok s (v\<lparr>sv_network_difficulty := x\<rparr>) = backend_ok s v" for v l x
    by (simp_all add: backend_ok_def)
  show ?thesis using b backend_ok_apply [OF d b]
    by (auto simp: network_up_def case_prod_unfold Let_def q intro!: backend_ok_map_cuda c)
qed

interpretation backend_session: session_contract s "device_ok s" "\<lambda>sv sv'. backend_ok s sv \<longrightarrow> backend_ok s sv'" for s
proof unfold_locales
  show "backend_ok s (snd (read_poller env b sv)) \<longrightarrow> backend_ok s (network_up s env d (snd (read_poller env b sv)))"
    if "device_ok s env" for env b sv d
    using backend_ok_up [OF that] by blast
  show "backend_ok s sv \<longrightarrow> backend_ok s (sv\<lparr>sv_was_in_window := w\<rparr>)" for sv w
    by (simp add: backend_ok_def)
  show "backend_ok s sv \<longrightarrow> backend_ok s sv'" if "device_ok s env" "local_step s env sv sv'" for env sv sv'
    using that by (simp add: local_step_def)
qed auto

end
