(* ===== verification/CudaMine.thy ===== *)
theory CudaMine
  imports CudaInv
begin

text \<open>
  What a mined batch reports, and concrete runs of the backend.  A batch reports one hit: the first
  match of the first lane that has one.
\<close>

subsection \<open>The result of a batch\<close>

fun first_hit :: "mine_env \<Rightarrow> int \<Rightarrow> nat list \<Rightarrow> block_hit option" where
  "first_hit env d [] = None"
| "first_hit env d (lane # lanes) = (case hit_from_result env d (mv_run env lane) of
     Some h \<Rightarrow> Some h | None \<Rightarrow> first_hit env d lanes)"

definition batch_attempts :: "mine_env \<Rightarrow> nat list \<Rightarrow> int" where
  "batch_attempts env lanes = sum_list (map (\<lambda>l. cr_attempts (mv_run env l)) lanes)"

definition lanes_ok :: "mine_env \<Rightarrow> nat list \<Rightarrow> bool" where
  "lanes_ok env lanes = list_all (\<lambda>l. cr_ok (mv_run env l)) lanes"

lemma run_lanes_result:
  "run_lanes env d lanes t = Inr (t', a) \<Longrightarrow> \<exists>k \<le> length lanes. lanes_ok env (take k lanes)
    \<and> lt_hashes t' = lt_hashes t + batch_attempts env (take k lanes)
    \<and> lt_hit t' = (case lt_hit t of Some h \<Rightarrow> Some h | None \<Rightarrow> first_hit env d (take k lanes))
    \<and> (a = None \<longleftrightarrow> k = length lanes)"
proof (induction lanes arbitrary: t)
  case Nil
  then show ?case by (auto simp: lanes_ok_def batch_attempts_def split: option.split)
next
  case (Cons lane lanes)
  show ?case
  proof (cases "aborts env (Suc (lt_lanes_done t))")
    case True
    with Cons.prems show ?thesis
      by (intro exI [of _ 0]) (auto simp: lanes_ok_def batch_attempts_def split: option.split)
  next
    case False
    with Cons.prems have ok: "cr_ok (mv_run env lane)" by (auto split: if_splits)
    with False Cons obtain k where k: "k \<le> length lanes" "lanes_ok env (take k lanes)"
      "lt_hashes t' = lt_hashes (add_lane env d max (mv_run env lane) t) + batch_attempts env (take k lanes)"
      "lt_hit t' = (case lt_hit (add_lane env d max (mv_run env lane) t) of Some h \<Rightarrow> Some h
         | None \<Rightarrow> first_hit env d (take k lanes))"
      "a = None \<longleftrightarrow> k = length lanes" by fastforce
    then show ?thesis using ok
      by (intro exI [of _ "Suc k"]) (auto simp: lanes_ok_def batch_attempts_def add_lane_def split: option.split)
  qed
qed

lemma run_lanes_total:
  "mv_abort env = None \<Longrightarrow> lanes_ok env lanes \<Longrightarrow> \<exists>t'. run_lanes env d lanes t = Inr (t', None)"
  by (induction lanes arbitrary: t) (auto simp: lanes_ok_def aborts_def)

lemma join_lanes_result:
  "join_lanes env d lanes t = Inr t' \<Longrightarrow> lanes_ok env lanes
    \<and> lt_hashes t' = lt_hashes t + batch_attempts env lanes
    \<and> lt_hit t' = (case lt_hit t of Some h \<Rightarrow> Some h | None \<Rightarrow> first_hit env d lanes)"
proof (induction lanes arbitrary: t)
  case Nil
  then show ?case by (auto simp: lanes_ok_def batch_attempts_def split: option.split)
next
  case (Cons lane lanes)
  from Cons.prems have ok: "cr_ok (mv_run env lane)" by (auto split: if_splits)
  with Cons.IH [of "add_lane env d (\<lambda>x y. fl (x + y)) (mv_run env lane) t"] Cons.prems show ?case
    by (auto simp: lanes_ok_def batch_attempts_def add_lane_def split: option.splits)
qed

text \<open>
  A batch of a running backend that does not raise has run some of its lanes, each of them
  successfully: all of them unless it was aborted.  It reports the attempts of the lanes that ran
  and, of all their matches, one hit: the first match of the first lane that has any, which
  carries the difficulty it was mined at.
\<close>

theorem mine_batch_result:
  assumes "cb_started b" "fst (cuda_mine_batch env b) = Inr r" "0 \<le> cb_lanes b"
    and "set (mv_completed env) = {0..<nat (cb_lanes b)}"
  shows "\<exists>lanes. lanes_ok env lanes \<and> set lanes \<subseteq> {0..<nat (cb_lanes b)}
    \<and> mb_hashes_done r = batch_attempts env lanes \<and> mb_hit r = first_hit env (cb_difficulty b) lanes
    \<and> (mb_aborted r \<or> set lanes = {0..<nat (cb_lanes b)})"
proof -
  consider "aborts env 0" | "\<not> aborts env 0" "\<not> (cb_lanes b > 1 \<and> cb_parallel_mode b \<noteq> Sequential)"
    | "\<not> aborts env 0" "cb_lanes b > 1 \<and> cb_parallel_mode b \<noteq> Sequential" by blast
  then show ?thesis
  proof cases
    case 1
    with assms(1,2) show ?thesis
      by (intro exI [of _ "[]"]) (auto simp: cuda_mine_batch_def lanes_ok_def batch_attempts_def mb_aborted_def)
  next
    case 2
    with assms(1,2) obtain t a where t: "run_lanes env (cb_difficulty b) [0..<nat (cb_lanes b)] no_totals = Inr (t, a)"
      "r = \<lparr>mb_hashes_done = lt_hashes t, mb_hit = lt_hit t, mb_abort = a\<rparr>"
      by (auto simp: cuda_mine_batch_def Let_def split: sum.splits)
    from run_lanes_result [OF t(1)] obtain k where k: "lanes_ok env (take k [0..<nat (cb_lanes b)])"
      "lt_hashes t = batch_attempts env (take k [0..<nat (cb_lanes b)])"
      "lt_hit t = first_hit env (cb_difficulty b) (take k [0..<nat (cb_lanes b)])"
      "a = None \<longleftrightarrow> k = nat (cb_lanes b)" "k \<le> nat (cb_lanes b)"
      by (auto simp: no_totals_def)
    then show ?thesis using t(2)
      by (intro exI [of _ "take k [0..<nat (cb_lanes b)]"]) (auto simp: mb_aborted_def)
  next
    case 3
    with assms(1,2) obtain t where t: "join_lanes env (cb_difficulty b) (mv_completed env) no_totals = Inr t"
      "mb_hashes_done r = lt_hashes t" "mb_hit r = lt_hit t"
      by (auto simp: cuda_mine_batch_def Let_def split: sum.splits)
    with join_lanes_result [OF t(1)] assms(4) show ?thesis
      by (intro exI [of _ "mv_completed env"]) (auto simp: no_totals_def)
  qed
qed

subsection \<open>A concrete device\<close>

definition sample_limits :: vram_limits where
  "sample_limits = \<lparr>vl_target_pct = 50, vl_desktop_headroom_pct = 25, vl_emergency_vram_pct = 90,
     vl_min_headroom_pct = 10, vl_runtime_overhead_pct = 5, vl_min_headroom_floor_mib = 8,
     vl_overhead_floor_mib = 8, vl_emergency_free_floor_mib = 8, vl_target_mib_override = 64,
     vl_headroom_mib_override = 64, vl_emergency_mib_override = 240, vl_min_headroom_mib_override = 16,
     vl_runtime_overhead_mib_override = 8\<rparr>"

definition sample_settings :: cuda_settings where
  "sample_settings = \<lparr>cs_memory_cost = 100, cs_batch_size = 0, cs_max_batch_size = 0, cs_max_lanes = 4,
     cs_lane_reserve = 0, cs_min_batch_per_lane = 1, cs_pack_mode = ''coverage'', cs_allow_dll_copies = False,
     cs_limits = sample_limits,
     cs_account_desktop = True, cs_safety_margin_mib = 0,
     cs_clock_curve_enabled = False, cs_clock_low_difficulty = 100, cs_fill_low = 1, cs_fill_ref = 1,
     cs_fill_high = 1, cs_full_ratio = 2, cs_reference_difficulty = 1100, cs_lane_bias = False,
     cs_full_pack_ratio = 1 / 2, cs_batch_min_scale = 1 / 2, cs_batch_enabled = True, cs_lane_enabled = True,
     cs_lane_min = 1, cs_soft_derate_enabled = True, cs_soft_lane_enabled = True, cs_soft_min_scale = 1 / 2,
     cs_warn_temp_c = 78, cs_max_temp_c = 82\<rparr>"

definition sample_env :: engine_env where
  "sample_env = \<lparr>ee_parallel_lanes = False, ee_init_ok = True, ee_device = Some (256 * 1048576, 256 * 1048576),
     ee_lane_count_ok = (\<lambda>_. True), ee_copy_ok = (\<lambda>_. True)\<rparr>"

lemma sample_caps:
  "vc_total_mib (resolve_vram_caps n sample_limits) = max 1 n"
  "vc_headroom_mib (resolve_vram_caps 256 sample_limits) = 64"
  "vc_target_mib (resolve_vram_caps 256 sample_limits) = 64"
  "vc_runtime_overhead_mib (resolve_vram_caps 256 sample_limits) = 8"
  by (simp_all only: resolve_fields Let_def) (simp_all add: mib_of_pct_def sample_limits_def)

lemma sample_sizes:
  "memory_limited_batch_size (58720256 + cuda_engine_reserve_bytes) 100 cuda_engine_reserve_bytes = 572"
  "estimate_batch_vram_bytes 572 100 = 58631372"
  "py_int (fl (fint 58720256 / bytes_per_attempt 100)) = 572"
  "\<not> bytes_per_attempt 100 \<le> 0" "\<not> clamp_fill_fraction 1 < fl (999 / 1000)"
  by code_simp+

definition sample_request :: batch_request where
  "sample_request = \<lparr>br_total_bytes = 268435456, br_free_bytes = 268435456, br_target_mib = 64,
      br_desktop_headroom_mib = 64, br_difficulty = 100,
      br_reference_difficulty = 1100, br_max_lanes = 4,
      br_lane_reserve = 0, br_explicit_batch = 0, br_explicit_max_batch = 0,
      br_runtime_overhead_mib = 8,
      br_min_batch_per_lane = 1, br_pack_mode = ''coverage'',
      br_foreign_used_mib = 0, br_safety_margin_mib = 0,
      br_concurrent_vram_lanes = Some 1,
      br_budget_fill_fraction = 1\<rparr>"

lemma sample_request_budget: "request_budget sample_request = (58720256, 64)"
  by (simp add: request_budget_def sample_request_def vram_cap_batch_budget_bytes_def sample_sizes)

lemma sample_lanes: "sequential_lanes sample_request 58720256 = 4"
  by (simp add: sequential_lanes_def sample_request_def default_absolute_max_lanes_def) code_simp

lemma sample_fields:
  "br_total_bytes sample_request = 268435456" "br_free_bytes sample_request = 268435456"
  "br_target_mib sample_request = 64" "br_desktop_headroom_mib sample_request = 64"
  "br_difficulty sample_request = 100" "br_explicit_batch sample_request = 0"
  "br_explicit_max_batch sample_request = 0" "br_runtime_overhead_mib sample_request = 8"
  "br_safety_margin_mib sample_request = 0" "br_foreign_used_mib sample_request = 0"
  "br_concurrent_vram_lanes sample_request = Some 1" "br_lane_reserve sample_request = 0"
  by (simp_all add: sample_request_def)

lemma sample_select: "select_batch_size 58720256 100 0 True = 572"
  using sample_sizes(1) by (simp add: select_batch_size_def)

lemma sample_top_up: "top_up_batch sample_request 58720256 1 572 = 572"
  using sample_sizes(3,4) by (simp add: top_up_batch_def sample_fields)

definition sample_blank :: cuda_vram_plan where
  "sample_blank = \<lparr>vp_lanes = 4, vp_batch_per_lane = 572, vp_lane_reserve = 0,
            vp_budget_bytes = 58720256, vp_budget_mib = 56,
            vp_batch_vram_bytes = 0, vp_batch_vram_mib = 0, vp_used_before_mib = 0,
            vp_projected_used_mib = 0, vp_projected_headroom_mib = 0,
            vp_runtime_overhead_mib = 8, vp_target_mib = 64,
            vp_effective_target_mib = 64, vp_vram_scale = 1,
            vp_desktop_headroom_mib = 64, vp_difficulty = 100,
            vp_foreign_used_mib = 0, vp_concurrent_vram_lanes = 1\<rparr>"

definition sample_base :: cuda_vram_plan where
  "sample_base = make_plan sample_blank 256 4 572 1"

lemma sample_base_within: "within_limits sample_base"
  by (simp add: sample_base_def within_limits_def make_plan_def plan_projection_def sample_blank_def sample_sizes)

lemma sample_planned: "plan_cuda_batch sample_request = sample_base"
proof -
  have "plan_cuda_batch sample_request = clamp_plan_to_caps sample_base"
    by (simp add: plan_cuda_batch_def sample_request_budget sample_lanes sample_fields sample_select
        sample_top_up sample_base_def sample_blank_def)
  then show ?thesis by (simp add: clamp_plan_to_caps_def sample_base_within)
qed

lemma sample_limit: "lane_memory_limit sample_base 100 = 572"
proof -
  have "effective_concurrent_vram_lanes sample_base = 1" "vp_budget_bytes sample_base = 58720256"
    by (simp_all add: sample_base_def conc_make) (simp add: sample_blank_def)
  then show ?thesis using sample_sizes(1) by (simp add: lane_memory_limit_def)
qed

definition sample_backend :: cuda_backend where
  "sample_backend = init_backend sample_settings NoFile"

lemma sample_started: "cb_started (snd (cuda_start sample_settings sample_env sample_backend))"
proof -
  let ?c = "resolve_vram_caps 32768 sample_limits" and ?d = "resolve_vram_caps 256 sample_limits"
  have b: "cb_vram_caps sample_backend = None" "cb_started sample_backend = False" "cb_difficulty sample_backend = 100"
    "cb_parallel_mode sample_backend = Sequential" "cb_vram_plan sample_backend = None" "cb_max_lanes_cap sample_backend = 4"
    by (simp_all add: sample_backend_def init_backend_def load_lane_policy_def sample_settings_def Let_def)
  have l: "cs_limits sample_settings = sample_limits" "cs_account_desktop sample_settings"
    by (simp_all add: sample_settings_def)
  let ?b = "sample_backend\<lparr>cb_vram_caps := Some ?d, cb_desktop_baseline_mib := 0, cb_foreign_vram_mib := 0\<rparr>"
  have c1: "caps_for_total sample_settings 32768 sample_backend = (?c, sample_backend\<lparr>cb_vram_caps := Some ?c\<rparr>)"
    by (simp add: caps_for_total_def Let_def b l)
  have c2: "caps_for_total sample_settings 256 (sample_backend\<lparr>cb_vram_caps := Some ?c,
        cb_desktop_baseline_mib := 0, cb_foreign_vram_mib := 0\<rparr>) = (?d, ?b)"
    by (simp add: caps_for_total_def Let_def l sample_caps(1))
  have c3: "caps_for_total sample_settings 256 ?b = (?d, ?b)"
    by (simp add: caps_for_total_def Let_def l sample_caps(1))
  have f: "account_foreign sample_settings 0 ?b = (0, ?b)"
    by (simp add: account_foreign_def Let_def l b)
  have r: "plan_request sample_settings sample_env (268435456, 268435456) 100 ?d 0 ?b = sample_request"
    using sample_caps(2-4) by (simp add: plan_request_def sample_request_def b concurrent_vram_lanes_hint_def
      sample_env_def plan_pack_mode_def fill_fraction_def sample_settings_def) code_simp
  have a: "accept_plan sample_settings 100 sample_base = Inr sample_base"
    using sample_base_within by (simp add: accept_plan_def)
      (simp add: sample_base_def make_plan_def plan_projection_def sample_blank_def sample_sizes fills_budget_def)
  have p: "plan_from_device sample_settings sample_env (268435456, 268435456) 100 ?b = (Inr sample_base, ?b)"
    by (simp add: plan_from_device_def Let_def mib_of_bytes_def c3 f r sample_planned a)
  have "batch_fits sample_settings sample_base 100"
    using sample_limit by (simp add: batch_fits_def sample_settings_def) (simp add: sample_base_def)
  then show ?thesis
  proof -
    have e: "ee_init_ok sample_env" "ee_device sample_env = Some (268435456, 268435456)"
      by (simp_all add: sample_env_def)
    have m: "max 0 (mib_of_bytes (fst (268435456, 268435456) - snd (268435456, 268435456))) = 0"
      "max 1 (mib_of_bytes (fst (268435456, 268435456))) = 256" by (simp_all add: mib_of_bytes_def)
    have d: "cb_difficulty ?b = 100" by (simp add: b)
    show ?thesis
      unfolding cuda_start_def b(2) c1 e Let_def option.case prod.case if_False m c2 d p sum.case
      using \<open>batch_fits sample_settings sample_base 100\<close> e by simp
  qed
qed

definition sample_events :: "backend_event list" where
  "sample_events = [StartBackend sample_env, ThermalCap sample_env 2]"

lemma sync_thermal_cap [simp]: "cb_thermal_lane_cap (sync_lane_engines s env b) = cb_thermal_lane_cap b"
  using same_plan_sync [of b s env] by (simp add: same_plan_def)

lemma apply_thermal_cap [simp]: "cb_thermal_lane_cap (apply_plan s p q b) = cb_thermal_lane_cap b"
  by (simp add: apply_plan_def Let_def)

lemma reapply_keeps [simp]:
  "cb_started (fst (reapply_live_caps s env b)) = cb_started b"
  "cb_thermal_lane_cap (fst (reapply_live_caps s env b)) = cb_thermal_lane_cap b"
  by (simp_all add: reapply_live_caps_def Let_def split: option.split)

lemma sample_run:
  "cb_started (backend_run sample_settings sample_events sample_backend)"
  "cb_thermal_lane_cap (backend_run sample_settings sample_events sample_backend) = Some 2"
  using sample_started
  by (simp_all add: backend_run_def sample_events_def backend_step_def set_thermal_lane_cap_def)

theorem backend_within_limits_witness:
  "cb_lanes (backend_run sample_settings sample_events (init_backend sample_settings NoFile)) \<le> 2
   \<and> within_limits (the (cb_vram_plan (backend_run sample_settings sample_events (init_backend sample_settings NoFile))))"
proof -
  let ?b = "backend_run sample_settings sample_events (init_backend sample_settings NoFile)"
  have "0 \<le> vl_min_headroom_floor_mib (cs_limits sample_settings)"
    by (simp add: sample_settings_def sample_limits_def)
  moreover have "list_all event_ok sample_events"
    by (simp add: sample_events_def event_ok_def env_ok_def sample_env_def size_bound_def)
  moreover have "cb_started ?b" using sample_run(1) by (simp add: sample_backend_def)
  ultimately have w: "\<exists>plan. cb_vram_plan ?b = Some plan \<and> within_limits plan
    \<and> cb_lanes ?b = vp_lanes plan \<and> 1 \<le> cb_lanes ?b \<and> list_all (\<lambda>c. cb_lanes ?b \<le> max 1 c) (live_caps ?b)
    \<and> 0 \<le> cb_batch_per_lane ?b \<and> cb_batch_per_lane ?b \<le> vp_batch_per_lane plan
    \<and> cb_batch_per_lane ?b = apply_batch_scale (vp_batch_per_lane plan) (combined_batch_scale sample_settings ?b)"
    by (rule backend_within_limits [OF _ _ refl])
  have "cb_thermal_lane_cap ?b = Some 2" using sample_run(2) by (simp add: sample_backend_def)
  then have "2 \<in> set (live_caps ?b)" by (simp add: live_caps_def)
  with w show ?thesis by (auto simp: list_all_iff)
qed

text \<open>Two lanes with a match each, the first of them with two: one hit is reported.\<close>

definition sample_match :: "string \<Rightarrow> cuda_match" where
  "sample_match key = \<lparr>cm_key = key, cm_hash = ''XEN11'', cm_pattern = []\<rparr>"

definition sample_mine :: mine_env where
  "sample_mine = \<lparr>mv_run = (\<lambda>lane. \<lparr>cr_ok = True, cr_attempts = 10, cr_hashrate = 5,
      cr_matches = (if lane = 0 then [sample_match ''a'', sample_match ''b''] else [sample_match ''c''])\<rparr>),
    mv_abort = None, mv_completed = [0, 1], mv_elapsed = 1, mv_strategy = ''cuda'', mv_now = ''now''\<rparr>"

definition sample_two_lanes :: cuda_backend where
  "sample_two_lanes = sample_backend\<lparr>cb_started := True, cb_lanes := 2\<rparr>"

theorem mine_batch_result_witness:
  "\<exists>r lanes. fst (cuda_mine_batch sample_mine sample_two_lanes) = Inr r
    \<and> mb_hashes_done r = batch_attempts sample_mine lanes \<and> set lanes = {0, 1}
    \<and> mb_hit r = first_hit sample_mine (cb_difficulty sample_two_lanes) lanes"
proof -
  have two: "nat (cb_lanes sample_two_lanes) = 2" "cb_started sample_two_lanes" "0 \<le> cb_lanes sample_two_lanes"
    "cb_parallel_mode sample_two_lanes = Sequential" "\<not> aborts sample_mine 0"
    by (simp_all add: sample_two_lanes_def sample_backend_def init_backend_def Let_def aborts_def sample_mine_def)
  have "mv_abort sample_mine = None" "lanes_ok sample_mine [0..<2]"
    by (simp_all add: sample_mine_def lanes_ok_def list_all_iff)
  from run_lanes_total [OF this] obtain t where
    "run_lanes sample_mine (cb_difficulty sample_two_lanes) [0..<2] no_totals = Inr (t, None)" by blast
  then obtain r where r: "fst (cuda_mine_batch sample_mine sample_two_lanes) = Inr r" "\<not> mb_aborted r"
    using two by (simp add: cuda_mine_batch_def Let_def mb_aborted_def)
  have "set (mv_completed sample_mine) = {0..<nat (cb_lanes sample_two_lanes)}"
    unfolding two by (auto simp: sample_mine_def)
  from mine_batch_result [OF two(2) r(1) two(3) this] r(2) obtain lanes where
    "mb_hashes_done r = batch_attempts sample_mine lanes" "set lanes = {0..<2}"
    "mb_hit r = first_hit sample_mine (cb_difficulty sample_two_lanes) lanes" unfolding two by blast
  moreover have "{0..<2} = {0, Suc 0}" by auto
  ultimately show ?thesis using r(1) by auto
qed

end
