(* ===== verification/SessionProps.thy ===== *)
theory SessionProps
  imports Session CudaMine
begin

text \<open>
  The properties of a session of the miner: what it keeps from start to end, what happens to a
  found hit, when nothing is sent, and what heat does to it.
\<close>

subsection \<open>From start to end\<close>

text \<open>The guard was set up from the settings.\<close>

definition guard_matches :: "sup_settings \<Rightarrow> vram_guard \<Rightarrow> bool" where
  "guard_matches s g \<longleftrightarrow> vg_max_temp_c g = tl_die_max_c (ss_temp_limits s)
     \<and> vg_max_board_temp_c g = tl_board_max_c (ss_temp_limits s)"

lemma startup_store [simp]:
  "sv_store (connect_network s env polled sv) = sv_store sv" "sv_store (start_mining s env sv) = sv_store sv"
  by (simp_all add: connect_network_def start_mining_def Let_def case_prod_unfold sv_store_def split: option.split)

lemma startup_reaches: "store_reaches (sv_store sv) (sv_store (run_startup s env today polled sv))"
proof -
  have step: "store_reaches st (fst (import_pending_from_jsonl False st))" "store_reaches st (fst (migrate_rejected_pending st))"
    "store_reaches st (fst (reclassify_pending st))" for st
    using reaches_step [of st "Import False"] reaches_step [of st Migrate] reaches_step [of st Reclassify]
    by (simp_all add: store_step_def)
  have "store_reaches (sv_store sv) (sv_store (connect_network s env polled (recover_queue today sv)))"
    using reaches_trans [OF reaches_trans [OF step(1) step(2)] step(3)] by (simp add: recover_queue_def)
  from reaches_trans [OF this stored.rel_resume] show ?thesis by (simp add: run_startup_def)
qed

lemma session_reaches:
  "store_reaches (sv_store (ls_sv ls)) (sv_store (ls_sv (run_session s env today polled stop_at last_env es ls)))"
proof -
  have g: "list_all (session_contract.event_good (\<lambda>_. True)) es"
    by (simp add: list_all_iff store_session.event_good_def store_session.env_good_def split: session_event.split)
  show ?thesis unfolding run_session_def
    by (rule reaches_trans [OF _ store_session.rel_loop [OF TrueI g]])
      (simp add: map_sv_def startup_reaches)
qed

text \<open>
  C8: whatever happens in a session of the miner (found hits, network failures, changed
  difficulties, flushes, heat, failures of the engine, interrupts), from the recovery of the queue
  at its start to the shutdown, no block leaves the queue's table: every row is still there with
  its id, key and hash, its reject count does not shrink, and it is pending unless its submission
  is on record.
\<close>

theorem session_never_loses_block:
  assumes "store_inv (sv_store (ls_sv ls))" "r \<in> set (pending_blocks (sv_store (ls_sv ls)))"
    and "st' = sv_store (ls_sv (run_session s env today polled stop_at last_env es ls))"
  shows "store_inv st' \<and> (\<exists>r'. r' \<in> set (pending_blocks st') \<and> row_ident r' = row_ident r
    \<and> p_reject_count r \<le> p_reject_count r' \<and> (is_pending r' \<or> p_key r' \<in> submitted_keys st'))"
proof -
  from session_reaches [of ls s env today polled stop_at last_env es] assms(3)
  obtain evs where st': "st' = store_run evs (sv_store (ls_sv ls))" by (auto simp: store_reaches_def)
  have inv: "store_inv st'" unfolding st' by (rule store_inv_run [OF assms(1)])
  obtain r' where r': "r' \<in> set (pending_blocks st')" "row_le r r'"
    using keeps_row [OF keeps_run assms(2)] unfolding st' by blast
  from r'(2) have "row_ident r' = row_ident r" "p_reject_count r \<le> p_reject_count r'" by (simp_all add: row_le_def)
  moreover have "is_pending r' \<or> p_key r' \<in> submitted_keys st'"
    using store_invD(3) [OF inv r'(1)] by (auto simp: row_ok_def)
  ultimately show ?thesis using r'(1) inv by blast
qed

text \<open>
  C17: whenever a session has come to rest between two of its events, the number of queued blocks
  that its statistics show is what \<open>pending_count\<close> reports for the database at that moment.  It is
  never more than the number of pending rows, and it is that number when the labels of the pending
  rows are the three canonical ones; with other labels \<open>pending_count\<close> itself can be too low.
\<close>

theorem session_counts_queue:
  assumes "sv = ls_sv (run_session s env today polled stop_at last_env es ls)" "fl_metrics (sv_flusher sv) = Some m"
  shows "queued (stats m) = int (pending_count None (sv_store sv))
    \<and> queued (stats m) \<le> int (length (pending (sv_store sv)))
    \<and> (p_block_type ` set (pending (sv_store sv)) \<subseteq> canonical_types \<longrightarrow>
         queued (stats m) = int (length (pending (sv_store sv))))"
proof -
  have g: "list_all (session_contract.event_good (\<lambda>_. True)) es"
    by (simp add: list_all_iff count_session.event_good_def count_session.env_good_def split: session_event.split)
  have "queue_synced (start_mining s env v) = queue_synced v" for v
    using queue_synced_frame [of "start_mining s env v" v] by (simp add: start_mining_def)
  then have "queue_synced (run_startup s env today polled (ls_sv ls))" by (simp add: run_startup_def)
  then have "queue_synced sv"
    using count_session.rel_loop [OF TrueI g, of "map_sv (run_startup s env today polled) ls" s stop_at last_env] assms(1)
    by (simp add: run_session_def map_sv_def)
  then have q: "queued (stats m) = int (pending_count None (sv_store sv))" using assms(2) by (simp add: queue_synced_def)
  have "selected_rows None (sv_store sv) = pending (sv_store sv)"
    by (simp add: selected_rows_def resubmission_clause_def)
  with q pending_count_exact [of None "sv_store sv"] show ?thesis by simp
qed

lemma connect_difficulty:
  assumes p: "poller_positive polled" "0 < ss_memory_cost s"
    and g: "hc_difficulty (vg_context (sv_guard sv)) = ss_memory_cost s" and n: "sv_network_difficulty sv = None"
  shows "difficulty_synced s (connect_network s env polled sv)"
proof (cases "ps_difficulty (pl_status polled)")
  case None
  let ?v = "connect_network s env polled sv"
  have "sv_poller ?v = polled" "sv_network_difficulty ?v = Some (ss_memory_cost s)" "sv_guard ?v = sv_guard sv"
    "mining_difficulty s ?v = ss_memory_cost s"
    using None p(2) by (simp_all add: connect_network_def map_cuda_def mining_difficulty_def set_difficulty_cuda int_or_def
        Let_def split: miner_backend.split)
  with p g show ?thesis by (simp add: difficulty_synced_def)
next
  case (Some d)
  let ?sv = "sv\<lparr>sv_poller := polled\<rparr>"
  from p(1) Some have d: "0 < d" by (simp add: poller_positive_def)
  have "difficulty_synced s (network_up s env d ?sv)" using p(1) n by (intro network_up_difficulty d) simp_all
  moreover have "same_difficulty (network_up s env d ?sv) (connect_network s env polled sv)"
    using Some n by (simp add: connect_network_def network_up_def same_difficulty_def Let_def case_prod_unfold
        map_cuda_def split: miner_backend.split)
  ultimately show ?thesis by (simp add: same_difficulty_synced)
qed

lemma init_supervisor_spec:
  assumes "sv = init_supervisor s env f backend p gpu_pw" "0 < ss_memory_cost s"
  shows "hc_difficulty (vg_context (sv_guard sv)) = ss_memory_cost s" "sv_network_difficulty sv = None"
    "guard_matches s (sv_guard sv)"
  using assms(2) unfolding assms(1)
  by (auto simp: init_supervisor_def apply_vram_policy_def configure_guard_def guard_context_def set_difficulty_context_def
      guard_for_def init_guard_def guard_matches_def map_cuda_def Let_def split: option.split miner_backend.split)

lemma apply_vram_policy_context:
  assumes "hc_difficulty (vg_context (sv_guard sv)) = ss_memory_cost s" "mining_difficulty s sv = ss_memory_cost s"
    and "0 < ss_memory_cost s"
  shows "hc_difficulty (vg_context (sv_guard (apply_vram_policy s env fresh t sv))) = ss_memory_cost s"
    "mining_difficulty s (apply_vram_policy s env fresh t sv) = ss_memory_cost s"
    "sv_network_difficulty (apply_vram_policy s env fresh t sv) = sv_network_difficulty sv"
proof -
  have m: "mining_difficulty s (sv\<lparr>sv_vram_caps := c, sv_guard := g\<rparr>) = mining_difficulty s sv" for c g
    by (simp add: mining_difficulty_def split: miner_backend.split)
  show "hc_difficulty (vg_context (sv_guard (apply_vram_policy s env fresh t sv))) = ss_memory_cost s"
    using assms by (auto simp: apply_vram_policy_def configure_guard_def configure_guard_temp_context_def m guard_context_def
        set_difficulty_context_def map_cuda_def Let_def split: option.split miner_backend.split)
  show "mining_difficulty s (apply_vram_policy s env fresh t sv) = ss_memory_cost s"
    using assms by (auto simp: apply_vram_policy_def configure_guard_def configure_guard_temp_context_def guard_context_def
        map_cuda_def mining_difficulty_def set_vram_caps_def Let_def split: option.split miner_backend.splits)
  show "sv_network_difficulty (apply_vram_policy s env fresh t sv) = sv_network_difficulty sv"
    by (auto simp: apply_vram_policy_def configure_guard_def configure_guard_temp_context_def guard_context_def
        map_cuda_def Let_def split: option.split miner_backend.splits)
qed

text \<open>What the constructor sets up for the CUDA backend, and what the checks of the start keep of it.\<close>

lemma checked_supervisor_spec:
  assumes "sv0 = init_supervisor s env0 f (CudaNativeBackend (init_backend (ss_cuda s) policy)) p gpu_pw"
    and "cs_memory_cost (ss_cuda s) = ss_memory_cost s" "0 < ss_memory_cost s"
    and "sv = sv0 \<or> sv = snd (startup_checks s env1 d sv0)"
  shows "hc_difficulty (vg_context (sv_guard sv)) = ss_memory_cost s" "sv_network_difficulty sv = None"
proof -
  have h: "hc_difficulty (vg_context (sv_guard sv0)) = ss_memory_cost s" "sv_network_difficulty sv0 = None"
    using init_supervisor_spec [OF assms(1,3)] by simp_all
  have "mining_difficulty s sv0 = ss_memory_cost s"
    unfolding assms(1) init_supervisor_def using assms(2,3)
    by (intro apply_vram_policy_context(2))
      (auto simp: configure_guard_def guard_context_def set_difficulty_context_def mining_difficulty_def
        init_backend_def Let_def)
  with h apply_vram_policy_context [OF h(1) _ assms(3), of env1 False None] assms(4)
  show "hc_difficulty (vg_context (sv_guard sv)) = ss_memory_cost s" "sv_network_difficulty sv = None"
    by (auto simp: startup_checks_def Let_def split: if_splits)
qed

lemma is_cuda_vram [simp]: "is_cuda (apply_vram_policy s env fresh t sv) = is_cuda sv"
  by (auto simp: apply_vram_policy_def configure_guard_def configure_guard_temp_context_def Let_def is_cuda_def guard_context_def
      map_cuda_def split: option.split miner_backend.split)

lemma is_cuda_startup [simp]: "is_cuda (run_startup s env today polled sv) = is_cuda sv"
proof -
  have p: "is_cuda (v\<lparr>sv_network_difficulty := x, sv_network_ok := o1, sv_last_log_ok := l\<rparr>) = is_cuda v"
    "is_cuda (v\<lparr>sv_poller := q\<rparr>) = is_cuda v" "is_cuda (start_mining s env v) = is_cuda v" for v x o1 l q
    by (simp_all add: is_cuda_def start_mining_def start_backend_def split: miner_backend.split)
  have "is_cuda (snd (run_flush s env b v)) = is_cuda v" for b v by (simp add: run_flush_def case_prod_unfold Let_def)
  then show ?thesis
    by (simp add: run_startup_def connect_network_def recover_queue_def resume_queued_blocks_def Let_def case_prod_unfold p
        split: option.split)
qed

lemma session_cuda:
  assumes "is_cuda (ls_sv ls)"
  shows "is_cuda (ls_sv (run_session s env today polled stop_at last_env es ls))"
proof -
  have g: "list_all (session_contract.event_good (\<lambda>_. True)) es"
    by (simp add: list_all_iff cuda_session.event_good_def cuda_session.env_good_def split: session_event.split)
  show ?thesis
    using cuda_session.rel_loop [OF TrueI g, of s stop_at last_env "map_sv (run_startup s env today polled) ls"] assms
    by (simp add: run_session_def map_sv_def)
qed

text \<open>
  C11: a CUDA session mines at the network's difficulty.  From the start of the supervisor that was
  constructed with a fresh CUDA backend, with or without the checks of the start, the session knows
  a positive network difficulty, the CUDA backend's own difficulty, which its batches are hashed
  with and its hits are labelled with, is that one, and the temperature guard is set for it,
  whatever the network reports in between.
\<close>

theorem session_mines_network_difficulty:
  assumes "sv0 = init_supervisor s env0 f (CudaNativeBackend (init_backend (ss_cuda s) policy)) net_poller gpu_pw"
    and "cs_memory_cost (ss_cuda s) = ss_memory_cost s" "0 < ss_memory_cost s"
    and "ls_sv ls = sv0 \<or> ls_sv ls = snd (startup_checks s env1 d sv0)"
    and "poller_positive polled" "sv = ls_sv (run_session s env today polled stop_at last_env es ls)"
  shows "\<exists>b. sv_backend sv = CudaNativeBackend b \<and> sv_network_difficulty sv = Some (cb_difficulty b)
    \<and> 0 < cb_difficulty b \<and> hc_difficulty (vg_context (sv_guard sv)) = cb_difficulty b"
proof -
  have g: "list_all (session_contract.event_good (\<lambda>_. True)) es"
    by (simp add: list_all_iff difficulty_session.event_good_def difficulty_session.env_good_def split: session_event.split)
  let ?r = "recover_queue today (ls_sv ls)"
  have "sv_guard ?r = sv_guard (ls_sv ls)" "sv_network_difficulty ?r = sv_network_difficulty (ls_sv ls)"
    by (simp_all add: recover_queue_def map_metrics_def sync_queue_def map_store_def)
  then have "difficulty_synced s (connect_network s env polled ?r)" using assms(3,5) checked_supervisor_spec [OF assms(1-4)] by (intro connect_difficulty) simp_all
  then have "difficulty_synced s (sync_queue (resume_queued_blocks s env (connect_network s env polled ?r)))"
    using tuned.rel_resume [of s "connect_network s env polled ?r" env]
      same_difficulty_synced [of v "sync_queue v" s for v] by simp
  moreover have "difficulty_synced s v \<Longrightarrow> difficulty_synced s (start_mining s env v)" for v
  proof -
    have "mining_difficulty s (start_mining s env v) = mining_difficulty s v"
      by (simp add: start_mining_def start_backend_def mining_difficulty_def split: miner_backend.split)
    moreover have "sv_network_difficulty (start_mining s env v) = sv_network_difficulty v"
      "sv_guard (start_mining s env v) = sv_guard v" "sv_poller (start_mining s env v) = sv_poller v"
      by (simp_all add: start_mining_def)
    ultimately show "difficulty_synced s v \<Longrightarrow> difficulty_synced s (start_mining s env v)"
      by (auto simp: difficulty_synced_def split: option.splits)
  qed
  ultimately have "difficulty_synced s (run_startup s env today polled (ls_sv ls))" by (simp add: run_startup_def)
  then have synced: "difficulty_synced s sv"
    using difficulty_session.rel_loop [OF TrueI g, of s "map_sv (run_startup s env today polled) ls" stop_at last_env] assms(6)
    by (simp add: run_session_def map_sv_def)
  have "is_cuda sv0" unfolding assms(1) init_supervisor_def
    by (simp only: is_cuda_vram configure_guard_def if_True is_cuda_simps) (simp add: is_cuda_def)
  then have "is_cuda (ls_sv ls)" using assms(4) by (auto simp: startup_checks_def Let_def split: if_splits)
  then have "is_cuda sv" unfolding assms(6) by (rule session_cuda)
  then obtain b where "sv_backend sv = CudaNativeBackend b" by (auto simp: is_cuda_def split: miner_backend.splits)
  with synced show ?thesis by (auto simp: difficulty_synced_def mining_difficulty_def split: option.splits)
qed

text \<open>The readings of the device report at most 2 to the 53 bytes, at every point of the session.\<close>

definition devices_ok :: "sup_settings \<Rightarrow> session_event list \<Rightarrow> bool" where
  "devices_ok s es = list_all (\<lambda>e. case e of
       Round en \<Rightarrow> \<forall>p. device_ok s (en_at en p) | PollerTick env \<Rightarrow> device_ok s env | Interrupt \<Rightarrow> True) es"

lemma start_mining_ok: "device_ok s env \<Longrightarrow> backend_ok s sv \<Longrightarrow> backend_ok s (start_mining s env sv)"
  using cuda_steps(2) [of s env] by (auto simp: start_mining_def start_backend_def backend_ok_def cuda_step_def split: miner_backend.splits)

lemma connect_ok:
  assumes "device_ok s env" "backend_ok s sv"
  shows "backend_ok s (connect_network s env polled sv)"
proof -
  have c: "cuda_ok s c \<Longrightarrow> cuda_ok s (cuda_set_difficulty (ss_cuda s) (se_engine env) n c)" for n c
    using step_ok [of s c env "SetBackendDifficulty (se_engine env) n" _ _ _ _ _ _ n] assms(1) by (simp add: backend_step_def)
  have q: "backend_ok s (v\<lparr>sv_network_difficulty := x, sv_network_ok := o1, sv_last_log_ok := l\<rparr>) = backend_ok s v"
    "backend_ok s (v\<lparr>sv_poller := p\<rparr>) = backend_ok s v" for v l x o1 p
    by (simp_all add: backend_ok_def)
  show ?thesis
    using assms(2) backend_ok_apply [OF assms(1), of "sv\<lparr>sv_poller := polled\<rparr>"]
    by (auto simp: connect_network_def Let_def case_prod_unfold q intro!: backend_ok_map_cuda c split: option.split)
qed

lemma backend_ok_vram: "backend_ok s sv \<Longrightarrow> backend_ok s (apply_vram_policy s env fresh t sv)"
proof -
  assume b: "backend_ok s sv"
  have c: "cuda_ok s b \<Longrightarrow> cuda_ok s (set_vram_caps (Some (resolve_vram_caps k (cs_limits (ss_cuda s)))) b)" for b k
    using inv_set_caps by (auto simp: cuda_ok_def cap_saved_def) (simp_all add: set_vram_caps_def)
  have "backend_ok s (configure_guard s fresh (sv\<lparr>sv_vram_caps := x, sv_guard := y\<rparr>))" for x y
    using b by (simp add: configure_guard_def configure_guard_temp_context_def) (simp add: backend_ok_def)
  then show ?thesis using b
    by (auto simp: apply_vram_policy_def Let_def intro!: backend_ok_map_cuda c split: option.split)
qed

lemma constructed_ok:
  assumes "sv0 = init_supervisor s env0 f (CudaNativeBackend (init_backend (ss_cuda s) policy)) p gpu_pw"
    and "sv = sv0 \<or> sv = snd (startup_checks s env1 d sv0)"
  shows "backend_ok s sv"
proof -
  have "backend_ok s sv0" unfolding assms(1) init_supervisor_def
    by (intro backend_ok_vram) (simp add: configure_guard_def, simp add: backend_ok_def cuda_ok_def inv_init cap_saved_init)
  then show ?thesis using assms(2) backend_ok_vram by (auto simp: startup_checks_def Let_def split: if_splits)
qed

text \<open>
  C10: whatever happens in a session with the CUDA backend, from the supervisor as it was constructed
  (with the memory caps of the card where its size can be read), with or without the checks of the
  start, and as long as the device reports sane sizes: while the engine runs, the plan in force
  satisfies its memory limits (target and desktop headroom); the lanes are those of that plan, at
  least one, and obey the caps that heat and memory pressure set; the batch of a lane is between
  zero and the planned one; and the cap on the lanes is the one that a restart would read back
  from the policy file.
\<close>

theorem session_within_limits:
  assumes "sv0 = init_supervisor s env0 f (CudaNativeBackend (init_backend (ss_cuda s) policy)) net_poller gpu_pw"
    and "ls_sv ls = sv0 \<or> ls_sv ls = snd (startup_checks s env1 d sv0)"
    and "device_ok s env" "device_ok s last_env" "devices_ok s es"
    and "sv_backend (ls_sv (run_session s env today polled stop_at last_env es ls)) = CudaNativeBackend b" "cb_started b"
  shows "(\<exists>plan. cb_vram_plan b = Some plan \<and> within_limits plan
      \<and> cb_lanes b = vp_lanes plan \<and> 1 \<le> cb_lanes b \<and> list_all (\<lambda>c. cb_lanes b \<le> max 1 c) (live_caps b)
      \<and> 0 \<le> cb_batch_per_lane b \<and> cb_batch_per_lane b \<le> vp_batch_per_lane plan)
    \<and> cb_max_lanes_cap (init_backend (ss_cuda s) (snd (cb_policy b))) = cb_max_lanes_cap b"
proof -
  have g: "list_all (session_contract.event_good (device_ok s)) es"
    using assms(5) unfolding devices_ok_def
    by (rule list.pred_mono_strong)
      (simp add: backend_session.event_good_def backend_session.env_good_def split: session_event.splits)
  let ?r = "recover_queue today (ls_sv ls)"
  have "backend_ok s ?r"
    using constructed_ok [OF assms(1,2)] by (simp add: recover_queue_def)
  then have "backend_ok s (run_startup s env today polled (ls_sv ls))"
    using sup_contract.rel_resume [OF sup_hit_contract.axioms(1) [OF backend_session.hits [OF assms(3)]]]
    by (simp add: run_startup_def start_mining_ok connect_ok assms(3))
  then have "cuda_ok s b"
    using backend_session.rel_loop [OF assms(4) g, of "map_sv (run_startup s env today polled) ls" stop_at] assms(6)
    by (simp add: run_session_def map_sv_def backend_ok_def)
  then have inv: "backend_inv (ss_cuda s) b" and cap: "cap_saved (ss_cuda s) b" by (simp_all add: cuda_ok_def)
  from cap have "cb_max_lanes_cap (init_backend (ss_cuda s) (snd (cb_policy b))) = cb_max_lanes_cap b"
    by (simp add: init_backend_def Let_def cap_saved_def)
  then show ?thesis using inv_limits [OF inv assms(7)] by blast
qed

subsection \<open>A found hit\<close>

lemma mining_difficulty_metrics [simp]: "mining_difficulty s (map_metrics f sv) = mining_difficulty s sv"
  by (rule mining_difficulty_cong) (simp_all add: map_metrics_def)

definition is_queued :: "string \<Rightarrow> block_store \<Rightarrow> bool" where
  "is_queued key st \<longleftrightarrow> list_ex (\<lambda>r. p_key r = key) (pending st)"

definition on_record :: "string \<Rightarrow> submit_reply \<Rightarrow> block_store \<Rightarrow> bool" where
  "on_record key reply st \<longleftrightarrow> list_ex (\<lambda>b. s_key b = key \<and> s_http_status b = sr_status reply
     \<and> s_response_body b = sr_body reply) (submitted_blocks st)"

lemma queue_hit_queued: "is_queued (hit_key hit) (sv_store (queue_hit env hit kind reason sv))"
proof -
  obtain r where "pending (fst (enqueue (se_now env) hit reason (sv_store sv))) = pending (sv_store sv) @ [r]" "p_key r = hit_key hit"
    using pending_enqueue by blast
  then show ?thesis by (simp add: is_queued_def queue_hit_def)
qed

lemma in_update: "list_ex (\<lambda>r. p_key r = k) (update_rows P (bump_reject q) rows) = list_ex (\<lambda>r. p_key r = k) rows"
  by (induction rows) (auto simp: update_rows_def)

lemma rejected_queued: "is_queued (hit_key hit) (sv_store (live_rejected env hit kind status body sv))"
proof -
  let ?st = "sv_store sv"
  have "is_queued (hit_key hit) (fst (record_rejection (se_now env) hit status body ''live'' None None ?st))"
  proof (cases "find (\<lambda>r. p_key r = hit_key hit \<and> is_pending r) (pending_blocks ?st)")
    case None
    let ?st1 = "record_direct_submit (se_now env) hit status body (log_rejection (se_now env) hit status body ''live'' ?st)"
    obtain r where "pending (fst (enqueue (se_now env) hit resubmission_reason ?st1)) = pending ?st1 @ [r]" "p_key r = hit_key hit"
      using pending_enqueue by blast
    with None show ?thesis by (simp add: is_queued_def record_rejection_def)
  next
    case (Some row)
    then have "row \<in> set (pending_blocks ?st)" "p_key row = hit_key hit" "is_pending row"
      by (auto simp: find_Some_iff)
    then have "list_ex (\<lambda>r. p_key r = hit_key hit) (pending ?st)" by (auto simp: list_ex_iff pending_def)
    with Some show ?thesis
      by (simp add: is_queued_def record_rejection_def Let_def in_update log_first_reject_def)
  qed
  then show ?thesis by (simp add: live_rejected_def Let_def case_prod_unfold)
qed

text \<open>
  C9: a found hit is never dropped silently.  When it has been handled, its key is in the queue,
  or the pool accepted the block, which is then on record with the pool's answer and counted;
  the one exception is a hit that was found outside of a change of difficulty and whose hash
  could not be turned into a submission.
\<close>

theorem found_hit_kept:
  "is_queued (hit_key raw) (sv_store (handle_hit s env raw sv))
   \<or> (case prepare_live_hit s env sv (attach_hit_memory_cost s sv raw) of None \<Rightarrow> False
        | Some hit \<Rightarrow> sr_ok (submit (se_http env) hit) \<and> on_record (hit_key raw) (submit (se_http env) hit)
            (sv_store (handle_hit s env raw sv)))
   \<or> (\<not> in_difficulty_transition env sv
        \<and> prepare_live_hit s env sv (attach_hit_memory_cost s sv raw) = None
        \<and> sv_store (handle_hit s env raw sv) = sv_store sv)"
proof -
  let ?hit0 = "attach_hit_memory_cost s sv raw" and ?k = "hit_kind (attach_hit_memory_cost s sv raw)"
  let ?sv1 = "map_metrics (record_found ?k) sv"
  have key: "hit_key ?hit0 = hit_key raw" by (simp add: attach_hit_memory_cost_def split: option.split)
  have t: "in_difficulty_transition env ?sv1 = in_difficulty_transition env sv"
    by (simp add: in_difficulty_transition_def map_metrics_def)
  have p: "prepare_live_hit s env ?sv1 ?hit0 = prepare_live_hit s env sv ?hit0"
    by (simp add: prepare_live_hit_def)
  show ?thesis
  proof (cases "in_difficulty_transition env sv")
    case True
    then show ?thesis using queue_hit_queued [of ?hit0 env ?k difficulty_change_reason ?sv1]
      by (simp add: handle_hit_def Let_def t key)
  next
    case False
    show ?thesis
    proof (cases "prepare_live_hit s env sv ?hit0")
      case None
      with False show ?thesis by (simp add: handle_hit_def Let_def t p)
    next
      case (Some hit)
      then have k: "hit_key hit = hit_key raw"
        using prepare_key [of "se_argon env" ?hit0] key unfolding prepare_live_hit_def by metis
      have q: "is_queued (hit_key raw) (sv_store (queue_hit env hit kd reason v))" for kd reason v
        using queue_hit_queued [of hit] k by simp
      have r: "is_queued (hit_key raw) (sv_store (live_reply env hit ?k reply v)) \<or>
          sr_ok reply \<and> on_record (hit_key raw) reply (sv_store (live_reply env hit ?k reply v))" for reply v
        using q rejected_queued [of hit env ?k "sr_status reply" "sr_body reply" v] k
        by (simp add: live_reply_def Let_def record_direct_submit_def on_record_def)
      obtain ok sv2 where n: "refresh_network s env False ?sv1 = (ok, sv2)" by fastforce
      show ?thesis
        using False Some q r [of "submit (se_http env) hit" sv2] n
        by (simp add: handle_hit_def Let_def t p split: bool.split)
    qed
  qed
qed

subsection \<open>When nothing is sent\<close>

lemma http_simps [simp]:
  "in_difficulty_transition (env\<lparr>se_http := h\<rparr>) sv = in_difficulty_transition env sv"
  "prepare_live_hit s (env\<lparr>se_http := h\<rparr>) sv hit = prepare_live_hit s env sv hit"
  "queue_hit (env\<lparr>se_http := h\<rparr>) hit kind reason sv = queue_hit env hit kind reason sv"
  "read_poller (env\<lparr>se_http := h\<rparr>) b sv = read_poller env b sv"
  by (simp_all add: in_difficulty_transition_def prepare_live_hit_def queue_hit_def read_poller_def)

lemma transition_metrics [simp]: "in_difficulty_transition env (map_metrics f sv) = in_difficulty_transition env sv"
  by (simp add: in_difficulty_transition_def map_metrics_def)

lemma metrics_frame [simp]:
  "sv_poller (map_metrics f sv) = sv_poller sv" "sv_shutting_down (map_metrics f sv) = sv_shutting_down sv"
  by (simp_all add: map_metrics_def)

lemma refresh_down: "ps_difficulty (pl_status (sv_poller sv)) = None \<Longrightarrow> refresh_network s env False sv = (False, network_down sv)"
  by (simp add: refresh_network.simps [of s env] read_poller_def)

lemma flush_env_http: "flush_env_of s (env\<lparr>se_http := h\<rparr>) sv = (flush_env_of s env sv)\<lparr>fe_http := (\<lambda>_. h)\<rparr>"
  by (simp add: flush_env_of_def)

lemma prepare_row_outside:
  assumes "\<And>i. \<not> in_xuni_window (fe_minute e i)" "\<And>i hit. py_upper (hit_type hit) \<noteq> ''XUNI'' \<Longrightarrow> h i hit = fe_http e i hit"
  shows "prepare_row ops (e\<lparr>fe_http := h\<rparr>) sd row st = prepare_row ops e sd row st"
proof -
  have "submit (h i) hit = submit (fe_http e i) hit" if "fst (ready_to_flush (hit_type hit) (fe_minute e i))" for i hit
    using that assms by (simp add: submit_def ready_to_flush_iff)
  moreover have "row_prepared (e\<lparr>fe_http := h\<rparr>) row = row_prepared e row" by (simp add: row_prepared_def)
  ultimately show ?thesis by (simp add: prepare_row_def Let_def split: option.split)
qed

lemma prepare_rows_outside:
  assumes "\<And>i. \<not> in_xuni_window (fe_minute e i)" "\<And>i hit. py_upper (hit_type hit) \<noteq> ''XUNI'' \<Longrightarrow> h i hit = fe_http e i hit"
  shows "prepare_rows ops (e\<lparr>fe_http := h\<rparr>) sd rows st = prepare_rows ops e sd rows st"
  by (induction rows arbitrary: st) (simp_all add: prepare_row_outside [OF assms] Let_def case_prod_unfold)

text \<open>
  C13: what a held block is not sent for.  During a change of the difficulty, while the miner shuts
  down, for an XUNI block outside of the window, and while the poller knows no difficulty (the
  network is down), what is done with a found hit does not depend on what the pool would answer.
  During a change of the difficulty, and while the network is down, the flush that the session asks
  for between its batches does not depend on it either and leaves the queue's tables as they are.
  And outside of the XUNI window no flush at all, the one of a shutdown included, depends on what
  the pool would answer to an XUNI block.  The other kinds are sent by such a flush.
\<close>

theorem nothing_sent_when_held:
  "(in_difficulty_transition env sv \<or> sv_shutting_down sv
      \<or> (hit_kind (attach_hit_memory_cost s sv raw) = ''XUNI'' \<and> \<not> in_xuni_window (se_minute env))
      \<or> ps_difficulty (pl_status (sv_poller sv)) = None \<longrightarrow>
        handle_hit s (env\<lparr>se_http := http\<rparr>) raw sv = handle_hit s env raw sv)
    \<and> (in_difficulty_transition env sv \<or> ps_difficulty (pl_status (sv_poller sv)) = None \<longrightarrow>
         try_flush_pending_queue s (env\<lparr>se_http := http\<rparr>) sv = try_flush_pending_queue s env sv
         \<and> sv_store (snd (try_flush_pending_queue s env sv)) = sv_store sv)
    \<and> (\<not> in_xuni_window (se_minute env) \<and> (\<forall>hit. py_upper (hit_type hit) \<noteq> ''XUNI'' \<longrightarrow> http hit = se_http env hit) \<longrightarrow>
         run_flush s (env\<lparr>se_http := http\<rparr>) on_shutdown sv = run_flush s env on_shutdown sv)"
proof (intro conjI impI)
  have d: "refresh_network s e False (map_metrics f sv) = (False, network_down (map_metrics f sv))"
    if "ps_difficulty (pl_status (sv_poller sv)) = None" for e f
    using that by (simp add: refresh_down)
  show "handle_hit s (env\<lparr>se_http := http\<rparr>) raw sv = handle_hit s env raw sv"
    if "in_difficulty_transition env sv \<or> sv_shutting_down sv
      \<or> (hit_kind (attach_hit_memory_cost s sv raw) = ''XUNI'' \<and> \<not> in_xuni_window (se_minute env))
      \<or> ps_difficulty (pl_status (sv_poller sv)) = None"
    using that d by (auto simp: handle_hit_def Let_def split: option.split)
  assume h: "in_difficulty_transition env sv \<or> ps_difficulty (pl_status (sv_poller sv)) = None"
  show "try_flush_pending_queue s (env\<lparr>se_http := http\<rparr>) sv = try_flush_pending_queue s env sv"
    "sv_store (snd (try_flush_pending_queue s env sv)) = sv_store sv"
    using h by (auto simp: try_flush_pending_queue.simps refresh_down)
next
  assume h: "\<not> in_xuni_window (se_minute env) \<and> (\<forall>hit. py_upper (hit_type hit) \<noteq> ''XUNI'' \<longrightarrow> http hit = se_http env hit)"
  have "flush (flush_env_of s (env\<lparr>se_http := http\<rparr>) sv) on_shutdown f = flush (flush_env_of s env sv) on_shutdown f" for f
    using h prepare_rows_outside [of "flush_env_of s env sv" "\<lambda>_. http" "store_ops (se_now env)"]
    by (simp add: flush_def flush_env_http Let_def) (simp add: flush_env_of_def)
  then show "run_flush s (env\<lparr>se_http := http\<rparr>) on_shutdown sv = run_flush s env on_shutdown sv" by (simp add: run_flush_def)
qed

subsection \<open>Hits that are lost\<close>

text \<open>
  C40: outside of a change of the difficulty, a hit whose hash is already encoded, with another
  memory cost than the difficulty that is mined now, is thrown away: it is counted as found, and
  nothing else changes, so that it is neither queued nor sent.  (Within a change of the difficulty
  such a hit is queued.)
\<close>

theorem stale_encoded_hit_lost:
  assumes "memory_cost_from_hash (hit_hash raw) = Some m" "m \<noteq> mining_difficulty s sv"
    and "\<not> in_difficulty_transition env sv"
  shows "handle_hit s env raw sv = map_metrics (record_found (hit_kind (attach_hit_memory_cost s sv raw))) sv"
proof -
  have h: "hit_hash (attach_hit_memory_cost s sv raw) = hit_hash raw"
    by (simp add: attach_hit_memory_cost_def split: option.split)
  have "is_argon2_encoded (hit_hash raw)" using assms(1) by (simp add: memory_cost_from_hash_def split: if_splits)
  then have "prepare_live_hit s env v (attach_hit_memory_cost s sv raw) = None" if "mining_difficulty s v = mining_difficulty s sv" for v
    using assms(1,2) that by (simp add: prepare_live_hit_def prepare_hit_for_submit_def h)
  then show ?thesis using assms(3) by (simp add: handle_hit_def Let_def)
qed

end
