(* ===== verification/SessionSafety.thy ===== *)
theory SessionSafety
  imports SessionProps
begin

text \<open>
  The end of a session and the handling of heat: a stopped miner stays stopped, an overheated GPU
  rests, the check that aborts a running batch agrees with the guard between the batches, and
  what an abort loses.
\<close>

subsection \<open>Shutting down\<close>

definition backend_stopped :: "miner_backend \<Rightarrow> bool" where
  "backend_stopped b = (case b of
       CudaNativeBackend c \<Rightarrow> \<not> cb_started c
     | CpuArgon2Backend c \<Rightarrow> cp_workers c = [] \<and> cp_event c \<in> cp_set c
     | XenblocksGpuBackend g \<Rightarrow> \<not> xg_running g)"

lemma stopped_stop [simp]: "backend_stopped (backend_stop b)"
  by (cases b) (simp_all add: backend_stopped_def backend_stop_def cuda_stop_def cpu_stop_def xen_stop_def)

definition is_cpu :: "miner_backend \<Rightarrow> bool" where
  "is_cpu b = (case b of CpuArgon2Backend _ \<Rightarrow> True | _ \<Rightarrow> False)"

lemma is_cpu_simps [simp]:
  "is_cpu (CpuArgon2Backend c)" "\<not> is_cpu (CudaNativeBackend b)" "\<not> is_cpu (XenblocksGpuBackend g)"
  "is_cpu (backend_stop m) = is_cpu m"
  by (simp_all add: is_cpu_def backend_stop_def split: miner_backend.split)

text \<open>What the network, the queue and the hits leave alone: the flags, and a stopped backend.\<close>

definition same_flags :: "supervisor \<Rightarrow> supervisor \<Rightarrow> bool" where
  "same_flags sv sv' \<longleftrightarrow> sv_shutting_down sv' = sv_shutting_down sv \<and> sv_running sv' = sv_running sv
     \<and> sv_cooldown_until sv' = sv_cooldown_until sv \<and> is_cuda sv' = is_cuda sv \<and> is_cpu (sv_backend sv') = is_cpu (sv_backend sv)
     \<and> (backend_stopped (sv_backend sv) \<longrightarrow> backend_stopped (sv_backend sv'))"

lemma same_flags_refl [simp]: "same_flags sv sv"
  by (simp add: same_flags_def)

lemma same_flags_trans: "same_flags sv sv' \<Longrightarrow> same_flags sv' sv'' \<Longrightarrow> same_flags sv sv''"
  by (auto simp: same_flags_def)

lemma same_flags_simps [simp]:
  "same_flags sv (sv'\<lparr>sv_flusher := f\<rparr>) = same_flags sv sv'"
  "same_flags sv (sv'\<lparr>sv_poller := p\<rparr>) = same_flags sv sv'"
  "same_flags sv (sv'\<lparr>sv_power := q\<rparr>) = same_flags sv sv'"
  "same_flags sv (sv'\<lparr>sv_defer_until := u\<rparr>) = same_flags sv sv'"
  "same_flags sv (sv'\<lparr>sv_network_difficulty := d\<rparr>) = same_flags sv sv'"
  "same_flags sv (sv'\<lparr>sv_network_ok := b, sv_last_log_ok := l\<rparr>) = same_flags sv sv'"
  "same_flags sv (sv'\<lparr>sv_was_in_window := b\<rparr>) = same_flags sv sv'"
  "same_flags sv (map_metrics g sv') = same_flags sv sv'"
  "same_flags sv (map_store h sv') = same_flags sv sv'"
  "same_flags sv (record_accept k sv') = same_flags sv sv'"
  "same_flags sv (sync_queue sv') = same_flags sv sv'"
  "same_flags sv (queue_hit e hit k r sv') = same_flags sv sv'"
  "same_flags sv (network_down sv') = same_flags sv sv'"
  "same_flags sv (guard_context s n sv') = same_flags sv sv'"
  by (simp_all add: same_flags_def is_cuda_def map_metrics_def map_store_def record_accept_def sync_queue_def
      queue_hit_def network_down_def guard_context_def)

lemma same_flags_reply [simp]: "same_flags sv (live_reply e hit kind reply sv)"
  by (simp add: live_reply_def live_rejected_def Let_def case_prod_unfold)

lemma started_set_difficulty: "\<not> cb_started b \<Longrightarrow> \<not> cb_started (cuda_set_difficulty cs e d b)"
  by (simp add: cuda_set_difficulty_def Let_def)

lemma started_restore [simp]: "cb_started (fst (backend_restore_lane_cap cs t d b)) = cb_started b"
  by (simp add: backend_restore_lane_cap_def case_prod_unfold Let_def)

lemma same_flags_map_cuda:
  "(\<And>b. \<not> cb_started b \<Longrightarrow> \<not> cb_started (f b)) \<Longrightarrow> same_flags sv sv' \<Longrightarrow> same_flags sv (map_cuda f sv')"
  by (auto simp: same_flags_def map_cuda_def is_cuda_def backend_stopped_def split: miner_backend.splits)

lemma same_flags_up: "same_flags sv (network_up s env d sv)"
proof -
  have "same_flags sv (maybe_restore_cuda_lane_cap s env n sv)" for n
    by (auto simp: maybe_restore_cuda_lane_cap_def intro!: same_flags_map_cuda split: option.split)
  then have "same_flags sv (snd (apply_network_difficulty s env d sv))"
    by (simp add: apply_network_difficulty_def begin_difficulty_transition_def Let_def split: option.split)
  then show ?thesis
    by (auto simp: network_up_def case_prod_unfold Let_def intro!: same_flags_map_cuda started_set_difficulty)
qed

interpretation flagged: sup_hit_contract s env same_flags for s env
proof unfold_locales
  show "same_flags sv (snd (read_poller env b sv))" for b sv
    by (simp add: read_poller_def case_prod_unfold Let_def)
  show "same_flags sv (snd (run_flush s env b sv))" for b sv
    by (simp add: run_flush_def case_prod_unfold Let_def)
qed (simp_all add: same_flags_up same_flags_trans)

lemma after_shutdown:
  assumes "\<not> sv_shutting_down sv"
  shows "sv_shutting_down (graceful_shutdown s env sv) \<and> \<not> sv_running (graceful_shutdown s env sv)
    \<and> backend_stopped (sv_backend (graceful_shutdown s env sv))"
proof -
  define sv1 where "sv1 = sv\<lparr>sv_shutting_down := True, sv_running := False, sv_backend := backend_stop (sv_backend sv)\<rparr>"
  note r = flagged.rel_refresh [of sv1 s env True]
  have "same_flags sv1 (graceful_shutdown s env sv)"
    using assms same_flags_trans [OF r flagged.rel_flush] r
    by (simp add: graceful_shutdown_def Let_def case_prod_unfold sv1_def)
  then show ?thesis by (simp add: same_flags_def sv1_def)
qed

text \<open>What is done with a hit that is handled during the shutdown: it is queued, or it is dropped.\<close>

definition late_hits :: "sup_settings \<Rightarrow> (sup_env \<times> block_hit) list \<Rightarrow> supervisor \<Rightarrow> supervisor" where
  "late_hits s later = fold (\<lambda>(e, raw). handle_hit s e raw) later"

definition late_hit_useless :: "sup_settings \<Rightarrow> sup_env \<Rightarrow> block_hit \<Rightarrow> supervisor \<Rightarrow> bool" where
  "late_hit_useless s env raw sv \<longleftrightarrow> \<not> in_difficulty_transition env sv
     \<and> prepare_live_hit s env sv (attach_hit_memory_cost s sv raw) = None"

lemma late_hit_cases:
  assumes "sv_shutting_down sv"
  obtains (queue) h kind reason where "hit_key h = hit_key raw" "\<not> late_hit_useless s env raw sv"
      "handle_hit s env raw sv = queue_hit env h kind reason (map_metrics (record_found kind) sv)"
  | (drop) kind where "late_hit_useless s env raw sv" "handle_hit s env raw sv = map_metrics (record_found kind) sv"
proof -
  let ?hit0 = "attach_hit_memory_cost s sv raw" and ?k = "hit_kind (attach_hit_memory_cost s sv raw)"
  let ?sv1 = "map_metrics (record_found ?k) sv"
  have key: "hit_key ?hit0 = hit_key raw" by (simp add: attach_hit_memory_cost_def split: option.split)
  have p: "prepare_live_hit s env ?sv1 ?hit0 = prepare_live_hit s env sv ?hit0" by (simp add: prepare_live_hit_def)
  have k: "hit_key h = hit_key raw" if "prepare_live_hit s env sv ?hit0 = Some h" for h
    using that prepare_key [of "se_argon env" ?hit0] key unfolding prepare_live_hit_def by metis
  show ?thesis
  proof (cases "in_difficulty_transition env sv")
    case True
    then show ?thesis using key
      by (intro queue [of ?hit0 ?k difficulty_change_reason]) (simp_all add: late_hit_useless_def handle_hit_def Let_def)
  next
    case False
    show ?thesis
    proof (cases "prepare_live_hit s env sv ?hit0")
      case None
      with False show ?thesis by (intro drop [of ?k]) (simp_all add: late_hit_useless_def handle_hit_def Let_def p)
    next
      case (Some h)
      with False assms show ?thesis
        by (intro queue [of h ?k "if ?k = ''XUNI'' \<and> \<not> in_xuni_window (se_minute env) then outside_xuni_window_reason
              else shutdown_pending_reason"]) (simp_all add: late_hit_useless_def handle_hit_def Let_def p k [OF Some])
    qed
  qed
qed

text \<open>What the queue keeps while hits come in: what is in it, and the record of what was sent.\<close>

definition closed_step :: "supervisor \<Rightarrow> supervisor \<Rightarrow> bool" where
  "closed_step sv sv' \<longleftrightarrow> sv_shutting_down sv' = sv_shutting_down sv \<and> sv_running sv' = sv_running sv
     \<and> sv_backend sv' = sv_backend sv \<and> sv_defer_until sv' = sv_defer_until sv
     \<and> sv_network_difficulty sv' = sv_network_difficulty sv
     \<and> submitted_blocks (sv_store sv') = submitted_blocks (sv_store sv)
     \<and> (\<forall>k. is_queued k (sv_store sv) \<longrightarrow> is_queued k (sv_store sv'))"

lemma closed_refl [simp]: "closed_step sv sv"
  by (simp add: closed_step_def)

lemma closed_trans: "closed_step sv sv' \<Longrightarrow> closed_step sv' sv'' \<Longrightarrow> closed_step sv sv''"
  by (simp add: closed_step_def)

lemma closed_metrics [simp]: "closed_step sv (map_metrics f sv') = closed_step sv sv'"
  by (simp add: closed_step_def) (simp add: map_metrics_def)

lemma closed_queue: "closed_step sv (queue_hit env hit kind reason sv)"
proof -
  obtain r where r: "pending (fst (enqueue (se_now env) hit reason (sv_store sv))) = pending (sv_store sv) @ [r]"
    using pending_enqueue by blast
  have "submitted_blocks (fst (enqueue now hit reason st)) = submitted_blocks st" for now st
    by (simp add: enqueue_def Let_def)
  with r show ?thesis by (simp add: queue_hit_def closed_step_def is_queued_def)
      (simp add: sync_queue_def map_metrics_def map_store_def)
qed

lemma closed_useless: "closed_step sv sv' \<Longrightarrow> late_hit_useless s env raw sv' = late_hit_useless s env raw sv"
  using mining_difficulty_cong [of sv' sv s]
  by (simp add: closed_step_def late_hit_useless_def in_difficulty_transition_def prepare_live_hit_def
      attach_hit_memory_cost_def split: option.split)

lemma closed_hit:
  assumes "sv_shutting_down sv"
  shows "closed_step sv (handle_hit s env raw sv)"
    "is_queued (hit_key raw) (sv_store (handle_hit s env raw sv)) \<or> late_hit_useless s env raw sv"
    "handle_hit s (env\<lparr>se_http := http\<rparr>) raw sv = handle_hit s env raw sv"
proof -
  show "handle_hit s (env\<lparr>se_http := http\<rparr>) raw sv = handle_hit s env raw sv"
    using assms by (auto simp: handle_hit_def Let_def split: option.split)
  have "closed_step sv (handle_hit s env raw sv)
    \<and> (is_queued (hit_key raw) (sv_store (handle_hit s env raw sv)) \<or> late_hit_useless s env raw sv)"
  proof (cases rule: late_hit_cases [OF assms, of raw s env])
    case (1 h kind reason)
    have "closed_step sv (map_metrics (record_found kind) sv)" by simp
    then show ?thesis using 1 closed_trans [OF _ closed_queue] queue_hit_queued [of h] by metis
  next
    case (2 kind)
    then show ?thesis by simp
  qed
  then show "closed_step sv (handle_hit s env raw sv)"
    "is_queued (hit_key raw) (sv_store (handle_hit s env raw sv)) \<or> late_hit_useless s env raw sv" by simp_all
qed

lemma closed_hits:
  assumes "sv_shutting_down sv"
  shows "closed_step sv (late_hits s later sv)
    \<and> late_hits s (map (\<lambda>(e, raw). (e\<lparr>se_http := http\<rparr>, raw)) later) sv = late_hits s later sv
    \<and> list_all (\<lambda>(e, raw). is_queued (hit_key raw) (sv_store (late_hits s later sv)) \<or> late_hit_useless s e raw sv) later"
  using assms
proof (induction later arbitrary: sv)
  case Nil
  show ?case by (simp add: late_hits_def)
next
  case (Cons x later)
  obtain e raw where x: "x = (e, raw)" by (cases x)
  let ?v = "handle_hit s e raw sv"
  note h = closed_hit [OF Cons.prems, where s = s and env = e and raw = raw]
  have "sv_shutting_down ?v" using h(1) Cons.prems by (simp add: closed_step_def)
  note IH = Cons.IH [OF this]
  have q: "is_queued (hit_key raw) (sv_store (late_hits s later ?v)) \<or> late_hit_useless s e raw sv"
    using h(2) IH by (auto simp: closed_step_def)
  have l: "late_hits s (x # later) sv = late_hits s later ?v" by (simp add: late_hits_def x)
  have m: "late_hits s (map (\<lambda>(e, raw). (e\<lparr>se_http := http\<rparr>, raw)) (x # later)) sv
      = late_hits s (map (\<lambda>(e, raw). (e\<lparr>se_http := http\<rparr>, raw)) later) ?v"
    using h(3) by (simp add: late_hits_def x)
  show ?case unfolding l m using IH q closed_trans [OF h(1)]
    by (simp add: x closed_useless [OF h(1)])
qed

text \<open>
  C14: a shutdown is final.  It stops the backend and the loop, and a second one changes nothing,
  whatever the network and the pool did meanwhile; and this stays so while later hits come in.
  Each of these hits is put in the queue, except one that no change of difficulty holds back and
  whose hash cannot be turned into a submission; none is sent: the record of what was submitted
  stays as it is, and what is done does not depend on what the pool would answer.
\<close>

theorem shutdown_is_final:
  assumes "\<not> sv_shutting_down sv" and "sv' = graceful_shutdown s env sv" and "sv'' = late_hits s later sv'"
  shows "sv_shutting_down sv'' \<and> \<not> sv_running sv'' \<and> backend_stopped (sv_backend sv'')
    \<and> graceful_shutdown s env' sv'' = sv''
    \<and> list_all (\<lambda>(e, raw). is_queued (hit_key raw) (sv_store sv'')
         \<or> (\<not> in_difficulty_transition e sv'
            \<and> prepare_live_hit s e sv' (attach_hit_memory_cost s sv' raw) = None)) later
    \<and> submitted_blocks (sv_store sv'') = submitted_blocks (sv_store sv')
    \<and> late_hits s (map (\<lambda>(e, raw). (e\<lparr>se_http := http\<rparr>, raw)) later) sv' = sv''"
proof -
  have d: "sv_shutting_down sv'" "\<not> sv_running sv'" "backend_stopped (sv_backend sv')"
    using after_shutdown [OF assms(1), of s env] assms(2) by simp_all
  note c = closed_hits [OF d(1), of s later http]
  then have "sv_shutting_down sv''" "\<not> sv_running sv''" "backend_stopped (sv_backend sv'')"
    using d by (simp_all add: closed_step_def assms(3))
  with c show ?thesis by (simp add: graceful_shutdown_def closed_step_def late_hit_useless_def assms(3))
qed

subsection \<open>Heat\<close>

text \<open>The work that the session's statistics show: the hashes and the hits.\<close>

definition flusher_work :: "flusher \<Rightarrow> (int \<times> int) option" where
  "flusher_work f = map_option (\<lambda>m. (total_hashes (stats m), session_hits (stats m))) (fl_metrics f)"

definition work_of :: "supervisor \<Rightarrow> (int \<times> int) option" where
  "work_of sv = flusher_work (sv_flusher sv)"

lemma work_flush [simp]: "work_of (snd (run_flush s env b sv)) = work_of sv"
proof -
  have one: "flusher_work (fst (collect_outcome x p)) = flusher_work (fst p)" for x p
    by (cases "fl_metrics (fst p)")
      (simp_all add: collect_outcome_def apply_outcome_def flusher_work_def record_dropped_flush_def
        record_accepted_flush_def record_rejected_flush_def Let_def)
  have "flusher_work (fst (fold collect_outcome os p)) = flusher_work (fst p)" for os p
    by (induction os arbitrary: p) (simp_all add: one)
  then have "flusher_work (fst (flush e sd f)) = flusher_work f" for e sd f
    by (simp add: flush_def Let_def case_prod_unfold) (simp add: flusher_work_def)
  moreover have "work_of (sync_queue v) = work_of v" for v
    by (cases "fl_metrics (sv_flusher v)") (simp_all add: work_of_def flusher_work_def sync_queue_def map_metrics_def sync_pending_def)
  ultimately show ?thesis by (simp add: run_flush_def case_prod_unfold Let_def) (simp add: work_of_def)
qed

text \<open>What the network and the queue leave alone: the flags, the work and the guard's cooldown.\<close>

definition idle_step :: "supervisor \<Rightarrow> supervisor \<Rightarrow> bool" where
  "idle_step sv sv' \<longleftrightarrow> same_flags sv sv' \<and> work_of sv' = work_of sv
     \<and> vg_cooldown_s (sv_guard sv') = vg_cooldown_s (sv_guard sv)"

lemma cooldown_context [simp]: "vg_cooldown_s (sv_guard (guard_context s d sv)) = vg_cooldown_s (sv_guard sv)"
  by (simp add: guard_context_def set_difficulty_context_def)

lemma idle_up: "idle_step sv (network_up s env d sv)"
proof -
  have c: "sv_guard (map_cuda f v) = sv_guard v" for f v by (simp add: map_cuda_def split: miner_backend.split)
  have "sv_guard (maybe_restore_cuda_lane_cap s env n v) = sv_guard v" for n v
    by (simp add: maybe_restore_cuda_lane_cap_def c split: option.split)
  then have "vg_cooldown_s (sv_guard (snd (apply_network_difficulty s env d sv))) = vg_cooldown_s (sv_guard sv)"
    by (simp add: apply_network_difficulty_def begin_difficulty_transition_def Let_def split: option.split)
  then show ?thesis
    by (simp add: idle_step_def same_flags_up work_of_def) (simp add: network_up_def case_prod_unfold Let_def c)
qed

interpretation idle: sup_contract s env idle_step for s env
proof unfold_locales
  show "idle_step sv sv''" if "idle_step sv sv'" "idle_step sv' sv''" for sv sv' sv''
    using that same_flags_trans by (auto simp: idle_step_def)
  show "idle_step sv (snd (read_poller env b sv))" for b sv
    using flagged.rel_poller [of sv env b] by (simp add: idle_step_def work_of_def)
  show "idle_step sv (snd (run_flush s env b sv))" for b sv
  proof -
    have "sv_guard (snd (run_flush s env b sv)) = sv_guard sv"
      by (simp add: run_flush_def case_prod_unfold Let_def sync_queue_def map_metrics_def)
    then show ?thesis using flagged.rel_flush [of sv s env b] by (simp add: idle_step_def)
  qed
  show "idle_step sv (network_down sv)" for sv
    by (simp add: idle_step_def work_of_def) (simp add: network_down_def)
  show "idle_step sv (sv\<lparr>sv_was_in_window := w\<rparr>)" for sv w
    by (simp add: idle_step_def work_of_def)
  show "idle_step sv sv" for sv
    by (simp add: idle_step_def)
qed (rule idle_up)

text \<open>A GPU that rests until \<open>T\<close>, and readings of the clock before \<open>T\<close>.\<close>

definition resting :: "sup_settings \<Rightarrow> int \<Rightarrow> pyfloat \<Rightarrow> supervisor \<Rightarrow> bool" where
  "resting s c T sv \<longleftrightarrow> is_gpu s sv \<and> \<not> is_cpu (sv_backend sv) \<and> backend_stopped (sv_backend sv)
     \<and> T \<le> sv_cooldown_until sv \<and> vg_cooldown_s (sv_guard sv) = c"

definition clock_within :: "pyfloat \<Rightarrow> pyfloat \<Rightarrow> loop_env \<Rightarrow> bool" where
  "clock_within t0 T en \<longleftrightarrow> (\<forall>p. t0 \<le> se_time (en_at en p) \<and> se_time (en_at en p) < T)"

definition rounds_within :: "pyfloat \<Rightarrow> pyfloat \<Rightarrow> session_event list \<Rightarrow> bool" where
  "rounds_within t0 T = list_all (\<lambda>e. case e of Round en \<Rightarrow> clock_within t0 T en | _ \<Rightarrow> True)"

lemma rest_idle: "resting s c T sv \<Longrightarrow> idle_step sv sv' \<Longrightarrow> resting s c T sv' \<and> work_of sv' = work_of sv"
  by (auto simp: resting_def idle_step_def same_flags_def is_gpu_def)

lemma rest_not_running: "resting s c T sv \<Longrightarrow> \<not> gpu_backend_running s sv"
  by (auto simp: resting_def gpu_backend_running_def backend_stopped_def split: miner_backend.splits)

lemma rest_restart: "resting s c T sv \<Longrightarrow> se_time env < T \<Longrightarrow> maybe_restart_gpu s env sv = (None, sv)"
  by (simp add: resting_def maybe_restart_gpu_def)

lemma idle_configure: "idle_step sv (configure_guard_temp_context s sv)"
  by (simp add: configure_guard_temp_context_def idle_step_def work_of_def)

lemma emergency_cooldown: "ga_level (guard_evaluate g snap) = Emergency \<Longrightarrow> ga_cooldown_s (guard_evaluate g snap) = vg_cooldown_s g"
  by (auto simp: guard_evaluate_def plain_action_def stop_action_def split: option.splits if_splits)

lemma rest_safety:
  assumes r: "resting s c T sv" and T: "T = fl (t0 + fint c)" "t0 \<le> se_time env" "se_time env < T"
  shows "resting s c T (snd (apply_gpu_safety s env snap sv)) \<and> work_of (snd (apply_gpu_safety s env snap sv)) = work_of sv"
proof -
  define v where "v = configure_guard_temp_context s sv"
  define action where "action = guard_evaluate (sv_guard v) snap"
  have v: "resting s c T v" "work_of v = work_of sv" using rest_idle [OF r idle_configure] by (simp_all add: v_def)
  have w: "resting s c T (v\<lparr>sv_warn_code := x, sv_warn_at := t\<rparr>)" "work_of (v\<lparr>sv_warn_code := x, sv_warn_at := t\<rparr>) = work_of sv" for x t
    using v by (simp_all add: resting_def is_gpu_def is_cuda_def work_of_def)
  have paused: "gpu_paused_for_cooldown s env v \<and> \<not> gpu_backend_running s v"
    using v(1) T rest_not_running [OF v(1)] by (simp add: gpu_paused_for_cooldown_def resting_def)
  have "resting s c T (stop_backend v) \<and> work_of (stop_backend v) = work_of sv"
    using v by (auto simp: resting_def is_gpu_def is_cuda_def stop_backend_def work_of_def backend_stop_def split: miner_backend.splits)
      (auto simp: backend_stopped_def cuda_stop_def cpu_stop_def xen_stop_def)
  then have n: "resting s c T (snd (try_flush_pending_queue s env (stop_backend v)))"
      "work_of (snd (try_flush_pending_queue s env (stop_backend v))) = work_of sv"
    using rest_idle [OF _ idle.rel_try_flush, of s c T "stop_backend v" s env] by simp_all
  have "T \<le> fl (se_time env + fint c)" unfolding T(1) using T(2) by (intro fl_mono) simp
  then have cool: "resting s c T (cooldown_until env c u) \<and> work_of (cooldown_until env c u) = work_of sv"
    if "resting s c T u" "work_of u = work_of sv" for u
    using that by (simp add: resting_def cooldown_until_def is_gpu_def is_cuda_def work_of_def)
  have b: "sv_backend v \<noteq> CpuArgon2Backend x" for x using v(1) by (auto simp: resting_def)
  have e: "ga_cooldown_s action = c" if "ga_level action = Emergency"
    using that emergency_cooldown v(1) by (simp add: action_def resting_def)
  show ?thesis
    using v w paused b e cool [OF n] unfolding apply_gpu_safety_def v_def [symmetric] action_def [symmetric] Let_def
    by (auto split: guard_level.split miner_backend.split)
qed

lemma rest_pause:
  assumes "resting s c T (ls_sv ls)" "se_time (en_at en AtLate) < T"
  shows "fst (pause_round s en now ls) = None \<and> resting s c T (ls_sv (snd (pause_round s en now ls)))
    \<and> work_of (ls_sv (snd (pause_round s en now ls))) = work_of (ls_sv ls)
    \<and> sv_cooldown_until (ls_sv (snd (pause_round s en now ls))) = sv_cooldown_until (ls_sv ls)"
proof -
  let ?k = "service s (en_at en AtPause) now True ls"
  have i: "idle_step (ls_sv ls) (ls_sv ?k)" using idle.rel_service by (simp add: service_def case_prod_unfold)
  from rest_idle [OF assms(1) this] rest_restart [of s c T "ls_sv ?k" "en_at en AtLate"] assms(2) i
  show ?thesis by (simp add: pause_round_def restart_def idle_step_def same_flags_def)
qed

lemma rest_gpu_round:
  assumes r: "resting s c T (ls_sv ls)" and T: "T = fl (t0 + fint c)" "clock_within t0 T en"
  shows "fst (gpu_round s en now ls) = Some None \<and> resting s c T (ls_sv (snd (gpu_round s en now ls)))
    \<and> work_of (ls_sv (snd (gpu_round s en now ls))) = work_of (ls_sv ls)"
proof -
  obtain safe v where a: "apply_gpu_safety s (en_at en AtSafety) (en_snap en) (ls_sv ls) = (safe, v)" by fastforce
  have t: "t0 \<le> se_time (en_at en p)" "se_time (en_at en p) < T" for p using T(2) by (simp_all add: clock_within_def)
  have v: "resting s c T v" "work_of v = work_of (ls_sv ls)" using rest_safety [OF r T(1) t, of AtSafety "en_snap en"] a by simp_all
  let ?k = "ls\<lparr>ls_sv := v\<rparr>"
  have p: "gpu_paused_for_cooldown s (en_at en AtRestart) v \<and> \<not> gpu_backend_running s v"
    using v(1) t(2) [of AtRestart] rest_not_running [OF v(1)] by (auto simp: gpu_paused_for_cooldown_def resting_def)
  have "ls_sv ?k = v" by simp
  then have "fst (pause_round s en now ?k) = None \<and> resting s c T (ls_sv (snd (pause_round s en now ?k)))
    \<and> work_of (ls_sv (snd (pause_round s en now ?k))) = work_of (ls_sv ls)"
    using rest_pause [of s c T ?k en now] v t(2) by simp
  moreover have "restart s (en_at en AtRestart) ?k = (None, ?k)"
    using rest_restart [OF v(1) t(2)] by (simp add: restart_def)
  ultimately show ?thesis using a p unfolding gpu_round_def a prod.case Let_def
    by (cases safe) (simp_all add: case_prod_unfold)
qed

lemma started_steps:
  "cb_started (set_thermal_batch_scale cs x b) = cb_started b"
  "cb_started (set_vram_batch_scale cs x b) = cb_started b"
  "cb_started (fst (set_thermal_lane_cap cs e n b)) = cb_started b"
  "cb_started (fst (update_thermal_lanes_from_temp cs e t b)) = cb_started b"
  by (simp_all add: set_thermal_batch_scale_def set_vram_batch_scale_def rescale_batch_def set_thermal_lane_cap_def
      update_thermal_lanes_from_temp_def case_prod_unfold Let_def split: option.split)

lemma started_pressure: "cb_started (fst (update_vram_pressure_from_used cs e u t m b)) = cb_started b"
  by (simp add: update_vram_pressure_from_used_def case_prod_unfold Let_def started_steps(2))

lemma started_tune: "cb_started (tune_cuda s eng snap tev caps b) = cb_started b"
  by (simp add: tune_cuda_def Let_def started_steps started_pressure split: option.split)

lemma idle_tune: "idle_step sv (tune_gpu s en sv)"
proof -
  let ?c = "configure_guard_temp_context s sv"
  have p: "idle_step sv (?c\<lparr>sv_power := q\<rparr>)" for q
    using idle_configure [of sv s] by (simp add: idle_step_def work_of_def)
  have "idle_step u (map_cuda (tune_cuda s eng snap tev caps) u)" for u eng snap tev caps
    by (auto simp: idle_step_def work_of_def started_tune intro!: same_flags_map_cuda)
      (simp add: map_cuda_def split: miner_backend.split)
  then have "idle_step sv (map_cuda (tune_cuda s eng snap tev caps) (?c\<lparr>sv_power := q\<rparr>))" for q eng snap tev caps
    by (rule idle.rel_trans [OF p])
  then show ?thesis using p by (simp add: tune_gpu_def Let_def split: option.split)
qed

lemma rest_round:
  assumes r: "resting s c T (ls_sv ls)" and T: "T = fl (t0 + fint c)" "clock_within t0 T en"
  shows "fst (loop_round s en ls) = None \<and> resting s c T (ls_sv (snd (loop_round s en ls)))
    \<and> work_of (ls_sv (snd (loop_round s en ls))) = work_of (ls_sv ls)"
proof -
  let ?now = "se_time (en_at en AtHead)"
  define ls1 where "ls1 = (if fl (?now - ls_net_check ls) \<ge> ss_network_poll_interval_s s
    then (map_sv (\<lambda>sv. snd (refresh_network s (en_at en AtPoll) False sv)) ls)\<lparr>ls_net_check := ?now\<rparr> else ls)"
  define ls2 where "ls2 = (if fl (?now - ls_power_tune ls1) \<ge> ss_sample_interval_s s
    then (map_sv (tune_gpu s en) ls1)\<lparr>ls_power_tune := ?now\<rparr> else ls1)"
  have 1: "resting s c T (ls_sv ls1) \<and> work_of (ls_sv ls1) = work_of (ls_sv ls)"
    using r rest_idle [OF r idle.rel_refresh] by (simp add: ls1_def map_sv_def)
  then have 2: "resting s c T (ls_sv ls2) \<and> work_of (ls_sv ls2) = work_of (ls_sv ls)"
    using rest_idle [OF _ idle_tune, of s c T "ls_sv ls1"] by (simp add: ls2_def map_sv_def)
  then have g: "is_gpu s (ls_sv ls2)" by (simp add: resting_def)
  have "resting s c T (ls_sv ls2)" using 2 by simp
  from rest_gpu_round [OF this T, of ?now] 2 g show ?thesis
    unfolding loop_round_def Let_def ls1_def [symmetric] ls2_def [symmetric] by (simp add: case_prod_unfold)
qed

lemma rest_end: "backend_stopped (sv_backend (ls_sv (end_session s env ls))) \<and> work_of (ls_sv (end_session s env ls)) = work_of (ls_sv ls)"
proof -
  have w: "work_of (snd (refresh_network s env b v)) = work_of v" for b v
    using idle.rel_refresh [of v s env b] by (simp add: idle_step_def)
  have q: "work_of (sync_queue (map_store f v)) = work_of v" for f v
    by (cases "fl_metrics (sv_flusher v)")
      (simp_all add: work_of_def flusher_work_def sync_queue_def map_metrics_def sync_pending_def map_store_def)
  have f: "work_of (v\<lparr>sv_shutting_down := True, sv_running := False, sv_backend := b\<rparr>) = work_of v" for b v
    by (simp add: work_of_def)
  have "work_of (graceful_shutdown s env v) = work_of v" for v
    by (simp add: graceful_shutdown_def Let_def case_prod_unfold w q f)
  then show ?thesis
    by (simp add: end_session_def map_sv_def finalize_session_def Let_def stop_backend_def) (simp add: work_of_def)
qed

lemma rest_loop:
  assumes "T = fl (t0 + fint c)"
  shows "resting s c T (ls_sv ls) \<Longrightarrow> rounds_within t0 T es \<Longrightarrow>
    backend_stopped (sv_backend (ls_sv (run_loop s stop_at last_env es ls)))
    \<and> work_of (ls_sv (run_loop s stop_at last_env es ls)) = work_of (ls_sv ls)"
proof (induction es arbitrary: ls)
  case Nil
  then show ?case by (simp add: resting_def)
next
  case (Cons e es)
  then have es: "rounds_within t0 T es" by (simp add: rounds_within_def)
  show ?case
  proof (cases e)
    case (Round en)
    then have "clock_within t0 T en" using Cons.prems(2) by (simp add: rounds_within_def)
    from rest_round [OF Cons.prems(1) assms this] Cons.IH [OF _ es, of "snd (loop_round s en ls)"] Round rest_end
    show ?thesis by (cases "loop_round s en ls") simp
  next
    case (PollerTick env)
    let ?k = "map_sv (\<lambda>sv. snd (read_poller env True sv)) ls"
    have "resting s c T (ls_sv ?k) \<and> work_of (ls_sv ?k) = work_of (ls_sv ls)"
      using rest_idle [OF Cons.prems(1) idle.rel_poller] by (simp add: map_sv_def)
    with Cons.IH [OF _ es, of ?k] PollerTick show ?thesis by simp
  next
    case Interrupt
    then show ?thesis using rest_end by simp
  qed
qed

lemma emergency_rests:
  assumes "ga_level (guard_evaluate (sv_guard (configure_guard_temp_context s sv)) snap) = Emergency"
    and "is_gpu s sv" "\<not> is_cpu (sv_backend sv)" "gpu_backend_running s sv"
    and "T = fl (se_time env + fint (vg_cooldown_s (sv_guard sv)))" "v = snd (apply_gpu_safety s env snap sv)"
  shows "resting s (vg_cooldown_s (sv_guard sv)) T v \<and> sv_cooldown_until v = T \<and> work_of v = work_of sv"
proof -
  define w where "w = configure_guard_temp_context s sv"
  define action where "action = guard_evaluate (sv_guard w) snap"
  let ?c = "vg_cooldown_s (sv_guard sv)"
  have i: "idle_step sv w" by (simp add: w_def idle_configure)
  have b: "sv_backend w = sv_backend sv" by (simp add: w_def configure_guard_temp_context_def guard_context_def)
  have c: "ga_cooldown_s action = ?c"
    using emergency_cooldown [OF assms(1)] i by (simp add: action_def w_def idle_step_def)
  have n: "idle_step sv (note_temp_cooldown snap w)"
    using i by (simp add: note_temp_cooldown_def idle_step_def same_flags_def is_cuda_def work_of_def)
  have s: "resting s ?c T (cooldown_until env ?c u) \<and> work_of (cooldown_until env ?c u) = work_of sv"
    if "idle_step sv u'" "u = stop_backend u' \<or> u = snd (try_flush_pending_queue s env (stop_backend u'))" for u u'
  proof -
    have st: "is_gpu s (stop_backend u') \<and> \<not> is_cpu (sv_backend (stop_backend u')) \<and> backend_stopped (sv_backend (stop_backend u'))
        \<and> vg_cooldown_s (sv_guard (stop_backend u')) = ?c \<and> work_of (stop_backend u') = work_of sv"
      using that(1) assms(2,3) by (auto simp: idle_step_def same_flags_def is_gpu_def stop_backend_def work_of_def)
        (auto simp: is_cuda_def backend_stop_def split: miner_backend.splits)
    have "idle_step (stop_backend u') u" using that(2) idle.rel_try_flush idle.rel_refl by auto
    with st have "is_gpu s u \<and> \<not> is_cpu (sv_backend u) \<and> backend_stopped (sv_backend u)
        \<and> vg_cooldown_s (sv_guard u) = ?c \<and> work_of u = work_of sv"
      by (auto simp: idle_step_def same_flags_def is_gpu_def)
    then show ?thesis by (simp add: resting_def cooldown_until_def assms(5) is_gpu_def is_cuda_def work_of_def)
  qed
  have running: "gpu_backend_running s w"
    using assms(4) i b by (simp add: gpu_backend_running_def is_gpu_def idle_step_def same_flags_def)
  have lev: "ga_level action = Emergency" using assms(1) by (simp add: action_def w_def)
  have cpu: "sv_backend w \<noteq> CpuArgon2Backend x" for x using assms(3) b by auto
  have t: "sv_cooldown_until (cooldown_until env ?c u) = T" for u by (simp add: cooldown_until_def assms(5))
  have f: "idle_step sv (snd (try_flush_pending_queue s env (note_temp_cooldown snap w)))"
    by (rule idle.rel_trans [OF n idle.rel_try_flush])
  have "v = cooldown_until env ?c (stop_backend (snd (try_flush_pending_queue s env (note_temp_cooldown snap w))))
    \<or> v = cooldown_until env ?c (snd (try_flush_pending_queue s env (stop_backend w)))"
    using lev running cpu c unfolding assms(6) apply_gpu_safety_def w_def [symmetric] action_def [symmetric] Let_def
    by (auto simp: graceful_gpu_stop_def split: miner_backend.split)
  with s [OF f] s [OF i] t show ?thesis by blast
qed

text \<open>
  C12: an overheated or overfull GPU rests.  When the guard calls an emergency in a round of a session
  whose GPU engine runs, the round ends without mining: the engine is stopped, and the cooldown is
  set to the clock of the check plus the guard's cooldown.  Until the clock reaches that moment the
  session does not start the engine again and does no work: whatever rounds and polls follow, the
  engine is stopped after each of them, and the numbers of hashes and of hits that the statistics
  show are those of before the emergency.
\<close>

theorem overheated_gpu_rests:
  assumes "ga_level (guard_evaluate (sv_guard (configure_guard_temp_context s (ls_sv ls))) (en_snap en)) = Emergency"
    and "is_gpu s (ls_sv ls)" "\<not> is_cpu (sv_backend (ls_sv ls))" "gpu_backend_running s (ls_sv ls)"
    and "t0 = se_time (en_at en AtSafety)" "T = fl (t0 + fint (vg_cooldown_s (sv_guard (ls_sv ls))))"
    and "clock_within t0 T en" "rounds_within t0 T es"
    and "gpu_round s en now ls = (r, ls')" "ls'' = run_loop s stop_at last_env es ls'"
  shows "r = Some None \<and> backend_stopped (sv_backend (ls_sv ls')) \<and> sv_cooldown_until (ls_sv ls') = T
    \<and> backend_stopped (sv_backend (ls_sv ls'')) \<and> work_of (ls_sv ls'') = work_of (ls_sv ls)"
proof -
  define c where "c = vg_cooldown_s (sv_guard (ls_sv ls))"
  have T: "T = fl (t0 + fint c)" using assms(6) by (simp add: c_def)
  obtain safe v where a: "apply_gpu_safety s (en_at en AtSafety) (en_snap en) (ls_sv ls) = (safe, v)" by fastforce
  have v: "resting s c T v \<and> sv_cooldown_until v = T \<and> work_of v = work_of (ls_sv ls)"
    using emergency_rests [OF assms(1-4) _ refl, of T "en_at en AtSafety"] a assms(5) T by (simp add: c_def)
  let ?k = "ls\<lparr>ls_sv := v\<rparr>"
  have t: "se_time (en_at en p) < T" for p using assms(7) by (simp add: clock_within_def)
  have p: "gpu_paused_for_cooldown s (en_at en AtRestart) v \<and> \<not> gpu_backend_running s v"
    using v t [of AtRestart] rest_not_running [of s c T v] by (auto simp: gpu_paused_for_cooldown_def resting_def)
  have "restart s (en_at en AtRestart) ?k = (None, ?k)"
    using rest_restart [of s c T v] v t by (simp add: restart_def)
  then have g: "r = Some (fst (pause_round s en now ?k))" "ls' = snd (pause_round s en now ?k)"
    using assms(9) p unfolding gpu_round_def a prod.case Let_def by (cases safe; simp add: case_prod_unfold)+
  have "resting s c T (ls_sv ?k)" using v by simp
  note k = rest_pause [OF this t, of now]
  then have "resting s c T (ls_sv ls')" by (simp add: g(2))
  from rest_loop [OF T this assms(8), of stop_at last_env] k v show ?thesis
    by (simp add: g assms(10)) (simp add: resting_def)
qed

lemma abort_iff:
  "te_level (evaluate_die_board_temps l h d b p) = Emergency \<longleftrightarrow>
     (let die = effective_die (max 0 d) (max 0 p); board = effective_board h (max 0 d) (max 0 b) (max 0 p)
      in (0 < die \<and> max 1 (tl_die_max_c l) \<le> die) \<or> (0 < board \<and> max 1 (tl_board_max_c l) \<le> board))"
  unfolding evaluate_level temp_verdict_level snd_norm_limit by (simp add: Let_def)

lemma te_abort_level: "te_abort (evaluate_die_board_temps l h d b p) = (te_level (evaluate_die_board_temps l h d b p) = Emergency)"
  by (simp only: evaluate_die_board_temps_def Let_def case_prod_unfold dual_temp_eval.simps)

text \<open>
  C18: the check that aborts a running batch and the guard between the batches agree on heat.  A
  reading that aborts a batch makes the guard stop the GPU, and a reading for which the guard
  stops it gracefully, which is the case of heat, would have aborted the batch.
\<close>

theorem abort_agrees_with_guard:
  assumes "guard_matches s (sv_guard sv)" "1 \<le> ss_reference_difficulty s"
    and "action = guard_evaluate (sv_guard (configure_guard_temp_context s sv)) (Some snap)"
  shows "(gpu_temp_abort_check s sv (Some snap) \<longrightarrow> ga_level action = Emergency \<and> ga_should_stop_gpu action)
    \<and> (ga_graceful_stop action \<longrightarrow> gpu_temp_abort_check s sv (Some snap))"
proof -
  define g where "g = sv_guard (configure_guard_temp_context s sv)"
  have lim: "vg_max_temp_c g = tl_die_max_c (ss_temp_limits s)" "vg_max_board_temp_c g = tl_board_max_c (ss_temp_limits s)"
    using assms(1) by (simp_all add: g_def guard_matches_def configure_guard_temp_context_def guard_context_def set_difficulty_context_def)
  define d where "d = mining_difficulty s sv"
  have ctx: "vg_context g = \<lparr>hc_difficulty = max 0 d, hc_reference_difficulty = ss_reference_difficulty s,
      hc_high_diff_enabled = ss_high_diff_enabled s, hc_start_ratio = ss_high_start_ratio s,
      hc_full_ratio = ss_high_full_ratio s, hc_max_tighten_c = ss_high_max_tighten_c s\<rparr>"
    using assms(2) by (simp add: g_def d_def configure_guard_temp_context_def guard_context_def set_difficulty_context_def)
  have board: "effective_board (vg_context g) a b c = effective_board \<lparr>hc_difficulty = d,
      hc_reference_difficulty = ss_reference_difficulty s, hc_high_diff_enabled = ss_high_diff_enabled s,
      hc_start_ratio = ss_high_start_ratio s, hc_full_ratio = ss_high_full_ratio s,
      hc_max_tighten_c = ss_high_max_tighten_c s\<rparr> a b c" for a b c
    by (cases "0 < d") (simp_all add: effective_board_def ctx Let_def effective_control_temp_c_def high_diff_temp_tighten_c_def)
  let ?tev = "evaluate_die_board_temps (guard_temp_limits g) (vg_context g) (snapshot_die snap) (board_temp_c snap) (hotspot_temp_c snap)"
  have same: "gpu_temp_abort_check s sv (Some snap) = (te_level ?tev = Emergency)"
    by (simp add: gpu_temp_abort_check_def policy_temp_eval_def evaluate_snapshot_temps_def te_abort_level abort_iff
        board d_def [symmetric] guard_temp_limits_def lim Let_def)
  have act: "action = guard_evaluate g (Some snap)" using assms(3) by (simp add: g_def)
  have ev: "evaluate_snapshot_temps (guard_temp_limits g) (vg_context g) (Some snap) = Some ?tev"
    by (simp add: evaluate_snapshot_temps_def)
  show ?thesis unfolding same act
    by (simp add: guard_evaluate_def ev stop_action_def plain_action_def)
qed

subsection \<open>A batch that is aborted\<close>

definition without_match :: "loop_env \<Rightarrow> loop_env" where
  "without_match en = en\<lparr>en_mine := (en_mine en)\<lparr>mv_run := (mv_run (en_mine en))
     (0 := (mv_run (en_mine en) 0)\<lparr>cr_matches := []\<rparr>)\<rparr>\<rparr>"

text \<open>
  A block that is found in a batch that heat aborts is lost.  When the first lane of a batch
  finds a match and the check then stops the batch before the second lane, the backend reports
  the hit, but the round that follows is the one without the match: the hit is neither counted,
  nor queued, nor sent.
\<close>

theorem aborted_batch_loses_hit:
  assumes "sv_backend (ls_sv ls) = CudaNativeBackend b" "cb_started b" "2 \<le> cb_lanes b"
    and "cb_parallel_mode b = Sequential" "cr_ok (mv_run (en_mine en) 0)" "cr_matches (mv_run (en_mine en) 0) = match # ms"
    and "\<not> gpu_temp_abort_check s (ls_sv ls) (en_abort_snaps en 0)"
    and "\<not> gpu_temp_abort_check s (ls_sv ls) (en_abort_snaps en 1)"
    and "gpu_temp_abort_check s (ls_sv ls) (en_abort_snaps en 2)"
  shows "(\<exists>n hit. fst (backend_mine s en (ls_sv ls)) = Inr (n, Some hit, True) \<and> hit_key hit = cm_key match)
    \<and> mine_round s en ls = mine_round s (without_match en) ls"
proof -
  have lanes: "[0..<nat (cb_lanes b)] = 0 # 1 # [2..<nat (cb_lanes b)]"
    using assms(3) by (simp add: upt_rec numeral_2_eq_2)
  let ?check = "\<lambda>n. gpu_temp_abort_check s (ls_sv ls) (en_abort_snaps en n)"
  have two: "?check (Suc (Suc 0))" using assms(9) by (simp add: numeral_2_eq_2)
  define after where "after r el = (ls_sv ls)\<lparr>sv_backend := CudaNativeBackend (b\<lparr>cb_last_hs :=
      (let m = (if 0 < cr_attempts r then fl (fint (cr_attempts r) / max el (fl (1 / 10 ^ 9))) else max 0 (cr_hashrate r))
       in if m > 0 then m else max 0 (cr_hashrate r))\<rparr>)\<rparr>" for r :: cuda_batch_result and el
  have run: "backend_mine s e (ls_sv ls) = (Inr (cr_attempts (mv_run (en_mine e) 0),
      hit_from_result (en_mine e) (cb_difficulty b) (mv_run (en_mine e) 0), True),
      after (mv_run (en_mine e) 0) (mv_elapsed (en_mine e)))"
    if "en_abort_snaps e = en_abort_snaps en" "cr_ok (mv_run (en_mine e) 0)" for e
    using assms(1-4,7,8) two that
    by (simp add: backend_mine_def cuda_mine_batch_def aborts_def lanes add_lane_def no_totals_def mb_aborted_def Let_def
        hit_from_result_def after_def split: list.split)
  have same: "after (r\<lparr>cr_matches := ms\<rparr>) el = after r el" for r el ms by (simp add: after_def Let_def)
  have none: "hit_from_result e d (r\<lparr>cr_matches := []\<rparr>) = None" for e d r by (simp add: hit_from_result_def)
  have "backend_mine s (without_match en) (ls_sv ls) = (Inr (cr_attempts (mv_run (en_mine en) 0), None, True),
      after (mv_run (en_mine en) 0) (mv_elapsed (en_mine en)))"
    using run [of "without_match en"] assms(5) by (simp add: without_match_def same none)
  moreover have "en_at (without_match en) = en_at en" "en_snap (without_match en) = en_snap en"
    "en_perf (without_match en) = en_perf en" by (simp_all add: without_match_def)
  ultimately show ?thesis using run [OF refl assms(5)] assms(6)
    by (simp add: mine_round_def) (simp add: hit_from_result_def)
qed

subsection \<open>A restart that fails\<close>

lemma failed_start:
  assumes "is_cuda sv" "backend_stopped (sv_backend sv)" "\<not> ee_init_ok (se_engine env)" "sv_cooldown_until sv \<le> se_time env"
  shows "fst (maybe_restart_gpu s env sv) = Some (EngineError RuntimeError)"
    and "sv_shutting_down (snd (maybe_restart_gpu s env sv)) = sv_shutting_down sv"
proof -
  from assms(1,2) obtain b where b: "sv_backend sv = CudaNativeBackend b" "\<not> cb_started b"
    by (auto simp: is_cuda_def backend_stopped_def split: miner_backend.splits)
  let ?v = "apply_lane_cap_after_temp s (se_snapshot env) sv"
  have r: "cb_started (reduce_lane_cap c) = cb_started c" for c by (simp add: reduce_lane_cap_def Let_def)
  obtain b1 where b1: "sv_backend ?v = CudaNativeBackend b1" "\<not> cb_started b1"
    using b by (cases "sv_reduce_lanes sv"; cases "cb_lanes b \<le> 1"; cases "cb_max_lanes_cap (reduce_lane_cap b) \<ge> cb_max_lanes_cap b")
      (simp_all add: apply_lane_cap_after_temp_def Let_def r)
  have "fst (cuda_start (ss_cuda s) (se_engine env) b1) = Inl RuntimeError"
    using assms(3) b1(2) by (simp add: cuda_start_def case_prod_unfold)
  then show "fst (maybe_restart_gpu s env sv) = Some (EngineError RuntimeError)"
    using assms(4) b b1 by (simp add: maybe_restart_gpu_def Let_def case_prod_unfold)
  have "sv_shutting_down ?v = sv_shutting_down sv"
    by (simp add: apply_lane_cap_after_temp_def Let_def split: miner_backend.split)
  then show "sv_shutting_down (snd (maybe_restart_gpu s env sv)) = sv_shutting_down sv"
    using b b1 by (simp add: maybe_restart_gpu_def Let_def case_prod_unfold)
qed

text \<open>
  An engine that cannot be started again ends the session.  The start of a session tolerates
  an engine that fails, but the first round in which the backend is down, the cooldown is over and
  the engine still does not start shuts the miner down, whatever would have come later.
\<close>

theorem failed_restart_ends_session:
  assumes "is_cuda (ls_sv ls)" "backend_stopped (sv_backend (ls_sv ls))" "\<not> sv_shutting_down (ls_sv ls)"
    and "en_snap en = None" "\<not> ee_init_ok (se_engine (en_at en AtRestart))"
    and "sv_cooldown_until (ls_sv ls) \<le> se_time (en_at en AtRestart)"
    and "sv = ls_sv (run_loop s stop_at last_env (Round en # es) ls)"
  shows "sv_shutting_down sv \<and> \<not> sv_running sv \<and> backend_stopped (sv_backend sv)"
proof -
  let ?now = "se_time (en_at en AtHead)" and ?v = "ls_sv ls"
  have final: "sv_shutting_down v \<and> \<not> sv_running v \<and> backend_stopped (sv_backend v)"
    if "\<not> sv_shutting_down (ls_sv k)" "v = ls_sv (end_session s last_env k)" for k v
    using after_shutdown [OF that(1), of s last_env] that(2)
    by (simp add: end_session_def finalize_session_def map_sv_def stop_backend_def Let_def)
  define ls1 where "ls1 = (if fl (?now - ls_net_check ls) \<ge> ss_network_poll_interval_s s
    then (map_sv (\<lambda>sv. snd (refresh_network s (en_at en AtPoll) False sv)) ls)\<lparr>ls_net_check := ?now\<rparr> else ls)"
  define ls2 where "ls2 = (if fl (?now - ls_power_tune ls1) \<ge> ss_sample_interval_s s
    then (map_sv (tune_gpu s en) ls1)\<lparr>ls_power_tune := ?now\<rparr> else ls1)"
  have f1: "same_flags ?v (ls_sv ls1)" using flagged.rel_refresh by (simp add: ls1_def map_sv_def)
  have "same_flags v (tune_gpu s en v)" for v
    using assms(4) by (simp add: tune_gpu_def Let_def configure_guard_temp_context_def)
  then have f2: "same_flags ?v (ls_sv ls2)" using same_flags_trans [OF f1] f1 by (simp add: ls2_def map_sv_def)
  define w where "w = configure_guard_temp_context s (ls_sv ls2)"
  have "same_flags ?v w" using f2 by (simp add: w_def configure_guard_temp_context_def)
  then have w: "is_cuda w" "backend_stopped (sv_backend w)" "\<not> sv_shutting_down w"
    "sv_cooldown_until w \<le> se_time (en_at en AtRestart)"
    using assms(1-3,6) by (simp_all add: same_flags_def)
  have safe: "apply_gpu_safety s e None (ls_sv ls2) = (True, w)" for e
    by (simp add: apply_gpu_safety_def guard_evaluate_def plain_action_def w_def Let_def)
  note fs = failed_start [OF w(1,2) assms(5) w(4), of s]
  have gr: "gpu_round s en ?now ls2 = (Some (Some (EngineError RuntimeError)),
      ls2\<lparr>ls_sv := snd (maybe_restart_gpu s (en_at en AtRestart) w)\<rparr>)"
    using fs(1) by (simp add: gpu_round_def assms(4) safe restart_def case_prod_unfold)
  have "is_gpu s (ls_sv ls2)" using f2 assms(1) by (simp add: is_gpu_def same_flags_def)
  then have lr: "loop_round s en ls = (Some (EngineError RuntimeError),
      ls2\<lparr>ls_sv := snd (maybe_restart_gpu s (en_at en AtRestart) w)\<rparr>)"
    using gr unfolding loop_round_def Let_def ls1_def [symmetric] ls2_def [symmetric] by simp
  show ?thesis
    using final [OF assms(3)] final [of "ls2\<lparr>ls_sv := snd (maybe_restart_gpu s (en_at en AtRestart) w)\<rparr>"] fs(2) w(3) assms(7)
    by (simp add: lr)
qed

end
