(* ===== verification/SessionSamples.thy ===== *)
theory SessionSamples
  imports SessionSafety
begin

text \<open>A small miner on which the properties of the session are applied.\<close>

definition sample_sup :: sup_settings where
  "sample_sup = \<lparr>ss_memory_cost = 100, ss_salt_hex = ''00'', ss_time_cost = 1, ss_parallelism = 1, ss_hash_len = 64,
     ss_submit_workers = 1, ss_sample_interval_s = 5, ss_reference_difficulty = 1100, ss_legacy_gpu = False,
     ss_high_diff_enabled = True, ss_high_start_ratio = 2, ss_high_full_ratio = 4, ss_high_max_tighten_c = 10,
     ss_temp_limits = \<lparr>tl_die_warn_c = 75, tl_die_max_c = 80, tl_board_warn_c = 85, tl_board_max_c = 90,
       tl_planned_lanes = 1, tl_min_lanes = 1, tl_batch_min_scale = 1\<rparr>,
     ss_gpu_cooldown_s = 60, ss_stats_interval_s = 4, ss_network_poll_interval_s = 15, ss_min_headroom_floor_mib = 64,
     ss_cuda = CudaMine.sample_settings\<rparr>"

definition sample_point :: sup_env where
  "sample_point = \<lparr>se_time = 100, se_minute = 30, se_now = ''t'', se_loads = (\<lambda>_. None),
     se_reply = (\<lambda>_. ReplyFailure), se_http = (\<lambda>_. (200, ''ok'')), se_argon = (\<lambda>_ _ _ _ _ _. ''$argon2id$m=100,t=1$xXEN11x''),
     se_engine = CudaMine.sample_env, se_exe_exists = True, se_snapshot = None, se_power_limits = None, se_power_ok = True\<rparr>"

definition sample_snap :: "int \<Rightarrow> gpu_snapshot" where
  "sample_snap temp = \<lparr>gpu_index = 0, gpu_name = ''gpu'', total_mib = 8192, used_mib = 1000, free_mib = 7192,
     util_pct = 99, power_w = 200, temperature_c = temp, gpu_temp_c = temp, board_temp_c = 0, hotspot_temp_c = 0,
     memory_temp_c = 0, temp_source = ''gpu''\<rparr>"

definition sample_guard :: vram_guard where
  "sample_guard = set_difficulty_context 100 1100 True 2 4 10
     (init_guard 4096 512 7000 64 80 75 60 (Some 90) (Some 85))"

definition sample_poller :: poller where
  "sample_poller = init_poller ''http://pool/difficulty'' 15 60 5"

definition sample_supervisor :: "block_store \<Rightarrow> miner_backend \<Rightarrow> supervisor" where
  "sample_supervisor st b = \<lparr>
     sv_flusher = \<lparr>fl_store = st, fl_metrics = None, fl_local_accepts = None, fl_warned_keys = {}\<rparr>,
     sv_backend = b, sv_guard = sample_guard, sv_vram_caps = None, sv_power = None, sv_poller = sample_poller,
     sv_running = True, sv_shutting_down = False, sv_network_ok = False, sv_network_difficulty = None,
     sv_last_log_ok = None, sv_defer_until = 0, sv_cooldown_until = 0, sv_reduce_lanes = False,
     sv_was_in_window = False, sv_warn_at = 0, sv_warn_code = None\<rparr>"

definition sample_loop :: "block_store \<Rightarrow> miner_backend \<Rightarrow> loop_state" where
  "sample_loop st b = \<lparr>ls_sv = sample_supervisor st b,
     ls_lanes = init_lane_manager \<lparr>vb_target_mib = 4096, vb_headroom_mib = 512\<rparr> 1 1 False,
     ls_seen = None, ls_net_check = 0, ls_flushed = (0, 0), ls_tune = 0, ls_gpu_poll = 0, ls_power_tune = 0\<rparr>"

definition sample_round :: loop_env where
  "sample_round = \<lparr>en_at = (\<lambda>_. sample_point), en_snap = None, en_rows = None, en_mine = sample_mine,
     en_abort_snaps = (\<lambda>n. if n < 2 then None else Some (sample_snap 95)), en_perf = 1, en_xen_hs = 0,
     en_key_fn = (\<lambda>_ _. ''k''), en_hash_of = (\<lambda>_. ''h''), en_attempts = []\<rparr>"

theorem session_never_loses_block_witness:
  "\<exists>r'. r' \<in> set (pending_blocks (sv_store (ls_sv (run_session sample_sup sample_point (\<lambda>_. 0) sample_poller None
      sample_point [Round sample_round, PollerTick sample_point, Interrupt]
      (sample_loop (store_run [Enqueue ''t'' sample_hit ''r''] empty_store) (CpuArgon2Backend (init_cpu 1)))))))
    \<and> p_key r' = ''ab12''"
proof -
  let ?st = "store_run [Enqueue ''t'' sample_hit ''r''] empty_store"
  let ?ls = "sample_loop ?st (CpuArgon2Backend (init_cpu 1))"
  have st: "sv_store (ls_sv ?ls) = ?st" by (simp add: sample_loop_def sample_supervisor_def sv_store_def)
  have inv: "store_inv (sv_store (ls_sv ?ls))" unfolding st by (rule store_inv_run [OF store_inv_empty])
  obtain r where r: "r \<in> set (pending_blocks (sv_store (ls_sv ?ls)))" "p_key r = ''ab12''"
    unfolding st by (auto simp: store_run_def store_step_def enqueue_def empty_store_def Let_def sample_hit_def)
  from session_never_loses_block [OF inv r(1) refl, of sample_sup sample_point "\<lambda>_. 0" sample_poller None
      sample_point "[Round sample_round, PollerTick sample_point, Interrupt]"] r(2)
  show ?thesis by (auto simp: row_ident_def)
qed

text \<open>The counter of a session that starts with one block in the queue and is then interrupted.\<close>

definition queue_loop :: loop_state where
  "queue_loop = (sample_loop empty_store (CpuArgon2Backend (init_cpu 1)))\<lparr>ls_sv :=
     (sample_supervisor empty_store (CpuArgon2Backend (init_cpu 1)))\<lparr>sv_flusher :=
       \<lparr>fl_store = store_run [Enqueue ''t'' sample_hit ''r''] empty_store, fl_metrics = Some (init_tracker 0 0),
        fl_local_accepts = None, fl_warned_keys = {}\<rparr>\<rparr>\<rparr>"

theorem session_counts_queue_witness:
  "map_option (\<lambda>m. queued (stats m)) (fl_metrics (sv_flusher (ls_sv (run_session sample_sup sample_point (\<lambda>_. 0)
     sample_poller None sample_point [Interrupt] queue_loop)))) = Some 1"
proof -
  define sv where "sv = ls_sv (run_session sample_sup sample_point (\<lambda>_. 0) sample_poller None sample_point [Interrupt] queue_loop)"
  have "fl_metrics (sv_flusher (ls_sv (run_session sample_sup sample_point (\<lambda>_. 0) sample_poller None sample_point
      [Interrupt] queue_loop))) \<noteq> None
    \<and> map p_block_type (pending (sv_store (ls_sv (run_session sample_sup sample_point (\<lambda>_. 0) sample_poller None sample_point
      [Interrupt] queue_loop)))) = [''XNM'']" by code_simp
  then obtain m where m: "fl_metrics (sv_flusher sv) = Some m" and t: "map p_block_type (pending (sv_store sv)) = [''XNM'']"
    by (auto simp: sv_def)
  from t have "p_block_type ` set (pending (sv_store sv)) \<subseteq> canonical_types" "length (pending (sv_store sv)) = 1"
    by (auto simp: canonical_types_def Cons_eq_map_conv map_eq_Cons_conv)
  with session_counts_queue [OF sv_def m] show ?thesis unfolding sv_def [symmetric] by (simp add: m)
qed

text \<open>A miner with a CUDA card whose memory can be read, as the constructor leaves it.\<close>

definition built_supervisor :: supervisor where
  "built_supervisor = init_supervisor sample_sup sample_point
     \<lparr>fl_store = empty_store, fl_metrics = None, fl_local_accepts = None, fl_warned_keys = {}\<rparr>
     (CudaNativeBackend (init_backend (ss_cuda sample_sup) NoFile)) sample_poller None"

definition built_loop :: loop_state where
  "built_loop = (sample_loop empty_store (CpuArgon2Backend (init_cpu 1)))\<lparr>ls_sv := built_supervisor\<rparr>"

lemma sample_parts [simp]:
  "ss_cuda sample_sup = CudaMine.sample_settings" "ss_memory_cost sample_sup = 100"
  "se_engine sample_point = CudaMine.sample_env" "se_time sample_point = 100" "se_snapshot sample_point = None"
  by (simp_all add: sample_sup_def sample_point_def)

definition sample_caps_now :: vram_caps where
  "sample_caps_now = resolve_vram_caps 256 CudaMine.sample_limits"

lemma built_backend:
  "sv_backend built_supervisor = CudaNativeBackend (sample_backend\<lparr>cb_vram_caps := Some sample_caps_now\<rparr>)"
  "sv_network_ok built_supervisor = False" "sv_cooldown_until built_supervisor = 0"
proof -
  have d: "resolve_total_vram_mib sample_point v = Some 256" if "is_cuda v" for v
    using that by (simp add: resolve_total_vram_mib_def CudaMine.sample_env_def mib_of_bytes_def)
  have l: "cs_limits CudaMine.sample_settings = CudaMine.sample_limits" by (simp add: CudaMine.sample_settings_def)
  show "sv_backend built_supervisor = CudaNativeBackend (sample_backend\<lparr>cb_vram_caps := Some sample_caps_now\<rparr>)"
    "sv_network_ok built_supervisor = False" "sv_cooldown_until built_supervisor = 0"
    unfolding built_supervisor_def init_supervisor_def
    by (simp_all add: apply_vram_policy_def configure_guard_def guard_context_def d is_cuda_def Let_def map_cuda_def
        set_vram_caps_def l sample_backend_def sample_caps_now_def)
qed

lemma sample_started_caps:
  "cb_started (snd (cuda_start CudaMine.sample_settings CudaMine.sample_env (sample_backend\<lparr>cb_vram_caps := Some sample_caps_now\<rparr>)))"
proof -
  let ?b = "sample_backend\<lparr>cb_vram_caps := Some sample_caps_now\<rparr>"
  have l: "cs_limits CudaMine.sample_settings = CudaMine.sample_limits" by (simp add: CudaMine.sample_settings_def)
  have "vc_total_mib sample_caps_now = 256" by (simp add: sample_caps_now_def sample_caps(1))
  then have "caps_for_total CudaMine.sample_settings 32768 ?b = caps_for_total CudaMine.sample_settings 32768 sample_backend"
    by (simp add: caps_for_total_def Let_def l sample_backend_def init_backend_def)
  then have "cuda_start CudaMine.sample_settings CudaMine.sample_env ?b
      = cuda_start CudaMine.sample_settings CudaMine.sample_env sample_backend"
    by (simp only: cuda_start_def) (simp add: sample_backend_def init_backend_def Let_def)
  then show ?thesis using sample_started by simp
qed

theorem session_mines_network_difficulty_witness:
  "\<exists>b. sv_backend (ls_sv (run_session sample_sup sample_point (\<lambda>_. 0) sample_poller None sample_point [Interrupt] built_loop))
      = CudaNativeBackend b
    \<and> sv_network_difficulty (ls_sv (run_session sample_sup sample_point (\<lambda>_. 0) sample_poller None sample_point [Interrupt]
        built_loop)) = Some (cb_difficulty b) \<and> 0 < cb_difficulty b"
proof -
  have i: "ls_sv built_loop = built_supervisor" by (simp add: built_loop_def)
  have p: "poller_positive sample_poller" "cs_memory_cost (ss_cuda sample_sup) = ss_memory_cost sample_sup" "0 < ss_memory_cost sample_sup"
    by (simp_all add: poller_positive_def sample_poller_def init_poller_def starting_status_def Let_def CudaMine.sample_settings_def)
  from session_mines_network_difficulty [OF built_supervisor_def p(2,3) disjI1 [OF i] p(1) refl, of sample_point "\<lambda>_. 0" None
      sample_point "[Interrupt]"] show ?thesis by blast
qed

lemma sample_device [simp]: "device_ok sample_sup sample_point"
  by (simp add: device_ok_def CudaMine.sample_settings_def CudaMine.sample_limits_def
      env_ok_def CudaMine.sample_env_def size_bound_def)

theorem session_within_limits_witness:
  "\<exists>b plan. sv_backend (ls_sv (run_session sample_sup sample_point (\<lambda>_. 0) sample_poller None sample_point [] built_loop))
      = CudaNativeBackend b
    \<and> cb_vram_plan b = Some plan \<and> within_limits plan \<and> 1 \<le> cb_lanes b"
proof -
  let ?b = "sample_backend\<lparr>cb_vram_caps := Some sample_caps_now\<rparr>"
  let ?s = "snd (cuda_start CudaMine.sample_settings CudaMine.sample_env ?b)"
  have i: "ls_sv built_loop = built_supervisor" by (simp add: built_loop_def)
  have d: "cuda_set_difficulty CudaMine.sample_settings CudaMine.sample_env 100 ?b = ?b"
    by (simp add: cuda_set_difficulty_def sample_backend_def init_backend_def Let_def CudaMine.sample_settings_def)
  let ?c = "connect_network sample_sup sample_point sample_poller (recover_queue (\<lambda>_. 0) built_supervisor)"
  have c: "sv_backend ?c = CudaNativeBackend ?b" "\<not> sv_network_ok ?c" "sv_cooldown_until ?c = 0"
    using d built_backend by (simp_all add: connect_network_def sample_poller_def init_poller_def starting_status_def Let_def
        map_cuda_def recover_queue_def map_metrics_def sync_queue_def map_store_def)
  have "resume_queued_blocks sample_sup sample_point ?c = ?c"
    using c(2) by (simp add: resume_queued_blocks_def Let_def)
  then have b: "sv_backend (ls_sv (run_session sample_sup sample_point (\<lambda>_. 0) sample_poller None sample_point [] built_loop))
      = CudaNativeBackend ?s"
    using c i by (simp add: run_session_def map_sv_def run_startup_def start_mining_def start_backend_def sync_queue_def map_metrics_def)
  have e: "devices_ok sample_sup []" by (simp add: devices_ok_def)
  show ?thesis
    using session_within_limits [OF built_supervisor_def disjI1 [OF i] sample_device sample_device e b sample_started_caps] b by blast
qed

theorem nothing_sent_when_held_witness:
  "handle_hit sample_sup (sample_point\<lparr>se_http := (\<lambda>_. (500, ''down''))\<rparr>) sample_hit
     (sample_supervisor empty_store (CpuArgon2Backend (init_cpu 1)))
   = handle_hit sample_sup sample_point sample_hit (sample_supervisor empty_store (CpuArgon2Backend (init_cpu 1)))
   \<and> run_flush sample_sup (sample_point\<lparr>se_http := (\<lambda>h. if py_upper (hit_type h) = ''XUNI'' then (500, []) else (200, ''ok''))\<rparr>) True
       (sample_supervisor empty_store (CpuArgon2Backend (init_cpu 1)))
     = run_flush sample_sup sample_point True (sample_supervisor empty_store (CpuArgon2Backend (init_cpu 1)))"
proof -
  let ?sv = "sample_supervisor empty_store (CpuArgon2Backend (init_cpu 1))"
  have d: "ps_difficulty (pl_status (sv_poller ?sv)) = None"
    by (simp add: sample_supervisor_def sample_poller_def init_poller_def starting_status_def Let_def)
  have w: "\<not> in_xuni_window (se_minute sample_point)" by (simp add: sample_point_def in_xuni_window_def)
  have h: "py_upper (hit_type h) \<noteq> ''XUNI'' \<Longrightarrow> (if py_upper (hit_type h) = ''XUNI'' then (500, []) else (200, ''ok'')) = se_http sample_point h" for h
    by (simp add: sample_point_def)
  show ?thesis
    using nothing_sent_when_held [of sample_point ?sv sample_sup sample_hit "\<lambda>_. (500, ''down'')" True] d
      nothing_sent_when_held [of sample_point ?sv sample_sup sample_hit
        "\<lambda>h. if py_upper (hit_type h) = ''XUNI'' then (500, []) else (200, ''ok'')" True] w h by blast
qed

theorem stale_encoded_hit_lost_witness:
  "sv_store (handle_hit sample_sup sample_point (sample_hit\<lparr>hit_hash := ''$argon2id$m=200,t=1$xXEN11x''\<rparr>)
     (sample_supervisor empty_store (CpuArgon2Backend (init_cpu 1)))) = empty_store"
proof -
  let ?sv = "sample_supervisor empty_store (CpuArgon2Backend (init_cpu 1))"
  have "memory_cost_from_hash ''$argon2id$m=200,t=1$xXEN11x'' = Some 200" by code_simp
  moreover have "mining_difficulty sample_sup ?sv = 100"
    by (simp add: mining_difficulty_def sample_supervisor_def int_or_def sample_sup_def)
  moreover have "\<not> in_difficulty_transition sample_point ?sv"
    by (simp add: in_difficulty_transition_def sample_supervisor_def sample_point_def)
  moreover have "sv_store ?sv = empty_store" by (simp add: sample_supervisor_def sv_store_def)
  ultimately show ?thesis
    using stale_encoded_hit_lost [of "sample_hit\<lparr>hit_hash := ''$argon2id$m=200,t=1$xXEN11x''\<rparr>" 200 sample_sup ?sv sample_point] by simp
qed

text \<open>A hit comes in after the shutdown.\<close>

definition closing_miner :: supervisor where
  "closing_miner = sample_supervisor empty_store (XenblocksGpuBackend \<lparr>xg_running = True, xg_lanes = 1, xg_last_hs = 0\<rparr>)"

theorem shutdown_is_final_witness:
  "let sv = late_hits sample_sup [(sample_point, sample_hit)] (graceful_shutdown sample_sup sample_point closing_miner)
   in \<not> sv_running sv \<and> backend_stopped (sv_backend sv) \<and> is_queued ''ab12'' (sv_store sv) \<and> submitted_blocks (sv_store sv) = []"
proof -
  let ?sv = "graceful_shutdown sample_sup sample_point closing_miner"
  have "\<not> sv_shutting_down closing_miner" by (simp add: closing_miner_def sample_supervisor_def)
  note f = shutdown_is_final [OF this refl refl, where s = sample_sup and env = sample_point
      and later = "[(sample_point, sample_hit)]"]
  have "prepare_live_hit sample_sup sample_point ?sv (attach_hit_memory_cost sample_sup ?sv sample_hit) \<noteq> None
      \<and> submitted_blocks (sv_store ?sv) = [] \<and> hit_key sample_hit = ''ab12''" by code_simp
  with f show ?thesis by (simp add: Let_def)
qed

definition hot_gpu :: supervisor where
  "hot_gpu = sample_supervisor empty_store (CudaNativeBackend (sample_backend\<lparr>cb_started := True\<rparr>))"

lemma hot_snap [simp]:
  "snapshot_die (sample_snap 95) = 95" "hotspot_temp_c (sample_snap 95) = 0" "effective_die 95 0 = 95"
  by (simp_all add: snapshot_die_def sample_snap_def effective_die_def)

lemma hot_abort: "gpu_temp_abort_check sample_sup sv (Some (sample_snap 95))"
  by (simp add: gpu_temp_abort_check_def policy_temp_eval_def evaluate_snapshot_temps_def te_abort_level abort_iff Let_def
      sample_sup_def)

lemma hot_action:
  "ga_level (guard_evaluate (sv_guard (configure_guard_temp_context sample_sup hot_gpu)) (Some (sample_snap 95))) = Emergency"
proof -
  let ?g = "sv_guard (configure_guard_temp_context sample_sup hot_gpu)"
  have "tl_die_max_c (guard_temp_limits ?g) = 80"
    by (simp add: guard_temp_limits_def configure_guard_temp_context_def guard_context_def set_difficulty_context_def
        hot_gpu_def sample_supervisor_def sample_guard_def init_guard_def Let_def)
  then show ?thesis by (simp add: guard_evaluate_def stop_action_def evaluate_snapshot_temps_def abort_iff Let_def)
qed

definition hot_loop :: loop_state where
  "hot_loop = (sample_loop empty_store (CpuArgon2Backend (init_cpu 1)))\<lparr>ls_sv := hot_gpu\<rparr>"

definition hot_round :: loop_env where
  "hot_round = sample_round\<lparr>en_snap := Some (sample_snap 95)\<rparr>"

theorem overheated_gpu_rests_witness:
  "let ls = snd (gpu_round sample_sup hot_round 100 hot_loop)
   in sv_cooldown_until (ls_sv ls) = 160
     \<and> backend_stopped (sv_backend (ls_sv (run_loop sample_sup None sample_point [Round sample_round, Round hot_round] ls)))"
proof -
  have e: "ga_level (guard_evaluate (sv_guard (configure_guard_temp_context sample_sup (ls_sv hot_loop))) (en_snap hot_round)) = Emergency"
    using hot_action by (simp add: hot_loop_def hot_round_def)
  have g: "is_gpu sample_sup (ls_sv hot_loop)" "\<not> is_cpu (sv_backend (ls_sv hot_loop))" "gpu_backend_running sample_sup (ls_sv hot_loop)"
    by (simp_all add: is_gpu_def is_cuda_def gpu_backend_running_def hot_loop_def hot_gpu_def sample_supervisor_def)
  have t: "se_time (en_at hot_round p) = 100" "se_time (en_at sample_round p) = 100" for p
    by (simp_all add: hot_round_def sample_round_def)
  have "vg_cooldown_s (sv_guard (ls_sv hot_loop)) = 60"
    by (simp add: hot_loop_def hot_gpu_def sample_supervisor_def sample_guard_def set_difficulty_context_def init_guard_def Let_def)
  then have T: "fl (100 + fint (vg_cooldown_s (sv_guard (ls_sv hot_loop)))) = 160"
    by (simp add: fint_def fl_numeral)
  then have w: "clock_within 100 (fl (100 + fint (vg_cooldown_s (sv_guard (ls_sv hot_loop))))) hot_round"
    "rounds_within 100 (fl (100 + fint (vg_cooldown_s (sv_guard (ls_sv hot_loop))))) [Round sample_round, Round hot_round]"
    by (simp_all add: clock_within_def rounds_within_def t)
  obtain r ls where ls: "gpu_round sample_sup hot_round 100 hot_loop = (r, ls)" by fastforce
  from overheated_gpu_rests [OF e g _ refl w ls refl] T ls show ?thesis by (simp add: Let_def t)
qed

theorem abort_agrees_with_guard_witness:
  "gpu_temp_abort_check sample_sup hot_gpu (Some (sample_snap 95))
   \<and> ga_should_stop_gpu (guard_evaluate (sv_guard (configure_guard_temp_context sample_sup hot_gpu)) (Some (sample_snap 95)))"
proof -
  have "guard_matches sample_sup (sv_guard hot_gpu)" "1 \<le> ss_reference_difficulty sample_sup"
    by (simp_all add: guard_matches_def hot_gpu_def sample_supervisor_def sample_guard_def set_difficulty_context_def
        init_guard_def Let_def sample_sup_def)
  from abort_agrees_with_guard [OF this refl, of "sample_snap 95"] hot_abort show ?thesis by blast
qed

theorem aborted_batch_loses_hit_witness:
  "let ls = sample_loop empty_store (CudaNativeBackend sample_two_lanes)
   in mine_round sample_sup sample_round ls = mine_round sample_sup (without_match sample_round) ls"
proof -
  let ?ls = "sample_loop empty_store (CudaNativeBackend sample_two_lanes)"
  have b: "sv_backend (ls_sv ?ls) = CudaNativeBackend sample_two_lanes" "cb_started sample_two_lanes"
    "2 \<le> cb_lanes sample_two_lanes" "cb_parallel_mode sample_two_lanes = Sequential"
    by (simp_all add: sample_loop_def sample_supervisor_def sample_two_lanes_def sample_backend_def init_backend_def Let_def)
  have m: "cr_ok (mv_run (en_mine sample_round) 0)"
    "cr_matches (mv_run (en_mine sample_round) 0) = sample_match ''a'' # [sample_match ''b'']"
    by (simp_all add: sample_round_def sample_mine_def)
  have n: "\<not> gpu_temp_abort_check sample_sup v None" for v
    by (simp add: gpu_temp_abort_check_def policy_temp_eval_def evaluate_snapshot_temps_def)
  have h: "gpu_temp_abort_check sample_sup (ls_sv ?ls) (Some (sample_snap 95))" by (rule hot_abort)
  have "en_abort_snaps sample_round 0 = None" "en_abort_snaps sample_round 1 = None"
    "en_abort_snaps sample_round 2 = Some (sample_snap 95)" by (simp_all add: sample_round_def)
  then show ?thesis
    using aborted_batch_loses_hit [OF b m, of sample_sup] n h by (simp add: Let_def)
qed

text \<open>A miner that came up without an engine, and the first round that finds the engine dead.\<close>

definition dead_round :: loop_env where
  "dead_round = sample_round\<lparr>en_at := (\<lambda>_. sample_point\<lparr>se_engine := CudaMine.sample_env\<lparr>ee_init_ok := False\<rparr>\<rparr>)\<rparr>"

theorem failed_restart_ends_session_witness:
  "let sv = ls_sv (run_loop sample_sup None sample_point [Round dead_round, Round sample_round]
       (sample_loop empty_store (CudaNativeBackend sample_backend)))
   in sv_shutting_down sv \<and> \<not> sv_running sv"
proof -
  let ?ls = "sample_loop empty_store (CudaNativeBackend sample_backend)"
  have "is_cuda (ls_sv ?ls)" "backend_stopped (sv_backend (ls_sv ?ls))" "\<not> sv_shutting_down (ls_sv ?ls)"
    "sv_cooldown_until (ls_sv ?ls) \<le> se_time (en_at dead_round AtRestart)"
    by (simp_all add: sample_loop_def sample_supervisor_def is_cuda_def backend_stopped_def sample_backend_def
        init_backend_def Let_def dead_round_def sample_point_def)
  moreover have "en_snap dead_round = None" "\<not> ee_init_ok (se_engine (en_at dead_round AtRestart))"
    by (simp_all add: dead_round_def sample_round_def)
  ultimately show ?thesis
    using failed_restart_ends_session [OF _ _ _ _ _ _ refl, of ?ls dead_round sample_sup None sample_point "[Round sample_round]"]
    by (simp add: Let_def)
qed

end
