(* ===== verification/LocalStats.thy ===== *)
theory LocalStats
  imports Metrics "HOL-Library.AList"
begin

text \<open>
  The accepted blocks of each mining day (\<open>monitoring/local_stats.py\<close>), the days and weeks of the
  statistics (\<open>monitoring/periods.py\<close>) and the rewards (\<open>monitoring/rewards.py\<close>).  A date is its
  ordinal number (\<open>date.toordinal\<close>, 1 is Monday 1 January of year 1); dates far from the years 1 and
  9999 are meant, where date arithmetic does not raise.  The key of a day in the file is its
  ordinal instead of its ISO text.  Labels for the display are left out.
\<close>

subsection \<open>Days and weeks\<close>

record local_time =
  lt_date :: int
  lt_hour :: int

definition mining_day :: "local_time \<Rightarrow> int" where
  "mining_day now = (if lt_hour now < 1 then lt_date now - 1 else lt_date now)"

definition previous_mining_day :: "local_time \<Rightarrow> int" where
  "previous_mining_day now = mining_day now - 1"

definition weekday :: "int \<Rightarrow> int" where
  "weekday day = (day + 6) mod 7"

definition mining_week_start :: "local_time \<Rightarrow> int" where
  "mining_week_start now = (let day = mining_day now in day - weekday day)"

definition previous_mining_week_start :: "local_time \<Rightarrow> int" where
  "previous_mining_week_start now = mining_week_start now - 7"

function days_through :: "int \<Rightarrow> int \<Rightarrow> int list" where
  "days_through cursor end_day = (if cursor \<le> end_day then cursor # days_through (cursor + 1) end_day else [])"
  by pat_completeness auto
termination
  by (relation "measure (\<lambda>(cursor, end_day). nat (end_day + 1 - cursor))") auto

declare days_through.simps [simp del]

definition mining_week_days :: "local_time \<Rightarrow> int list" where
  "mining_week_days now = days_through (mining_week_start now) (mining_day now)"

definition previous_mining_week_days :: "local_time \<Rightarrow> int list" where
  "previous_mining_week_days now =
     (let start = previous_mining_week_start now in map (\<lambda>offset. start + int offset) [0..<7])"

subsection \<open>Rewards\<close>

definition xnm_genesis_date :: int where
  "xnm_genesis_date = 738776"

definition xnm_year_index :: "int \<Rightarrow> int" where
  "xnm_year_index on = (if on < xnm_genesis_date then 0 else (on - xnm_genesis_date) div 365)"

definition xnm_reward_per_block :: "int \<Rightarrow> pyfloat" where
  "xnm_reward_per_block on = fl (10 / 2 ^ nat (xnm_year_index on))"

definition reward_per_block :: "string \<Rightarrow> int \<Rightarrow> pyfloat" where
  "reward_per_block kind on = (if py_upper kind = ''XNM'' then xnm_reward_per_block on else 1)"

definition blocks_to_tokens :: "string \<Rightarrow> int \<Rightarrow> int \<Rightarrow> pyfloat" where
  "blocks_to_tokens kind blocks on = fl (fint blocks * reward_per_block kind on)"

definition next_halving_date :: "int \<Rightarrow> int" where
  "next_halving_date on = xnm_genesis_date + (xnm_year_index on + 1) * 365"

subsection \<open>The tracker\<close>

type_synonym day_counts = "block_kind \<Rightarrow> int"

text \<open>The file: absent, not to be read as counts, or the counts of the days in it.\<close>

datatype history_file = NoHistory | BadHistory | History "(int \<times> day_counts) list"

record local_stats =
  lm_days :: "(int \<times> day_counts) list"
  lm_file :: history_file

definition load_stats :: "history_file \<Rightarrow> local_stats" where
  "load_stats f = \<lparr>lm_days = (case f of History days \<Rightarrow> days | _ \<Rightarrow> []), lm_file = f\<rparr>"

definition save_stats :: "local_stats \<Rightarrow> local_stats" where
  "save_stats t = t\<lparr>lm_file := History (lm_days t)\<rparr>"

definition counts_of_day :: "int \<Rightarrow> local_stats \<Rightarrow> day_counts" where
  "counts_of_day day t = (case map_of (lm_days t) day of None \<Rightarrow> (\<lambda>_. 0) | Some c \<Rightarrow> c)"

definition today_counts :: "local_time \<Rightarrow> local_stats \<Rightarrow> day_counts" where
  "today_counts now t = counts_of_day (mining_day now) t"

definition stats_record_accept :: "string \<times> local_time \<Rightarrow> local_stats \<Rightarrow> local_stats" where
  "stats_record_accept e t = (case e of (kind, now) \<Rightarrow>
     (let day = mining_day now;
          days = (if map_of (lm_days t) day = None then lm_days t @ [(day, \<lambda>_. 0)] else lm_days t);
          counts = (case map_of days day of None \<Rightarrow> (\<lambda>_. 0) | Some c \<Rightarrow> c)
      in save_stats (t\<lparr>lm_days := AList.update day (inc_counter counts kind) days\<rparr>)))"

definition has_day :: "int \<Rightarrow> local_stats \<Rightarrow> bool" where
  "has_day day t \<longleftrightarrow> map_of (lm_days t) day \<noteq> None"

fun kind_name :: "block_kind \<Rightarrow> string" where
  "kind_name XUNI = ''XUNI''"
| "kind_name XNM = ''XNM''"
| "kind_name XBLK = ''XBLK''"

definition day_tokens :: "int \<Rightarrow> local_stats \<Rightarrow> block_kind \<Rightarrow> pyfloat" where
  "day_tokens day t kind = blocks_to_tokens (kind_name kind) (counts_of_day day t kind) day"

definition sum_tokens :: "int list \<Rightarrow> local_stats \<Rightarrow> block_kind \<Rightarrow> pyfloat" where
  "sum_tokens days t kind = fold (\<lambda>day total_so_far. fl (total_so_far + day_tokens day t kind)) days 0"

text \<open>A change against an earlier period: the difference, and in percent where that makes sense.\<close>

definition token_change :: "pyfloat \<Rightarrow> pyfloat option \<Rightarrow> (pyfloat \<times> pyfloat option) option" where
  "token_change current baseline = (case baseline of
       None \<Rightarrow> None
     | Some b \<Rightarrow> (let delta = fl (current - b) in
         Some (delta, if b = 0 then None else Some (fl (fl (delta / b) * 100)))))"

record local_stats_view =
  lv_today_tokens :: "block_kind \<Rightarrow> pyfloat"
  lv_today_blocks :: day_counts
  lv_day_change :: "block_kind \<Rightarrow> (pyfloat \<times> pyfloat option) option"
  lv_week_change :: "block_kind \<Rightarrow> (pyfloat \<times> pyfloat option) option"

definition local_stats_view :: "local_time \<Rightarrow> local_stats \<Rightarrow> local_stats_view" where
  "local_stats_view now t =
     (let today = mining_day now; yesterday = previous_mining_day now;
          prior_days = previous_mining_week_days now;
          prior = (if list_ex (\<lambda>d. has_day d t) prior_days then Some (sum_tokens prior_days t) else None)
      in \<lparr>lv_today_tokens = day_tokens today t, lv_today_blocks = counts_of_day today t,
          lv_day_change = (\<lambda>k. token_change (day_tokens today t k)
            (if has_day yesterday t then Some (day_tokens yesterday t k) else None)),
          lv_week_change = (\<lambda>k. token_change (sum_tokens (mining_week_days now) t k) (map_option (\<lambda>f. f k) prior))\<rparr>)"

subsection \<open>Properties\<close>

lemma days_through_eq: "days_through a b = [a..b]"
  by (induction a b rule: days_through.induct) (simp add: days_through.simps upto_rec1)

lemma weekday_bounds: "0 \<le> weekday d" "weekday d < 7"
  by (simp_all add: weekday_def)

lemma week_start_le: "mining_week_start now \<le> mining_day now" "mining_day now < mining_week_start now + 7"
  using weekday_bounds [of "mining_day now"] by (simp_all add: mining_week_start_def Let_def)

lemma week_start_monday: "weekday (mining_week_start now) = 0"
proof -
  have "(d - (d + 6) mod 7 + 6) mod 7 = (0 :: int)" for d
    by presburger
  then show ?thesis by (simp add: mining_week_start_def weekday_def Let_def)
qed

text \<open>
  The statistics' weeks are weeks: the current one starts on a Monday, goes without a gap through
  the current mining day, and has at most seven days; the previous one are the seven days before
  that Monday; so no day is counted in both, and none between them is missed.
\<close>

theorem weeks_are_consecutive:
  "weekday (hd (mining_week_days now)) = 0 \<and> last (mining_week_days now) = mining_day now
   \<and> mining_week_days now = [hd (mining_week_days now)..mining_day now] \<and> length (mining_week_days now) \<in> {1..7}
   \<and> previous_mining_week_days now = [hd (mining_week_days now) - 7..hd (mining_week_days now) - 1]"
proof -
  let ?s = "mining_week_start now"
  have h: "hd (mining_week_days now) = ?s" "last (mining_week_days now) = mining_day now"
    using week_start_le [of now] by (simp_all add: mining_week_days_def days_through_eq upto_rec1 upto_rec2)
  have "map (\<lambda>offset. a + int offset) [0..<7] = [a..a + 6]" for a :: int
    by (simp add: upt_rec upto_rec1)
  then have "previous_mining_week_days now = [?s - 7..?s - 1]"
    by (simp add: previous_mining_week_days_def previous_mining_week_start_def Let_def)
  moreover have "0 \<le> mining_day now - ?s" "mining_day now - ?s < 7" using week_start_le [of now] by simp_all
  then have "length (mining_week_days now) \<in> {1..7}" by (simp add: mining_week_days_def days_through_eq) linarith
  ultimately show ?thesis using week_start_le [of now] h week_start_monday [of now]
    by (simp add: mining_week_days_def days_through_eq)
qed

lemma year_index_nonneg: "0 \<le> xnm_year_index on"
  by (simp add: xnm_year_index_def pos_imp_zdiv_nonneg_iff)

lemma reward_exact: "fl (10 / 2 ^ n) = 10 / 2 ^ n"
  using fl_exact [of "10 :: int" "- int n"] by (simp add: pow2_diff [of 0, simplified] pow2_nat)

lemma reward_in_year: "xnm_reward_per_block on = 10 / 2 ^ nat (xnm_year_index on)"
  by (simp only: xnm_reward_per_block_def reward_exact)

lemma year_index_until: "on \<le> d \<Longrightarrow> d < next_halving_date on \<Longrightarrow> xnm_year_index d = xnm_year_index on"
proof -
  assume d: "on \<le> d" "d < next_halving_date on"
  show ?thesis
  proof (cases "on < xnm_genesis_date")
    case True
    with d show ?thesis by (simp add: xnm_year_index_def next_halving_date_def zdiv_eq_0_iff)
  next
    case False
    define k where "k = (on - xnm_genesis_date) div 365"
    have "k * 365 \<le> on - xnm_genesis_date" by (simp add: k_def)
    with d False have "(d - xnm_genesis_date) div 365 = k"
      by (intro int_div_pos_eq [where r = "d - xnm_genesis_date - 365 * k"])
        (simp_all add: xnm_year_index_def next_halving_date_def k_def [symmetric])
    with d False show ?thesis by (simp add: xnm_year_index_def k_def)
  qed
qed

text \<open>
  The reward of an XNM block is halved on the date that is announced as the next halving, and
  stays what it is until then; it is always positive and exact in binary.
\<close>

theorem reward_halves_on_date:
  "xnm_reward_per_block (next_halving_date on) * 2 = xnm_reward_per_block on
   \<and> on < next_halving_date on \<and> 0 < xnm_reward_per_block on
   \<and> list_all (\<lambda>d. xnm_reward_per_block d = xnm_reward_per_block on) [on..next_halving_date on - 1]"
proof -
  have n: "xnm_year_index (next_halving_date on) = xnm_year_index on + 1"
    using year_index_nonneg [of on] by (simp add: next_halving_date_def xnm_year_index_def)
  have "xnm_reward_per_block (next_halving_date on) * 2 = xnm_reward_per_block on"
    using year_index_nonneg [of on] by (simp add: reward_in_year n nat_add_distrib)
  moreover have "on < next_halving_date on"
  proof (cases "on < xnm_genesis_date")
    case False
    then show ?thesis
      using pos_mod_bound [of 365 "on - xnm_genesis_date"] minus_div_mult_eq_mod [of "on - xnm_genesis_date" 365]
      by (simp add: next_halving_date_def xnm_year_index_def)
  qed (simp add: next_halving_date_def xnm_year_index_def)
  moreover have "list_all (\<lambda>d. xnm_reward_per_block d = xnm_reward_per_block on) [on..next_halving_date on - 1]"
    unfolding list_all_iff
  proof
    fix d assume "d \<in> set [on..next_halving_date on - 1]"
    then have "on \<le> d" "d < next_halving_date on" unfolding set_upto atLeastAtMost_iff by linarith+
    then show "xnm_reward_per_block d = xnm_reward_per_block on" by (simp only: reward_in_year year_index_until)
  qed
  moreover have "0 < xnm_reward_per_block on" by (simp add: reward_in_year)
  ultimately show ?thesis by blast
qed

lemma counts_record:
  "counts_of_day day (stats_record_accept (kind, now) t) k =
     counts_of_day day t k + (if mining_day now = day \<and> norm_kind kind = k then 1 else 0)"
  by (auto simp: counts_of_day_def stats_record_accept_def save_stats_def Let_def update_conv' inc_counter_def
      map_add_def split: option.split)

lemma counts_after:
  "counts_of_day day (fold stats_record_accept es t) k
     = counts_of_day day t k + int (length (filter (\<lambda>(kind, now). mining_day now = day \<and> norm_kind kind = k) es))"
proof (induction es arbitrary: t)
  case (Cons e es)
  then show ?case by (cases e) (simp add: counts_record)
qed simp

text \<open>
  The tracker counts exactly: after any acceptances, of any kinds and at any times, each count of
  each mining day has grown by the number of acceptances of that kind on that day; and a tracker
  that is built from the file after the last of them has the same counts.
\<close>

theorem accepts_counted_exactly:
  "counts_of_day day (fold stats_record_accept es t) k
     = counts_of_day day t k + int (length (filter (\<lambda>(kind, now). mining_day now = day \<and> norm_kind kind = k) es))
   \<and> lm_days (load_stats (lm_file (fold stats_record_accept (e # es) t))) = lm_days (fold stats_record_accept (e # es) t)"
proof (rule conjI [OF counts_after])
  have "lm_file (fold stats_record_accept (e # es) t) = History (lm_days (fold stats_record_accept (e # es) t))"
    by (induction es arbitrary: e t) (simp_all add: stats_record_accept_def save_stats_def Let_def split: prod.split)
  then show "lm_days (load_stats (lm_file (fold stats_record_accept (e # es) t))) = lm_days (fold stats_record_accept (e # es) t)"
    by (simp add: load_stats_def)
qed

end
