(* ===== verification/SessionCounts.thy ===== *)
theory SessionCounts
  imports SessionSamples LocalStats
begin

text \<open>
  The acceptances of a session.  Both the session's counters and the tracker of the mining day are
  told of an accepted block, live and at a flush; the start of a session takes over the counts of
  the day.  \<open>accepts_grow\<close> is the contract that every operation respects.
\<close>

definition accepted_of :: "metrics_tracker \<Rightarrow> block_kind \<Rightarrow> int" where
  "accepted_of m k = accepted_live (stats m) k + accepted_flush (stats m) k"

definition kind_count :: "block_kind \<Rightarrow> string list \<Rightarrow> int" where
  "kind_count k ks = int (length (filter (\<lambda>x. norm_kind x = k) ks))"

definition accepts_grow :: "flusher \<Rightarrow> flusher \<Rightarrow> bool" where
  "accepts_grow f f' \<longleftrightarrow> (\<exists>ks. fl_local_accepts f' = map_option (\<lambda>l. l @ ks) (fl_local_accepts f)
     \<and> rel_option (\<lambda>m m'. \<forall>k. accepted_of m' k = accepted_of m k + kind_count k ks) (fl_metrics f) (fl_metrics f'))"

lemma kind_count_simps [simp]:
  "kind_count k [] = 0" "kind_count k (ks @ ks') = kind_count k ks + kind_count k ks'"
  "kind_count k [x] = (if norm_kind x = k then 1 else 0)"
  by (simp_all add: kind_count_def)

lemma growI:
  assumes "fl_local_accepts f' = map_option (\<lambda>l. l @ ks) (fl_local_accepts f)" "fl_metrics f' = map_option g (fl_metrics f)"
    and "\<And>m k. accepted_of (g m) k = accepted_of m k + kind_count k ks"
  shows "accepts_grow f f'"
  unfolding accepts_grow_def using assms by (intro exI [of _ ks]) (cases "fl_metrics f"; simp)

lemma grow_refl [simp]: "fl_local_accepts f' = fl_local_accepts f \<Longrightarrow> fl_metrics f' = fl_metrics f \<Longrightarrow> accepts_grow f f'"
  by (rule growI [of _ "[]" _ "\<lambda>m. m"]) (cases "fl_local_accepts f"; cases "fl_metrics f"; simp)+

lemma grow_trans: "accepts_grow f f' \<Longrightarrow> accepts_grow f' f'' \<Longrightarrow> accepts_grow f f''"
proof -
  assume "accepts_grow f f'" "accepts_grow f' f''"
  then obtain ks ks' where k:
    "fl_local_accepts f' = map_option (\<lambda>l. l @ ks) (fl_local_accepts f)"
    "rel_option (\<lambda>m m'. \<forall>k. accepted_of m' k = accepted_of m k + kind_count k ks) (fl_metrics f) (fl_metrics f')"
    "fl_local_accepts f'' = map_option (\<lambda>l. l @ ks') (fl_local_accepts f')"
    "rel_option (\<lambda>m m'. \<forall>k. accepted_of m' k = accepted_of m k + kind_count k ks') (fl_metrics f') (fl_metrics f'')"
    unfolding accepts_grow_def by blast
  show ?thesis unfolding accepts_grow_def
  proof (intro exI [of _ "ks @ ks'"] conjI)
    show "fl_local_accepts f'' = map_option (\<lambda>l. l @ ks @ ks') (fl_local_accepts f)"
      using k(1,3) by (cases "fl_local_accepts f") simp_all
    show "rel_option (\<lambda>m m'. \<forall>k. accepted_of m' k = accepted_of m k + kind_count k (ks @ ks')) (fl_metrics f) (fl_metrics f'')"
      using k(2,4) by (cases "fl_metrics f"; cases "fl_metrics f'"; cases "fl_metrics f''") simp_all
  qed
qed

lemma accepted_of_simps [simp]:
  "accepted_of (record_found kind m) k = accepted_of m k"
  "accepted_of (record_enqueued kind m) k = accepted_of m k"
  "accepted_of (record_resubmission kind m) k = accepted_of m k"
  "accepted_of (record_rejected_live kind key m) k = accepted_of m k"
  "accepted_of (record_rejected_flush kind key m) k = accepted_of m k"
  "accepted_of (record_dropped_flush m) k = accepted_of m k"
  "accepted_of (sync_pending n m) k = accepted_of m k"
  "accepted_of (record_hashes t n l m) k = accepted_of m k"
  "accepted_of (record_accepted_live kind m) k = accepted_of m k + (if norm_kind kind = k then 1 else 0)"
  "accepted_of (record_accepted_flush kind m) k = accepted_of m k + (if norm_kind kind = k then 1 else 0)"
  by (simp_all add: accepted_of_def record_found_def record_enqueued_def record_resubmission_def record_rejected_live_def
      record_rejected_flush_def record_dropped_flush_def sync_pending_def record_hashes_def record_accepted_live_def
      record_accepted_flush_def inc_counter_def Let_def)

subsection \<open>The operations\<close>

abbreviation accepts_kept :: "supervisor \<Rightarrow> supervisor \<Rightarrow> bool" where
  "accepts_kept sv sv' \<equiv> accepts_grow (sv_flusher sv) (sv_flusher sv')"

lemma grow_metrics:
  "(\<And>m k. accepted_of (g m) k = accepted_of m k) \<Longrightarrow> accepts_grow f (f\<lparr>fl_metrics := map_option g (fl_metrics f)\<rparr>)"
  by (rule growI [of _ "[]" _ g]) (cases "fl_local_accepts f"; simp)+

lemma kept_metrics: "(\<And>m k. accepted_of (g m) k = accepted_of m k) \<Longrightarrow> accepts_kept sv (map_metrics g sv)"
  using grow_metrics [of g] by (simp add: map_metrics_def)

lemma kept_store [simp]: "accepts_kept sv (map_store g sv)"
  by (simp add: map_store_def)

lemma kept_sync [simp]: "accepts_kept sv (sync_queue sv)"
  unfolding sync_queue_def by (rule kept_metrics) simp

lemma kept_then: "accepts_kept sv v \<Longrightarrow> accepts_kept v v' \<Longrightarrow> accepts_kept sv v'"
  by (rule grow_trans)

lemma grow_outcome: "accepts_grow f (fst (apply_outcome x f))"
proof -
  have "accepts_grow f (f\<lparr>fl_metrics := map_option (record_accepted_flush k) (fl_metrics f),
      fl_local_accepts := map_option (\<lambda>l. l @ [k]) (fl_local_accepts f)\<rparr>)" for k
    by (rule growI [of _ "[k]" _ "record_accepted_flush k"]) simp_all
  moreover have "accepts_grow f (f\<lparr>fl_metrics := map_option record_dropped_flush (fl_metrics f)\<rparr>)"
    by (rule grow_metrics) simp
  moreover have "accepts_grow f (f\<lparr>fl_warned_keys := w, fl_metrics := map_option (record_rejected_flush k key) (fl_metrics f)\<rparr>)" for w k key
    by (rule growI [of _ "[]" _ "record_rejected_flush k key"]) (cases "fl_local_accepts f"; simp)+
  ultimately show ?thesis by (simp add: apply_outcome_def)
qed

lemma grow_outcomes: "accepts_grow (fst p) (fst (fold collect_outcome os p))"
proof (induction os arbitrary: p)
  case (Cons x os)
  have "accepts_grow (fst p) (fst (collect_outcome x p))"
    using grow_outcome [of "fst p" x] by (simp add: collect_outcome_def case_prod_unfold)
  from grow_trans [OF this Cons.IH] show ?case by simp
qed simp

lemma grow_flush: "accepts_grow f (fst (flush e sd f))"
  using grow_trans [OF _ grow_outcomes, of f "(f\<lparr>fl_store := st\<rparr>, 0)" for st]
  by (simp add: flush_def Let_def case_prod_unfold)

lemma kept_run_flush: "accepts_kept sv (snd (run_flush s env sd sv))"
proof -
  have "accepts_kept sv (sv\<lparr>sv_flusher := fst (flush (flush_env_of s env sv) sd (sv_flusher sv))\<rparr>)"
    by (simp add: grow_flush)
  from kept_then [OF this kept_sync] show ?thesis by (simp add: run_flush_def case_prod_unfold Let_def)
qed

lemma kept_queue_hit: "accepts_kept sv (queue_hit env hit kind reason sv)"
  unfolding queue_hit_def by (rule kept_then [OF kept_then [OF kept_store kept_metrics] kept_sync]) simp

lemma kept_accept: "accepts_kept sv (record_accept kind (map_metrics (record_accepted_live kind) sv))"
  by (rule growI [of _ "[kind]" _ "record_accepted_live kind"]) (simp_all add: record_accept_def map_metrics_def)

lemma kept_rejected: "accepts_kept sv (live_rejected env hit kind status body sv)"
proof -
  have m: "accepts_kept sv (if b then map_metrics (record_rejected_live kind key) v else v)" if "accepts_kept sv v" for b key v
    using that kept_then [OF that kept_metrics] by simp
  have r: "accepts_kept sv v \<Longrightarrow> accepts_kept sv (sync_queue (map_metrics (record_resubmission kind) v))" for v
    by (rule kept_then [OF kept_then [OF _ kept_metrics] kept_sync]) simp_all
  show ?thesis using m [OF kept_store] r by (simp add: live_rejected_def Let_def case_prod_unfold)
qed

lemma kept_reply: "accepts_kept sv (live_reply env hit kind reply sv)"
  using kept_then [OF kept_accept kept_store] kept_then [OF kept_store kept_queue_hit]
  by (simp add: live_reply_def Let_def kept_queue_hit kept_rejected)

interpretation accepting: sup_hit_contract s env accepts_kept for s env
proof unfold_locales
  show "accepts_kept sv sv''" if "accepts_kept sv sv'" "accepts_kept sv' sv''" for sv sv' sv''
    using that by (rule kept_then)
  show "accepts_kept sv (map_metrics (record_found kind) sv)" for sv kind by (rule kept_metrics) simp
qed (simp_all add: kept_run_flush kept_queue_hit kept_reply)

interpretation accept_session: session_contract s "\<lambda>_. True" accepts_kept for s
proof unfold_locales
  show "accepts_kept sv sv''" if "accepts_kept sv sv'" "accepts_kept sv' sv''" for sv sv' sv''
    using that by (rule kept_then)
  show "accepts_kept sv sv'" if "local_step s env sv sv'" for env sv sv'
    using that by (simp add: local_step_def)
  show "accepts_kept sv (map_metrics (record_hashes t n l) sv)" for sv t n l by (rule kept_metrics) simp
  show "accepts_kept sv (sync_queue (map_store g sv))" for sv g by (rule kept_then [OF kept_store kept_sync])
qed simp_all

subsection \<open>A session\<close>

lemma startup_flusher [simp]:
  "sv_flusher (connect_network s env polled sv) = sv_flusher sv" "sv_flusher (start_mining s env sv) = sv_flusher sv"
  by (simp_all add: connect_network_def start_mining_def Let_def case_prod_unfold split: option.split)

text \<open>
  C31: what a session shows as accepted.  For each kind of block, the accepted ones that the session
  shows, live and flushed, are what the file of the mining day had at the session's start, and each
  acceptance of the session once.  If all of these fall on the mining day of the start, this is what
  the file holds for that day afterwards.  The counters are taken over once, at the start, so a
  session that runs into the next mining day goes on adding to the old day's number.
\<close>

theorem session_shows_accepts_of_day:
  assumes "fl_metrics (sv_flusher (ls_sv ls)) = Some (init_tracker alpha t0)" "fl_local_accepts (sv_flusher (ls_sv ls)) = Some []"
    and "sv = ls_sv (run_session s env (today_counts now days) polled stop_at last_env es ls)"
    and "fl_local_accepts (sv_flusher sv) = Some (map fst accepts)"
  shows "\<exists>m. fl_metrics (sv_flusher sv) = Some m
    \<and> accepted_of m k = today_counts now days k + kind_count k (map fst accepts)
    \<and> (list_all (\<lambda>e. mining_day (snd e) = mining_day now) accepts \<longrightarrow>
         accepted_of m k = today_counts now (fold stats_record_accept accepts days) k)"
proof -
  let ?today = "today_counts now days" and ?r = "recover_queue (today_counts now days) (ls_sv ls)"
  have g: "list_all (session_contract.event_good (\<lambda>_. True)) es"
    by (simp add: list_all_iff accept_session.event_good_def accept_session.env_good_def split: session_event.split)
  obtain m0 where r: "fl_metrics (sv_flusher ?r) = Some m0" "fl_local_accepts (sv_flusher ?r) = Some []" "accepted_of m0 k = ?today k"
    using assms(1,2) by (simp add: recover_queue_def map_metrics_def sync_queue_def map_store_def accepted_of_def
        sync_pending_def init_tracker_def initial_stats_def)
  have "accepts_kept ?r (resume_queued_blocks s env (connect_network s env polled ?r))"
    using accepting.rel_resume [of "connect_network s env polled ?r" s env] by simp
  from kept_then [OF this kept_sync] have "accepts_kept ?r (run_startup s env ?today polled (ls_sv ls))"
    by (simp add: run_startup_def)
  then have "accepts_kept ?r (ls_sv (map_sv (run_startup s env ?today polled) ls))" by (simp add: map_sv_def)
  from kept_then [OF this accept_session.rel_loop [OF TrueI g, of _ s stop_at last_env]]
  have "accepts_kept ?r sv" unfolding assms(3) run_session_def .
  with r assms(4) obtain m where m: "fl_metrics (sv_flusher sv) = Some m"
      "accepted_of m k = ?today k + kind_count k (map fst accepts)"
    unfolding accepts_grow_def by (auto elim!: option.rel_cases)
  have "today_counts now (fold stats_record_accept accepts days) k = ?today k + kind_count k (map fst accepts)"
    if "list_all (\<lambda>e. mining_day (snd e) = mining_day now) accepts"
  proof -
    have "filter (\<lambda>e. mining_day (snd e) = mining_day now \<and> norm_kind (fst e) = k) accepts = filter (\<lambda>e. norm_kind (fst e) = k) accepts"
      using that by (intro filter_cong) (auto simp: list_all_iff)
    then show ?thesis using counts_after [of "mining_day now" accepts days k]
      by (simp add: today_counts_def kind_count_def filter_map o_def case_prod_unfold)
  qed
  with m show ?thesis by simp
qed

text \<open>One block from the queue is accepted when the session starts, on a day that had three.\<close>

definition sample_day :: local_time where
  "sample_day = \<lparr>lt_date = 739000, lt_hour = 5\<rparr>"

definition sample_days :: local_stats where
  "sample_days = load_stats (History [(739000, \<lambda>_. 3)])"

definition polled_poller :: poller where
  "polled_poller = sample_poller\<lparr>pl_status := (pl_status sample_poller)\<lparr>ps_difficulty := Some 100\<rparr>\<rparr>"

definition counting_loop :: loop_state where
  "counting_loop = (sample_loop empty_store (CpuArgon2Backend (init_cpu 1)))\<lparr>ls_sv :=
     (sample_supervisor empty_store (CpuArgon2Backend (init_cpu 1)))\<lparr>sv_flusher :=
       \<lparr>fl_store = store_run [Enqueue ''t'' sample_hit ''r''] empty_store, fl_metrics = Some (init_tracker 0 0),
        fl_local_accepts = Some [], fl_warned_keys = {}\<rparr>\<rparr>\<rparr>"

theorem session_shows_accepts_of_day_witness:
  "\<exists>m. fl_metrics (sv_flusher (ls_sv (run_session sample_sup sample_point (today_counts sample_day sample_days)
       polled_poller None sample_point [Interrupt] counting_loop))) = Some m \<and> accepted_of m XNM = 4"
proof -
  have l: "fl_local_accepts (sv_flusher (ls_sv (run_session sample_sup sample_point (today_counts sample_day sample_days)
       polled_poller None sample_point [Interrupt] counting_loop))) = Some (map fst [(''XNM'', sample_day)])"
    by code_simp
  have "fl_metrics (sv_flusher (ls_sv counting_loop)) = Some (init_tracker 0 0)"
    "fl_local_accepts (sv_flusher (ls_sv counting_loop)) = Some []" by (simp_all add: counting_loop_def)
  from session_shows_accepts_of_day [OF this refl l, of XNM] have
    "\<exists>m. fl_metrics (sv_flusher (ls_sv (run_session sample_sup sample_point (today_counts sample_day sample_days)
       polled_poller None sample_point [Interrupt] counting_loop))) = Some m
     \<and> accepted_of m XNM = today_counts sample_day (fold stats_record_accept [(''XNM'', sample_day)] sample_days) XNM"
    by auto
  moreover have "today_counts sample_day (fold stats_record_accept [(''XNM'', sample_day)] sample_days) XNM = 4" by code_simp
  ultimately show ?thesis by simp
qed

end
