(* ===== verification/ChainSim.thy ===== *)
theory ChainSim
  imports BlockTypes "HOL-Library.AList"
begin

text \<open>
  The simulated chain (\<open>chain_simulator.py\<close> under \<open>src/native/XenblocksMiner-main/server\<close>): the
  accepted blocks, the known keys, the balances of the miners and the difficulty.  The clock and
  the minute of the hour are arguments; a dictionary is an association list in insertion order.
\<close>

subsection \<open>State\<close>

record chain_block =
  cb_id :: nat
  cb_account :: string
  cb_key :: string
  cb_hash :: string
  cb_type :: string
  cb_attempts :: int
  cb_hashes_per_second :: string
  cb_worker :: string
  cb_timestamp :: pyfloat

record chain =
  ch_difficulty :: int
  ch_base_difficulty :: int
  ch_adjust_interval :: int
  ch_xuni_always_valid :: bool
  ch_block_marker :: string
  ch_blocks :: "chain_block list"
  ch_next_block_id :: nat
  ch_balances :: "(string \<times> pyfloat) list"
  ch_known_keys :: "string set"

definition init_chain :: "int \<Rightarrow> int \<Rightarrow> bool \<Rightarrow> string \<Rightarrow> chain" where
  "init_chain base interval xuni_always_valid marker =
     \<lparr>ch_difficulty = base, ch_base_difficulty = base, ch_adjust_interval = interval,
      ch_xuni_always_valid = xuni_always_valid,
      ch_block_marker = (if marker = [] then ''XEN11'' else marker),
      ch_blocks = [], ch_next_block_id = 1, ch_balances = [], ch_known_keys = {}\<rparr>"

subsection \<open>Validation\<close>

text \<open>\<open>int(s, 16)\<close>: blanks around, a sign, a \<open>0x\<close> prefix, and single underscores between digits
  are accepted.\<close>

definition is_hex_char :: "char \<Rightarrow> bool" where
  "is_hex_char c \<longleftrightarrow> is_digit_char c \<or> (let l = char_code (lower_char c) in 97 \<le> l \<and> l \<le> 102)"

fun hex_digits :: "string \<Rightarrow> bool" where
  "hex_digits [] = False"
| "hex_digits [c] = is_hex_char c"
| "hex_digits (c # d # s) =
     (is_hex_char c \<and> (if d = CHR ''_'' then hex_digits s else hex_digits (d # s)))"

definition drop_sign :: "string \<Rightarrow> string" where
  "drop_sign s = (case s of [] \<Rightarrow> [] | c # cs \<Rightarrow> if c = CHR ''+'' \<or> c = CHR ''-'' then cs else s)"

definition int16_ok :: "string \<Rightarrow> bool" where
  "int16_ok s =
     (let t = drop_sign (py_strip s) in
      if py_lower (take 2 t) = ''0x''
      then (case drop 2 t of [] \<Rightarrow> False | c # cs \<Rightarrow> hex_digits (if c = CHR ''_'' then cs else c # cs))
      else hex_digits t)"

datatype chain_msg =
    KeyEmpty
  | KeyTooShort nat
  | KeyNotHex
  | KeyExists
  | BadMarker
  | Accepted string nat

definition validate_key :: "string \<Rightarrow> chain_msg option" where
  "validate_key key =
     (if key = [] then Some KeyEmpty
      else if length key < 64 then Some (KeyTooShort (length key))
      else if \<not> int16_ok key then Some KeyNotHex
      else None)"

definition is_xuni_time_window :: "nat \<Rightarrow> bool" where
  "is_xuni_time_window minute \<longleftrightarrow> minute < 5 \<or> minute \<ge> 55"

definition chain_classify :: "nat \<Rightarrow> string \<Rightarrow> chain \<Rightarrow> string option" where
  "chain_classify minute hash_value ch =
     (if py_in (ch_block_marker ch) hash_value
      then Some (if uppercase_count hash_value \<ge> 50 then ''super'' else ''normal'')
      else if xuni_search hash_value
      then (if \<not> ch_xuni_always_valid ch \<and> \<not> is_xuni_time_window minute then None else Some ''xuni'')
      else None)"

definition get_reward :: "string \<Rightarrow> pyfloat" where
  "get_reward block_type =
     (if block_type = ''super'' then 50
      else if block_type = ''normal'' then 10
      else if block_type = ''xuni'' then 1 else 0)"

subsection \<open>Submission\<close>

definition adjust_difficulty :: "chain \<Rightarrow> chain" where
  "adjust_difficulty ch =
     ch\<lparr>ch_difficulty := max 100 (min 100000
          (py_int (fl (fint (ch_difficulty ch) * fl (105 / 100)))))\<rparr>"

definition balance_of :: "string \<Rightarrow> chain \<Rightarrow> pyfloat" where
  "balance_of addr ch = (case map_of (ch_balances ch) addr of None \<Rightarrow> 0 | Some b \<Rightarrow> b)"

definition accept_block :: "chain_block \<Rightarrow> chain \<Rightarrow> chain" where
  "accept_block b ch =
     (let addr = py_lower (cb_account b) in
      ch\<lparr>ch_blocks := ch_blocks ch @ [b],
         ch_known_keys := insert (cb_key b) (ch_known_keys ch),
         ch_next_block_id := Suc (ch_next_block_id ch),
         ch_balances := AList.update addr (fl (balance_of addr ch + get_reward (cb_type b))) (ch_balances ch)\<rparr>)"

text \<open>The verdict is the success flag, the message and the block type.  An interval of 0 raises
  after the block is stored.\<close>

definition submit_block :: "pyfloat \<Rightarrow> nat \<Rightarrow> string \<Rightarrow> string \<Rightarrow> string \<Rightarrow> int \<Rightarrow> string \<Rightarrow> string \<Rightarrow> chain
    \<Rightarrow> chain \<times> (bool \<times> chain_msg \<times> string option) py" where
  "submit_block now minute hash_to_verify key account attempts hps worker ch =
     (case validate_key key of
        Some e \<Rightarrow> (ch, Inr (False, e, None))
      | None \<Rightarrow>
          if key \<in> ch_known_keys ch then (ch, Inr (False, KeyExists, None))
          else case chain_classify minute hash_to_verify ch of
            None \<Rightarrow> (ch, Inr (False, BadMarker, None))
          | Some block_type \<Rightarrow>
              (let b = \<lparr>cb_id = ch_next_block_id ch, cb_account = account, cb_key = key,
                        cb_hash = hash_to_verify, cb_type = block_type, cb_attempts = attempts,
                        cb_hashes_per_second = hps, cb_worker = worker, cb_timestamp = now\<rparr>;
                   ch1 = accept_block b ch
               in if ch_adjust_interval ch = 0 then (ch1, Inl ZeroDivisionError)
                  else (if int (length (ch_blocks ch1)) mod ch_adjust_interval ch = 0
                        then adjust_difficulty ch1 else ch1,
                        Inr (True, Accepted block_type (cb_id b), Some block_type))))"

text \<open>The HTTP status of \<open>/verify\<close>, from the text of the message; no message speaks of the
  time window.\<close>

definition msg_text :: "chain_msg \<Rightarrow> string" where
  "msg_text msg = (case msg of
     KeyEmpty \<Rightarrow> ''Key is empty''
   | KeyTooShort n \<Rightarrow> ''Key too short: '' @ nat_text n @ '' chars (need >= 64)''
   | KeyNotHex \<Rightarrow> ''Key contains non-hex characters''
   | KeyExists \<Rightarrow> ''Key already exists''
   | BadMarker \<Rightarrow> ''Hash does not contain valid block marker (XEN11 or XUNI)''
   | Accepted t n \<Rightarrow> ''Block accepted: '' @ t @ '' #'' @ nat_text n)"

definition verify_status :: "bool \<Rightarrow> chain_msg \<Rightarrow> int" where
  "verify_status success msg =
     (if success then 200
      else if py_in ''already exists'' (msg_text msg) then 409
      else if py_in ''outside of time window'' (py_lower (msg_text msg))
              \<or> py_in ''time window'' (py_lower (msg_text msg)) then 400
      else 500)"

subsection \<open>Queries\<close>

text \<open>\<open>xs[-n:]\<close> and \<open>xs[:n]\<close>.\<close>

definition last_n :: "int \<Rightarrow> 'a list \<Rightarrow> 'a list" where
  "last_n n xs = (if n > 0 then drop (length xs - nat n) xs else drop (nat (- n)) xs)"

definition first_n :: "int \<Rightarrow> 'a list \<Rightarrow> 'a list" where
  "first_n n xs = (if n \<ge> 0 then take (nat n) xs else take (length xs - nat (- n)) xs)"

definition get_balance :: "string \<Rightarrow> chain \<Rightarrow> pyfloat" where
  "get_balance address ch = balance_of (py_lower address) ch"

definition get_last_blocks :: "int \<Rightarrow> chain \<Rightarrow> chain_block list" where
  "get_last_blocks n ch = last_n n (ch_blocks ch)"

definition get_blocks_by_account :: "string \<Rightarrow> int \<Rightarrow> chain \<Rightarrow> chain_block list" where
  "get_blocks_by_account account limit ch =
     first_n limit (filter (\<lambda>b. py_lower (cb_account b) = py_lower account) (rev (ch_blocks ch)))"

definition get_blocks_by_key_prefix :: "string \<Rightarrow> int \<Rightarrow> chain \<Rightarrow> chain_block list" where
  "get_blocks_by_key_prefix prefix limit ch =
     first_n limit (filter (\<lambda>b. py_startswith (py_lower (cb_key b)) (py_lower prefix)) (rev (ch_blocks ch)))"

record chain_stats =
  cs_total :: nat
  cs_normal :: nat
  cs_super :: nat
  cs_xuni :: nat
  cs_difficulty :: int
  cs_unique_miners :: nat
  cs_next_block_id :: nat

definition count_type :: "string \<Rightarrow> chain \<Rightarrow> nat" where
  "count_type t ch = length (filter (\<lambda>b. cb_type b = t) (ch_blocks ch))"

definition get_stats :: "chain \<Rightarrow> chain_stats" where
  "get_stats ch = \<lparr>cs_total = length (ch_blocks ch), cs_normal = count_type ''normal'' ch,
     cs_super = count_type ''super'' ch, cs_xuni = count_type ''xuni'' ch,
     cs_difficulty = ch_difficulty ch, cs_unique_miners = length (ch_balances ch),
     cs_next_block_id = ch_next_block_id ch\<rparr>"


subsection \<open>The invariant\<close>

record submission =
  sub_now :: pyfloat
  sub_minute :: nat
  sub_hash :: string
  sub_key :: string
  sub_account :: string
  sub_attempts :: int
  sub_hps :: string
  sub_worker :: string

definition submit_one :: "submission \<Rightarrow> chain \<Rightarrow> chain" where
  "submit_one s ch = fst (submit_block (sub_now s) (sub_minute s) (sub_hash s) (sub_key s)
     (sub_account s) (sub_attempts s) (sub_hps s) (sub_worker s) ch)"

definition chain_run :: "submission list \<Rightarrow> chain \<Rightarrow> chain" where
  "chain_run subs ch = foldl (\<lambda>ch s. submit_one s ch) ch subs"

definition credited :: "string \<Rightarrow> chain \<Rightarrow> pyfloat" where
  "credited addr ch =
     sum_list (map (get_reward \<circ> cb_type) (filter (\<lambda>b. py_lower (cb_account b) = addr) (ch_blocks ch)))"

definition block_ok :: "chain \<Rightarrow> chain_block \<Rightarrow> bool" where
  "block_ok ch b \<longleftrightarrow> validate_key (cb_key b) = None \<and>
     (cb_type b = ''xuni'' \<and> xuni_search (cb_hash b)
      \<or> cb_type b \<in> {''normal'', ''super''} \<and> py_in (ch_block_marker ch) (cb_hash b))"

definition chain_ok :: "chain \<Rightarrow> bool" where
  "chain_ok ch \<longleftrightarrow>
     map cb_id (ch_blocks ch) = [1..<Suc (length (ch_blocks ch))] \<and>
     ch_next_block_id ch = Suc (length (ch_blocks ch)) \<and>
     distinct (map cb_key (ch_blocks ch)) \<and>
     ch_known_keys ch = set (map cb_key (ch_blocks ch)) \<and>
     (\<forall>b \<in> set (ch_blocks ch). block_ok ch b) \<and>
     (ch_difficulty ch = ch_base_difficulty ch \<or> 100 \<le> ch_difficulty ch \<and> ch_difficulty ch \<le> 100000)"

lemma chain_classify_sound:
  assumes "chain_classify minute h ch = Some t"
  shows "t = ''xuni'' \<and> xuni_search h \<or> t \<in> {''normal'', ''super''} \<and> py_in (ch_block_marker ch) h"
  using assms by (auto simp: chain_classify_def split: if_splits)

lemma accept_block_simps [simp]:
  "ch_blocks (accept_block b ch) = ch_blocks ch @ [b]"
  "ch_known_keys (accept_block b ch) = insert (cb_key b) (ch_known_keys ch)"
  "ch_next_block_id (accept_block b ch) = Suc (ch_next_block_id ch)"
  "ch_difficulty (accept_block b ch) = ch_difficulty ch"
  "ch_base_difficulty (accept_block b ch) = ch_base_difficulty ch"
  "ch_block_marker (accept_block b ch) = ch_block_marker ch"
  "ch_adjust_interval (accept_block b ch) = ch_adjust_interval ch"
  by (simp_all add: accept_block_def Let_def)

lemma block_ok_cong: "ch_block_marker ch = ch_block_marker ch' \<Longrightarrow> block_ok ch b = block_ok ch' b"
  by (simp add: block_ok_def)

lemma accept_block_ok:
  assumes "chain_ok ch" "cb_id b = ch_next_block_id ch" "cb_key b \<notin> ch_known_keys ch" "block_ok ch b"
  shows "chain_ok (accept_block b ch)"
  using assms block_ok_cong [of "accept_block b ch" ch] by (auto simp: chain_ok_def)

lemma adjust_difficulty_ok: "chain_ok ch \<Longrightarrow> chain_ok (adjust_difficulty ch)"
  by (simp add: chain_ok_def adjust_difficulty_def block_ok_def)

lemma submit_one_cases:
  obtains (reject) "submit_one s ch = ch"
  | (accept) t b where "b = \<lparr>cb_id = ch_next_block_id ch, cb_account = sub_account s, cb_key = sub_key s,
        cb_hash = sub_hash s, cb_type = t, cb_attempts = sub_attempts s,
        cb_hashes_per_second = sub_hps s, cb_worker = sub_worker s, cb_timestamp = sub_now s\<rparr>"
      "validate_key (sub_key s) = None" "sub_key s \<notin> ch_known_keys ch"
      "chain_classify (sub_minute s) (sub_hash s) ch = Some t"
      "submit_one s ch \<in> {accept_block b ch, adjust_difficulty (accept_block b ch)}"
proof (cases "validate_key (sub_key s) = None \<and> sub_key s \<notin> ch_known_keys ch
    \<and> chain_classify (sub_minute s) (sub_hash s) ch \<noteq> None")
  case True
  then obtain t where "chain_classify (sub_minute s) (sub_hash s) ch = Some t" by blast
  with True show thesis
    by (intro accept [OF refl]) (auto simp: submit_one_def submit_block_def Let_def)
next
  case False
  then have "submit_one s ch = ch"
    by (auto simp: submit_one_def submit_block_def split: option.splits)
  then show thesis by (rule reject)
qed

lemma submit_one_ok: "chain_ok ch \<Longrightarrow> chain_ok (submit_one s ch)"
proof (cases s ch rule: submit_one_cases)
  case (accept t b)
  assume ok: "chain_ok ch"
  from accept chain_classify_sound [OF accept(4)] have "block_ok ch b" by (auto simp: block_ok_def)
  with ok accept have "chain_ok (accept_block b ch)" by (intro accept_block_ok) simp_all
  with accept(5) show ?thesis using adjust_difficulty_ok by auto
qed simp

lemma chain_run_ok: "chain_ok ch \<Longrightarrow> chain_ok (chain_run subs ch)"
  unfolding chain_run_def by (induction subs arbitrary: ch) (simp_all add: submit_one_ok)

lemma init_chain_ok: "chain_ok (init_chain base interval x marker)"
  by (simp add: chain_ok_def init_chain_def)

text \<open>
  Whatever is submitted to a new simulated chain, in whatever order, its blocks keep the ids
  1, 2, 3, ... in the order of acceptance, no key is stored twice, every stored block has a valid
  key and the marker of its type in its hash, and the difficulty is the initial one or within its
  bounds.
\<close>

theorem chain_invariant: "chain_ok (chain_run subs (init_chain base interval x marker))"
  by (rule chain_run_ok [OF init_chain_ok])

subsection \<open>Balances\<close>

lemma get_reward_int: "\<exists>n :: nat. get_reward t = of_nat n \<and> n \<le> 50"
  unfolding get_reward_def
  by (metis of_nat_0 of_nat_1 of_nat_numeral le_refl zero_le one_le_numeral numeral_le_iff semiring_norm(68,69,71,72,73,76,78))

lemma credited_int: "\<exists>n :: nat. credited addr ch = of_nat n \<and> n \<le> 50 * length (ch_blocks ch)"
proof -
  have "\<exists>n :: nat. sum_list (map (get_reward \<circ> cb_type) (filter (\<lambda>b. py_lower (cb_account b) = addr) bs))
      = of_nat n \<and> n \<le> 50 * length bs" for bs
  proof (induction bs)
    case (Cons b bs)
    then obtain n :: nat where n: "sum_list (map (get_reward \<circ> cb_type)
        (filter (\<lambda>b. py_lower (cb_account b) = addr) bs)) = of_nat n" "n \<le> 50 * length bs" by blast
    obtain k :: nat where k: "get_reward (cb_type b) = of_nat k" "k \<le> 50" using get_reward_int by blast
    show ?case
    proof (cases "py_lower (cb_account b) = addr")
      case True
      with n k show ?thesis by (intro exI [of _ "k + n"]) (simp add: comp_def)
    next
      case False
      with n show ?thesis by (intro exI [of _ n]) (simp add: comp_def)
    qed
  qed simp
  then show ?thesis by (simp add: credited_def)
qed

lemma balance_accept:
  "balance_of a (accept_block b ch) =
     (if a = py_lower (cb_account b) then fl (balance_of a ch + get_reward (cb_type b)) else balance_of a ch)"
  by (simp add: balance_of_def accept_block_def Let_def update_conv)

lemma credited_accept:
  "credited a (accept_block b ch) =
     (if a = py_lower (cb_account b) then credited a ch + get_reward (cb_type b) else credited a ch)"
  by (auto simp: credited_def)

lemma adjust_difficulty_keeps [simp]:
  "balance_of a (adjust_difficulty ch) = balance_of a ch"
  "credited a (adjust_difficulty ch) = credited a ch"
  "ch_blocks (adjust_difficulty ch) = ch_blocks ch"
  by (simp_all add: adjust_difficulty_def balance_of_def credited_def)

lemma accept_balance:
  assumes "balance_of a ch = credited a ch" "50 * length (ch_blocks (accept_block b ch)) \<le> 2 ^ 53"
  shows "balance_of a (accept_block b ch) = credited a (accept_block b ch)"
proof -
  obtain n :: nat where n: "credited a (accept_block b ch) = of_nat n"
      "n \<le> 50 * length (ch_blocks (accept_block b ch))" using credited_int by blast
  then have "fl (credited a (accept_block b ch)) = credited a (accept_block b ch)"
    using fl_of_int [of "int n"] assms(2) by simp
  with assms(1) show ?thesis by (cases "a = py_lower (cb_account b)") (simp_all add: balance_accept credited_accept)
qed

lemma submit_one_length: "length (ch_blocks ch) \<le> length (ch_blocks (submit_one s ch))"
  by (cases s ch rule: submit_one_cases) auto

lemma chain_run_length: "length (ch_blocks ch) \<le> length (ch_blocks (chain_run subs ch))"
  unfolding chain_run_def
proof (induction subs arbitrary: ch)
  case (Cons s subs)
  from order_trans [OF submit_one_length Cons.IH] show ?case by (simp only: foldl_Cons)
qed simp

lemma submit_one_balance:
  assumes "balance_of a ch = credited a ch" "50 * length (ch_blocks (submit_one s ch)) \<le> 2 ^ 53"
  shows "balance_of a (submit_one s ch) = credited a (submit_one s ch)"
proof (cases s ch rule: submit_one_cases)
  case (accept t b)
  with assms accept_balance [of a ch b] show ?thesis by auto
qed (use assms in simp)

lemma chain_run_balance:
  "balance_of a ch = credited a ch \<Longrightarrow> 50 * length (ch_blocks (chain_run subs ch)) \<le> 2 ^ 53 \<Longrightarrow>
   balance_of a (chain_run subs ch) = credited a (chain_run subs ch)"
proof (induction subs arbitrary: ch)
  case (Cons s subs)
  have run: "chain_run (s # subs) ch = chain_run subs (submit_one s ch)" by (simp add: chain_run_def)
  from Cons.prems(2) chain_run_length [of "submit_one s ch" subs]
  have "50 * length (ch_blocks (submit_one s ch)) \<le> 2 ^ 53" unfolding run by linarith
  from submit_one_balance [OF Cons.prems(1) this] Cons.IH Cons.prems(2) show ?case unfolding run by blast
qed (simp add: chain_run_def)

text \<open>
  The balance the simulated chain reports for an address is the sum of the rewards of the
  accepted blocks whose account is that address in any case, exactly, as long as fewer than
  2^53 / 50 blocks were accepted.
\<close>

theorem chain_balances_exact:
  assumes "50 * length (ch_blocks (chain_run subs (init_chain base interval x marker))) \<le> 2 ^ 53"
  shows "get_balance address (chain_run subs (init_chain base interval x marker))
       = credited (py_lower address) (chain_run subs (init_chain base interval x marker))"
  unfolding get_balance_def
  by (rule chain_run_balance [OF _ assms]) (simp add: init_chain_def balance_of_def credited_def)

text \<open>One accepted block, credited whatever the case of the address.\<close>

definition sample_key :: string where
  "sample_key = replicate 64 (CHR ''a'')"

definition sample_submission :: submission where
  "sample_submission = \<lparr>sub_now = 0, sub_minute = 0, sub_hash = ''aXEN11b'', sub_key = sample_key,
     sub_account = ''0xAB'', sub_attempts = 1, sub_hps = ''1.0'', sub_worker = ''w''\<rparr>"

lemma sample_chain:
  "length (ch_blocks (chain_run [sample_submission] (init_chain 1727 50 True []))) = 1"
  "credited (py_lower ''0xab'') (chain_run [sample_submission] (init_chain 1727 50 True [])) = 10"
  by code_simp+

theorem chain_balances_exact_witness:
  "get_balance ''0xab'' (chain_run [sample_submission] (init_chain 1727 50 True [])) = 10"
  using chain_balances_exact [where subs = "[sample_submission]" and base = 1727 and interval = 50
      and x = True and marker = "[]" and address = "''0xab''"]
  by (simp add: sample_chain)

end
