(* ===== verification/Broker.thy ===== *)
theory Broker
  imports Prelude "HOL-Library.Word" "HOL-Library.AList"
begin

text \<open>
  The MQTT broker (\<open>broker.py\<close>): the packet codec, topic matching, the sessions and what is
  written to whom.  A Python \<open>str\<close> is here the list of its code points, since the codec is about
  their UTF-8 form; a byte is an 8-bit word.
\<close>

unbundle bit_operations_syntax

type_synonym byte = "8 word"
type_synonym py_str = "nat list"

subsection \<open>Remaining length\<close>

function encode_remaining_length :: "nat \<Rightarrow> byte list" where
  "encode_remaining_length len =
     (let byte = len mod 128; rest = len div 128
      in if rest > 0 then of_nat (byte OR 0x80) # encode_remaining_length rest else [of_nat byte])"
  by pat_completeness auto
termination
  by (relation "measure id") auto

declare encode_remaining_length.simps [simp del]

text \<open>The loop of \<open>_decode_remaining_length\<close> from a state of its variables.\<close>

function decode_length_loop :: "byte list \<Rightarrow> nat \<Rightarrow> nat \<Rightarrow> nat \<Rightarrow> (nat \<times> nat) py" where
  "decode_length_loop data idx multiplier value =
     (if idx \<ge> length data then Inl ValueError
      else (let encoded = data ! idx; value1 = value + unat (encoded AND 0x7F) * multiplier
            in if encoded AND 0x80 = 0 then Inr (value1, idx + 1)
               else decode_length_loop data (idx + 1) (multiplier * 128) value1))"
  by pat_completeness auto
termination
  by (relation "measure (\<lambda>(data, idx, _). length data - idx)") auto

declare decode_length_loop.simps [simp del]

definition decode_remaining_length :: "byte list \<Rightarrow> nat \<Rightarrow> (nat \<times> nat) py" where
  "decode_remaining_length data offset =
     py_bind (decode_length_loop data offset 1 0) (\<lambda>(value, idx). Inr (value, idx - offset))"

lemma low_bits:
  fixes x :: nat
  assumes "x < 128"
  shows "x OR 0x80 = x + 128" "x AND 0x7F = x" "x AND 0x80 = 0" "(x + 128) AND 0x7F = x" "(x + 128) AND 0x80 = 0x80"
proof -
  have p: "(128 :: nat) = 2 ^ 7" "(127 :: nat) = mask 7" by (simp_all add: mask_eq_exp_minus_1)
  have b: "\<not> bit x 7" using assms by (simp add: bit_iff_odd)
  have e: "bit (128 :: nat) n \<longleftrightarrow> n = 7" for n unfolding p(1) bit_exp_iff by simp
  show z: "x AND 0x80 = 0" using b by (intro bit_eqI) (auto simp: bit_and_iff e)
  show o': "x OR 0x80 = x + 128" using disjunctive_add_eq_or [OF z] by simp
  show "x AND 0x7F = x" unfolding p take_bit_eq_mask [symmetric] using assms by (simp add: take_bit_nat_eq_self)
  show "(x + 128) AND 0x7F = x"
    unfolding p(2) take_bit_eq_mask [symmetric] using assms by (simp add: take_bit_eq_mod)
  show "(x + 128) AND 0x80 = 0x80" unfolding o' [symmetric] by (intro bit_eqI) (auto simp: bit_and_iff bit_or_iff e)
qed

lemma length_bytes:
  assumes "x < 128"
  shows "unat ((of_nat x :: byte) AND 0x7F) = x" "(of_nat x :: byte) AND 0x80 = 0"
    "unat ((of_nat (x OR 0x80) :: byte) AND 0x7F) = x" "(of_nat (x OR 0x80) :: byte) AND 0x80 \<noteq> 0"
proof -
  note bits = low_bits [OF assms]
  have u: "unat (of_nat x :: byte) = x" "unat (of_nat (x OR 0x80) :: byte) = x + 128"
    unfolding bits(1) unat_of_nat using assms by simp_all
  have z: "unat ((of_nat x :: byte) AND 0x80) = 0" "unat ((of_nat (x OR 0x80) :: byte) AND 0x80) = 0x80"
    unfolding unsigned_and_eq u using bits by simp_all
  show "unat ((of_nat x :: byte) AND 0x7F) = x" "unat ((of_nat (x OR 0x80) :: byte) AND 0x7F) = x"
    unfolding unsigned_and_eq u using bits by simp_all
  show "(of_nat x :: byte) AND 0x80 = 0" using z(1) by (simp only: unat_eq_zero)
  show "(of_nat (x OR 0x80) :: byte) AND 0x80 \<noteq> 0" using z(2) by (metis unat_0 zero_neq_numeral)
qed

lemma decode_length_loop_encode:
  "decode_length_loop (pre @ encode_remaining_length n @ rest) (length pre) m v =
     Inr (v + n * m, length pre + length (encode_remaining_length n))"
proof (induction n arbitrary: pre m v rule: encode_remaining_length.induct)
  case (1 n)
  note bs = length_bytes [of "n mod 128"]
  show ?case
  proof (cases "n div 128 > 0")
    case True
    have split: "n mod 128 * m + n div 128 * (m * 128) = n * m"
      by (metis add.commute add_mult_distrib div_mult_mod_eq mult.assoc mult.commute)
    have "decode_length_loop ((pre @ [of_nat (n mod 128 OR 0x80)]) @ encode_remaining_length (n div 128) @ rest)
        (length (pre @ [of_nat (n mod 128 OR 0x80) :: byte])) (m * 128) (v + n mod 128 * m) =
        Inr (v + n mod 128 * m + n div 128 * (m * 128),
          length (pre @ [of_nat (n mod 128 OR 0x80) :: byte]) + length (encode_remaining_length (n div 128)))"
      using True by (intro 1) simp_all
    with True bs split show ?thesis
      by (subst (1 2) encode_remaining_length.simps, subst decode_length_loop.simps)
        (simp add: Let_def nth_append add.assoc)
  next
    case False
    then have "n mod 128 = n" by simp
    with False bs show ?thesis
      by (subst (1 2) encode_remaining_length.simps, subst decode_length_loop.simps)
        (simp add: Let_def nth_append)
  qed
qed

lemma remaining_length_roundtrip_pre:
  "decode_remaining_length (encode_remaining_length n) 0 = Inr (n, length (encode_remaining_length n))"
  using decode_length_loop_encode [of "[]" n "[]" 1 0] by (simp add: decode_remaining_length_def)

text \<open>
  Reading back an encoded remaining length gives the length and the number of bytes used,
  whatever surrounds it; every byte of it but the last has its high bit set.
\<close>

theorem remaining_length_roundtrip:
  "decode_remaining_length (pre @ encode_remaining_length n @ rest) (length pre) =
     Inr (n, length (encode_remaining_length n))"
  by (simp add: decode_remaining_length_def decode_length_loop_encode)

subsection \<open>Text\<close>

definition scalar_value :: "nat \<Rightarrow> bool" where
  "scalar_value n \<longleftrightarrow> n < 0xD800 \<or> (0xE000 \<le> n \<and> n < 0x110000)"

definition utf8_char :: "nat \<Rightarrow> nat list" where
  "utf8_char n =
     (if n < 0x80 then [n]
      else if n < 0x800 then [192 + n div 64, 128 + n mod 64]
      else if n < 0x10000 then [224 + n div 4096, 128 + n div 64 mod 64, 128 + n mod 64]
      else [240 + n div 262144, 128 + n div 4096 mod 64, 128 + n div 64 mod 64, 128 + n mod 64])"

text \<open>\<open>str.encode\<close> and \<open>bytes.decode\<close>; their errors are kinds of \<open>ValueError\<close>.\<close>

definition utf8_encode :: "py_str \<Rightarrow> byte list py" where
  "utf8_encode s =
     (if \<forall>n \<in> set s. scalar_value n then Inr (map of_nat (concat (map utf8_char s))) else Inl ValueError)"

definition cont :: "nat \<Rightarrow> bool" where
  "cont b \<longleftrightarrow> 128 \<le> b \<and> b < 192"

text \<open>The first character of a text: its code point and the bytes after it.\<close>

definition utf8_next :: "nat list \<Rightarrow> (nat \<times> nat list) option" where
  "utf8_next bs = (case bs of
     [] \<Rightarrow> None
   | a # r \<Rightarrow>
       if a < 0x80 then Some (a, r)
       else if a < 0xC0 then None
       else if a < 0xE0 then
         (case r of b # r1 \<Rightarrow>
            let n = (a - 192) * 64 + (b - 128)
            in if cont b \<and> n \<ge> 0x80 then Some (n, r1) else None
          | _ \<Rightarrow> None)
       else if a < 0xF0 then
         (case r of b # c # r1 \<Rightarrow>
            let n = (a - 224) * 4096 + (b - 128) * 64 + (c - 128)
            in if cont b \<and> cont c \<and> n \<ge> 0x800 \<and> scalar_value n then Some (n, r1) else None
          | _ \<Rightarrow> None)
       else
         (case r of b # c # d # r1 \<Rightarrow>
            let n = (a - 240) * 262144 + (b - 128) * 4096 + (c - 128) * 64 + (d - 128)
            in if cont b \<and> cont c \<and> cont d \<and> n \<ge> 0x10000 \<and> scalar_value n then Some (n, r1) else None
          | _ \<Rightarrow> None))"

lemma utf8_next_shorter: "utf8_next bs = Some (n, r) \<Longrightarrow> length r < length bs"
  by (auto simp: utf8_next_def Let_def split: list.splits if_splits)

function utf8_points :: "nat list \<Rightarrow> py_str option" where
  "utf8_points bs =
     (if bs = [] then Some []
      else case utf8_next bs of
        None \<Rightarrow> None
      | Some (n, r) \<Rightarrow> map_option ((#) n) (utf8_points r))"
  by pat_completeness auto
termination
  by (relation "measure length") (auto dest: utf8_next_shorter)

declare utf8_points.simps [simp del]

definition utf8_decode :: "byte list \<Rightarrow> py_str py" where
  "utf8_decode data = (case utf8_points (map unat data) of None \<Rightarrow> Inl ValueError | Some s \<Rightarrow> Inr s)"

lemma utf8_char_bytes: "scalar_value n \<Longrightarrow> b \<in> set (utf8_char n) \<Longrightarrow> b < 256"
  by (auto simp: utf8_char_def scalar_value_def split: if_splits)

lemma utf8_next_digits:
  "q < 32 \<Longrightarrow> m < 64 \<Longrightarrow> n = q * 64 + m \<Longrightarrow> 0x80 \<le> n \<Longrightarrow>
     utf8_next ([192 + q, 128 + m] @ r) = Some (n, r)"
  "q < 16 \<Longrightarrow> p < 64 \<Longrightarrow> m < 64 \<Longrightarrow> n = q * 4096 + p * 64 + m \<Longrightarrow> 0x800 \<le> n \<Longrightarrow> scalar_value n \<Longrightarrow>
     utf8_next ([224 + q, 128 + p, 128 + m] @ r) = Some (n, r)"
  "o' < 64 \<Longrightarrow> p < 64 \<Longrightarrow> m < 64 \<Longrightarrow> n = q * 262144 + o' * 4096 + p * 64 + m \<Longrightarrow> 0x10000 \<le> n \<Longrightarrow> scalar_value n \<Longrightarrow>
     utf8_next ([240 + q, 128 + o', 128 + p, 128 + m] @ r) = Some (n, r)"
  by (simp_all add: utf8_next_def cont_def Let_def)

lemma utf8_next_char:
  assumes "scalar_value n"
  shows "utf8_next (utf8_char n @ r) = Some (n, r)"
proof -
  have d: "n div 64 div 64 = n div 4096" "n div 4096 div 64 = n div 262144"
    by (simp_all add: div_mult2_eq [symmetric])
  have m: "n = n div 64 * 64 + n mod 64" "n div 64 = n div 4096 * 64 + n div 64 mod 64"
    "n div 4096 = n div 262144 * 64 + n div 4096 mod 64"
    using div_mult_mod_eq [of n 64] div_mult_mod_eq [of "n div 64" 64] div_mult_mod_eq [of "n div 4096" 64]
    by (simp_all only: d)
  have lt: "n mod 64 < 64" "n div 64 mod 64 < 64" "n div 4096 mod 64 < 64" by simp_all
  consider "n < 0x80" | "0x80 \<le> n" "n < 0x800" | "0x800 \<le> n" "n < 0x10000" | "0x10000 \<le> n" "n < 0x110000"
    using assms by (fastforce simp: scalar_value_def)
  then show ?thesis
  proof cases
    case 1
    then show ?thesis by (simp add: utf8_char_def utf8_next_def)
  next
    case 2
    have "n div 64 < 32" using 2 m(1) by linarith
    then have "utf8_next ([192 + n div 64, 128 + n mod 64] @ r) = Some (n, r)"
      by (rule utf8_next_digits(1) [OF _ lt(1) m(1) 2(1)])
    with 2 show ?thesis by (simp add: utf8_char_def)
  next
    case 3
    have "n div 4096 < 16" "n = n div 4096 * 4096 + n div 64 mod 64 * 64 + n mod 64" using 3 m by linarith+
    then have "utf8_next ([224 + n div 4096, 128 + n div 64 mod 64, 128 + n mod 64] @ r) = Some (n, r)"
      by (rule utf8_next_digits(2) [OF _ lt(2,1) _ 3(1) assms])
    with 3 show ?thesis by (simp add: utf8_char_def)
  next
    case 4
    have "n = n div 262144 * 262144 + n div 4096 mod 64 * 4096 + n div 64 mod 64 * 64 + n mod 64" using m by linarith
    then have "utf8_next ([240 + n div 262144, 128 + n div 4096 mod 64, 128 + n div 64 mod 64, 128 + n mod 64] @ r)
        = Some (n, r)"
      by (rule utf8_next_digits(3) [OF lt(3,2,1) _ 4(1) assms])
    with 4 show ?thesis by (simp add: utf8_char_def)
  qed
qed

lemma utf8_char_nonempty [simp]: "utf8_char n \<noteq> []"
  by (simp add: utf8_char_def)

lemma utf8_points_encode: "\<forall>n \<in> set s. scalar_value n \<Longrightarrow> utf8_points (concat (map utf8_char s)) = Some s"
  by (induction s) (simp_all add: utf8_points.simps [of "[]"] utf8_points.simps [of "utf8_char _ @ _"] utf8_next_char)

lemma utf8_roundtrip: "utf8_encode s = Inr data \<Longrightarrow> utf8_decode data = Inr s"
proof -
  assume e: "utf8_encode s = Inr data"
  then have s: "\<forall>n \<in> set s. scalar_value n" and d: "data = map of_nat (concat (map utf8_char s))"
    by (auto simp: utf8_encode_def split: if_splits)
  have "map unat data = concat (map utf8_char s)"
    unfolding d map_map using s utf8_char_bytes by (intro map_idI) (auto simp: unat_of_nat)
  with s show ?thesis by (simp add: utf8_decode_def utf8_points_encode)
qed

text \<open>\<open>struct\<close>'s \<open>!H\<close>.\<close>

definition pack_u16 :: "nat \<Rightarrow> byte list py" where
  "pack_u16 n = (if n < 65536 then Inr [of_nat (n div 256), of_nat (n mod 256)] else Inl StructError)"

definition unpack_u16 :: "byte list \<Rightarrow> nat py" where
  "unpack_u16 bs = (case bs of [a, b] \<Rightarrow> Inr (unat a * 256 + unat b) | _ \<Rightarrow> Inl StructError)"

definition slice :: "nat \<Rightarrow> nat \<Rightarrow> 'a list \<Rightarrow> 'a list" where
  "slice a b xs = take (b - a) (drop a xs)"

definition decode_utf8_string :: "byte list \<Rightarrow> nat \<Rightarrow> (py_str \<times> nat) py" where
  "decode_utf8_string data offset =
     (if offset + 2 > length data then Inl ValueError
      else py_bind (unpack_u16 (slice offset (offset + 2) data)) (\<lambda>str_len.
        if offset + 2 + str_len > length data then Inl ValueError
        else py_bind (utf8_decode (slice (offset + 2) (offset + 2 + str_len) data)) (\<lambda>s.
          Inr (s, offset + 2 + str_len))))"

definition encode_utf8_string :: "py_str \<Rightarrow> byte list py" where
  "encode_utf8_string s =
     py_bind (utf8_encode s) (\<lambda>encoded. py_bind (pack_u16 (length encoded)) (\<lambda>len. Inr (len @ encoded)))"

lemma unpack_pack: "pack_u16 n = Inr bs \<Longrightarrow> unpack_u16 bs = Inr n \<and> length bs = 2"
  by (auto simp: pack_u16_def unpack_u16_def unat_of_nat split: if_splits)

lemma utf8_string_roundtrip:
  assumes "encode_utf8_string s = Inr bs"
  shows "decode_utf8_string (pre @ bs @ rest) (length pre) = Inr (s, length pre + length bs)" "2 \<le> length bs"
proof -
  obtain e len where e: "utf8_encode s = Inr e" "pack_u16 (length e) = Inr len" "bs = len @ e"
    using assms by (auto simp: encode_utf8_string_def py_bind_Inr)
  note l = unpack_pack [OF e(2)]
  have "slice (length pre) (length pre + 2) (pre @ bs @ rest) = len"
    "slice (length pre + 2) (length pre + 2 + length e) (pre @ bs @ rest) = e"
    using l by (simp_all add: slice_def e(3))
  with l utf8_roundtrip [OF e(1)]
  show "decode_utf8_string (pre @ bs @ rest) (length pre) = Inr (s, length pre + length bs)" "2 \<le> length bs"
    by (simp_all add: decode_utf8_string_def e(3))
qed

lemma decode_utf8_advances: "decode_utf8_string data offset = Inr (s, j) \<Longrightarrow> offset + 2 \<le> j \<and> j \<le> length data"
  by (auto simp: decode_utf8_string_def py_bind_Inr split: if_splits)

subsection \<open>Packets\<close>

definition build_publish_packet :: "py_str \<Rightarrow> byte list \<Rightarrow> nat \<Rightarrow> byte list py" where
  "build_publish_packet topic payload qos =
     py_bind (encode_utf8_string topic) (\<lambda>topic_bytes.
       let flags = (if qos > 0 then push_bit 1 qos else 0);
           remaining = topic_bytes @ (if qos > 0 then [0, 0] else []) @ payload;
           first_byte = push_bit 4 3 OR flags
       in if first_byte > 255 then Inl ValueError
          else Inr (of_nat first_byte # encode_remaining_length (length remaining) @ remaining))"

text \<open>One packet from the front of a stream: its first byte, its body and the rest; \<open>None\<close> when the
  stream ends within it.\<close>

fun read_length_bytes :: "byte list \<Rightarrow> (byte list \<times> byte list) option" where
  "read_length_bytes [] = None"
| "read_length_bytes (b # r) =
     (if b AND 0x80 = 0 then Some ([b], r) else map_option (\<lambda>(bs, r1). (b # bs, r1)) (read_length_bytes r))"

definition read_packet :: "byte list \<Rightarrow> (byte \<times> byte list \<times> byte list) option" where
  "read_packet stream = (case stream of
     [] \<Rightarrow> None
   | header # r \<Rightarrow>
       (case read_length_bytes r of
          None \<Rightarrow> None
        | Some (bs, r1) \<Rightarrow>
            (case decode_remaining_length bs 0 of
               Inl _ \<Rightarrow> None
             | Inr (len, _) \<Rightarrow> if length r1 < len then None else Some (header, take len r1, drop len r1))))"

definition packet_type :: "byte \<Rightarrow> nat" where
  "packet_type header = unat (drop_bit 4 header AND 0x0F)"

definition packet_flags :: "byte \<Rightarrow> nat" where
  "packet_flags header = unat (header AND 0x0F)"

definition parse_publish :: "nat \<Rightarrow> byte list \<Rightarrow> (py_str \<times> nat \<times> nat option \<times> byte list) py" where
  "parse_publish flags body =
     py_bind (decode_utf8_string body 0) (\<lambda>(topic, offset).
       let qos = drop_bit 1 flags AND 3
       in if qos > 0
          then py_bind (unpack_u16 (slice offset (offset + 2) body)) (\<lambda>packet_id.
                 Inr (topic, qos, Some packet_id, drop (offset + 2) body))
          else Inr (topic, qos, None, drop offset body))"

lemma read_length_encode:
  "read_length_bytes (encode_remaining_length n @ rest) = Some (encode_remaining_length n, rest)"
proof (induction n rule: encode_remaining_length.induct)
  case (1 n)
  note bs = length_bytes [of "n mod 128"]
  show ?case
  proof (cases "n div 128 > 0")
    case True
    then show ?thesis
      by (subst (1 2) encode_remaining_length.simps) (use 1 bs in \<open>simp add: Let_def\<close>)
  next
    case False
    then have "n mod 128 = n" by simp
    with False bs show ?thesis by (subst (1 2) encode_remaining_length.simps) (simp add: Let_def)
  qed
qed

lemma read_packet_built:
  "read_packet (h # encode_remaining_length (length body) @ body @ rest) = Some (h, body, rest)"
  using remaining_length_roundtrip_pre [of "length body"]
  by (simp add: read_packet_def read_length_encode)

lemma publish_header:
  assumes "qos \<le> 1"
  shows "packet_type (of_nat (push_bit 4 3 OR push_bit 1 qos)) = 3"
    "drop_bit 1 (packet_flags (of_nat (push_bit 4 3 OR push_bit 1 qos))) AND 3 = qos"
    "push_bit 4 3 OR push_bit 1 qos < (256 :: nat)"
proof -
  have "qos = 0 \<or> qos = 1" using assms by linarith
  moreover have "packet_type (of_nat (push_bit 4 3 OR push_bit 1 0)) = 3"
    "drop_bit 1 (packet_flags (of_nat (push_bit 4 3 OR push_bit 1 0))) AND 3 = 0"
    "push_bit 4 3 OR push_bit 1 0 < (256 :: nat)"
    "packet_type (of_nat (push_bit 4 3 OR push_bit 1 1)) = 3"
    "drop_bit 1 (packet_flags (of_nat (push_bit 4 3 OR push_bit 1 1))) AND 3 = 1"
    "push_bit 4 3 OR push_bit 1 1 < (256 :: nat)"
    by code_simp+
  ultimately show "packet_type (of_nat (push_bit 4 3 OR push_bit 1 qos)) = 3"
    "drop_bit 1 (packet_flags (of_nat (push_bit 4 3 OR push_bit 1 qos))) AND 3 = qos"
    "push_bit 4 3 OR push_bit 1 qos < (256 :: nat)" by metis+
qed

text \<open>
  C28: a packet the broker builds is read back as it was meant, from the front of any stream: it is
  one whole packet of type PUBLISH with the given topic, quality of service and payload, and the
  packet id 0 when the quality of service is 1.
\<close>

theorem publish_packet_roundtrip:
  assumes "build_publish_packet topic payload qos = Inr pkt" "qos \<le> 1"
  shows "\<exists>header body. read_packet (pkt @ rest) = Some (header, body, rest) \<and> packet_type header = 3 \<and>
    parse_publish (packet_flags header) body = Inr (topic, qos, if qos = 1 then Some 0 else None, payload)"
proof -
  obtain tb where tb: "encode_utf8_string topic = Inr tb"
    using assms(1) by (auto simp: build_publish_packet_def py_bind_Inr)
  let ?body = "tb @ (if qos > 0 then [0, 0] else []) @ payload"
  let ?h = "of_nat (push_bit 4 3 OR push_bit 1 qos) :: byte"
  have flags: "(if qos > 0 then push_bit 1 qos else 0) = push_bit 1 qos" by simp
  have pkt: "pkt = ?h # encode_remaining_length (length ?body) @ ?body"
    using assms(1) publish_header(3) [OF assms(2)] tb
    unfolding build_publish_packet_def flags by (simp add: Let_def split: if_splits)
  have "decode_utf8_string ?body 0 = Inr (topic, length tb)"
    using utf8_string_roundtrip(1) [OF tb, of "[]"] by simp
  moreover have "unpack_u16 (slice (length tb) (length tb + 2) ?body) = Inr 0" if "qos > 0"
    using that by (simp add: slice_def unpack_u16_def)
  ultimately have "parse_publish (packet_flags ?h) ?body = Inr (topic, qos, if qos = 1 then Some 0 else None, payload)"
    using assms(2) publish_header(2) [OF assms(2)] by (simp add: parse_publish_def Let_def)
  moreover have "read_packet (pkt @ rest) = Some (?h, ?body, rest)"
    unfolding pkt using read_packet_built [of ?h ?body rest] by simp
  ultimately show ?thesis using publish_header(1) [OF assms(2)] by blast
qed

theorem publish_packet_roundtrip_witness:
  "\<exists>pkt. build_publish_packet [120, 47, 8364] [123, 125] 1 = Inr pkt \<and>
    (\<exists>header body. read_packet (pkt @ [7]) = Some (header, body, [7]) \<and>
       parse_publish (packet_flags header) body = Inr ([120, 47, 8364], 1, Some 0, [123, 125]))"
proof -
  have "\<not> isl (build_publish_packet [120, 47, 8364] [123, 125] 1)"
    using publish_header(3) [of 1]
    by (simp add: build_publish_packet_def encode_utf8_string_def utf8_encode_def scalar_value_def utf8_char_def
        pack_u16_def Let_def)
  then obtain pkt where "build_publish_packet [120, 47, 8364] [123, 125] 1 = Inr pkt"
    by (cases "build_publish_packet [120, 47, 8364] [123, 125] 1") auto
  with publish_packet_roundtrip [OF this, of "[7]"] show ?thesis by auto
qed

subsection \<open>Topic filters\<close>

definition hash_level :: py_str where "hash_level = [35]"
definition plus_level :: py_str where "plus_level = [43]"

text \<open>The loop over the two index variables, and the test after it.\<close>

fun match_levels :: "py_str list \<Rightarrow> py_str list \<Rightarrow> bool" where
  "match_levels (p # ps) (t # ts) =
     (if p = hash_level then True
      else if p = plus_level then match_levels ps ts
      else if p \<noteq> t then False
      else match_levels ps ts)"
| "match_levels (p # ps) [] = (p = hash_level)"
| "match_levels [] ts = (ts = [])"

definition mqtt_topic_matches :: "py_str \<Rightarrow> py_str \<Rightarrow> bool" where
  "mqtt_topic_matches pattern topic = match_levels (split_on 47 pattern) (split_on 47 topic)"

text \<open>
  The rules of the MQTT standard (3.1.1, section 4.7).  A topic name and a filter have at least one
  character and no null character; a topic name has no wildcard.  In a filter a plus sign takes up
  a whole level, and a hash sign takes up a whole level which is the last one.  A plus sign accepts
  any one level, a final hash sign the parent and all levels below it; but a filter that starts
  with a wildcard accepts no topic name that starts with a dollar sign.
\<close>

definition valid_topic :: "py_str \<Rightarrow> bool" where
  "valid_topic topic \<longleftrightarrow> topic \<noteq> [] \<and> 0 \<notin> set topic \<and> 35 \<notin> set topic \<and> 43 \<notin> set topic"

definition valid_filter :: "py_str \<Rightarrow> bool" where
  "valid_filter pattern \<longleftrightarrow> pattern \<noteq> [] \<and> 0 \<notin> set pattern \<and> (let ls = split_on 47 pattern in
     list_all (\<lambda>l. 43 \<in> set l \<longrightarrow> l = plus_level) ls
     \<and> list_all (\<lambda>l. 35 \<notin> set l) (butlast ls) \<and> (35 \<in> set (List.last ls) \<longrightarrow> List.last ls = hash_level))"

definition level_accepts :: "py_str \<Rightarrow> py_str \<Rightarrow> bool" where
  "level_accepts p t \<longleftrightarrow> p = plus_level \<or> p = t"

definition levels_accept :: "py_str list \<Rightarrow> py_str list \<Rightarrow> bool" where
  "levels_accept ps ts =
     (if List.last ps = hash_level
      then length ps \<le> Suc (length ts) \<and> list_all2 level_accepts (butlast ps) (take (length ps - 1) ts)
      else list_all2 level_accepts ps ts)"

definition dollar_topic :: "py_str \<Rightarrow> bool" where
  "dollar_topic topic \<longleftrightarrow> take 1 topic = [36]"

definition wildcard_first :: "py_str \<Rightarrow> bool" where
  "wildcard_first pattern \<longleftrightarrow> take 1 pattern \<in> {hash_level, plus_level}"

definition standard_matches :: "py_str \<Rightarrow> py_str \<Rightarrow> bool" where
  "standard_matches pattern topic \<longleftrightarrow>
     levels_accept (split_on 47 pattern) (split_on 47 topic) \<and> \<not> (wildcard_first pattern \<and> dollar_topic topic)"

lemma match_levels_accept:
  "ps \<noteq> [] \<Longrightarrow> hash_level \<notin> set (butlast ps) \<Longrightarrow> hash_level \<notin> set ts \<Longrightarrow> match_levels ps ts \<longleftrightarrow> levels_accept ps ts"
proof (induction ps ts rule: match_levels.induct)
  case (1 p ps t ts)
  show ?case
  proof (cases "p = hash_level")
    case True
    have "ps = []" using 1(4) True by (simp split: if_splits)
    with True show ?thesis by (simp add: levels_accept_def)
  next
    case False
    have t: "hash_level \<notin> set ts" using 1(5) by simp
    show ?thesis
    proof (cases "ps = []")
      case True
      then show ?thesis using False by (cases ts) (auto simp: levels_accept_def level_accepts_def)
    next
      case ne: False
      then have b: "hash_level \<notin> set (butlast ps)" using 1(4) by (simp split: if_splits)
      have step: "levels_accept (p # ps) (t # ts) \<longleftrightarrow> level_accepts p t \<and> levels_accept ps ts"
        using ne by (cases ps) (auto simp: levels_accept_def)
      show ?thesis
      proof (cases "p = plus_level")
        case True
        then show ?thesis using 1(1) [OF False True ne b t] False step by (simp add: level_accepts_def)
      next
        case no: False
        show ?thesis
        proof (cases "p = t")
          case True
          then show ?thesis using 1(2) [OF False no _ ne b t] False no step by (simp add: level_accepts_def)
        qed (use False no step in \<open>simp add: level_accepts_def\<close>)
      qed
    qed
  qed
next
  case (2 p ps)
  then show ?case by (cases ps rule: rev_cases) (auto simp: levels_accept_def split: if_splits)
qed simp

lemma valid_levels:
  assumes "valid_filter pattern" "valid_topic topic"
  shows "hash_level \<notin> set (butlast (split_on 47 pattern))" "hash_level \<notin> set (split_on 47 topic)"
proof -
  have in_part: "set l \<subseteq> set xs" if "l \<in> set (split_on c xs)" for l c and xs :: py_str
    using that by (induction xs arbitrary: l) (fastforce split: list.splits if_splits)+
  show "hash_level \<notin> set (butlast (split_on 47 pattern))"
    using assms(1) by (auto simp: valid_filter_def Let_def list_all_iff hash_level_def)
  show "hash_level \<notin> set (split_on 47 topic)"
    using assms(2) in_part [of hash_level 47 topic] by (auto simp: valid_topic_def hash_level_def)
qed

text \<open>
  C29: the topics that the broker's loop accepts for a filter, against the rules of the standard, for
  filters and topic names that the standard allows.  The two agree, except for a filter that starts
  with a wildcard and a topic that starts with a dollar sign: the standard never lets these match,
  the loop does whenever the levels fit.
\<close>

theorem topic_matching_standard:
  assumes "valid_filter pattern" "valid_topic topic"
  shows "(\<not> (wildcard_first pattern \<and> dollar_topic topic) \<longrightarrow>
      mqtt_topic_matches pattern topic = standard_matches pattern topic)
    \<and> (wildcard_first pattern \<and> dollar_topic topic \<longrightarrow> \<not> standard_matches pattern topic
      \<and> mqtt_topic_matches pattern topic = levels_accept (split_on 47 pattern) (split_on 47 topic))"
  using match_levels_accept [OF split_on_nonempty valid_levels [OF assms]]
  by (simp add: mqtt_topic_matches_def standard_matches_def)

theorem topic_matching_standard_witness:
  "standard_matches [120, 47, 43, 47, 35] [120, 47, 49]
   \<and> mqtt_topic_matches [35] [36, 83, 47, 120] \<and> \<not> standard_matches [35] [36, 83, 47, 120]"
proof -
  have v: "valid_filter [120, 47, 43, 47, 35]" "valid_topic [120, 47, 49]" "valid_filter [35]" "valid_topic [36, 83, 47, 120]"
    "\<not> wildcard_first [120, 47, 43, 47, 35]" "wildcard_first [35]" "dollar_topic [36, 83, 47, 120]"
    by (simp_all add: valid_filter_def valid_topic_def hash_level_def plus_level_def wildcard_first_def dollar_topic_def Let_def)
  from topic_matching_standard [OF v(1,2)] topic_matching_standard [OF v(3,4)] v(5-7) show ?thesis
    by (simp add: mqtt_topic_matches_def hash_level_def plus_level_def)
qed

subsection \<open>Sessions\<close>

text \<open>
  A connection is a number; its session object belongs to the connection that made it, and the
  table of clients refers to it by the client id.  \<open>bk_out\<close> is what was written on each connection
  that was still open, \<open>bk_handled\<close> the calls of the platform's handler.  The payload's JSON value
  and the id of a client that sends none are given by \<open>loads\<close> and \<open>auto\<close>.
\<close>

record session =
  ss_client :: py_str
  ss_subs :: "py_str set"

record 'j broker =
  bk_clients :: "(py_str \<times> nat) list"
  bk_sessions :: "nat \<Rightarrow> session option"
  bk_closed :: "nat set"
  bk_out :: "nat \<Rightarrow> byte list"
  bk_handled :: "(py_str \<times> 'j \<times> py_str) list"

definition init_broker :: "'j broker" where
  "init_broker = \<lparr>bk_clients = [], bk_sessions = (\<lambda>_. None), bk_closed = {}, bk_out = (\<lambda>_. []), bk_handled = []\<rparr>"

definition write_to :: "nat \<Rightarrow> byte list \<Rightarrow> 'j broker \<Rightarrow> 'j broker" where
  "write_to c bs b = (if c \<in> bk_closed b then b else b\<lparr>bk_out := (bk_out b)(c := bk_out b c @ bs)\<rparr>)"

definition close_writer :: "nat \<Rightarrow> 'j broker \<Rightarrow> 'j broker" where
  "close_writer c b = b\<lparr>bk_closed := insert c (bk_closed b)\<rparr>"

definition subscribed :: "'j broker \<Rightarrow> nat \<Rightarrow> py_str \<Rightarrow> bool" where
  "subscribed b c topic = (case bk_sessions b c of
     None \<Rightarrow> False | Some s \<Rightarrow> \<exists>p \<in> ss_subs s. mqtt_topic_matches p topic)"

definition deliver :: "byte list \<Rightarrow> py_str \<Rightarrow> (py_str \<times> nat) list \<Rightarrow> 'j broker \<Rightarrow> 'j broker" where
  "deliver pkt topic entries b =
     foldl (\<lambda>b (cid, c). if subscribed b c topic then write_to c pkt b else b) b entries"

definition publish :: "py_str \<Rightarrow> byte list \<Rightarrow> nat \<Rightarrow> 'j broker \<Rightarrow> 'j broker py" where
  "publish topic raw qos b =
     py_bind (build_publish_packet topic raw qos) (\<lambda>pkt. Inr (deliver pkt topic (bk_clients b) b))"

definition handle_publish :: "(byte list \<Rightarrow> 'j) \<Rightarrow> nat \<Rightarrow> session \<Rightarrow> nat \<Rightarrow> byte list \<Rightarrow> 'j broker
    \<Rightarrow> 'j broker \<times> unit py" where
  "handle_publish loads c s flags body b =
     (case parse_publish flags body of
        Inl e \<Rightarrow> (b, Inl e)
      | Inr (topic, qos, packet_id, payload) \<Rightarrow>
          (case (case packet_id of None \<Rightarrow> Inr [] | Some i \<Rightarrow> if qos = 1 then pack_u16 i else Inr []) of
             Inl e \<Rightarrow> (b, Inl e)
           | Inr i \<Rightarrow>
               (let b1 = (if i = [] then b else write_to c ([0x40, 2] @ i) b)
                in case build_publish_packet topic payload (min qos 1) of
                     Inl e \<Rightarrow> (b1, Inl e)
                   | Inr pkt \<Rightarrow>
                       (let b2 = deliver pkt topic (filter (\<lambda>(cid, _). cid \<noteq> ss_client s) (bk_clients b1)) b1
                        in (b2\<lparr>bk_handled := bk_handled b2 @ [(topic, loads payload, ss_client s)]\<rparr>, Inr ())))))"

text \<open>The loop over the filters of a SUBSCRIBE packet: the subscriptions and the granted levels.\<close>

function subscribe_loop :: "byte list \<Rightarrow> nat \<Rightarrow> py_str set \<Rightarrow> nat list \<Rightarrow> (py_str set \<times> nat list) \<times> unit py" where
  "subscribe_loop body offset subs granted =
     (if offset < length body
      then (case decode_utf8_string body offset of
              Inl e \<Rightarrow> ((subs, granted), Inl e)
            | Inr (topic_filter, j) \<Rightarrow>
                if j \<ge> length body then ((subs, granted), Inl IndexError)
                else subscribe_loop body (j + 1) (insert topic_filter subs) (granted @ [min (unat (body ! j)) 1]))
      else ((subs, granted), Inr ()))"
  by pat_completeness auto
termination
  by (relation "measure (\<lambda>(body, offset, _). length body - offset)") (auto dest!: decode_utf8_advances)

declare subscribe_loop.simps [simp del]

function unsubscribe_loop :: "byte list \<Rightarrow> nat \<Rightarrow> py_str set \<Rightarrow> py_str set \<times> unit py" where
  "unsubscribe_loop body offset subs =
     (if offset < length body
      then (case decode_utf8_string body offset of
              Inl e \<Rightarrow> (subs, Inl e)
            | Inr (topic_filter, j) \<Rightarrow> unsubscribe_loop body j (subs - {topic_filter}))
      else (subs, Inr ()))"
  by pat_completeness auto
termination
  by (relation "measure (\<lambda>(body, offset, _). length body - offset)") (auto dest!: decode_utf8_advances)

declare unsubscribe_loop.simps [simp del]

definition set_subs :: "nat \<Rightarrow> session \<Rightarrow> py_str set \<Rightarrow> 'j broker \<Rightarrow> 'j broker" where
  "set_subs c s subs b = b\<lparr>bk_sessions := (bk_sessions b)(c := Some (s\<lparr>ss_subs := subs\<rparr>))\<rparr>"

definition handle_subscribe :: "nat \<Rightarrow> session \<Rightarrow> byte list \<Rightarrow> 'j broker \<Rightarrow> 'j broker \<times> unit py" where
  "handle_subscribe c s body b =
     (case unpack_u16 (slice 0 2 body) of
        Inl e \<Rightarrow> (b, Inl e)
      | Inr packet_id \<Rightarrow>
          (let ((subs, granted), r) = subscribe_loop body 2 (ss_subs s) [];
               b1 = set_subs c s subs b
           in case py_bind r (\<lambda>_. if 2 + length granted > 255 then Inl ValueError else pack_u16 packet_id) of
                Inl e \<Rightarrow> (b1, Inl e)
              | Inr i \<Rightarrow> (write_to c ([0x90, of_nat (2 + length granted)] @ i @ map of_nat granted) b1, Inr ())))"

definition handle_unsubscribe :: "nat \<Rightarrow> session \<Rightarrow> byte list \<Rightarrow> 'j broker \<Rightarrow> 'j broker \<times> unit py" where
  "handle_unsubscribe c s body b =
     (case unpack_u16 (slice 0 2 body) of
        Inl e \<Rightarrow> (b, Inl e)
      | Inr packet_id \<Rightarrow>
          (let (subs, r) = unsubscribe_loop body 2 (ss_subs s);
               b1 = set_subs c s subs b
           in case py_bind r (\<lambda>_. pack_u16 packet_id) of
                Inl e \<Rightarrow> (b1, Inl e)
              | Inr i \<Rightarrow> (write_to c ([0xB0, 2] @ i) b1, Inr ())))"

text \<open>What \<open>_handle_connection\<close> does with one packet; \<open>Inr False\<close> leaves its loop.\<close>

definition handle_packet :: "(byte list \<Rightarrow> 'j) \<Rightarrow> nat \<Rightarrow> session \<Rightarrow> byte \<Rightarrow> byte list \<Rightarrow> 'j broker
    \<Rightarrow> 'j broker \<times> bool py" where
  "handle_packet loads c s header body b =
     (let t = packet_type header;
          go = (\<lambda>(b1, r). (b1, py_bind r (\<lambda>_. Inr True)))
      in if t = 3 then go (handle_publish loads c s (packet_flags header) body b)
         else if t = 8 then go (handle_subscribe c s body b)
         else if t = 10 then go (handle_unsubscribe c s body b)
         else if t = 12 then (write_to c [0xD0, 0] b, Inr True)
         else if t = 14 then (b, Inr False)
         else (b, Inr True))"

text \<open>The \<open>finally\<close> block: the entry of the client id goes, whichever session it refers to.\<close>

definition end_connection :: "nat \<Rightarrow> session \<Rightarrow> 'j broker \<Rightarrow> 'j broker" where
  "end_connection c s b =
     close_writer c (b\<lparr>bk_clients := AList.delete (ss_client s) (bk_clients b), bk_sessions := (bk_sessions b)(c := None)\<rparr>)"

definition on_packet :: "(byte list \<Rightarrow> 'j) \<Rightarrow> nat \<Rightarrow> byte \<Rightarrow> byte list \<Rightarrow> 'j broker \<Rightarrow> 'j broker" where
  "on_packet loads c header body b =
     (case bk_sessions b c of
        None \<Rightarrow> b
      | Some s \<Rightarrow>
          (case handle_packet loads c s header body b of
             (b1, Inr True) \<Rightarrow> b1
           | (b1, _) \<Rightarrow> end_connection c s b1))"

definition parse_connect :: "byte list \<Rightarrow> py_str py" where
  "parse_connect body =
     py_bind (decode_utf8_string body 0) (\<lambda>(protocol_name, offset).
       if offset + 1 \<ge> length body then Inl IndexError
       else py_bind (unpack_u16 (slice (offset + 2) (offset + 4) body)) (\<lambda>keep_alive.
         py_bind (decode_utf8_string body (offset + 4)) (\<lambda>(client_id, _). Inr client_id)))"

definition on_connect :: "(nat \<Rightarrow> py_str) \<Rightarrow> nat \<Rightarrow> byte \<Rightarrow> byte list \<Rightarrow> 'j broker \<Rightarrow> 'j broker" where
  "on_connect auto c header body b =
     (if packet_type header \<noteq> 1 then close_writer c b
      else case parse_connect body of
        Inl _ \<Rightarrow> close_writer c b
      | Inr i \<Rightarrow>
          (let cid = (if i = [] then auto c else i);
               b1 = write_to c [0x20, 2, 0, 0] b;
               b2 = (case map_of (bk_clients b1) cid of None \<Rightarrow> b1 | Some old \<Rightarrow> close_writer old b1)
           in b2\<lparr>bk_clients := AList.delete cid (bk_clients b2) @ [(cid, c)],
                 bk_sessions := (bk_sessions b2)(c := Some \<lparr>ss_client = cid, ss_subs = {}\<rparr>)\<rparr>))"

text \<open>The steps of the broker: a new connection's first packet, a later packet, the end of a
  connection, and a message of the platform.\<close>

inductive bk_step :: "(byte list \<Rightarrow> 'j) \<Rightarrow> (nat \<Rightarrow> py_str) \<Rightarrow> 'j broker \<Rightarrow> 'j broker \<Rightarrow> bool"
  for loads auto where
  connects: "bk_sessions b c = None \<Longrightarrow> c \<notin> bk_closed b \<Longrightarrow> bk_step loads auto b (on_connect auto c header body b)"
| packet: "bk_step loads auto b (on_packet loads c header body b)"
| hangs_up: "bk_sessions b c = Some s \<Longrightarrow> bk_step loads auto b (end_connection c s b)"
| platform: "publish topic raw qos b = Inr b' \<Longrightarrow> bk_step loads auto b b'"

inductive_cases bk_stepE: "bk_step loads auto b b'"

subsection \<open>What a step leaves alone\<close>

lemma write_to_simps [simp]:
  "bk_clients (write_to c bs b) = bk_clients b" "bk_sessions (write_to c bs b) = bk_sessions b"
  "bk_closed (write_to c bs b) = bk_closed b" "bk_handled (write_to c bs b) = bk_handled b"
  by (simp_all add: write_to_def)

lemma write_to_out: "bk_out (write_to c bs b) d = bk_out b d @ (if d = c \<and> c \<notin> bk_closed b then bs else [])"
  by (simp add: write_to_def)

lemma close_writer_simps [simp]:
  "bk_clients (close_writer c b) = bk_clients b" "bk_sessions (close_writer c b) = bk_sessions b"
  "bk_closed (close_writer c b) = insert c (bk_closed b)" "bk_out (close_writer c b) = bk_out b"
  "bk_handled (close_writer c b) = bk_handled b"
  by (simp_all add: close_writer_def)

lemma subscribed_cong: "bk_sessions b' = bk_sessions b \<Longrightarrow> subscribed b' c topic = subscribed b c topic"
  by (simp add: subscribed_def)

lemma deliver_Cons:
  "deliver pkt topic ((cid, c) # es) b = deliver pkt topic es (if subscribed b c topic then write_to c pkt b else b)"
  by (simp add: deliver_def)

lemma deliver_simps [simp]:
  "bk_clients (deliver pkt topic es b) = bk_clients b \<and> bk_sessions (deliver pkt topic es b) = bk_sessions b \<and>
   bk_closed (deliver pkt topic es b) = bk_closed b \<and> bk_handled (deliver pkt topic es b) = bk_handled b"
proof (induction es arbitrary: b)
  case Nil
  then show ?case by (simp add: deliver_def)
next
  case (Cons e es)
  then show ?case by (cases e) (simp add: deliver_Cons)
qed

lemma deliver_out:
  "distinct (map snd es) \<Longrightarrow> bk_out (deliver pkt topic es b) d =
     bk_out b d @ (if d \<in> snd ` set es \<and> subscribed b d topic \<and> d \<notin> bk_closed b then pkt else [])"
proof (induction es arbitrary: b)
  case Nil
  then show ?case by (simp add: deliver_def)
next
  case (Cons e es)
  then show ?case
    using subscribed_cong [of "write_to (snd e) pkt b" b]
    by (cases e) (auto simp: deliver_Cons write_to_out)
qed

subsection \<open>The table of clients\<close>

definition registered :: "'j broker \<Rightarrow> py_str \<times> nat \<Rightarrow> bool" where
  "registered b e \<longleftrightarrow> (\<exists>s. bk_sessions b (snd e) = Some s \<and> ss_client s = fst e) \<and> snd e \<notin> bk_closed b"

definition broker_ok :: "'j broker \<Rightarrow> bool" where
  "broker_ok b \<longleftrightarrow> distinct (map fst (bk_clients b)) \<and> (\<forall>e \<in> set (bk_clients b). registered b e)"

lemma registered_connection: "registered b (i, c) \<Longrightarrow> registered b (j, c) \<Longrightarrow> i = j"
  by (auto simp: registered_def)

lemma broker_ok_connections:
  assumes "broker_ok b"
  shows "distinct (map snd (bk_clients b))"
proof -
  have "e = e'" if "e \<in> set (bk_clients b)" "e' \<in> set (bk_clients b)" "snd e = snd e'" for e e'
    using assms that registered_connection by (metis broker_ok_def prod.collapse prod.expand)
  moreover have "distinct (bk_clients b)" using assms by (simp add: broker_ok_def distinct_map)
  ultimately show ?thesis by (auto simp: distinct_map inj_on_def)
qed

lemma broker_ok_cong:
  "broker_ok b \<Longrightarrow> bk_clients b' = bk_clients b \<Longrightarrow> bk_closed b' = bk_closed b \<Longrightarrow>
   (\<And>c s. bk_sessions b c = Some s \<Longrightarrow> \<exists>s'. bk_sessions b' c = Some s' \<and> ss_client s' = ss_client s) \<Longrightarrow> broker_ok b'"
  unfolding broker_ok_def registered_def by metis

lemma end_connection_ok:
  assumes "broker_ok b" "bk_sessions b c = Some s"
  shows "broker_ok (end_connection c s b)"
  unfolding broker_ok_def
proof (intro conjI ballI)
  show "distinct (map fst (bk_clients (end_connection c s b)))"
    using assms(1) by (simp add: broker_ok_def end_connection_def distinct_delete)
next
  fix e assume "e \<in> set (bk_clients (end_connection c s b))"
  then have e: "e \<in> set (bk_clients b)" "fst e \<noteq> ss_client s"
    by (auto simp: end_connection_def AList.delete_eq)
  with assms have r: "registered b e" by (simp add: broker_ok_def)
  then have "snd e \<noteq> c" using e(2) assms(2) by (auto simp: registered_def)
  with r show "registered (end_connection c s b) e" by (simp add: registered_def end_connection_def)
qed

lemma on_connect_ok:
  assumes "broker_ok b" "bk_sessions b c = None" "c \<notin> bk_closed b"
  shows "broker_ok (on_connect auto c header body b)"
proof -
  have fresh: "snd e \<noteq> c" if "e \<in> set (bk_clients b)" for e
    using assms(1,2) that by (auto simp: broker_ok_def registered_def)
  have closing: "broker_ok (close_writer c b)"
    using assms(1) fresh by (auto simp: broker_ok_def registered_def)
  have reg: "broker_ok (b2\<lparr>bk_clients := AList.delete cid (bk_clients b) @ [(cid, c)],
                 bk_sessions := (bk_sessions b)(c := Some \<lparr>ss_client = cid, ss_subs = {}\<rparr>)\<rparr>)"
    if b2: "bk_closed b2 = bk_closed b \<union> set_option (map_of (bk_clients b) cid)" for b2 cid
  proof -
    have "snd e \<notin> set_option (map_of (bk_clients b) cid)" if e: "e \<in> set (bk_clients b)" "fst e \<noteq> cid" for e
    proof
      assume "snd e \<in> set_option (map_of (bk_clients b) cid)"
      then have "(cid, snd e) \<in> set (bk_clients b)" using map_of_SomeD by fastforce
      with e assms(1) have "registered b (cid, snd e)" "registered b (fst e, snd e)" by (auto simp: broker_ok_def)
      then show False using registered_connection e(2) by metis
    qed
    moreover have "c \<notin> set_option (map_of (bk_clients b) cid)"
      using fresh map_of_SomeD by (fastforce simp: elem_set)
    ultimately show ?thesis
      using assms fresh
      by (auto simp: broker_ok_def registered_def b2 distinct_map_filter AList.delete_eq)
  qed
  then show ?thesis
    using closing by (auto simp: on_connect_def Let_def intro!: reg split: option.split sum.split)
qed

lemma handle_packet_ok:
  assumes "broker_ok b" "bk_sessions b c = Some s" "handle_packet loads c s header body b = (b', r)"
  shows "broker_ok b' \<and> (\<exists>s'. bk_sessions b' c = Some s' \<and> ss_client s' = ss_client s)"
proof -
  have "bk_clients b' = bk_clients b \<and> bk_closed b' = bk_closed b \<and>
      (bk_sessions b' = bk_sessions b \<or> (\<exists>subs. bk_sessions b' = (bk_sessions b)(c := Some (s\<lparr>ss_subs := subs\<rparr>))))"
    using assms(3)
    by (auto simp: handle_packet_def handle_publish_def handle_subscribe_def handle_unsubscribe_def set_subs_def Let_def
        split: if_splits sum.splits option.splits prod.splits)
  with assms(2) show ?thesis
    by (intro conjI broker_ok_cong [OF assms(1)]) (auto split: if_splits)
qed

lemma bk_step_ok: "bk_step loads auto b b' \<Longrightarrow> broker_ok b \<Longrightarrow> broker_ok b'"
proof (induction rule: bk_step.induct)
  case (packet b c header body)
  show ?case
  proof (cases "bk_sessions b c")
    case (Some s)
    obtain b1 r where h: "handle_packet loads c s header body b = (b1, r)" by fastforce
    from handle_packet_ok [OF packet Some h] obtain s' where
      ok: "broker_ok b1" "bk_sessions b1 c = Some s'" "ss_client s' = ss_client s" by blast
    have "end_connection c s b1 = end_connection c s' b1" by (simp add: end_connection_def ok(3))
    with end_connection_ok [OF ok(1,2)] ok(1) show ?thesis
      by (auto simp: on_packet_def Some h split: sum.split bool.split)
  qed (simp add: on_packet_def packet)
next
  case (platform topic raw qos b b')
  then show ?case by (auto simp: publish_def py_bind_Inr intro: broker_ok_cong)
qed (simp_all add: on_connect_ok end_connection_ok)

lemma init_broker_ok: "broker_ok init_broker"
  by (simp add: broker_ok_def init_broker_def)

text \<open>
  C26: in every reachable state a client id has at most one registered session, that session is the
  one of its connection, carries this client id, and its connection is open.
\<close>

theorem broker_invariant:
  assumes "(bk_step loads auto)\<^sup>*\<^sup>* init_broker b"
  shows "distinct (map fst (bk_clients b)) \<and> distinct (map snd (bk_clients b)) \<and>
    (\<forall>(cid, c) \<in> set (bk_clients b). \<exists>s. bk_sessions b c = Some s \<and> ss_client s = cid \<and> c \<notin> bk_closed b)"
proof -
  from assms have "broker_ok b"
    by (induction rule: rtranclp_induct) (auto intro: init_broker_ok bk_step_ok)
  then show ?thesis using broker_ok_connections [of b] by (auto simp: broker_ok_def registered_def)
qed

theorem broker_invariant_witness:
  "distinct (map fst (bk_clients (on_connect (\<lambda>_. [97]) 1 0x10 [0, 0, 4, 2, 0, 60, 0, 0] (init_broker :: nat broker)))) \<and>
   bk_clients (on_connect (\<lambda>_. [97]) 1 0x10 [0, 0, 4, 2, 0, 60, 0, 0] (init_broker :: nat broker)) = [([97], 1)]"
proof -
  let ?b = "on_connect (\<lambda>_. [97]) 1 0x10 [0, 0, 4, 2, 0, 60, 0, 0] (init_broker :: nat broker)"
  have "(bk_step (\<lambda>_. 0) (\<lambda>_. [97]))\<^sup>*\<^sup>* init_broker ?b"
    by (intro r_into_rtranclp bk_step.connects) (simp_all add: init_broker_def)
  moreover have "bk_clients ?b = [([97], 1)]" by code_simp
  ultimately show ?thesis using broker_invariant by blast
qed

subsection \<open>Who gets a message\<close>

text \<open>
  C27: a PUBLISH packet that parses is acknowledged to its sender when its quality of service is 1,
  written once to every other registered client with a matching subscription and to no other
  connection, and handed to the platform once; subscriptions and clients stay as they were.
\<close>

theorem publish_reaches_subscribers:
  assumes "broker_ok b" "bk_sessions b c = Some s"
    and "parse_publish flags body = Inr (topic, qos, packet_id, payload)"
    and "handle_publish loads c s flags body b = (b', Inr ())"
  shows "\<exists>pkt. build_publish_packet topic payload (min qos 1) = Inr pkt \<and>
    (\<forall>d. d \<noteq> c \<longrightarrow> bk_out b' d = bk_out b d @
       (if (\<exists>cid. (cid, d) \<in> set (bk_clients b) \<and> cid \<noteq> ss_client s) \<and> subscribed b d topic then pkt else [])) \<and>
    (\<exists>ack. bk_out b' c = bk_out b c @ ack \<and> (qos \<noteq> 1 \<longrightarrow> ack = []) \<and>
       (qos = 1 \<and> c \<notin> bk_closed b \<longrightarrow> take 2 ack = [0x40, 2] \<and> unpack_u16 (drop 2 ack) = Inr (the packet_id))) \<and>
    bk_handled b' = bk_handled b @ [(topic, loads payload, ss_client s)] \<and>
    bk_clients b' = bk_clients b \<and> bk_sessions b' = bk_sessions b"
proof -
  let ?es = "filter (\<lambda>(cid, _). cid \<noteq> ss_client s) (bk_clients b)"
  have pid: "packet_id = None \<longleftrightarrow> qos = 0"
    using assms(3) by (auto simp: parse_publish_def Let_def py_bind_Inr split: if_splits)
  let ?ack = "case packet_id of None \<Rightarrow> Inr [] | Some i \<Rightarrow> if qos = 1 then pack_u16 i else Inr []"
  obtain ack where a: "?ack = Inr ack"
    using assms(4) unfolding handle_publish_def assms(3) by (cases ?ack) auto
  obtain pkt where p: "build_publish_packet topic payload (min qos 1) = Inr pkt"
    using assms(4) unfolding handle_publish_def assms(3) by (cases "build_publish_packet topic payload (min qos 1)") (auto simp: a Let_def)
  have b': "b' = (let b1 = (if ack = [] then b else write_to c ([0x40, 2] @ ack) b); b2 = deliver pkt topic ?es b1
           in b2\<lparr>bk_handled := bk_handled b2 @ [(topic, loads payload, ss_client s)]\<rparr>)"
  proof -
    have "bk_clients (if ack = [] then b else write_to c ([0x40, 2] @ ack) b) = bk_clients b" by simp
    with assms(4) show ?thesis
      unfolding handle_publish_def assms(3) by (simp only: sum.case prod.case a p Let_def prod.inject)
  qed
  have acked: "qos \<noteq> 1 \<longrightarrow> ack = []" "qos = 1 \<longrightarrow> pack_u16 (the packet_id) = Inr ack"
    using pid a by (auto split: option.splits if_splits)
  have ack: "qos = 1 \<Longrightarrow> ack \<noteq> [] \<and> unpack_u16 ack = Inr (the packet_id)"
    using acked(2) unpack_pack by fastforce
  have dist: "distinct (map snd ?es)"
    using broker_ok_connections [OF assms(1)] by (rule distinct_map_filter)
  have own: "c \<notin> snd ` set ?es"
    using assms(1,2) by (auto simp: broker_ok_def registered_def)
  have alive: "d \<notin> bk_closed b" if "d \<in> snd ` set ?es" for d
    using assms(1) that by (auto simp: broker_ok_def registered_def)
  let ?b1 = "if ack = [] then b else write_to c ([0x40, 2] @ ack) b"
  have b1: "subscribed ?b1 d topic = subscribed b d topic" "bk_closed ?b1 = bk_closed b"
    "bk_out ?b1 d = bk_out b d @ (if d = c \<and> c \<notin> bk_closed b \<and> ack \<noteq> [] then [0x40, 2] @ ack else [])" for d
    using subscribed_cong [of "write_to c ([0x40, 2] @ ack) b" b] by (auto simp: write_to_out)
  have out: "bk_out b' d = bk_out b d @ (if d = c \<and> c \<notin> bk_closed b \<and> ack \<noteq> [] then [0x40, 2] @ ack else [])
      @ (if d \<in> snd ` set ?es \<and> subscribed b d topic then pkt else [])" for d
    unfolding b' Let_def using deliver_out [OF dist, of pkt topic ?b1 d] b1 alive [of d] by auto
  have mem: "d \<in> snd ` set ?es \<longleftrightarrow> (\<exists>cid. (cid, d) \<in> set (bk_clients b) \<and> cid \<noteq> ss_client s)" for d
    by force
  have "bk_out b' c = bk_out b c @ (if c \<notin> bk_closed b \<and> ack \<noteq> [] then [0x40, 2] @ ack else [])"
    using out [of c] own by simp
  moreover have "bk_handled b' = bk_handled b @ [(topic, loads payload, ss_client s)] \<and>
      bk_clients b' = bk_clients b \<and> bk_sessions b' = bk_sessions b"
    unfolding b' Let_def by simp
  ultimately show ?thesis
    using p acked(1) ack out unfolding mem
    by (intro exI [of _ pkt] conjI exI [of _ "if c \<notin> bk_closed b \<and> ack \<noteq> [] then [0x40, 2] @ ack else []"])
      (auto simp: out mem)
qed

text \<open>
  C39: when a client connects again under the same client id and its earlier connection then ends,
  the clean-up of the earlier one removes the new session: its connection is still open, but no
  message reaches it any more.
\<close>

theorem takeover_loses_session:
  assumes "broker_ok b" "(cid, old) \<in> set (bk_clients b)" "bk_sessions b old = Some s"
    and "bk_sessions b new = None" "new \<notin> bk_closed b"
    and "packet_type header = 1" "parse_connect body = Inr cid" "cid \<noteq> []"
    and "b1 = on_connect auto new header body b" "b2 = end_connection old s b1"
  shows "(cid, new) \<in> set (bk_clients b1) \<and> new \<notin> bk_closed b2 \<and> bk_sessions b2 new \<noteq> None \<and>
    cid \<notin> fst ` set (bk_clients b2) \<and>
    (\<forall>topic raw qos b3. publish topic raw qos b2 = Inr b3 \<longrightarrow> bk_out b3 new = bk_out b2 new)"
proof -
  have cid: "ss_client s = cid" and no: "old \<noteq> new"
    using assms(1-4) by (auto simp: broker_ok_def registered_def)
  have "map_of (bk_clients b) cid = Some old"
    using assms(1,2) by (simp add: broker_ok_def)
  then have b1: "bk_clients b1 = AList.delete cid (bk_clients b) @ [(cid, new)]"
    "bk_sessions b1 = (bk_sessions b)(new := Some \<lparr>ss_client = cid, ss_subs = {}\<rparr>)" "bk_closed b1 = insert old (bk_closed b)"
    unfolding assms(9) by (simp_all add: on_connect_def assms(6-8) Let_def)
  have ok1: "broker_ok b1" unfolding assms(9) by (rule on_connect_ok [OF assms(1,4,5)])
  have "bk_sessions b1 old = Some s" using no assms(3) by (simp add: b1)
  then have ok2: "broker_ok b2" unfolding assms(10) by (rule end_connection_ok [OF ok1])
  have gone: "cid \<notin> fst ` set (bk_clients b2)"
    unfolding assms(10) end_connection_def cid by (auto simp: AList.delete_eq)
  have b2: "bk_sessions b2 new = Some \<lparr>ss_client = cid, ss_subs = {}\<rparr>" "new \<notin> bk_closed b2"
    using no assms(5) by (simp_all add: assms(10) end_connection_def b1)
  have "new \<notin> snd ` set (bk_clients b2)"
  proof
    assume "new \<in> snd ` set (bk_clients b2)"
    then obtain i where i: "(i, new) \<in> set (bk_clients b2)" by auto
    with ok2 have "registered b2 (i, new)" by (simp add: broker_ok_def)
    with b2(1) have "i = cid" by (simp add: registered_def)
    with i gone show False by force
  qed
  then have "\<forall>topic raw qos b3. publish topic raw qos b2 = Inr b3 \<longrightarrow> bk_out b3 new = bk_out b2 new"
    using broker_ok_connections [OF ok2] by (auto simp: publish_def py_bind_Inr deliver_out)
  with gone b2 b1(1) show ?thesis by simp
qed

subsection \<open>Two clients\<close>

definition sample_broker :: "nat broker" where
  "sample_broker = \<lparr>bk_clients = [([97], 1), ([98], 2)],
     bk_sessions = (\<lambda>_. None)(1 := Some \<lparr>ss_client = [97], ss_subs = {}\<rparr>, 2 := Some \<lparr>ss_client = [98], ss_subs = {[120]}\<rparr>),
     bk_closed = {}, bk_out = (\<lambda>_. []), bk_handled = []\<rparr>"

lemma sample_broker_ok: "broker_ok sample_broker"
  by (simp add: broker_ok_def registered_def sample_broker_def)

theorem publish_reaches_subscribers_witness:
  "\<exists>pkt. build_publish_packet [120] [55] 0 = Inr pkt \<and>
     bk_out (fst (handle_publish length 1 \<lparr>ss_client = [97], ss_subs = {}\<rparr> 0 [0, 1, 120, 55] sample_broker)) 2 = pkt"
proof -
  let ?r = "handle_publish length 1 \<lparr>ss_client = [97], ss_subs = {}\<rparr> 0 [0, 1, 120, 55] sample_broker"
  have p: "parse_publish 0 [0, 1, 120, 55] = Inr ([120], 0, None, [55])" by code_simp
  have "\<not> isl (build_publish_packet [120] [55] 0)"
    by (simp add: build_publish_packet_def encode_utf8_string_def utf8_encode_def scalar_value_def utf8_char_def
        pack_u16_def)
  then have "snd ?r = Inr ()" by (auto simp: handle_publish_def p split: sum.split)
  then have r: "?r = (fst ?r, Inr ())" by (metis prod.collapse)
  have s: "bk_sessions sample_broker 1 = Some \<lparr>ss_client = [97], ss_subs = {}\<rparr>"
    "\<exists>cid. (cid, 2) \<in> set (bk_clients sample_broker) \<and> cid \<noteq> [97]" "bk_out sample_broker 2 = []"
    by (simp_all add: sample_broker_def)
  have "subscribed sample_broker 2 [120]" by code_simp
  moreover obtain pkt where "build_publish_packet [120] [55] (min 0 1) = Inr pkt"
    "\<And>d. d \<noteq> 1 \<Longrightarrow> bk_out (fst ?r) d = bk_out sample_broker d @
       (if (\<exists>cid. (cid, d) \<in> set (bk_clients sample_broker) \<and> cid \<noteq> [97]) \<and> subscribed sample_broker d [120] then pkt else [])"
    using publish_reaches_subscribers [OF sample_broker_ok s(1) p r] by (simp only: session.select_convs) blast
  ultimately show ?thesis using s(2,3) by simp
qed

theorem takeover_loses_session_witness:
  "let b1 = on_connect (\<lambda>_. []) 3 0x10 [0, 0, 4, 2, 0, 60, 0, 1, 97] sample_broker;
       b2 = end_connection 1 \<lparr>ss_client = [97], ss_subs = {}\<rparr> b1
   in ([97], 3) \<in> set (bk_clients b1) \<and> [97] \<notin> fst ` set (bk_clients b2) \<and> 3 \<notin> bk_closed b2"
proof -
  have "packet_type 0x10 = 1" "parse_connect [0, 0, 4, 2, 0, 60, 0, 1, 97] = Inr [97]" by code_simp+
  moreover have "([97], 1) \<in> set (bk_clients sample_broker)" "bk_sessions sample_broker 3 = None"
    "bk_sessions sample_broker 1 = Some \<lparr>ss_client = [97], ss_subs = {}\<rparr>" "3 \<notin> bk_closed sample_broker"
    by (simp_all add: sample_broker_def)
  ultimately show ?thesis
    using takeover_loses_session [OF sample_broker_ok, where cid = "[97]" and old = 1 and new = 3 and header = "0x10"
        and s = "\<lparr>ss_client = [97], ss_subs = {}\<rparr>" and body = "[0, 0, 4, 2, 0, 60, 0, 1, 97]"] by (simp add: Let_def)
qed

end
