(* ===== verification/Storage.thy ===== *)
theory Storage
  imports Prelude
begin

text \<open>
  The database of the market server (\<open>storage/*.py\<close> under \<open>src/native/XenblocksMiner-main/server\<close>):
  one list of rows per table, in the order of insertion, and one definition per method of the
  repositories.  Primary keys, UNIQUE and CHECK constraints, foreign keys and the partial unique
  index on active leases are guards that give \<open>IntegrityError\<close>; REAL arithmetic is \<open>fl\<close>.  The
  clock is the argument \<open>now\<close>.  Rows are never deleted from these tables, so an AUTOINCREMENT id
  is the position of its row.

  All repositories share one connection, in the default mode of \<open>sqlite3\<close>: a statement that
  writes opens a transaction, and \<open>commit\<close> closes it.  \<open>rollback_to\<close> holds the tables as last
  committed while a transaction is open; a statement that fails leaves it open.
\<close>

subsection \<open>Tables\<close>

record account =
  acc_id :: string
  acc_role :: string
  acc_eth_address :: string
  acc_balance :: pyfloat
  acc_api_key :: string
  acc_created_at :: pyfloat
  acc_updated_at :: pyfloat

text \<open>A GPU as the worker reports it; a memory size may be a number or a text.\<close>

datatype mem_val = MemNum pyfloat | MemText string

record gpu =
  g_name :: "string option"
  g_memory_gb :: "mem_val option"
  g_total_memory :: "mem_val option"

record worker =
  w_id :: string
  w_eth_address :: string
  w_gpu_count :: int
  w_total_memory_gb :: int
  w_gpus :: "gpu list"
  w_version :: string
  w_state :: string
  w_hashrate :: pyfloat
  w_active_gpus :: int
  w_last_heartbeat :: pyfloat
  w_registered_at :: pyfloat
  w_price_per_min :: pyfloat
  w_min_duration_sec :: int
  w_max_duration_sec :: int
  w_total_online_sec :: pyfloat
  w_last_online_at :: "pyfloat option"
  w_self_blocks_found :: int

datatype lease_state = Active | Completed | Cancelled

record lease =
  l_id :: string
  l_worker :: string
  l_consumer :: string
  l_consumer_address :: string
  l_prefix :: string
  l_duration_sec :: int
  l_price_per_sec :: pyfloat
  l_state :: lease_state
  l_created_at :: pyfloat
  l_ended_at :: "pyfloat option"
  l_blocks_found :: int
  l_total_hashrate_samples :: pyfloat
  l_hashrate_count :: int

record block =
  b_lease :: string
  b_worker :: string
  b_hash :: string
  b_key :: string
  b_account :: string
  b_attempts :: int
  b_hashrate :: string
  b_prefix_valid :: bool
  b_chain_verified :: bool
  b_chain_block_id :: "nat option"
  b_created_at :: pyfloat

record settlement =
  st_lease :: string
  st_consumer :: string
  st_worker :: string
  st_duration_sec :: pyfloat
  st_blocks_found :: int
  st_total_cost :: pyfloat
  st_provider_payout :: pyfloat
  st_platform_fee :: pyfloat
  st_settled_at :: pyfloat

datatype tx_type = TxDeposit | TxWithdraw | TxLeaseCharge | TxProviderPayout | TxPlatformFee
  | TxTransferIn | TxTransferOut

record transaction =
  t_account :: string
  t_type :: tx_type
  t_amount :: pyfloat
  t_reference :: string
  t_created_at :: pyfloat

record market_tables =
  accounts :: "account list"
  workers :: "worker list"
  leases :: "lease list"
  blocks :: "block list"
  settlements :: "settlement list"
  transactions :: "transaction list"

record market_db = market_tables +
  rollback_to :: "market_tables option"

definition empty_db :: market_db where
  "empty_db = \<lparr>accounts = [], workers = [], leases = [], blocks = [], settlements = [],
     transactions = [], rollback_to = None\<rparr>"

definition begin_stmt :: "market_db \<Rightarrow> market_db" where
  "begin_stmt db = (case rollback_to db of
     None \<Rightarrow> db\<lparr>rollback_to := Some (market_tables.truncate db)\<rparr> | Some _ \<Rightarrow> db)"

definition commit :: "market_db \<Rightarrow> market_db" where
  "commit db = db\<lparr>rollback_to := None\<rparr>"

definition rollback :: "market_db \<Rightarrow> market_db" where
  "rollback db = (case rollback_to db of
     None \<Rightarrow> db | Some t \<Rightarrow> market_tables.extend t (market_db.fields None))"

text \<open>Sequencing of methods that may raise.\<close>

definition and_then :: "'s \<times> 'a py \<Rightarrow> ('a \<Rightarrow> 's \<Rightarrow> 's \<times> 'b py) \<Rightarrow> 's \<times> 'b py" where
  "and_then p f = (case p of (s, Inl e) \<Rightarrow> (s, Inl e) | (s, Inr x) \<Rightarrow> f x s)"

lemma and_then_simps [simp]:
  "and_then (s, Inl e) f = (s, Inl e)"
  "and_then (s, Inr x) f = f x s"
  by (simp_all add: and_then_def)

text \<open>\<open>LIMIT ? OFFSET ?\<close>; a negative limit is no limit.\<close>

definition paginate :: "int \<Rightarrow> int \<Rightarrow> 'a list \<Rightarrow> 'a list" where
  "paginate limit offset xs =
     (let ys = drop (nat offset) xs in if limit < 0 then ys else take (nat limit) ys)"

definition newest_first :: "('a \<Rightarrow> pyfloat) \<Rightarrow> 'a list \<Rightarrow> 'a list" where
  "newest_first created xs = sort_key (\<lambda>x. - created x) xs"

subsection \<open>Transactions\<close>

definition account_get :: "string \<Rightarrow> 'z market_tables_scheme \<Rightarrow> account option" where
  "account_get i db = find (\<lambda>a. acc_id a = i) (accounts db)"

text \<open>One INSERT into the audit log, with its foreign key.\<close>

definition tx_insert :: "pyfloat \<Rightarrow> string \<Rightarrow> tx_type \<Rightarrow> pyfloat \<Rightarrow> string \<Rightarrow> market_db
    \<Rightarrow> market_db \<times> unit py" where
  "tx_insert now account type amount ref db =
     (if account_get account db = None then (begin_stmt db, Inl IntegrityError)
      else ((begin_stmt db)\<lparr>transactions := transactions db @ [\<lparr>t_account = account, t_type = type,
              t_amount = amount, t_reference = ref, t_created_at = now\<rparr>]\<rparr>, Inr ()))"

definition tx_record :: "pyfloat \<Rightarrow> string \<Rightarrow> tx_type \<Rightarrow> pyfloat \<Rightarrow> string \<Rightarrow> market_db
    \<Rightarrow> market_db \<times> unit py" where
  "tx_record now account type amount ref db =
     and_then (tx_insert now account type amount ref db) (\<lambda>_ db. (commit db, Inr ()))"

definition tx_list_for_account :: "string \<Rightarrow> 'z market_tables_scheme \<Rightarrow> transaction list" where
  "tx_list_for_account account db =
     newest_first t_created_at (filter (\<lambda>t. t_account t = account) (transactions db))"

definition tx_list_all :: "'z market_tables_scheme \<Rightarrow> transaction list" where
  "tx_list_all db = newest_first t_created_at (transactions db)"

subsection \<open>Accounts\<close>

text \<open>\<open>INSERT OR IGNORE\<close>: a known id or an unknown role inserts nothing.\<close>

definition account_create :: "pyfloat \<Rightarrow> string \<Rightarrow> string \<Rightarrow> pyfloat \<Rightarrow> string \<Rightarrow> market_db
    \<Rightarrow> market_db \<times> account option" where
  "account_create now i role balance eth_address db =
     (let db' = commit (if account_get i db \<noteq> None \<or> role \<notin> {''provider'', ''consumer''} then db
                 else db\<lparr>accounts := accounts db @ [\<lparr>acc_id = i, acc_role = role,
                        acc_eth_address = eth_address, acc_balance = balance, acc_api_key = [],
                        acc_created_at = now, acc_updated_at = now\<rparr>]\<rparr>)
      in (db', account_get i db'))"

definition account_get_by_api_key :: "string \<Rightarrow> 'z market_tables_scheme \<Rightarrow> account option" where
  "account_get_by_api_key key db =
     (if key = [] then None else find (\<lambda>a. acc_api_key a = key \<and> acc_api_key a \<noteq> []) (accounts db))"

definition account_get_by_eth_address :: "string \<Rightarrow> 'z market_tables_scheme \<Rightarrow> account option" where
  "account_get_by_eth_address address db =
     (if address = [] then None
      else find (\<lambda>a. py_lower (acc_eth_address a) = py_lower address) (accounts db))"

definition set_api_key :: "pyfloat \<Rightarrow> string \<Rightarrow> string \<Rightarrow> market_db \<Rightarrow> market_db" where
  "set_api_key now i key db = commit (db\<lparr>accounts := update_rows (\<lambda>a. acc_id a = i)
     (\<lambda>a. a\<lparr>acc_api_key := key, acc_updated_at := now\<rparr>) (accounts db)\<rparr>)"

definition get_or_create_provider :: "pyfloat \<Rightarrow> string \<Rightarrow> string \<Rightarrow> market_db \<Rightarrow> market_db \<times> account option" where
  "get_or_create_provider now worker_id eth_address db =
     (case account_get worker_id db of
        None \<Rightarrow> account_create now worker_id ''provider'' 0 eth_address db
      | Some a \<Rightarrow> (db, Some a))"

definition update_balance :: "pyfloat \<Rightarrow> string \<Rightarrow> pyfloat \<Rightarrow> market_db \<Rightarrow> market_db" where
  "update_balance now i new_balance db = commit (db\<lparr>accounts := update_rows (\<lambda>a. acc_id a = i)
     (\<lambda>a. a\<lparr>acc_balance := new_balance, acc_updated_at := now\<rparr>) (accounts db)\<rparr>)"

text \<open>\<open>UPDATE accounts SET balance = balance + ?\<close>, inside a transaction.\<close>

definition add_balance :: "pyfloat \<Rightarrow> string \<Rightarrow> pyfloat \<Rightarrow> market_db \<Rightarrow> market_db" where
  "add_balance now i amount db = (begin_stmt db)\<lparr>accounts := update_rows (\<lambda>a. acc_id a = i)
     (\<lambda>a. a\<lparr>acc_balance := fl (acc_balance a + amount), acc_updated_at := now\<rparr>) (accounts db)\<rparr>"

definition deposit :: "pyfloat \<Rightarrow> string \<Rightarrow> pyfloat \<Rightarrow> market_db \<Rightarrow> market_db \<times> account py" where
  "deposit now i amount db =
     (if amount \<le> 0 then (db, Inl ValueError)
      else case account_get i db of
        None \<Rightarrow> (db, Inl KeyError)
      | Some a \<Rightarrow>
          (let new_balance = fl (acc_balance a + amount)
           in and_then (tx_record now i TxDeposit amount [] (update_balance now i new_balance db))
                (\<lambda>_ db. (db, Inr (a\<lparr>acc_balance := new_balance\<rparr>)))))"

definition withdraw :: "pyfloat \<Rightarrow> string \<Rightarrow> pyfloat \<Rightarrow> market_db \<Rightarrow> market_db \<times> account py" where
  "withdraw now i amount db =
     (if amount \<le> 0 then (db, Inl ValueError)
      else case account_get i db of
        None \<Rightarrow> (db, Inl KeyError)
      | Some a \<Rightarrow>
          if acc_balance a < amount then (db, Inl ValueError)
          else
            (let new_balance = fl (acc_balance a - amount)
             in and_then (tx_record now i TxWithdraw amount [] (update_balance now i new_balance db))
                  (\<lambda>_ db. (db, Inr (a\<lparr>acc_balance := new_balance\<rparr>)))))"

text \<open>A failing statement of a transfer leaves the earlier ones in the open transaction of the
  shared connection, where the next commit of any method makes them permanent.\<close>

definition transfer :: "pyfloat \<Rightarrow> string \<Rightarrow> string \<Rightarrow> pyfloat \<Rightarrow> string \<Rightarrow> market_db
    \<Rightarrow> market_db \<times> unit py" where
  "transfer now from_id to_id amount ref db =
     (if amount \<le> 0 then (db, Inl ValueError)
      else if \<not> list_ex (\<lambda>a. acc_id a = from_id \<and> acc_balance a \<ge> amount) (accounts db)
      then (begin_stmt db, Inl ValueError)
      else
        (let db1 = (begin_stmt db)\<lparr>accounts :=
               update_rows (\<lambda>a. acc_id a = from_id \<and> acc_balance a \<ge> amount)
                 (\<lambda>a. a\<lparr>acc_balance := fl (acc_balance a - amount), acc_updated_at := now\<rparr>) (accounts db)\<rparr>;
             db2 = add_balance now to_id amount db1
         in and_then (tx_insert now from_id TxTransferOut amount ref db2)
              (\<lambda>_ db. tx_record now to_id TxTransferIn amount ref db)))"

subsection \<open>Workers\<close>

definition worker_get :: "string \<Rightarrow> 'z market_tables_scheme \<Rightarrow> worker option" where
  "worker_get i db = find (\<lambda>w. w_id w = i) (workers db)"

definition worker_upsert :: "pyfloat \<Rightarrow> string \<Rightarrow> string \<Rightarrow> int \<Rightarrow> int \<Rightarrow> gpu list \<Rightarrow> string \<Rightarrow> string
    \<Rightarrow> market_db \<Rightarrow> market_db" where
  "worker_upsert now i eth gpu_count memory gpus version state db =
     commit (if worker_get i db = None
      then db\<lparr>workers := workers db @ [\<lparr>w_id = i, w_eth_address = eth, w_gpu_count = gpu_count,
             w_total_memory_gb = memory, w_gpus = gpus, w_version = version, w_state = state,
             w_hashrate = 0, w_active_gpus = 0, w_last_heartbeat = now, w_registered_at = now,
             w_price_per_min = fl (60 / 100), w_min_duration_sec = 60, w_max_duration_sec = 86400,
             w_total_online_sec = 0, w_last_online_at = Some now, w_self_blocks_found = 0\<rparr>]\<rparr>
      else db\<lparr>workers := update_rows (\<lambda>w. w_id w = i)
             (\<lambda>w. w\<lparr>w_eth_address := eth, w_gpu_count := gpu_count, w_total_memory_gb := memory,
                  w_gpus := gpus, w_version := version, w_state := state, w_last_heartbeat := now,
                  w_last_online_at := Some now\<rparr>) (workers db)\<rparr>)"

definition online_delta :: "pyfloat \<Rightarrow> string \<Rightarrow> 'z market_tables_scheme \<Rightarrow> pyfloat" where
  "online_delta now i db =
     (case worker_get i db of
        None \<Rightarrow> 0
      | Some w \<Rightarrow> (case w_last_online_at w of
           None \<Rightarrow> 0
         | Some t \<Rightarrow> (let d = min (fl (now - t)) 60 in if d < 0 then 0 else d)))"

definition worker_heartbeat :: "pyfloat \<Rightarrow> string \<Rightarrow> pyfloat \<Rightarrow> int \<Rightarrow> market_db \<Rightarrow> market_db" where
  "worker_heartbeat now i hashrate active_gpus db =
     (let delta = online_delta now i db
      in commit (db\<lparr>workers := update_rows (\<lambda>w. w_id w = i)
           (\<lambda>w. w\<lparr>w_hashrate := hashrate, w_active_gpus := active_gpus, w_last_heartbeat := now,
                w_total_online_sec := fl (w_total_online_sec w + delta), w_last_online_at := Some now\<rparr>)
           (workers db)\<rparr>))"

definition worker_set_state :: "string \<Rightarrow> string \<Rightarrow> market_db \<Rightarrow> market_db" where
  "worker_set_state i state db = commit (db\<lparr>workers :=
     update_rows (\<lambda>w. w_id w = i) (\<lambda>w. w\<lparr>w_state := state\<rparr>) (workers db)\<rparr>)"

definition worker_update_pricing :: "string \<Rightarrow> pyfloat \<Rightarrow> int \<Rightarrow> int \<Rightarrow> market_db \<Rightarrow> market_db" where
  "worker_update_pricing i price min_duration max_duration db = commit (db\<lparr>workers :=
     update_rows (\<lambda>w. w_id w = i) (\<lambda>w. w\<lparr>w_price_per_min := price,
          w_min_duration_sec := min_duration, w_max_duration_sec := max_duration\<rparr>) (workers db)\<rparr>)"

definition worker_increment_self_blocks :: "string \<Rightarrow> market_db \<Rightarrow> market_db" where
  "worker_increment_self_blocks i db = commit (db\<lparr>workers :=
     update_rows (\<lambda>w. w_id w = i)
       (\<lambda>w. w\<lparr>w_self_blocks_found := w_self_blocks_found w + 1\<rparr>) (workers db)\<rparr>)"

definition worker_find_available :: "string list \<Rightarrow> 'z market_tables_scheme \<Rightarrow> worker option" where
  "worker_find_available exclude db =
     find (\<lambda>w. w_id w \<notin> set exclude)
       (sort_key w_registered_at (filter (\<lambda>w. w_state w = ''AVAILABLE'') (workers db)))"

subsection \<open>Leases\<close>

text \<open>A lease as \<open>LeaseRepo.get\<close> returns it, with the seconds elapsed and the mean hash rate; an
  \<open>ended_at\<close> of 0 is falsy and counts as not ended.\<close>

record lease_view = lease +
  v_avg_hashrate :: pyfloat
  v_elapsed_sec :: pyfloat

definition state_text :: "lease_state \<Rightarrow> string" where
  "state_text st = (case st of Active \<Rightarrow> ''active'' | Completed \<Rightarrow> ''completed'' | Cancelled \<Rightarrow> ''cancelled'')"

definition lease_elapsed :: "pyfloat \<Rightarrow> lease \<Rightarrow> pyfloat" where
  "lease_elapsed now l =
     fl ((case l_ended_at l of None \<Rightarrow> now | Some t \<Rightarrow> if t = 0 then now else t) - l_created_at l)"

definition lease_avg_hashrate :: "lease \<Rightarrow> pyfloat" where
  "lease_avg_hashrate l =
     (if l_hashrate_count l > 0 then fl (l_total_hashrate_samples l / fint (l_hashrate_count l)) else 0)"

definition view_lease :: "pyfloat \<Rightarrow> lease \<Rightarrow> lease_view" where
  "view_lease now l = lease.extend l (lease_view.fields (lease_avg_hashrate l) (lease_elapsed now l))"

definition lease_find :: "string \<Rightarrow> 'z market_tables_scheme \<Rightarrow> lease option" where
  "lease_find i db = find (\<lambda>l. l_id l = i) (leases db)"

definition lease_get :: "pyfloat \<Rightarrow> string \<Rightarrow> 'z market_tables_scheme \<Rightarrow> lease_view option" where
  "lease_get now i db = map_option (view_lease now) (lease_find i db)"

definition active_lease :: "string \<Rightarrow> 'z market_tables_scheme \<Rightarrow> lease option" where
  "active_lease worker db = find (\<lambda>l. l_worker l = worker \<and> l_state l = Active) (leases db)"

definition get_active_lease_for_worker :: "pyfloat \<Rightarrow> string \<Rightarrow> 'z market_tables_scheme \<Rightarrow> lease_view option" where
  "get_active_lease_for_worker now worker db =
     (case active_lease worker db of None \<Rightarrow> None | Some l \<Rightarrow> lease_get now (l_id l) db)"

definition lease_create :: "pyfloat \<Rightarrow> string \<Rightarrow> string \<Rightarrow> string \<Rightarrow> string \<Rightarrow> string \<Rightarrow> int \<Rightarrow> pyfloat
    \<Rightarrow> market_db \<Rightarrow> market_db \<times> lease_view option py" where
  "lease_create now i worker consumer address prefix duration price db =
     (if lease_find i db \<noteq> None \<or> active_lease worker db \<noteq> None
         \<or> worker_get worker db = None \<or> account_get consumer db = None
      then (begin_stmt db, Inl IntegrityError)
      else
        (let db' = commit (db\<lparr>leases := leases db @ [\<lparr>l_id = i, l_worker = worker,
               l_consumer = consumer, l_consumer_address = address, l_prefix = prefix,
               l_duration_sec = duration, l_price_per_sec = price, l_state = Active,
               l_created_at = now, l_ended_at = None, l_blocks_found = 0,
               l_total_hashrate_samples = 0, l_hashrate_count = 0\<rparr>]\<rparr>)
         in (db', Inr (lease_get now i db'))))"

text \<open>Making a lease active again can violate the unique index.\<close>

definition lease_update_state :: "string \<Rightarrow> lease_state \<Rightarrow> pyfloat option \<Rightarrow> market_db
    \<Rightarrow> market_db \<times> unit py" where
  "lease_update_state i st ended db =
     (if st = Active \<and> list_ex (\<lambda>l. l_id l = i \<and>
           list_ex (\<lambda>k. l_worker k = l_worker l \<and> l_id k \<noteq> i \<and> l_state k = Active) (leases db)) (leases db)
      then (begin_stmt db, Inl IntegrityError)
      else (commit (db\<lparr>leases := update_rows (\<lambda>l. l_id l = i)
              (\<lambda>l. l\<lparr>l_state := st,
                   l_ended_at := (case ended of None \<Rightarrow> l_ended_at l | Some t \<Rightarrow> Some t)\<rparr>) (leases db)\<rparr>),
            Inr ()))"

definition lease_increment_blocks :: "string \<Rightarrow> market_db \<Rightarrow> market_db" where
  "lease_increment_blocks i db = commit (db\<lparr>leases := update_rows (\<lambda>l. l_id l = i)
     (\<lambda>l. l\<lparr>l_blocks_found := l_blocks_found l + 1\<rparr>) (leases db)\<rparr>)"

definition update_hashrate_stats :: "string \<Rightarrow> pyfloat \<Rightarrow> market_db \<Rightarrow> market_db" where
  "update_hashrate_stats i hashrate db = commit (db\<lparr>leases := update_rows (\<lambda>l. l_id l = i)
     (\<lambda>l. l\<lparr>l_total_hashrate_samples := fl (l_total_hashrate_samples l + hashrate),
          l_hashrate_count := l_hashrate_count l + 1\<rparr>) (leases db)\<rparr>)"

definition lease_expired :: "pyfloat \<Rightarrow> lease \<Rightarrow> bool" where
  "lease_expired now l \<longleftrightarrow> l_state l = Active \<and> fl (l_created_at l + fint (l_duration_sec l)) < now"

definition find_expired :: "pyfloat \<Rightarrow> 'z market_tables_scheme \<Rightarrow> lease_view list" where
  "find_expired now db =
     List.map_filter (\<lambda>l. lease_get now (l_id l) db) (filter (lease_expired now) (leases db))"

definition state_is :: "string option \<Rightarrow> lease \<Rightarrow> bool" where
  "state_is state l = (case state of None \<Rightarrow> True | Some s \<Rightarrow> s = [] \<or> state_text (l_state l) = s)"

definition lease_list_all :: "pyfloat \<Rightarrow> string option \<Rightarrow> int option \<Rightarrow> int \<Rightarrow> 'z market_tables_scheme
    \<Rightarrow> lease_view list" where
  "lease_list_all now state limit offset db =
     (let rows = newest_first l_created_at (filter (state_is state) (leases db))
      in map (view_lease now) (case limit of None \<Rightarrow> rows | Some n \<Rightarrow> paginate n offset rows))"

definition lease_count :: "string option \<Rightarrow> 'z market_tables_scheme \<Rightarrow> nat" where
  "lease_count state db = length (filter (state_is state) (leases db))"

text \<open>The dictionaries of \<open>list_for_consumer\<close> lack the key \<open>price_per_sec\<close>, which a reader may ask
  for with a default.\<close>

record consumer_lease =
  cl_id :: string
  cl_worker :: string
  cl_consumer :: string
  cl_address :: string
  cl_prefix :: string
  cl_duration_sec :: int
  cl_price_per_sec :: "pyfloat option"
  cl_state :: lease_state
  cl_created_at :: pyfloat
  cl_ended_at :: "pyfloat option"
  cl_blocks_found :: int
  cl_avg_hashrate :: pyfloat
  cl_elapsed_sec :: pyfloat

definition consumer_view :: "pyfloat \<Rightarrow> lease \<Rightarrow> consumer_lease" where
  "consumer_view now l = \<lparr>cl_id = l_id l, cl_worker = l_worker l, cl_consumer = l_consumer l,
     cl_address = l_consumer_address l, cl_prefix = l_prefix l, cl_duration_sec = l_duration_sec l,
     cl_price_per_sec = None, cl_state = l_state l, cl_created_at = l_created_at l, cl_ended_at = l_ended_at l,
     cl_blocks_found = l_blocks_found l, cl_avg_hashrate = lease_avg_hashrate l,
     cl_elapsed_sec = lease_elapsed now l\<rparr>"

definition list_for_consumer :: "pyfloat \<Rightarrow> string \<Rightarrow> string option \<Rightarrow> int \<Rightarrow> int
    \<Rightarrow> 'z market_tables_scheme \<Rightarrow> consumer_lease list" where
  "list_for_consumer now consumer state limit offset db =
     map (consumer_view now) (paginate limit offset
       (newest_first l_created_at (filter (\<lambda>l. l_consumer l = consumer \<and> state_is state l) (leases db))))"

definition count_for_consumer :: "string \<Rightarrow> string option \<Rightarrow> 'z market_tables_scheme \<Rightarrow> nat" where
  "count_for_consumer consumer state db =
     length (filter (\<lambda>l. l_consumer l = consumer \<and> state_is state l) (leases db))"

subsection \<open>Blocks\<close>

definition block_create :: "pyfloat \<Rightarrow> string \<Rightarrow> string \<Rightarrow> string \<Rightarrow> string \<Rightarrow> string \<Rightarrow> int \<Rightarrow> string
    \<Rightarrow> bool \<Rightarrow> bool \<Rightarrow> nat option \<Rightarrow> market_db \<Rightarrow> market_db" where
  "block_create now lease worker block_hash key account attempts hashrate prefix_valid verified chain_id db =
     commit (db\<lparr>blocks := blocks db @ [\<lparr>b_lease = lease, b_worker = worker, b_hash = block_hash,
       b_key = key, b_account = account, b_attempts = attempts, b_hashrate = hashrate,
       b_prefix_valid = prefix_valid, b_chain_verified = verified, b_chain_block_id = chain_id,
       b_created_at = now\<rparr>]\<rparr>)"

definition blocks_for_lease :: "string \<Rightarrow> 'z market_tables_scheme \<Rightarrow> block list" where
  "blocks_for_lease i db = sort_key b_created_at (filter (\<lambda>b. b_lease b = i) (blocks db))"

definition blocks_get_all :: "int option \<Rightarrow> int \<Rightarrow> 'z market_tables_scheme \<Rightarrow> block list" where
  "blocks_get_all limit offset db =
     (let rows = newest_first b_created_at (blocks db)
      in case limit of None \<Rightarrow> rows | Some n \<Rightarrow> paginate n offset rows)"

definition self_mined :: "string option \<Rightarrow> block \<Rightarrow> bool" where
  "self_mined worker b \<longleftrightarrow> b_lease b = [] \<and>
     (case worker of None \<Rightarrow> True | Some w \<Rightarrow> w = [] \<or> b_worker b = w)"

definition blocks_get_self_mined :: "string option \<Rightarrow> int option \<Rightarrow> int \<Rightarrow> 'z market_tables_scheme
    \<Rightarrow> block list" where
  "blocks_get_self_mined worker limit offset db =
     (let rows = newest_first b_created_at (filter (self_mined worker) (blocks db))
      in case limit of None \<Rightarrow> rows | Some n \<Rightarrow> paginate n offset rows)"

definition blocks_count :: "string option \<Rightarrow> 'z market_tables_scheme \<Rightarrow> nat" where
  "blocks_count lease db = length (filter (\<lambda>b. case lease of None \<Rightarrow> True
     | Some i \<Rightarrow> i = [] \<or> b_lease b = i) (blocks db))"

definition count_self_mined :: "string option \<Rightarrow> 'z market_tables_scheme \<Rightarrow> nat" where
  "count_self_mined worker db = length (filter (self_mined worker) (blocks db))"

definition blocks_count_since :: "pyfloat \<Rightarrow> 'z market_tables_scheme \<Rightarrow> nat" where
  "blocks_count_since since db = length (filter (\<lambda>b. b_created_at b \<ge> since) (blocks db))"

subsection \<open>Settlements\<close>

record settlement_view =
  sv_lease :: string
  sv_consumer :: string
  sv_worker :: string
  sv_duration_sec :: pyfloat
  sv_blocks_found :: int
  sv_total_cost :: pyfloat
  sv_provider_payment :: pyfloat
  sv_platform_fee :: pyfloat

definition view_settlement :: "settlement \<Rightarrow> settlement_view" where
  "view_settlement s = \<lparr>sv_lease = st_lease s, sv_consumer = st_consumer s, sv_worker = st_worker s,
     sv_duration_sec = py_round_n 2 (st_duration_sec s), sv_blocks_found = st_blocks_found s,
     sv_total_cost = py_round_n 4 (st_total_cost s),
     sv_provider_payment = py_round_n 4 (st_provider_payout s),
     sv_platform_fee = py_round_n 4 (st_platform_fee s)\<rparr>"

definition settlement_find :: "string \<Rightarrow> 'z market_tables_scheme \<Rightarrow> settlement option" where
  "settlement_find i db = find (\<lambda>s. st_lease s = i) (settlements db)"

definition settlement_create :: "pyfloat \<Rightarrow> string \<Rightarrow> string \<Rightarrow> string \<Rightarrow> pyfloat \<Rightarrow> int \<Rightarrow> pyfloat
    \<Rightarrow> pyfloat \<Rightarrow> pyfloat \<Rightarrow> market_db \<Rightarrow> market_db \<times> settlement_view py" where
  "settlement_create now i consumer worker duration blocks_found cost payout fee db =
     (if settlement_find i db \<noteq> None \<or> lease_find i db = None
      then (begin_stmt db, Inl IntegrityError)
      else
        (let s = \<lparr>st_lease = i, st_consumer = consumer, st_worker = worker, st_duration_sec = duration,
                  st_blocks_found = blocks_found, st_total_cost = cost, st_provider_payout = payout,
                  st_platform_fee = fee, st_settled_at = now\<rparr>
         in (commit (db\<lparr>settlements := settlements db @ [s]\<rparr>), Inr (view_settlement s))))"

definition settlement_get :: "string \<Rightarrow> 'z market_tables_scheme \<Rightarrow> settlement_view option" where
  "settlement_get i db = map_option view_settlement (settlement_find i db)"

definition settlement_list_all :: "int option \<Rightarrow> int \<Rightarrow> 'z market_tables_scheme \<Rightarrow> settlement_view list" where
  "settlement_list_all limit offset db =
     (let rows = newest_first st_settled_at (settlements db)
      in map view_settlement (case limit of None \<Rightarrow> rows | Some n \<Rightarrow> paginate n offset rows))"

definition settlement_count :: "'z market_tables_scheme \<Rightarrow> nat" where
  "settlement_count db = length (settlements db)"

end
