(* ===== verification/Market.thy ===== *)
theory Market
  imports Storage
begin

text \<open>
  The services on top of the tables: \<open>account.py\<close>, \<open>matcher.py\<close> and \<open>settlement.py\<close>.  A service
  method is one definition over \<open>platform\<close>, which adds to the database the settings workers report
  (\<open>_worker_config\<close>) and the messages given to the broker, in order.  Ids and prefixes drawn at
  random are arguments, as is the clock.
\<close>

subsection \<open>Messages and state\<close>

text \<open>An MQTT payload is a JSON object; a key that is absent is \<open>None\<close>.\<close>

record worker_msg =
  m_worker_id :: "string option"
  m_eth_address :: "string option"
  m_gpu_count :: "int option"
  m_total_memory_gb :: "int option"
  m_gpus :: "gpu list option"
  m_version :: "string option"
  m_hashrate :: "pyfloat option"
  m_active_gpus :: "int option"
  m_address :: "string option"
  m_prefix :: "string option"
  m_block_pattern :: "string option"
  m_state :: "string option"

definition dflt :: "'a \<Rightarrow> 'a option \<Rightarrow> 'a" where
  "dflt d x = (case x of None \<Rightarrow> d | Some v \<Rightarrow> v)"

record worker_config =
  current_address :: string
  current_prefix :: string
  current_block_pattern :: string

datatype task_msg =
    RegisterAck
  | AssignTask string string string string int
  | Release string

record platform =
  p_db :: market_db
  p_config :: "string \<Rightarrow> worker_config option"
  p_sent :: "(string \<times> task_msg) list"

definition on_db :: "(market_db \<Rightarrow> market_db) \<Rightarrow> platform \<Rightarrow> platform" where
  "on_db f p = p\<lparr>p_db := f (p_db p)\<rparr>"

definition publish :: "string \<Rightarrow> task_msg \<Rightarrow> platform \<Rightarrow> platform" where
  "publish worker msg p = p\<lparr>p_sent := p_sent p @ [(worker, msg)]\<rparr>"

lemma on_db_simps [simp]:
  "p_db (on_db f p) = f (p_db p)" "p_config (on_db f p) = p_config p" "p_sent (on_db f p) = p_sent p"
  by (simp_all add: on_db_def)

lemma publish_simps [simp]:
  "p_db (publish w m p) = p_db p" "p_config (publish w m p) = p_config p"
  "p_sent (publish w m p) = p_sent p @ [(w, m)]"
  by (simp_all add: publish_def)

subsection \<open>Accounts\<close>

definition account_setup_defaults :: "pyfloat \<Rightarrow> market_db \<Rightarrow> market_db" where
  "account_setup_defaults now db =
     fst (account_create now ''consumer-2'' ''consumer'' 500 ''0x1111111111222222222233333333334444444444''
       (fst (account_create now ''consumer-1'' ''consumer'' 1000
               ''0xaabbccddee1234567890abcdef1234567890abcd'' db)))"

definition wallet_account_id :: "string \<Rightarrow> string" where
  "wallet_account_id address = ''wallet-'' @ py_lower (take 10 address)"

definition get_or_create_by_eth_address :: "pyfloat \<Rightarrow> string \<Rightarrow> market_db \<Rightarrow> market_db \<times> account option" where
  "get_or_create_by_eth_address now address db =
     (case account_get_by_eth_address address db of
        Some a \<Rightarrow> (db, Some a)
      | None \<Rightarrow> account_create now (wallet_account_id address) ''provider'' 0 address db)"

subsection \<open>Workers\<close>

definition register_worker :: "pyfloat \<Rightarrow> worker_msg \<Rightarrow> platform \<Rightarrow> platform \<times> bool py" where
  "register_worker now msg p =
     (case m_worker_id msg of
        None \<Rightarrow> (p, Inl KeyError)
      | Some i \<Rightarrow>
          (let eth = dflt [] (m_eth_address msg);
               p1 = on_db (worker_upsert now i eth (dflt 0 (m_gpu_count msg)) (dflt 0 (m_total_memory_gb msg))
                      (dflt [] (m_gpus msg)) (dflt ''unknown'' (m_version msg)) ''AVAILABLE'') p;
               p2 = on_db (\<lambda>db. fst (get_or_create_provider now i eth db)) p1
           in (publish i RegisterAck p2, Inr True)))"

definition update_heartbeat :: "pyfloat \<Rightarrow> worker_msg \<Rightarrow> platform \<Rightarrow> platform" where
  "update_heartbeat now msg p =
     (let i = dflt [] (m_worker_id msg);
          hashrate = dflt 0 (m_hashrate msg);
          p1 = on_db (worker_heartbeat now i hashrate (dflt 0 (m_active_gpus msg))) p;
          p2 = p1\<lparr>p_config := (p_config p1)(i := Some \<lparr>current_address = dflt [] (m_address msg),
                  current_prefix = dflt [] (m_prefix msg),
                  current_block_pattern = dflt [] (m_block_pattern msg)\<rparr>)\<rparr>
      in case get_active_lease_for_worker now i (p_db p2) of
           None \<Rightarrow> p2
         | Some l \<Rightarrow> if l_state l = Active then on_db (update_hashrate_stats (l_id l) hashrate) p2 else p2)"

definition update_worker_state :: "worker_msg \<Rightarrow> platform \<Rightarrow> platform" where
  "update_worker_state msg p =
     on_db (worker_set_state (dflt [] (m_worker_id msg)) (dflt [] (m_state msg))) p"

definition get_available_workers :: "platform \<Rightarrow> (worker \<times> worker_config) list" where
  "get_available_workers p =
     map (\<lambda>w. (w, dflt \<lparr>current_address = [], current_prefix = [], current_block_pattern = []\<rparr>
                 (p_config p (w_id w)))) (workers (p_db p))"

subsection \<open>Leases\<close>

definition worker_free :: "pyfloat \<Rightarrow> market_db \<Rightarrow> worker \<Rightarrow> bool" where
  "worker_free now db w \<longleftrightarrow>
     w_state w = ''AVAILABLE'' \<and> get_active_lease_for_worker now (w_id w) db = None"

definition rent_target :: "pyfloat \<Rightarrow> string option \<Rightarrow> market_db \<Rightarrow> worker option" where
  "rent_target now worker db =
     (if dflt [] worker \<noteq> []
      then (case worker_get (dflt [] worker) db of
              None \<Rightarrow> None
            | Some w \<Rightarrow>
                if w_state w = ''AVAILABLE'' \<and> get_active_lease_for_worker now (dflt [] worker) db = None
                then Some w else None)
      else find (worker_free now db) (workers db))"

definition rent_hashpower :: "pyfloat \<Rightarrow> string \<Rightarrow> string \<Rightarrow> string \<Rightarrow> string \<Rightarrow> int \<Rightarrow> string option
    \<Rightarrow> platform \<Rightarrow> platform \<times> lease_view option py" where
  "rent_hashpower now lease_id prefix consumer address duration worker p =
     (case rent_target now worker (p_db p) of
        None \<Rightarrow> (p, Inr None)
      | Some w \<Rightarrow>
          (let price = fl (w_price_per_min w / 60);
               (db, r) = lease_create now lease_id (w_id w) consumer address prefix duration price (p_db p)
           in case r of
                Inl e \<Rightarrow> (p\<lparr>p_db := db\<rparr>, Inl e)
              | Inr l \<Rightarrow>
                  (publish (w_id w) (AssignTask lease_id consumer address prefix duration)
                     (p\<lparr>p_db := worker_set_state (w_id w) ''LEASED'' db\<rparr>), Inr l)))"

text \<open>What \<open>stop_lease\<close> and \<open>check_expired_leases\<close> do to one lease.\<close>

definition end_lease :: "pyfloat \<Rightarrow> string \<Rightarrow> string \<Rightarrow> platform \<Rightarrow> platform" where
  "end_lease now lease_id worker p =
     publish worker (Release lease_id)
       (on_db (\<lambda>db. worker_set_state worker ''AVAILABLE''
                 (fst (lease_update_state lease_id Completed (Some now) db))) p)"

definition stop_lease :: "pyfloat \<Rightarrow> string \<Rightarrow> platform \<Rightarrow> platform \<times> lease_view option" where
  "stop_lease now lease_id p =
     (case lease_get now lease_id (p_db p) of
        None \<Rightarrow> (p, None)
      | Some l \<Rightarrow>
          if l_state l \<noteq> Active then (p, None)
          else (let p' = end_lease now lease_id (l_worker l) p
                in (p', lease_get now lease_id (p_db p'))))"

fun expire_leases :: "pyfloat \<Rightarrow> lease_view list \<Rightarrow> platform \<Rightarrow> platform \<times> lease_view option list" where
  "expire_leases now [] p = (p, [])"
| "expire_leases now (l # ls) p =
     (let p1 = end_lease now (l_id l) (l_worker l) p;
          updated = lease_get now (l_id l) (p_db p1);
          (p2, us) = expire_leases now ls p1
      in (p2, updated # us))"

definition check_expired_leases :: "pyfloat \<Rightarrow> platform \<Rightarrow> platform \<times> lease_view option list" where
  "check_expired_leases now p = expire_leases now (find_expired now (p_db p)) p"

definition list_leases :: "pyfloat \<Rightarrow> string option \<Rightarrow> int option \<Rightarrow> int \<Rightarrow> platform \<Rightarrow> lease_view list" where
  "list_leases now state limit offset p = lease_list_all now state limit offset (p_db p)"

subsection \<open>Settlement\<close>

definition platform_account :: string where
  "platform_account = ''platform-treasury''"

definition provider_share :: pyfloat where "provider_share = fl (95 / 100)"
definition platform_share :: pyfloat where "platform_share = fl (5 / 100)"

definition settlement_setup_defaults :: "pyfloat \<Rightarrow> market_db \<Rightarrow> market_db" where
  "settlement_setup_defaults now db = fst (account_create now platform_account ''consumer'' 0 [] db)"

text \<open>The cost of a lease, never more than the consumer's balance.\<close>

definition settled_cost :: "lease_view \<Rightarrow> pyfloat \<Rightarrow> pyfloat" where
  "settled_cost l balance =
     (let total_cost = fl (v_elapsed_sec l * l_price_per_sec l)
      in if balance < total_cost then max balance 0 else total_cost)"

definition provider_payment :: "pyfloat \<Rightarrow> pyfloat" where
  "provider_payment cost = fl (cost * provider_share)"

definition platform_fee :: "pyfloat \<Rightarrow> pyfloat" where
  "platform_fee cost = fl (cost * platform_share)"

text \<open>The statements between \<open>BEGIN IMMEDIATE\<close> and \<open>commit\<close>.\<close>

definition pay_lease :: "pyfloat \<Rightarrow> lease_view \<Rightarrow> pyfloat \<Rightarrow> market_db \<Rightarrow> market_db \<times> unit py" where
  "pay_lease now l cost db =
     (let db1 = add_balance now (l_consumer l) (- cost) db;
          db2 = add_balance now (l_worker l) (provider_payment cost) db1;
          db3 = add_balance now platform_account (platform_fee cost) db2
      in and_then (tx_insert now (l_consumer l) TxLeaseCharge cost (l_id l) db3) (\<lambda>_ db4.
         and_then (tx_insert now (l_worker l) TxProviderPayout (provider_payment cost) (l_id l) db4) (\<lambda>_ db5.
         tx_insert now platform_account TxPlatformFee (platform_fee cost) (l_id l) db5)))"

text \<open>\<open>BEGIN\<close> inside an open transaction raises; the handler rolls back what was open.\<close>

definition settle_lease :: "pyfloat \<Rightarrow> lease_view \<Rightarrow> market_db \<Rightarrow> market_db \<times> settlement_view option py" where
  "settle_lease now l db =
     (if rollback_to db \<noteq> None then (rollback db, Inr None)
      else case account_get (l_consumer l) db of
        None \<Rightarrow> (db, Inr None)
      | Some a \<Rightarrow>
          (let cost = settled_cost l (acc_balance a);
               (db1, r) = pay_lease now l cost (begin_stmt db)
           in case r of
                Inl e \<Rightarrow> (rollback db1, Inr None)
              | Inr _ \<Rightarrow>
                  and_then (settlement_create now (l_id l) (l_consumer l) (l_worker l) (v_elapsed_sec l)
                      (l_blocks_found l) cost (provider_payment cost) (platform_fee cost) (commit db1))
                    (\<lambda>s db2. (db2, Inr (Some s)))))"

definition get_settlement :: "string \<Rightarrow> market_db \<Rightarrow> settlement_view option" where
  "get_settlement i db = settlement_get i db"

definition list_settlements :: "int option \<Rightarrow> int \<Rightarrow> market_db \<Rightarrow> settlement_view list" where
  "list_settlements limit offset db = settlement_list_all limit offset db"

end
