(* ===== verification/MarketInv.thy ===== *)
theory MarketInv
  imports Market
begin

text \<open>
  The invariant of the market's tables, and the operations that keep it.  What the constraints of
  the schema and the handlers have to maintain depends on the keys of the rows only
  (\<open>market_keys\<close>): an operation that leaves them alone is an instance of the locale
  \<open>market_neutral\<close>, the others have a lemma each.
\<close>

subsection \<open>Tables under transactions\<close>

lemma tables_simps [row_simps]:
  "accounts (commit db) = accounts db" "workers (commit db) = workers db" "leases (commit db) = leases db"
  "blocks (commit db) = blocks db" "settlements (commit db) = settlements db"
  "transactions (commit db) = transactions db" "rollback_to (commit db) = None"
  "accounts (begin_stmt db) = accounts db" "workers (begin_stmt db) = workers db"
  "leases (begin_stmt db) = leases db" "blocks (begin_stmt db) = blocks db"
  "settlements (begin_stmt db) = settlements db" "transactions (begin_stmt db) = transactions db"
  "rollback_to (begin_stmt db) \<noteq> None"
  by (simp_all add: commit_def begin_stmt_def split: option.split)

lemma rollback_begin: "rollback_to db = None \<Longrightarrow> rollback (begin_stmt db) = db"
  by (simp add: rollback_def begin_stmt_def market_tables.defs market_db.defs)

lemma commit_id: "rollback_to db = None \<Longrightarrow> commit db = db"
  by (simp add: commit_def)

subsection \<open>Keys\<close>

record lease_key =
  k_id :: string
  k_worker :: string
  k_consumer :: string
  k_active :: bool

definition key_of_lease :: "lease \<Rightarrow> lease_key" where
  "key_of_lease l = \<lparr>k_id = l_id l, k_worker = l_worker l, k_consumer = l_consumer l,
     k_active = (l_state l = Active)\<rparr>"

definition charges :: "transaction list \<Rightarrow> string list" where
  "charges ts = map t_reference (filter (\<lambda>t. t_type t = TxLeaseCharge) ts)"

type_synonym keys = "string list \<times> string list \<times> lease_key list \<times> string list \<times> string list"

definition market_keys :: "'z market_tables_scheme \<Rightarrow> keys" where
  "market_keys db = (map acc_id (accounts db), map w_id (workers db), map key_of_lease (leases db),
     map st_lease (settlements db), charges (transactions db))"

text \<open>Ids are unique, a worker has at most one active lease and a provider account, leases refer
  to known workers and consumers, no lease is charged or settled twice or while it is active.\<close>

definition leases_ok :: "string list \<Rightarrow> string list \<Rightarrow> lease_key list \<Rightarrow> bool" where
  "leases_ok A W L \<longleftrightarrow> distinct (map k_id L) \<and> distinct (map k_worker (filter k_active L)) \<and>
     (\<forall>k \<in> set L. k_worker k \<in> set W \<and> k_consumer k \<in> set A)"

definition charges_ok :: "lease_key list \<Rightarrow> string list \<Rightarrow> string list \<Rightarrow> bool" where
  "charges_ok L S C \<longleftrightarrow> distinct S \<and> distinct C \<and> set S \<subseteq> set C \<and>
     (\<forall>i \<in> set C. \<exists>k \<in> set L. k_id k = i \<and> \<not> k_active k)"

definition keys_ok :: "keys \<Rightarrow> bool" where
  "keys_ok ks = (case ks of (A, W, L, S, C) \<Rightarrow>
     distinct A \<and> distinct W \<and> set W \<subseteq> set A \<and> platform_account \<in> set A \<and>
     leases_ok A W L \<and> charges_ok L S C)"

definition clean_tx :: "market_db \<Rightarrow> bool" where
  "clean_tx db \<longleftrightarrow> (\<forall>t. rollback_to db = Some t \<longrightarrow> t = market_tables.truncate db)"

definition db_ok :: "market_db \<Rightarrow> bool" where
  "db_ok db \<longleftrightarrow> keys_ok (market_keys db) \<and> clean_tx db"

text \<open>Amounts and times, relative to the latest clock reading \<open>T\<close>.\<close>

definition worker_ok :: "worker \<Rightarrow> bool" where
  "worker_ok w \<longleftrightarrow> 0 \<le> w_price_per_min w"

definition lease_ok :: "pyfloat \<Rightarrow> lease \<Rightarrow> bool" where
  "lease_ok T l \<longleftrightarrow> 0 \<le> l_price_per_sec l \<and> l_created_at l \<le> T \<and>
     (\<forall>e. l_ended_at l = Some e \<longrightarrow> l_created_at l \<le> e)"

definition amounts_ok :: "pyfloat \<Rightarrow> 'z market_tables_scheme \<Rightarrow> bool" where
  "amounts_ok T db \<longleftrightarrow> (\<forall>a \<in> set (accounts db). 0 \<le> acc_balance a) \<and>
     (\<forall>w \<in> set (workers db). worker_ok w) \<and> (\<forall>l \<in> set (leases db). lease_ok T l)"

lemma all_update_rows:
  "(\<And>r. r \<in> set rows \<Longrightarrow> Q r \<Longrightarrow> P r \<Longrightarrow> Q (f r)) \<Longrightarrow> \<forall>r \<in> set rows. Q r
   \<Longrightarrow> \<forall>r \<in> set (update_rows P f rows). Q r"
  by (auto simp: in_update_rows)

lemma market_keys_tx [row_simps]:
  "market_keys (commit db) = market_keys db" "market_keys (begin_stmt db) = market_keys db"
  by (simp_all add: market_keys_def row_simps)

lemma market_keys_rollback: "clean_tx db \<Longrightarrow> market_keys (rollback db) = market_keys db"
  by (auto simp: clean_tx_def rollback_def market_keys_def market_tables.defs market_db.defs split: option.split)

lemma amounts_ok_tx [row_simps]:
  "amounts_ok T (commit db) = amounts_ok T db" "amounts_ok T (begin_stmt db) = amounts_ok T db"
  by (simp_all add: amounts_ok_def row_simps)

lemma amounts_ok_rollback: "clean_tx db \<Longrightarrow> amounts_ok T (rollback db) = amounts_ok T db"
  by (auto simp: clean_tx_def rollback_def amounts_ok_def market_tables.defs market_db.defs split: option.split)

lemma clean_commit [simp]: "clean_tx (commit db)"
  by (simp add: clean_tx_def row_simps)

lemma clean_begin: "clean_tx db \<Longrightarrow> clean_tx (begin_stmt db)"
  by (auto simp: clean_tx_def begin_stmt_def market_tables.defs split: option.split)

lemma clean_rollback [simp]: "clean_tx (rollback db)"
  by (auto simp: clean_tx_def rollback_def market_tables.defs market_db.defs split: option.split)

lemma rollback_to_rollback [simp]: "rollback_to (rollback db) = None"
  by (auto simp: rollback_def market_tables.defs market_db.defs split: option.split)

lemma amounts_ok_later: "amounts_ok T db \<Longrightarrow> T \<le> T' \<Longrightarrow> amounts_ok T' db"
  unfolding amounts_ok_def lease_ok_def by (meson order_trans)

lemma db_ok_commit: "keys_ok (market_keys db) \<Longrightarrow> db_ok (commit db)"
  by (simp add: db_ok_def row_simps)

lemma keys_update_rows [row_simps]:
  "(\<And>r. acc_id (f r) = acc_id r) \<Longrightarrow> map acc_id (update_rows P f as) = map acc_id as"
  "(\<And>r. w_id (g r) = w_id r) \<Longrightarrow> map w_id (update_rows Q g ws) = map w_id ws"
  "(\<And>r. key_of_lease (h r) = key_of_lease r) \<Longrightarrow>
     map key_of_lease (update_rows R h ls) = map key_of_lease ls"
  by (simp_all add: map_update_rows)

subsection \<open>Operations that keep the keys\<close>

locale keeps_keys =
  fixes f :: "market_db \<Rightarrow> market_db"
  assumes keys: "market_keys (f db) = market_keys db"

locale market_neutral = keeps_keys +
  assumes committed: "clean_tx db \<Longrightarrow> clean_tx (f db)"
begin

lemma db_ok: "db_ok db \<Longrightarrow> db_ok (f db)"
  by (simp add: db_ok_def keys committed)

end

locale market_safe = market_neutral +
  assumes amounts: "amounts_ok T db \<Longrightarrow> amounts_ok T (f db)"
begin

lemma amounts_later: "amounts_ok T db \<Longrightarrow> T \<le> T' \<Longrightarrow> amounts_ok T' (f db)"
  using amounts amounts_ok_later by blast

end

lemmas neutral_simps = market_keys_def row_simps key_of_lease_def clean_tx_def
lemmas safe_simps = amounts_ok_def row_simps worker_ok_def lease_ok_def

interpretation set_api_key: market_safe "set_api_key now i key" for now i key
  by unfold_locales (auto simp: set_api_key_def neutral_simps safe_simps in_update_rows)

interpretation set_state: market_safe "worker_set_state i st" for i st
  by unfold_locales (auto simp: worker_set_state_def neutral_simps safe_simps in_update_rows)

interpretation heartbeat: market_safe "worker_heartbeat now i h g" for now i h g
  by unfold_locales (auto simp: worker_heartbeat_def Let_def neutral_simps safe_simps in_update_rows)

interpretation self_blocks: market_safe "worker_increment_self_blocks i" for i
  by unfold_locales (auto simp: worker_increment_self_blocks_def neutral_simps safe_simps in_update_rows)

interpretation pricing: market_neutral "worker_update_pricing i p a b" for i p a b
  by unfold_locales (auto simp: worker_update_pricing_def neutral_simps)

interpretation lease_blocks: market_safe "lease_increment_blocks i" for i
  by unfold_locales (auto simp: lease_increment_blocks_def neutral_simps safe_simps in_update_rows split: if_splits)

interpretation hashrate_stats: market_safe "update_hashrate_stats i h" for i h
  by unfold_locales (auto simp: update_hashrate_stats_def neutral_simps safe_simps in_update_rows split: if_splits)

interpretation new_block: market_safe "block_create now i w h k a n r pv cv cid" for now i w h k a n r pv cv cid
  by unfold_locales (auto simp: block_create_def neutral_simps safe_simps)

interpretation begun: market_safe begin_stmt
  by unfold_locales (simp_all add: row_simps clean_begin)

lemma pricing_amounts: "0 \<le> p \<Longrightarrow> amounts_ok T db \<Longrightarrow> amounts_ok T (worker_update_pricing i p a b db)"
  by (auto simp: worker_update_pricing_def safe_simps in_update_rows)

subsection \<open>Accounts\<close>

lemma account_get_None: "account_get i db = None \<longleftrightarrow> i \<notin> acc_id ` set (accounts db)"
  by (auto simp: account_get_def find_key_None)

lemma account_get_Some: "account_get i db = Some a \<Longrightarrow> a \<in> set (accounts db) \<and> acc_id a = i"
  unfolding account_get_def by (rule find_key_Some)

lemma keys_ok_new_account:
  assumes "keys_ok (A, W, L, S, C)" "i \<notin> set A"
  shows "keys_ok (A @ [i], W, L, S, C)"
  using assms by (auto simp: keys_ok_def leases_ok_def)

lemma account_create_cases:
  assumes "account_create now i role balance eth db = (db', r)"
  obtains "db' = commit db" "r = account_get i db"
    "account_get i db \<noteq> None \<or> role \<notin> {''provider'', ''consumer''}"
  | a where "account_get i db = None" "acc_id a = i" "acc_balance a = balance" "acc_eth_address a = eth"
      "db' = commit (db\<lparr>accounts := accounts db @ [a]\<rparr>)" "r = Some a"
proof (cases "account_get i db \<noteq> None \<or> role \<notin> {''provider'', ''consumer''}")
  case True
  then show thesis using assms that(1) by (auto simp: account_create_def account_get_def row_simps)
next
  case False
  let ?a = "\<lparr>acc_id = i, acc_role = role, acc_eth_address = eth, acc_balance = balance, acc_api_key = [],
      acc_created_at = now, acc_updated_at = now\<rparr>"
  from False have none: "account_get i db = None" by blast
  then have "find (\<lambda>x. acc_id x = i) (accounts db @ [?a]) = Some ?a"
    by (auto simp: account_get_def find_None_iff find_Some_iff nth_append intro: exI [of _ "length (accounts db)"])
  with False assms have "db' = commit (db\<lparr>accounts := accounts db @ [?a]\<rparr>)" "r = Some ?a"
    by (simp_all add: account_create_def Let_def account_get_def row_simps split: if_splits)
  with none show thesis by (intro that(2) [of ?a]) simp_all
qed

lemma account_create_ok:
  assumes "db_ok db" "account_create now i role balance eth db = (db', r)"
  shows "db_ok db'"
  using assms(2)
proof (cases rule: account_create_cases)
  case (2 a)
  with assms(1) keys_ok_new_account [of "map acc_id (accounts db)"]
  have "keys_ok (market_keys db')"
    by (auto simp: db_ok_def account_get_None market_keys_def row_simps)
  with 2 show ?thesis by (simp add: db_ok_def)
qed (use assms(1) in \<open>simp add: db_ok_def row_simps\<close>)

lemma account_create_amounts:
  assumes "amounts_ok T db" "account_create now i role balance eth db = (db', r)" "0 \<le> balance"
  shows "amounts_ok T db'"
  using assms(2) by (cases rule: account_create_cases) (use assms(1,3) in \<open>auto simp: amounts_ok_def row_simps\<close>)

interpretation new_balance: market_neutral "update_balance now i b" for now i b
  by unfold_locales (auto simp: update_balance_def neutral_simps)

lemma update_balance_amounts: "0 \<le> b \<Longrightarrow> amounts_ok T db \<Longrightarrow> amounts_ok T (update_balance now i b db)"
  by (auto simp: update_balance_def safe_simps in_update_rows)

interpretation added: keeps_keys "add_balance now i b" for now i b
  by unfold_locales (simp add: add_balance_def market_keys_def row_simps)


lemma account_get_cong: "map acc_id (accounts db) = map acc_id (accounts db') \<Longrightarrow>
    account_get i db = None \<longleftrightarrow> account_get i db' = None"
  unfolding account_get_None by (metis list.set_map)

lemma account_unique:
  assumes "distinct (map acc_id (accounts db))" "a \<in> set (accounts db)"
  shows "account_get (acc_id a) db = Some a"
  unfolding account_get_def using assms by (rule find_distinct)

lemma balance_nonneg: "amounts_ok T db \<Longrightarrow> account_get i db = Some a \<Longrightarrow> 0 \<le> acc_balance a"
  using account_get_Some [of i db a] by (auto simp: amounts_ok_def)

lemma add_balance_amounts:
  assumes "amounts_ok T db" "\<And>a. a \<in> set (accounts db) \<Longrightarrow> acc_id a = i \<Longrightarrow> 0 \<le> acc_balance a + x"
  shows "amounts_ok T (add_balance now i x db)"
  using assms by (auto simp: add_balance_def amounts_ok_def row_simps in_update_rows dbl.nonneg)

subsection \<open>The audit log\<close>

definition tx_row :: "pyfloat \<Rightarrow> string \<Rightarrow> tx_type \<Rightarrow> pyfloat \<Rightarrow> string \<Rightarrow> transaction" where
  "tx_row now account type amount ref = \<lparr>t_account = account, t_type = type, t_amount = amount,
     t_reference = ref, t_created_at = now\<rparr>"

lemma tx_insert_eq:
  "account_get account db \<noteq> None \<Longrightarrow> tx_insert now account type amount ref db =
     ((begin_stmt db)\<lparr>transactions := transactions db @ [tx_row now account type amount ref]\<rparr>, Inr ())"
  by (simp add: tx_insert_def tx_row_def)

lemma tx_record_eq:
  "account_get account db \<noteq> None \<Longrightarrow> tx_record now account type amount ref db =
     (commit (db\<lparr>transactions := transactions db @ [tx_row now account type amount ref]\<rparr>), Inr ())"
  by (simp add: tx_record_def tx_insert_eq commit_def begin_stmt_def split: option.split)

lemma charges_snoc:
  "charges (ts @ [tx_row now account type amount ref]) =
     charges ts @ (if type = TxLeaseCharge then [ref] else [])"
  by (simp add: charges_def tx_row_def)

lemma record_other_keys:
  "type \<noteq> TxLeaseCharge \<Longrightarrow>
   market_keys (commit (db\<lparr>transactions := transactions db @ [tx_row now account type amount ref]\<rparr>)) = market_keys db"
  by (simp add: market_keys_def row_simps charges_snoc)

lemma record_amounts:
  "amounts_ok T (commit (db\<lparr>transactions := ts\<rparr>)) = amounts_ok T db"
  by (simp add: amounts_ok_def row_simps)

subsection \<open>Deposits and withdrawals\<close>

lemma deposit_eq:
  "deposit now i amount db =
     (if amount \<le> 0 then (db, Inl ValueError)
      else case account_get i db of
        None \<Rightarrow> (db, Inl KeyError)
      | Some a \<Rightarrow>
          (commit ((update_balance now i (fl (acc_balance a + amount)) db)
             \<lparr>transactions := transactions db @ [tx_row now i TxDeposit amount []]\<rparr>),
           Inr (a\<lparr>acc_balance := fl (acc_balance a + amount)\<rparr>)))"
proof -
  have "account_get i (update_balance now i x db) \<noteq> None" if "account_get i db = Some a" for a x
    using that account_get_cong [of "update_balance now i x db" db i] new_balance.keys [of now i x db]
    by (auto simp: market_keys_def)
  then show ?thesis
    by (auto simp: deposit_def Let_def tx_record_eq update_balance_def row_simps split: option.split)
qed

lemma withdraw_eq:
  "withdraw now i amount db =
     (if amount \<le> 0 then (db, Inl ValueError)
      else case account_get i db of
        None \<Rightarrow> (db, Inl KeyError)
      | Some a \<Rightarrow>
          if acc_balance a < amount then (db, Inl ValueError)
          else (commit ((update_balance now i (fl (acc_balance a - amount)) db)
                 \<lparr>transactions := transactions db @ [tx_row now i TxWithdraw amount []]\<rparr>),
               Inr (a\<lparr>acc_balance := fl (acc_balance a - amount)\<rparr>)))"
proof -
  have "account_get i (update_balance now i x db) \<noteq> None" if "account_get i db = Some a" for a x
    using that account_get_cong [of "update_balance now i x db" db i] new_balance.keys [of now i x db]
    by (auto simp: market_keys_def)
  then show ?thesis
    by (auto simp: withdraw_def Let_def tx_record_eq update_balance_def row_simps split: option.split)
qed

lemma logged_keys:
  "type \<noteq> TxLeaseCharge \<Longrightarrow>
   market_keys (commit ((update_balance now i b db)\<lparr>transactions := transactions db @ [tx_row now k type amount ref]\<rparr>))
     = market_keys db"
  using new_balance.keys [of now i b db] by (simp add: market_keys_def row_simps charges_snoc)

lemma logged_amounts:
  "amounts_ok T db \<Longrightarrow> 0 \<le> b \<Longrightarrow> amounts_ok T (commit ((update_balance now i b db)\<lparr>transactions := ts\<rparr>))"
  using update_balance_amounts [of b T db now i] by (simp add: amounts_ok_def row_simps)

interpretation deposited: market_safe "\<lambda>db. fst (deposit now i amount db)" for now i amount
  by unfold_locales
    (auto simp: deposit_eq logged_keys intro!: logged_amounts dbl.nonneg add_nonneg_nonneg
      intro: balance_nonneg split: option.split)

interpretation withdrawn: market_safe "\<lambda>db. fst (withdraw now i amount db)" for now i amount
  by unfold_locales
    (auto simp: withdraw_eq logged_keys intro!: logged_amounts dbl.nonneg split: option.split)

subsection \<open>Workers\<close>

lemma upsert_keys:
  assumes "keys_ok (market_keys db)" "account_get i db \<noteq> None"
  shows "keys_ok (market_keys (worker_upsert now i e g m gs v st db))"
proof (cases "worker_get i db = None")
  case True
  then have "i \<notin> set (map w_id (workers db))" by (auto simp: worker_get_def find_key_None)
  moreover from assms(2) have "i \<in> set (map acc_id (accounts db))" by (auto simp: account_get_None)
  ultimately show ?thesis using assms(1) True
    by (auto simp: worker_upsert_def market_keys_def row_simps keys_ok_def leases_ok_def)
qed (use assms in \<open>auto simp: worker_upsert_def market_keys_def row_simps\<close>)

lemma upsert_amounts:
  "amounts_ok T db \<Longrightarrow> amounts_ok T (worker_upsert now i e g m gs v st db)"
  by (auto simp: worker_upsert_def safe_simps in_update_rows dbl.nonneg)

lemma upsert_accounts [simp]: "accounts (worker_upsert now i e g m gs v st db) = accounts db"
  by (simp add: worker_upsert_def row_simps)

text \<open>Registration inserts the worker first, then its account: the invariant holds again after
  both.\<close>

lemma registered_ok:
  assumes "db_ok db"
  shows "db_ok (fst (get_or_create_provider now i e (worker_upsert now i e g m gs v st db)))"
proof (cases "account_get i db")
  case None
  let ?u = "worker_upsert now i e g m gs v st db"
  obtain db' r where created: "account_create now i ''provider'' 0 e db = (db', r)" by fastforce
  then obtain a where a: "acc_id a = i" "db' = commit (db\<lparr>accounts := accounts db @ [a]\<rparr>)"
    by (cases rule: account_create_cases) (use None in auto)
  obtain db2 r2 where created2: "account_create now i ''provider'' 0 e ?u = (db2, r2)" by fastforce
  have None2: "account_get i ?u = None" using None by (simp add: account_get_None)
  from created2 obtain b where b: "acc_id b = i" "db2 = commit (?u\<lparr>accounts := accounts ?u @ [b]\<rparr>)"
    by (cases rule: account_create_cases) (use None2 in auto)
  have "keys_ok (market_keys (worker_upsert now i e g m gs v st db'))"
    using account_create_ok [OF assms created] a
    by (intro upsert_keys) (auto simp: db_ok_def account_get_None row_simps)
  moreover have "market_keys db2 = market_keys (worker_upsert now i e g m gs v st db')"
    by (simp add: a b market_keys_def worker_upsert_def worker_get_def row_simps)
  ultimately show ?thesis using None2 created2 b
    by (simp add: get_or_create_provider_def db_ok_def)
next
  case (Some a)
  then have "account_get i (worker_upsert now i e g m gs v st db) = Some a" by (simp add: account_get_def)
  moreover have "db_ok (worker_upsert now i e g m gs v st db)"
    using upsert_keys [of db i] assms Some
    by (auto simp: db_ok_def) (simp add: worker_upsert_def)
  ultimately show ?thesis by (simp add: get_or_create_provider_def)
qed

lemma registered_amounts:
  assumes "amounts_ok T db"
  shows "amounts_ok T (fst (get_or_create_provider now i e (worker_upsert now i e g m gs v st db)))"
proof -
  obtain db' r where "account_create now i ''provider'' 0 e (worker_upsert now i e g m gs v st db) = (db', r)"
    by fastforce
  with account_create_amounts [OF upsert_amounts [OF assms] this] show ?thesis
    by (simp add: get_or_create_provider_def upsert_amounts [OF assms] split: option.split)
qed

subsection \<open>Leases\<close>

lemma lease_find_Some: "lease_find i db = Some l \<Longrightarrow> l \<in> set (leases db) \<and> l_id l = i"
  unfolding lease_find_def by (rule find_key_Some)

lemma lease_find_None: "lease_find i db = None \<longleftrightarrow> (\<forall>l \<in> set (leases db). l_id l \<noteq> i)"
  by (simp add: lease_find_def find_key_None)

lemma lease_find_unique:
  "distinct (map l_id (leases db)) \<Longrightarrow> l \<in> set (leases db) \<Longrightarrow> lease_find (l_id l) db = Some l"
  unfolding lease_find_def by (rule find_distinct)

lemma view_lease_simps [simp]:
  "l_id (view_lease now l) = l_id l" "l_worker (view_lease now l) = l_worker l"
  "l_consumer (view_lease now l) = l_consumer l" "l_state (view_lease now l) = l_state l"
  "l_price_per_sec (view_lease now l) = l_price_per_sec l" "l_prefix (view_lease now l) = l_prefix l"
  "l_created_at (view_lease now l) = l_created_at l" "l_ended_at (view_lease now l) = l_ended_at l"
  "l_blocks_found (view_lease now l) = l_blocks_found l" "l_duration_sec (view_lease now l) = l_duration_sec l"
  "l_consumer_address (view_lease now l) = l_consumer_address l"
  "v_elapsed_sec (view_lease now l) = lease_elapsed now l"
  by (simp_all add: view_lease_def lease.defs lease_view.defs)

lemma lease_ids: "map k_id (map key_of_lease ls) = map l_id ls"
  by (simp add: key_of_lease_def comp_def)

lemma db_ok_lease_ids: "db_ok db \<Longrightarrow> distinct (map l_id (leases db))"
  by (simp add: db_ok_def keys_ok_def market_keys_def leases_ok_def key_of_lease_def comp_def)

lemma active_lease_None:
  "active_lease w db = None \<longleftrightarrow> (\<forall>l \<in> set (leases db). \<not> (l_worker l = w \<and> l_state l = Active))"
  by (auto simp: active_lease_def find_None_iff)

lemma active_get_None:
  "get_active_lease_for_worker now w db = None \<longleftrightarrow> active_lease w db = None"
proof (cases "active_lease w db")
  case (Some l)
  then have "l \<in> set (leases db)" unfolding active_lease_def by (blast dest: find_pred_Some)
  then have "lease_find (l_id l) db \<noteq> None" by (auto simp: lease_find_None)
  with Some show ?thesis by (simp add: get_active_lease_for_worker_def lease_get_def)
qed (simp add: get_active_lease_for_worker_def)

lemma charged_known:
  assumes "keys_ok (A, W, L, S, C)" "i \<in> set C"
  shows "\<exists>k \<in> set L. k_id k = i \<and> \<not> k_active k"
  using assms by (auto simp: keys_ok_def charges_ok_def)

definition new_lease :: "pyfloat \<Rightarrow> string \<Rightarrow> string \<Rightarrow> string \<Rightarrow> string \<Rightarrow> string \<Rightarrow> int \<Rightarrow> pyfloat \<Rightarrow> lease" where
  "new_lease now i worker consumer address prefix duration price =
     \<lparr>l_id = i, l_worker = worker, l_consumer = consumer, l_consumer_address = address,
      l_prefix = prefix, l_duration_sec = duration, l_price_per_sec = price, l_state = Active,
      l_created_at = now, l_ended_at = None, l_blocks_found = 0, l_total_hashrate_samples = 0,
      l_hashrate_count = 0\<rparr>"

lemma lease_create_cases:
  assumes "lease_create now i w c addr prefix dur price db = (db', r)"
  obtains (refused) "db' = begin_stmt db" "r = Inl IntegrityError"
      "lease_find i db \<noteq> None \<or> active_lease w db \<noteq> None \<or> worker_get w db = None \<or> account_get c db = None"
  | (created) "lease_find i db = None" "active_lease w db = None" "worker_get w db \<noteq> None" "account_get c db \<noteq> None"
      "db' = commit (db\<lparr>leases := leases db @ [new_lease now i w c addr prefix dur price]\<rparr>)"
      "r = Inr (Some (view_lease now (new_lease now i w c addr prefix dur price)))"
proof (cases "lease_find i db \<noteq> None \<or> active_lease w db \<noteq> None \<or> worker_get w db = None \<or> account_get c db = None")
  case True
  then show thesis using assms refused by (simp add: lease_create_def)
next
  case False
  let ?l = "new_lease now i w c addr prefix dur price"
  from False have none: "lease_find i db = None" by blast
  have "find (\<lambda>l. l_id l = i) (leases db @ [?l]) = Some ?l"
    using none
    by (auto simp: lease_find_def new_lease_def find_None_iff find_Some_iff nth_append
        intro: exI [of _ "length (leases db)"])
  with False assms show thesis
    by (intro created) (simp_all add: lease_create_def Let_def new_lease_def lease_get_def lease_find_def row_simps
        split: if_splits)
qed

lemma lease_create_ok:
  assumes "db_ok db" "lease_create now i w c addr prefix dur price db = (db', r)"
  shows "db_ok db'"
  using assms(2)
proof (cases rule: lease_create_cases)
  case refused
  then show ?thesis using begun.db_ok assms(1) by simp
next
  case created
  have "w \<in> set (map w_id (workers db))" "c \<in> set (map acc_id (accounts db))"
    using created(3,4) by (auto simp: account_get_None worker_get_def find_key_None)
  moreover have "i \<notin> set (map l_id (leases db))" using created(1) by (auto simp: lease_find_None)
  moreover have "w \<notin> set (map k_worker (filter k_active (map key_of_lease (leases db))))"
    using created(2) by (auto simp: active_lease_None key_of_lease_def)
  ultimately show ?thesis using assms(1) created(5)
    by (auto simp: db_ok_def market_keys_def row_simps keys_ok_def leases_ok_def charges_ok_def
        key_of_lease_def new_lease_def)
qed

lemma lease_create_amounts:
  assumes "amounts_ok T db" "lease_create now i w c addr prefix dur price db = (db', r)" "0 \<le> price" "now \<le> T"
  shows "amounts_ok T db'"
  using assms(2)
  by (cases rule: lease_create_cases)
    (use assms(1,3,4) in \<open>auto simp: safe_simps new_lease_def\<close>)

text \<open>Ending a lease.\<close>

definition deactivate :: "string \<Rightarrow> lease_key \<Rightarrow> lease_key" where
  "deactivate i k = (if k_id k = i then k\<lparr>k_active := False\<rparr> else k)"

lemma deactivate_simps [simp]:
  "k_id (deactivate i k) = k_id k" "k_worker (deactivate i k) = k_worker k"
  "k_consumer (deactivate i k) = k_consumer k" "k_active (deactivate i k) \<longleftrightarrow> k_active k \<and> k_id k \<noteq> i"
  by (simp_all add: deactivate_def)

lemma deactivate_keys_ok:
  assumes "keys_ok (A, W, L, S, C)"
  shows "keys_ok (A, W, map (deactivate i) L, S, C)"
proof -
  have "filter k_active (map (deactivate i) L) = map (deactivate i) (filter (\<lambda>k. k_id k \<noteq> i) (filter k_active L))"
    by (simp add: filter_map comp_def conj_commute)
  then have "map k_worker (filter k_active (map (deactivate i) L))
      = map k_worker (filter (\<lambda>k. k_id k \<noteq> i) (filter k_active L))"
    by (simp add: comp_def)
  then have "distinct (map k_worker (filter k_active (map (deactivate i) L)))"
    using assms distinct_map_filter [of k_worker "filter k_active L"]
    by (simp add: keys_ok_def leases_ok_def)
  moreover have "charges_ok (map (deactivate i) L) S C"
    using assms by (fastforce simp: keys_ok_def charges_ok_def)
  ultimately show ?thesis using assms by (auto simp: keys_ok_def leases_ok_def comp_def)
qed

definition completed :: "pyfloat \<Rightarrow> lease \<Rightarrow> lease" where
  "completed now l = l\<lparr>l_state := Completed, l_ended_at := Some now\<rparr>"

lemma complete_eq:
  "lease_update_state i Completed (Some now) db =
     (commit (db\<lparr>leases := update_rows (\<lambda>l. l_id l = i) (completed now) (leases db)\<rparr>), Inr ())"
  by (simp add: lease_update_state_def completed_def [abs_def])

lemma end_lease_db:
  "p_db (end_lease now i w p) = worker_set_state w ''AVAILABLE''
     (commit ((p_db p)\<lparr>leases := update_rows (\<lambda>l. l_id l = i) (completed now) (leases (p_db p))\<rparr>))"
  by (simp add: end_lease_def complete_eq)

lemma end_lease_leases:
  "leases (p_db (end_lease now i w p)) = update_rows (\<lambda>l. l_id l = i) (completed now) (leases (p_db p))"
  by (simp add: end_lease_db worker_set_state_def row_simps)

lemma end_lease_transactions:
  "transactions (p_db (end_lease now i w p)) = transactions (p_db p)"
  by (simp add: end_lease_db worker_set_state_def row_simps)

lemma completed_keys:
  "map key_of_lease (update_rows (\<lambda>l. l_id l = i) (completed now) ls) = map (deactivate i) (map key_of_lease ls)"
  by (induction ls) (auto simp: completed_def key_of_lease_def deactivate_def)

lemma end_lease_ok:
  assumes "db_ok (p_db p)"
  shows "db_ok (p_db (end_lease now i w p))"
  unfolding end_lease_db
  by (intro set_state.db_ok db_ok_commit)
    (use assms deactivate_keys_ok in \<open>simp add: market_keys_def completed_keys db_ok_def del: map_map\<close>)

lemma end_lease_amounts:
  assumes "amounts_ok T (p_db p)" "T \<le> now"
  shows "amounts_ok now (p_db (end_lease now i w p))"
  unfolding end_lease_db
  by (intro set_state.amounts)
    (use amounts_ok_later [OF assms] in \<open>auto simp: amounts_ok_def row_simps in_update_rows lease_ok_def completed_def
      split: if_splits\<close>)

lemma end_lease_committed: "rollback_to (p_db (end_lease now i w p)) = None"
  by (simp add: end_lease_db worker_set_state_def row_simps)

subsection \<open>Settlement\<close>

lemma begin_stmt_id: "rollback_to db \<noteq> None \<Longrightarrow> begin_stmt db = db"
  by (auto simp: begin_stmt_def)

definition credit :: "pyfloat \<Rightarrow> string \<Rightarrow> pyfloat \<Rightarrow> account list \<Rightarrow> account list" where
  "credit now i amount = update_rows (\<lambda>a. acc_id a = i)
     (\<lambda>a. a\<lparr>acc_balance := fl (acc_balance a + amount), acc_updated_at := now\<rparr>)"

definition paid_accounts :: "pyfloat \<Rightarrow> lease_view \<Rightarrow> pyfloat \<Rightarrow> account list \<Rightarrow> account list" where
  "paid_accounts now l cost as =
     credit now platform_account (platform_fee cost)
       (credit now (l_worker l) (provider_payment cost) (credit now (l_consumer l) (- cost) as))"

definition paid_rows :: "pyfloat \<Rightarrow> lease_view \<Rightarrow> pyfloat \<Rightarrow> transaction list" where
  "paid_rows now l cost = [tx_row now (l_consumer l) TxLeaseCharge cost (l_id l),
     tx_row now (l_worker l) TxProviderPayout (provider_payment cost) (l_id l),
     tx_row now platform_account TxPlatformFee (platform_fee cost) (l_id l)]"

definition settlement_row :: "pyfloat \<Rightarrow> lease_view \<Rightarrow> pyfloat \<Rightarrow> settlement" where
  "settlement_row now l cost = \<lparr>st_lease = l_id l, st_consumer = l_consumer l, st_worker = l_worker l,
     st_duration_sec = v_elapsed_sec l, st_blocks_found = l_blocks_found l, st_total_cost = cost,
     st_provider_payout = provider_payment cost, st_platform_fee = platform_fee cost, st_settled_at = now\<rparr>"

lemma credit_ids [simp]: "map acc_id (credit now i x as) = map acc_id as"
  by (simp add: credit_def map_update_rows)

lemma account_get_credited:
  "accounts db' = credit now i x (accounts db) \<Longrightarrow> account_get j db' = None \<longleftrightarrow> account_get j db = None"
  by (rule account_get_cong) simp

lemma add_balance_eq:
  "rollback_to db \<noteq> None \<Longrightarrow> add_balance now i x db = db\<lparr>accounts := credit now i x (accounts db)\<rparr>"
  by (simp add: add_balance_def credit_def begin_stmt_id)

lemma pay_lease_eq:
  assumes "rollback_to db \<noteq> None"
    and "account_get (l_consumer l) db \<noteq> None" "account_get (l_worker l) db \<noteq> None"
    and "account_get platform_account db \<noteq> None"
  shows "pay_lease now l cost db =
    (db\<lparr>accounts := paid_accounts now l cost (accounts db),
        transactions := transactions db @ paid_rows now l cost\<rparr>, Inr ())"
proof -
  have known: "account_get j (db\<lparr>accounts := paid_accounts now l cost (accounts db), transactions := ts\<rparr>) \<noteq> None"
    if "account_get j db \<noteq> None" for j ts
    using that account_get_cong [of "db\<lparr>accounts := paid_accounts now l cost (accounts db), transactions := ts\<rparr>" db j]
    by (simp add: paid_accounts_def)
  have known': "account_get j (db\<lparr>accounts := paid_accounts now l cost (accounts db)\<rparr>) \<noteq> None"
    if "account_get j db \<noteq> None" for j
    using known [OF that, of "transactions db"] by simp
  show ?thesis
    using assms known known'
    by (simp add: pay_lease_def add_balance_eq tx_insert_eq begin_stmt_id paid_rows_def
        flip: paid_accounts_def)
qed

definition settled_db :: "pyfloat \<Rightarrow> lease_view \<Rightarrow> pyfloat \<Rightarrow> market_db \<Rightarrow> market_db" where
  "settled_db now l cost db = commit (db\<lparr>accounts := paid_accounts now l cost (accounts db),
     transactions := transactions db @ paid_rows now l cost,
     settlements := settlements db @ [settlement_row now l cost]\<rparr>)"

lemma settle_eq:
  assumes "rollback_to db = None" "account_get (l_consumer l) db = Some a"
    and "account_get (l_worker l) db \<noteq> None" "account_get platform_account db \<noteq> None"
    and "settlement_find (l_id l) db = None" "lease_find (l_id l) db \<noteq> None"
  shows "settle_lease now l db =
    (settled_db now l (settled_cost l (acc_balance a)) db,
     Inr (Some (view_settlement (settlement_row now l (settled_cost l (acc_balance a))))))"
proof -
  have get: "account_get j (begin_stmt db) = account_get j db" for j
    by (simp add: account_get_def row_simps)
  have pay: "pay_lease now l cost (begin_stmt db) =
      ((begin_stmt db)\<lparr>accounts := paid_accounts now l cost (accounts db),
         transactions := transactions db @ paid_rows now l cost\<rparr>, Inr ())" for cost
    using assms(2-4) pay_lease_eq [of "begin_stmt db" l now cost] by (simp add: row_simps get)
  show ?thesis
    using assms
    by (simp add: settle_lease_def pay settlement_create_def settlement_find_def lease_find_def row_simps Let_def)
      (simp add: settled_db_def settlement_row_def commit_def begin_stmt_def)
qed

lemma settled_keys:
  "market_keys db = (A, W, L, S, C) \<Longrightarrow>
   market_keys (settled_db now l cost db) = (A, W, L, S @ [l_id l], C @ [l_id l])"
  by (auto simp: settled_db_def market_keys_def row_simps paid_accounts_def paid_rows_def charges_def
      tx_row_def settlement_row_def)

text \<open>A lease that ended and was not charged yet, as the handlers see it when they settle it.\<close>

definition settleable :: "market_db \<Rightarrow> lease_view \<Rightarrow> bool" where
  "settleable db l \<longleftrightarrow> l_id l \<notin> set (charges (transactions db)) \<and>
     (\<exists>k \<in> set (leases db). l_id k = l_id l \<and> l_worker k = l_worker l \<and> l_consumer k = l_consumer l
        \<and> l_state k \<noteq> Active)"

lemma settleable_known:
  assumes "db_ok db" "settleable db l"
  shows "account_get (l_consumer l) db \<noteq> None" "account_get (l_worker l) db \<noteq> None"
    "account_get platform_account db \<noteq> None" "settlement_find (l_id l) db = None"
    "lease_find (l_id l) db \<noteq> None"
proof -
  obtain k where k: "k \<in> set (leases db)" "l_id k = l_id l" "l_worker k = l_worker l" "l_consumer k = l_consumer l"
    using assms(2) by (auto simp: settleable_def)
  then have "key_of_lease k \<in> set (map key_of_lease (leases db))" by simp
  with assms(1) k have acc: "l_worker l \<in> w_id ` set (workers db)" "l_consumer l \<in> acc_id ` set (accounts db)"
    "w_id ` set (workers db) \<subseteq> acc_id ` set (accounts db)"
    by (auto simp: db_ok_def market_keys_def keys_ok_def leases_ok_def key_of_lease_def)
  then show "account_get (l_consumer l) db \<noteq> None" "account_get (l_worker l) db \<noteq> None"
    by (auto simp: account_get_None)
  show "account_get platform_account db \<noteq> None"
    using assms(1) by (auto simp: db_ok_def market_keys_def keys_ok_def account_get_None)
  have "set (map st_lease (settlements db)) \<subseteq> set (charges (transactions db))"
    using assms(1) by (simp add: db_ok_def market_keys_def keys_ok_def charges_ok_def)
  then show "settlement_find (l_id l) db = None"
    using assms(2) by (auto simp: settlement_find_def find_key_None settleable_def)
  show "lease_find (l_id l) db \<noteq> None" using k by (auto simp: lease_find_None)
qed

lemma settled_ok:
  assumes "db_ok db" "settleable db l"
  shows "db_ok (settled_db now l cost db)"
proof -
  obtain A W L S C where K: "market_keys db = (A, W, L, S, C)" by (cases "market_keys db") auto
  from assms(1) K have ok: "keys_ok (A, W, L, S, C)" by (simp add: db_ok_def)
  have C: "l_id l \<notin> set C" using assms(2) K by (auto simp: settleable_def market_keys_def)
  with ok have S: "l_id l \<notin> set S" by (auto simp: keys_ok_def charges_ok_def)
  obtain k where "k \<in> set (leases db)" "l_id k = l_id l" "l_state k \<noteq> Active"
    using assms(2) by (auto simp: settleable_def)
  moreover from this K have "key_of_lease k \<in> set L" by (auto simp: market_keys_def)
  ultimately have "\<exists>j \<in> set L. k_id j = l_id l \<and> \<not> k_active j"
    by (intro bexI [of _ "key_of_lease k"]) (simp_all add: key_of_lease_def)
  with ok C S have "keys_ok (A, W, L, S @ [l_id l], C @ [l_id l])"
    by (auto simp: keys_ok_def charges_ok_def)
  then show ?thesis by (simp add: db_ok_def settled_keys [OF K]) (simp add: settled_db_def)
qed

lemma settled_cost_range:
  assumes "0 \<le> v_elapsed_sec l" "0 \<le> l_price_per_sec l" "0 \<le> balance"
  shows "0 \<le> settled_cost l balance" "settled_cost l balance \<le> balance"
  using assms by (simp_all add: settled_cost_def Let_def dbl.nonneg)

lemma share_nonneg: "0 \<le> cost \<Longrightarrow> 0 \<le> provider_payment cost" "0 \<le> cost \<Longrightarrow> 0 \<le> platform_fee cost"
  by (simp_all add: provider_payment_def platform_fee_def provider_share_def platform_share_def dbl.nonneg)

lemma credit_nonneg:
  assumes "\<forall>a \<in> set as. 0 \<le> acc_balance a" "\<And>a. a \<in> set as \<Longrightarrow> acc_id a = i \<Longrightarrow> 0 \<le> acc_balance a + x"
  shows "\<forall>a \<in> set (credit now i x as). 0 \<le> acc_balance a"
  using assms by (auto simp: credit_def in_update_rows dbl.nonneg)

lemma credit_more:
  "0 \<le> x \<Longrightarrow> \<forall>a \<in> set as. 0 \<le> acc_balance a \<Longrightarrow> \<forall>a \<in> set (credit now i x as). 0 \<le> acc_balance a"
  by (rule credit_nonneg) auto

lemma paid_nonneg:
  assumes "\<forall>a \<in> set as. 0 \<le> acc_balance a" "0 \<le> cost"
    and "\<And>a. a \<in> set as \<Longrightarrow> acc_id a = l_consumer l \<Longrightarrow> cost \<le> acc_balance a"
  shows "\<forall>a \<in> set (paid_accounts now l cost as). 0 \<le> acc_balance a"
proof -
  have "\<forall>a \<in> set (credit now (l_consumer l) (- cost) as). 0 \<le> acc_balance a"
    using assms by (intro credit_nonneg) auto
  then show ?thesis
    unfolding paid_accounts_def
    by (rule credit_more [OF share_nonneg(2) credit_more [OF share_nonneg(1)], OF assms(2) assms(2)])
qed

lemma settled_amounts:
  assumes "db_ok db" "amounts_ok T db" "account_get (l_consumer l) db = Some a"
    and "0 \<le> v_elapsed_sec l" "0 \<le> l_price_per_sec l"
  shows "amounts_ok T (settled_db now l (settled_cost l (acc_balance a)) db)"
proof -
  have "distinct (map acc_id (accounts db))"
    using assms(1) by (simp add: db_ok_def market_keys_def keys_ok_def)
  then have "b = a" if "b \<in> set (accounts db)" "acc_id b = l_consumer l" for b
    using account_unique that assms(3) by fastforce
  moreover note settled_cost_range [OF assms(4,5) balance_nonneg [OF assms(2,3)]]
  ultimately have "\<forall>b \<in> set (paid_accounts now l (settled_cost l (acc_balance a)) (accounts db)). 0 \<le> acc_balance b"
    using assms(2) by (intro paid_nonneg) (auto simp: amounts_ok_def)
  with assms(2) show ?thesis by (simp add: settled_db_def amounts_ok_def row_simps)
qed

text \<open>What settling a lease does in a consistent database: it always succeeds.\<close>

lemma settle_succeeds:
  assumes "db_ok db" "rollback_to db = None" "settleable db l"
  obtains a where "account_get (l_consumer l) db = Some a"
    and "settle_lease now l db = (settled_db now l (settled_cost l (acc_balance a)) db,
           Inr (Some (view_settlement (settlement_row now l (settled_cost l (acc_balance a))))))"
  using settle_eq [OF assms(2)] settleable_known [OF assms(1,3)] by blast

lemma settle_open_transaction:
  "rollback_to db \<noteq> None \<Longrightarrow> settle_lease now l db = (rollback db, Inr None)"
  by (simp add: settle_lease_def)

lemma rollback_ok: "db_ok db \<Longrightarrow> db_ok (rollback db)"
  by (simp add: db_ok_def market_keys_rollback)

end
