(* ===== verification/Watcher.thy ===== *)
theory Watcher
  imports MarketInv ChainSim
begin

text \<open>
  The block watcher (\<open>watcher.py\<close>): what a worker's \<open>block_found\<close> message does to the tables.
  The chain is the simulated one, or absent.
\<close>

record block_msg =
  bm_worker_id :: "string option"
  bm_lease_id :: "string option"
  bm_key :: "string option"
  bm_hash :: "string option"
  bm_account :: "string option"
  bm_attempts :: "int option"
  bm_hashrate :: "string option"

definition key_prefix :: "string \<Rightarrow> string" where
  "key_prefix key = take 16 key"

definition prefix_matches :: "string \<Rightarrow> string \<Rightarrow> bool" where
  "prefix_matches lease_prefix key \<longleftrightarrow>
     lease_prefix = [] \<or> py_lower (key_prefix key) = py_lower lease_prefix"

text \<open>Whether the key is on the chain, and the id of its block.\<close>

definition chain_lookup :: "chain option \<Rightarrow> string \<Rightarrow> bool \<times> nat option" where
  "chain_lookup chain key =
     (case chain of
        None \<Rightarrow> (True, None)
      | Some ch \<Rightarrow>
          (case find (\<lambda>b. cb_key b = key) (get_blocks_by_key_prefix (key_prefix key) 100 ch) of
             None \<Rightarrow> (False, None)
           | Some b \<Rightarrow> (True, Some (cb_id b))))"

definition handle_self_mined_block :: "pyfloat \<Rightarrow> string \<Rightarrow> block_msg \<Rightarrow> market_db \<Rightarrow> market_db" where
  "handle_self_mined_block now worker msg db =
     worker_increment_self_blocks worker
       (block_create now [] worker (dflt [] (bm_hash msg)) (dflt [] (bm_key msg)) (dflt [] (bm_account msg))
          (dflt 0 (bm_attempts msg)) (dflt ''0.0'' (bm_hashrate msg)) True True None db)"

definition handle_block_found :: "pyfloat \<Rightarrow> chain option \<Rightarrow> block_msg \<Rightarrow> string \<Rightarrow> market_db \<Rightarrow> market_db" where
  "handle_block_found now chain msg worker_id_from_topic db =
     (let worker = dflt worker_id_from_topic (bm_worker_id msg);
          lease_id = dflt [] (bm_lease_id msg);
          key = dflt [] (bm_key msg)
      in if lease_id = [] then handle_self_mined_block now worker msg db
         else case lease_get now lease_id db of
           None \<Rightarrow> db
         | Some l \<Rightarrow>
             (let prefix_valid = prefix_matches (l_prefix l) key;
                  (verified, chain_id) = chain_lookup chain key;
                  db1 = block_create now lease_id worker (dflt [] (bm_hash msg)) key (dflt [] (bm_account msg))
                          (dflt 0 (bm_attempts msg)) (dflt ''0.0'' (bm_hashrate msg)) prefix_valid verified chain_id db
              in if verified \<and> prefix_valid then lease_increment_blocks lease_id db1 else db1))"

subsection \<open>Queries\<close>

definition get_blocks_for_lease :: "string \<Rightarrow> market_db \<Rightarrow> block list" where
  "get_blocks_for_lease i db = blocks_for_lease i db"

definition get_all_blocks :: "int option \<Rightarrow> int \<Rightarrow> market_db \<Rightarrow> block list" where
  "get_all_blocks limit offset db = blocks_get_all limit offset db"

definition total_blocks :: "market_db \<Rightarrow> nat" where
  "total_blocks db = blocks_count None db"

subsection \<open>Properties\<close>

interpretation watched: market_safe "handle_block_found now chain msg topic" for now chain msg topic
proof
  fix db T
  show "market_keys (handle_block_found now chain msg topic db) = market_keys db"
    by (simp add: case_prod_beta handle_block_found_def handle_self_mined_block_def Let_def new_block.keys self_blocks.keys
        lease_blocks.keys split: option.split)
  show "clean_tx db \<Longrightarrow> clean_tx (handle_block_found now chain msg topic db)"
    by (simp add: case_prod_beta handle_block_found_def handle_self_mined_block_def Let_def new_block.committed
        self_blocks.committed lease_blocks.committed split: option.split)
  show "amounts_ok T db \<Longrightarrow> amounts_ok T (handle_block_found now chain msg topic db)"
    by (simp add: case_prod_beta handle_block_found_def handle_self_mined_block_def Let_def new_block.amounts
        self_blocks.amounts lease_blocks.amounts split: option.split)
qed

end
