(* ===== verification/Auth.thy ===== *)
theory Auth
  imports MarketInv "HOL-Library.AList"
begin

text \<open>
  Authentication (\<open>auth.py\<close>) and the account routes (\<open>routers/account.py\<close>).  The JWT library and
  the signature recovery of \<open>eth_account\<close> are not part of the repository: \<open>jwt\<close> decodes a token to
  its claims (\<open>None\<close> when it is expired or invalid), \<open>encode\<close> issues one, and \<open>recover\<close> gives the
  address that signed a text (\<open>None\<close> when it raises).  Random keys and nonces are arguments.
\<close>

subsection \<open>State and credentials\<close>

record auth =
  au_admin_key :: string
  au_nonces :: "(string \<times> (string \<times> pyfloat)) list"

record claims =
  c_sub :: string
  c_role :: string
  c_account_id :: string
  c_iat :: int
  c_exp :: int

type_synonym decoder = "string \<Rightarrow> claims option"
type_synonym recoverer = "string \<Rightarrow> string \<Rightarrow> string option"

definition default_admin_key :: string where
  "default_admin_key = ''admin-test-key-do-not-use-in-production''"

definition init_auth :: auth where
  "init_auth = \<lparr>au_admin_key = default_admin_key, au_nonces = []\<rparr>"

subsection \<open>Nonces\<close>

definition cleanup_expired_nonces :: "pyfloat \<Rightarrow> auth \<Rightarrow> auth" where
  "cleanup_expired_nonces now au =
     au\<lparr>au_nonces := filter (\<lambda>(a, n, expires). \<not> now > expires) (au_nonces au)\<rparr>"

definition generate_nonce :: "pyfloat \<Rightarrow> string \<Rightarrow> string \<Rightarrow> auth \<Rightarrow> auth \<times> string" where
  "generate_nonce now nonce address au =
     (let au1 = (if length (au_nonces au) > 1000 then cleanup_expired_nonces now au else au)
      in (au1\<lparr>au_nonces := AList.update (py_lower address) (nonce, fl (now + 300)) (au_nonces au1)\<rparr>, nonce))"

definition sign_message :: "string \<Rightarrow> string" where
  "sign_message nonce = ''Sign this message to authenticate with XenBlocks.'' @ [CHR 0x0A, CHR 0x0A]
     @ ''Nonce: '' @ nonce"

definition verify_signature :: "recoverer \<Rightarrow> pyfloat \<Rightarrow> string \<Rightarrow> string \<Rightarrow> string \<Rightarrow> auth \<Rightarrow> auth \<times> bool" where
  "verify_signature recover now address signature nonce au =
     (let addr = py_lower address;
          without = au\<lparr>au_nonces := AList.delete addr (au_nonces au)\<rparr>
      in case map_of (au_nonces au) addr of
           None \<Rightarrow> (au, False)
         | Some (n, expires) \<Rightarrow>
             if n \<noteq> nonce then (au, False)
             else if now > expires then (without, False)
             else case recover (sign_message nonce) signature of
               None \<Rightarrow> (au, False)
             | Some signer \<Rightarrow> if py_lower signer \<noteq> addr then (au, False) else (without, True))"

definition issue_jwt :: "(claims \<Rightarrow> string) \<Rightarrow> pyfloat \<Rightarrow> string \<Rightarrow> string \<Rightarrow> string \<Rightarrow> string" where
  "issue_jwt encode now address role account_id =
     encode \<lparr>c_sub = py_lower address, c_role = role, c_account_id = account_id,
             c_iat = py_int now, c_exp = py_int now + 86400\<rparr>"

subsection \<open>Accounts and API keys\<close>

definition register :: "pyfloat \<Rightarrow> string \<Rightarrow> string \<Rightarrow> string \<Rightarrow> string \<Rightarrow> pyfloat \<Rightarrow> market_db
    \<Rightarrow> market_db \<times> account py" where
  "register now api_key account_id role eth_address balance db =
     (if role \<notin> {''provider'', ''consumer''} then (db, Inl ValueError)
      else if account_get account_id db \<noteq> None then (db, Inl ValueError)
      else
        (let (db1, created) = account_create now account_id role balance eth_address db
         in case created of
              None \<Rightarrow> (db1, Inl RuntimeError)
            | Some a \<Rightarrow> (set_api_key now account_id api_key db1, Inr (a\<lparr>acc_api_key := api_key\<rparr>))))"

definition login :: "pyfloat \<Rightarrow> string \<Rightarrow> string \<Rightarrow> market_db \<Rightarrow> market_db \<times> account py" where
  "login now api_key account_id db =
     (case account_get account_id db of
        None \<Rightarrow> (db, Inl KeyError)
      | Some a \<Rightarrow>
          if acc_api_key a = [] then (set_api_key now account_id api_key db, Inr (a\<lparr>acc_api_key := api_key\<rparr>))
          else (db, Inr a))"

definition ensure_api_key :: "pyfloat \<Rightarrow> string \<Rightarrow> string \<Rightarrow> market_db \<Rightarrow> market_db" where
  "ensure_api_key now api_key account_id db =
     (case account_get account_id db of
        None \<Rightarrow> db
      | Some a \<Rightarrow> if acc_api_key a = [] then set_api_key now account_id api_key db else db)"

definition ensure_api_keys_for_defaults :: "pyfloat \<Rightarrow> string \<Rightarrow> string \<Rightarrow> market_db \<Rightarrow> market_db" where
  "ensure_api_keys_for_defaults now key1 key2 db =
     ensure_api_key now key2 ''consumer-2'' (ensure_api_key now key1 ''consumer-1'' db)"

subsection \<open>Who is calling\<close>

definition admin_account :: "string \<Rightarrow> account" where
  "admin_account key = \<lparr>acc_id = ''_admin'', acc_role = ''admin'', acc_eth_address = [], acc_balance = 0,
     acc_api_key = key, acc_created_at = 0, acc_updated_at = 0\<rparr>"

definition jwt_account :: "decoder \<Rightarrow> string \<Rightarrow> market_db \<Rightarrow> account option" where
  "jwt_account jwt authorization db =
     (if py_startswith authorization ''Bearer ''
      then (case jwt (drop 7 authorization) of
              None \<Rightarrow> None
            | Some c \<Rightarrow> account_get (c_account_id c) db)
      else None)"

definition resolve_account :: "decoder \<Rightarrow> auth \<Rightarrow> string \<Rightarrow> string \<Rightarrow> market_db \<Rightarrow> account option" where
  "resolve_account jwt au x_api_key authorization db =
     (case jwt_account jwt authorization db of
        Some a \<Rightarrow> Some a
      | None \<Rightarrow>
          if x_api_key = [] then None
          else if x_api_key = au_admin_key au then Some (admin_account x_api_key)
          else account_get_by_api_key x_api_key db)"

definition get_current_account :: "decoder \<Rightarrow> auth \<Rightarrow> string \<Rightarrow> string \<Rightarrow> market_db \<Rightarrow> account py" where
  "get_current_account jwt au x_api_key authorization db =
     (case resolve_account jwt au x_api_key authorization db of
        None \<Rightarrow> Inl (HTTPException 401)
      | Some a \<Rightarrow> Inr a)"

definition require_role :: "string set \<Rightarrow> account \<Rightarrow> account py" where
  "require_role roles a = (if acc_role a \<in> roles then Inr a else Inl (HTTPException 403))"

definition require_consumer :: "decoder \<Rightarrow> auth \<Rightarrow> string \<Rightarrow> string \<Rightarrow> market_db \<Rightarrow> account py" where
  "require_consumer jwt au k z db = py_bind (get_current_account jwt au k z db) (require_role {''consumer'', ''admin''})"

definition require_provider :: "decoder \<Rightarrow> auth \<Rightarrow> string \<Rightarrow> string \<Rightarrow> market_db \<Rightarrow> account py" where
  "require_provider jwt au k z db = py_bind (get_current_account jwt au k z db) (require_role {''provider'', ''admin''})"

definition require_admin :: "decoder \<Rightarrow> auth \<Rightarrow> string \<Rightarrow> string \<Rightarrow> market_db \<Rightarrow> account py" where
  "require_admin jwt au k z db = py_bind (get_current_account jwt au k z db) (require_role {''admin''})"

subsection \<open>Account routes\<close>

definition auth_nonce :: "pyfloat \<Rightarrow> string \<Rightarrow> string \<Rightarrow> auth \<Rightarrow> auth \<times> (string \<times> string) py" where
  "auth_nonce now nonce address au =
     (if \<not> py_startswith address ''0x'' \<or> length address \<noteq> 42 then (au, Inl (HTTPException 400))
      else (let (au1, n) = generate_nonce now nonce address au in (au1, Inr (n, sign_message n))))"

definition auth_verify :: "recoverer \<Rightarrow> (claims \<Rightarrow> string) \<Rightarrow> pyfloat \<Rightarrow> string \<Rightarrow> string \<Rightarrow> string
    \<Rightarrow> auth \<Rightarrow> market_db \<Rightarrow> auth \<times> market_db \<times> (string \<times> account) py" where
  "auth_verify recover encode now address signature nonce au db =
     (let (au1, good) = verify_signature recover now address signature nonce au
      in if \<not> good then (au1, db, Inl (HTTPException 401))
         else (let (db1, acct) = get_or_create_by_eth_address now address db
               in case acct of
                    None \<Rightarrow> (au1, db1, Inl (HTTPException 500))
                  | Some a \<Rightarrow> (au1, db1, Inr (issue_jwt encode now address (acc_role a) (acc_id a), a))))"

definition http_of_exn :: "py_exn \<Rightarrow> py_exn" where
  "http_of_exn e = (case e of
     ValueError \<Rightarrow> HTTPException 400 | KeyError \<Rightarrow> HTTPException 404
   | RuntimeError \<Rightarrow> HTTPException 500 | _ \<Rightarrow> e)"

definition http_result :: "market_db \<times> 'a py \<Rightarrow> market_db \<times> 'a py" where
  "http_result r = (case r of (db, Inl e) \<Rightarrow> (db, Inl (http_of_exn e)) | (db, Inr x) \<Rightarrow> (db, Inr x))"

definition auth_register :: "pyfloat \<Rightarrow> string \<Rightarrow> string \<Rightarrow> string \<Rightarrow> string \<Rightarrow> pyfloat \<Rightarrow> market_db
    \<Rightarrow> market_db \<times> account py" where
  "auth_register now api_key account_id role eth_address balance db =
     http_result (register now api_key account_id role eth_address balance db)"

definition auth_login :: "pyfloat \<Rightarrow> string \<Rightarrow> string \<Rightarrow> market_db \<Rightarrow> market_db \<times> account py" where
  "auth_login now api_key account_id db = http_result (login now api_key account_id db)"

definition auth_me :: "decoder \<Rightarrow> auth \<Rightarrow> string \<Rightarrow> string \<Rightarrow> market_db \<Rightarrow> account py" where
  "auth_me jwt au x_api_key authorization db = get_current_account jwt au x_api_key authorization db"

text \<open>The optional caller of the balance and deposit routes: \<open>None\<close> when no credentials are sent
  or they resolve to nobody.\<close>

definition optional_caller :: "decoder \<Rightarrow> auth \<Rightarrow> string \<Rightarrow> string \<Rightarrow> market_db \<Rightarrow> account option" where
  "optional_caller jwt au x_api_key authorization db =
     (if x_api_key \<noteq> [] \<or> authorization \<noteq> [] then resolve_account jwt au x_api_key authorization db else None)"

definition may_act_for :: "account \<Rightarrow> string \<Rightarrow> bool" where
  "may_act_for caller account_id \<longleftrightarrow> acc_role caller = ''admin'' \<or> acc_id caller = account_id"

definition barred :: "account option \<Rightarrow> string \<Rightarrow> bool" where
  "barred caller account_id = (case caller of None \<Rightarrow> False | Some c \<Rightarrow> \<not> may_act_for c account_id)"

definition balance_route :: "decoder \<Rightarrow> auth \<Rightarrow> string \<Rightarrow> string \<Rightarrow> string \<Rightarrow> market_db \<Rightarrow> account py" where
  "balance_route jwt au x_api_key authorization account_id db =
     (if barred (optional_caller jwt au x_api_key authorization db) account_id then Inl (HTTPException 403)
      else case account_get account_id db of
        None \<Rightarrow> Inl (HTTPException 404)
      | Some a \<Rightarrow> Inr a)"

definition deposit_route :: "decoder \<Rightarrow> auth \<Rightarrow> string \<Rightarrow> string \<Rightarrow> pyfloat \<Rightarrow> string \<Rightarrow> pyfloat \<Rightarrow> market_db
    \<Rightarrow> market_db \<times> account py" where
  "deposit_route jwt au x_api_key authorization now account_id amount db =
     (if barred (optional_caller jwt au x_api_key authorization db) account_id then (db, Inl (HTTPException 403))
      else http_result (deposit now account_id amount db))"

definition withdraw_route :: "decoder \<Rightarrow> auth \<Rightarrow> string \<Rightarrow> string \<Rightarrow> pyfloat \<Rightarrow> string \<Rightarrow> pyfloat \<Rightarrow> market_db
    \<Rightarrow> market_db \<times> account py" where
  "withdraw_route jwt au x_api_key authorization now account_id amount db =
     (case get_current_account jwt au x_api_key authorization db of
        Inl e \<Rightarrow> (db, Inl e)
      | Inr caller \<Rightarrow>
          if \<not> may_act_for caller account_id then (db, Inl (HTTPException 403))
          else http_result (withdraw now account_id amount db))"

subsection \<open>Properties\<close>

lemma update_delete_None [simp]: "map_of (AList.delete k al) k = None"
  by (simp add: delete_conv')

text \<open>
  C23: a signed nonce logs in once: after \<open>verify_signature\<close> accepted an address, it refuses that
  address, whatever its case, whatever the signature and the nonce, until a new nonce is generated
  for it; and it accepts only a signature of the text with the stored nonce by that address,
  within the nonce's time.
\<close>

theorem nonce_single_use:
  assumes "verify_signature recover now address signature nonce au = (au', True)"
  shows "(\<exists>expires. map_of (au_nonces au) (py_lower address) = Some (nonce, expires) \<and> now \<le> expires) \<and>
    (\<exists>signer. recover (sign_message nonce) signature = Some signer \<and> py_lower signer = py_lower address) \<and>
    (py_lower other = py_lower address \<longrightarrow>
       verify_signature recover later other signature' nonce' au' = (au', False))"
  using assms
  by (auto simp: verify_signature_def Let_def split: option.splits if_splits)

definition sample_auth :: auth where
  "sample_auth = fst (generate_nonce 0 ''n1'' ''0xAB'' init_auth)"

theorem nonce_single_use_witness:
  "verify_signature (\<lambda>text s. Some s) 5 ''0xab'' ''0xaB'' ''n1'' (au_nonces_update (\<lambda>_. []) sample_auth)
     = (au_nonces_update (\<lambda>_. []) sample_auth, False)"
proof -
  have "verify_signature (\<lambda>text s. Some s) 3 ''0xAb'' ''0xaB'' ''n1'' sample_auth
      = (au_nonces_update (\<lambda>_. []) sample_auth, True)"
    by code_simp
  from nonce_single_use [OF this, of "''0xab''" 5 "''0xaB''" "''n1''"] show ?thesis
    by (simp add: py_lower_def lower_char_def is_upper_char_def char_code_def)
qed

definition balance_in :: "string \<Rightarrow> market_db \<Rightarrow> pyfloat option" where
  "balance_in i db = map_option acc_balance (account_get i db)"

lemma balance_in_Some: "account_get i db = Some a \<Longrightarrow> balance_in i db = Some (acc_balance a)"
  by (simp add: balance_in_def)

lemma balance_in_logged:
  assumes "account_get i db = Some a"
  shows "balance_in j (commit ((update_balance now i b db)\<lparr>transactions := ts\<rparr>)) =
    (if j = i then Some b else balance_in j db)"
proof -
  have upd: "map_option acc_balance (find (\<lambda>a. acc_id a = j) (update_rows (\<lambda>a. acc_id a = i)
       (\<lambda>a. a\<lparr>acc_balance := b, acc_updated_at := now\<rparr>) as)) =
     (if j = i then map_option (\<lambda>_. b) (find (\<lambda>a. acc_id a = j) as)
      else map_option acc_balance (find (\<lambda>a. acc_id a = j) as))" for as
    by (induction as) auto
  have "accounts (commit ((update_balance now i b db)\<lparr>transactions := ts\<rparr>)) = update_rows (\<lambda>a. acc_id a = i)
      (\<lambda>a. a\<lparr>acc_balance := b, acc_updated_at := now\<rparr>) (accounts db)"
    by (simp add: update_balance_def row_simps)
  with assms show ?thesis by (simp only: account_get_def balance_in_def upd) auto
qed

text \<open>
  C24: the withdrawal route changes the database only for an authenticated caller that is the
  administrator or the owner of the account, only for a positive amount that the account holds, and
  then it takes exactly that amount (rounded once) from that account, leaves the balances of the
  others and logs the withdrawal; every refusal is a 400, 401, 403 or 404.
\<close>

theorem withdraw_authorised:
  assumes "withdraw_route jwt au key authorization now i amount db = (db', r)"
  shows "(case r of
      Inl e \<Rightarrow> db' = db \<and> e \<in> {HTTPException 400, HTTPException 401, HTTPException 403, HTTPException 404}
    | Inr _ \<Rightarrow> (\<exists>caller b.
        resolve_account jwt au key authorization db = Some caller \<and> (acc_role caller = ''admin'' \<or> acc_id caller = i) \<and>
        balance_in i db = Some b \<and> 0 < amount \<and> amount \<le> b \<and>
        (\<forall>j. balance_in j db' = (if j = i then Some (fl (b - amount)) else balance_in j db)) \<and>
        transactions db' = transactions db @ [tx_row now i TxWithdraw amount []]))"
  using assms
  by (auto simp: withdraw_route_def get_current_account_def may_act_for_def http_result_def http_of_exn_def
      withdraw_eq balance_in_logged balance_in_Some row_simps split: option.splits if_splits)

definition sample_accounts_db :: market_db where
  "sample_accounts_db = account_setup_defaults 0 empty_db"

theorem withdraw_authorised_witness:
  "balance_in ''consumer-2''
     (fst (withdraw_route (\<lambda>_. None) init_auth default_admin_key [] 1 ''consumer-2'' 20 sample_accounts_db)) = Some 480"
proof -
  let ?run = "withdraw_route (\<lambda>_. None) init_auth default_admin_key [] 1 ''consumer-2'' 20 sample_accounts_db"
  have "\<not> isl (snd ?run)" "balance_in ''consumer-2'' sample_accounts_db = Some 500" "fl (500 - 20) = 480"
    by code_simp+
  moreover obtain db' r where run: "?run = (db', r)" by fastforce
  ultimately show ?thesis
    using withdraw_authorised [OF run] by (auto split: sum.splits)
qed

text \<open>
  Two wallets whose addresses agree in their first ten characters share an account: when the
  first has one under the id derived from its address, a valid signature of the second, which has
  no account of its own, is answered with a token for the account of the first.
\<close>

theorem wallet_account_collision:
  assumes "verify_signature recover now address2 signature nonce au = (au', True)"
    and "account_get_by_eth_address address2 db = None"
    and "account_get (wallet_account_id address1) db = Some a"
    and "py_lower (take 10 address2) = py_lower (take 10 address1)"
  shows "auth_verify recover encode now address2 signature nonce au db =
    (au', commit db, Inr (issue_jwt encode now address2 (acc_role a) (acc_id a), a))"
  using assms
  by (simp add: auth_verify_def get_or_create_by_eth_address_def wallet_account_id_def account_create_def
      account_get_def row_simps)

definition wallet_db :: market_db where
  "wallet_db = fst (get_or_create_by_eth_address 0 ''0x12345678aaaa'' empty_db)"

definition wallet_auth :: auth where
  "wallet_auth = fst (generate_nonce 0 ''n1'' ''0x12345678bbbb'' init_auth)"

theorem wallet_account_collision_witness:
  "map_option acc_eth_address (account_get ''wallet-0x12345678'' wallet_db) = Some ''0x12345678aaaa'' \<and>
   (\<exists>a. snd (snd (auth_verify (\<lambda>text s. Some s) (\<lambda>c. c_account_id c) 1 ''0x12345678bbbb'' ''0x12345678bbbb''
      ''n1'' wallet_auth wallet_db)) = Inr (''wallet-0x12345678'', a) \<and> acc_eth_address a = ''0x12345678aaaa'')"
proof -
  have v: "verify_signature (\<lambda>text s. Some s) 1 ''0x12345678bbbb'' ''0x12345678bbbb'' ''n1'' wallet_auth
      = (fst (verify_signature (\<lambda>text s. Some s) 1 ''0x12345678bbbb'' ''0x12345678bbbb'' ''n1'' wallet_auth), True)"
    by code_simp
  have n: "account_get_by_eth_address ''0x12345678bbbb'' wallet_db = None" by code_simp
  have e: "map_option acc_eth_address (account_get (wallet_account_id ''0x12345678aaaa'') wallet_db)
      = Some ''0x12345678aaaa''" by code_simp
  then obtain a where a: "account_get (wallet_account_id ''0x12345678aaaa'') wallet_db = Some a"
      "acc_eth_address a = ''0x12345678aaaa''" by auto
  have w: "wallet_account_id ''0x12345678aaaa'' = ''wallet-0x12345678''"
      "py_lower (take 10 ''0x12345678bbbb'') = py_lower (take 10 ''0x12345678aaaa'')"
    by code_simp+
  from account_get_Some [OF a(1)] a w show ?thesis
    using wallet_account_collision [OF v n a(1) w(2), where encode = "\<lambda>c. c_account_id c"]
    by (simp add: issue_jwt_def)
qed

end
