(* ===== verification/Pricing.thy ===== *)
theory Pricing
  imports MarketInv "HOL-Library.Multiset"
begin

text \<open>
  Prices (\<open>pricing.py\<close>): what a provider sets, what is suggested for the hardware, the listing of
  the marketplace and the estimate a consumer sees; and the reputation score
  (\<open>reputation.py\<close>).
\<close>

subsection \<open>Python's \<open>float\<close> of a text\<close>

datatype parsed = PNum pyfloat | PInf bool | PNan

text \<open>Digits with single underscores between them, and what follows.\<close>

function digit_part :: "string \<Rightarrow> string \<times> string" where
  "digit_part [] = ([], [])"
| "digit_part (c # s) =
     (if is_digit_char c
      then (let (ds, r) = digit_part (case s of u # d # t \<Rightarrow>
                    if u = CHR ''_'' \<and> is_digit_char d then d # t else s | _ \<Rightarrow> s)
            in (c # ds, r))
      else ([], c # s))"
  by pat_completeness auto
termination
  by (relation "measure length") (auto split: list.split)

definition digits_nat :: "string \<Rightarrow> nat" where
  "digits_nat ds = foldl (\<lambda>n c. 10 * n + (char_code c - 48)) 0 ds"

definition split_sign :: "string \<Rightarrow> bool \<times> string" where
  "split_sign s = (case s of
     [] \<Rightarrow> (False, [])
   | c # t \<Rightarrow> if c = CHR ''-'' then (True, t) else if c = CHR ''+'' then (False, t) else (False, s))"

definition parse_exponent :: "string \<Rightarrow> int option" where
  "parse_exponent s = (case s of
     [] \<Rightarrow> Some 0
   | c # t \<Rightarrow>
       if lower_char c \<noteq> CHR ''e'' then None
       else (let (neg, u) = split_sign t; (ds, r) = digit_part u
             in if ds = [] \<or> r \<noteq> [] then None
                else Some (if neg then - int (digits_nat ds) else int (digits_nat ds))))"

definition scale10 :: "nat \<Rightarrow> int \<Rightarrow> pyfloat" where
  "scale10 m e = (if e \<ge> 0 then of_nat (m * 10 ^ nat e) else of_nat m / of_nat (10 ^ nat (- e)))"

definition parse_number :: "string \<Rightarrow> pyfloat option" where
  "parse_number s =
     (let (whole, r) = digit_part s;
          (frac, r2) = (case r of c # t \<Rightarrow> if c = CHR ''.'' then digit_part t else ([], r) | [] \<Rightarrow> ([], r))
      in if whole = [] \<and> frac = [] then None
         else case parse_exponent r2 of
           None \<Rightarrow> None
         | Some e \<Rightarrow> Some (scale10 (digits_nat (whole @ frac)) (e - int (length frac))))"

definition py_float_text :: "string \<Rightarrow> parsed option" where
  "py_float_text s =
     (let (neg, t) = split_sign (py_strip s); l = py_lower t
      in if l = ''inf'' \<or> l = ''infinity'' then Some (PInf neg)
         else if l = ''nan'' then Some PNan
         else map_option (\<lambda>q. PNum (fl (if neg then - q else q))) (parse_number t))"

definition at_least :: "parsed \<Rightarrow> pyfloat \<Rightarrow> bool" where
  "at_least x b = (case x of PNum q \<Rightarrow> q \<ge> b | PInf neg \<Rightarrow> \<not> neg | PNan \<Rightarrow> False)"

subsection \<open>Setting and suggesting prices\<close>

definition default_price_per_min :: pyfloat where
  "default_price_per_min = fl (60 / 100)"

definition set_pricing :: "string \<Rightarrow> pyfloat \<Rightarrow> int \<Rightarrow> int \<Rightarrow> market_db \<Rightarrow> market_db \<times> worker option py" where
  "set_pricing worker_id price min_duration max_duration db =
     (if worker_get worker_id db = None then (db, Inr None)
      else if price < 0 then (db, Inl ValueError)
      else if min_duration < 1 then (db, Inl ValueError)
      else if max_duration < min_duration then (db, Inl ValueError)
      else (let db' = worker_update_pricing worker_id price min_duration max_duration db
            in (db', Inr (worker_get worker_id db'))))"

record pricing =
  pr_worker_id :: string
  pr_price_per_min :: pyfloat
  pr_min_duration :: int
  pr_max_duration :: int
  pr_gpu_count :: int
  pr_total_memory_gb :: int
  pr_hashrate :: pyfloat

definition extract_pricing :: "worker \<Rightarrow> pricing" where
  "extract_pricing w = \<lparr>pr_worker_id = w_id w, pr_price_per_min = w_price_per_min w,
     pr_min_duration = w_min_duration_sec w, pr_max_duration = w_max_duration_sec w,
     pr_gpu_count = w_gpu_count w, pr_total_memory_gb = w_total_memory_gb w, pr_hashrate = w_hashrate w\<rparr>"

definition get_pricing :: "string \<Rightarrow> market_db \<Rightarrow> pricing option" where
  "get_pricing worker_id db = map_option extract_pricing (worker_get worker_id db)"

definition gpu_pricing_suggestions :: "(string \<times> pyfloat) list" where
  "gpu_pricing_suggestions =
     [(''RTX 4090'', fl (120 / 100)), (''RTX 4080'', fl (90 / 100)), (''RTX 4070'', fl (60 / 100)),
      (''RTX 3090'', fl (80 / 100)), (''RTX 3080'', fl (55 / 100)), (''RTX 3070'', fl (40 / 100)),
      (''RTX 3060'', fl (25 / 100)), (''A100'', 2), (''H100'', fl (350 / 100))]"

definition gpu_memory :: "gpu \<Rightarrow> parsed" where
  "gpu_memory g =
     (case (case g_memory_gb g of Some m \<Rightarrow> m | None \<Rightarrow> dflt (MemNum 0) (g_total_memory g)) of
        MemNum q \<Rightarrow> PNum q
      | MemText s \<Rightarrow> (case py_float_text s of None \<Rightarrow> PNum 0 | Some p \<Rightarrow> p))"

definition gpu_price :: "gpu \<Rightarrow> pyfloat" where
  "gpu_price g =
     (let name = py_upper (dflt [] (g_name g)) in
      case find (\<lambda>(key, price). py_in (py_upper key) name) gpu_pricing_suggestions of
        Some (key, price) \<Rightarrow> price
      | None \<Rightarrow>
          (let mem = gpu_memory g in
           if at_least mem 80 then 2
           else if at_least mem 24 then fl (80 / 100)
           else if at_least mem 12 then fl (40 / 100)
           else fl (20 / 100)))"

definition suggest_price_for_worker :: "worker \<Rightarrow> pyfloat" where
  "suggest_price_for_worker w =
     (if w_gpus w = []
      then (if w_total_memory_gb w \<ge> 80 then fl (2 * fint (w_gpu_count w))
            else if w_total_memory_gb w \<ge> 24 then fl (fl (80 / 100) * fint (w_gpu_count w))
            else if w_total_memory_gb w \<ge> 12 then fl (fl (40 / 100) * fint (w_gpu_count w))
            else default_price_per_min)
      else (let s = foldl (\<lambda>t g. fl (t + gpu_price g)) 0 (w_gpus w)
            in if s > 0 then s else default_price_per_min))"

definition suggest_pricing :: "string \<Rightarrow> market_db \<Rightarrow> (pyfloat \<times> worker) option" where
  "suggest_pricing worker_id db =
     map_option (\<lambda>w. (py_round_n 4 (suggest_price_for_worker w), w)) (worker_get worker_id db)"

subsection \<open>The marketplace\<close>

record listing_filter =
  lf_gpu_type :: "string option"
  lf_min_hashrate :: "pyfloat option"
  lf_max_price :: "pyfloat option"
  lf_min_gpus :: "int option"
  lf_available_only :: bool

definition join_names :: "gpu list \<Rightarrow> string" where
  "join_names gs = (case map (\<lambda>g. dflt [] (g_name g)) gs of
     [] \<Rightarrow> [] | n # ns \<Rightarrow> n @ concat (map (\<lambda>m. '' '' @ m) ns))"

definition listed :: "listing_filter \<Rightarrow> worker \<Rightarrow> bool" where
  "listed f w \<longleftrightarrow>
     \<not> (lf_available_only f \<and> w_state w \<noteq> ''AVAILABLE'') \<and>
     (case lf_gpu_type f of None \<Rightarrow> True
      | Some t \<Rightarrow> t = [] \<or> py_in (py_lower t) (py_lower (join_names (w_gpus w)))) \<and>
     (case lf_min_hashrate f of None \<Rightarrow> True | Some h \<Rightarrow> \<not> w_hashrate w < h) \<and>
     (case lf_min_gpus f of None \<Rightarrow> True | Some n \<Rightarrow> \<not> w_gpu_count w < n) \<and>
     (case lf_max_price f of None \<Rightarrow> True | Some p \<Rightarrow> \<not> w_price_per_min w > p)"

text \<open>\<open>sort(reverse=True)\<close> keeps the order of equal elements.\<close>

definition sort_listing :: "string \<Rightarrow> worker list \<Rightarrow> worker list" where
  "sort_listing sort_by ws =
     (if sort_by = ''price'' then sort_key w_price_per_min ws
      else if sort_by = ''hashrate'' then sort_key (\<lambda>w. - w_hashrate w) ws
      else if sort_by = ''gpus'' then sort_key (\<lambda>w. - w_gpu_count w) ws
      else if sort_by = ''memory'' then sort_key (\<lambda>w. - w_total_memory_gb w) ws
      else ws)"

definition browse_marketplace :: "string \<Rightarrow> listing_filter \<Rightarrow> market_db \<Rightarrow> worker list" where
  "browse_marketplace sort_by f db = sort_listing sort_by (filter (listed f) (workers db))"

record estimate =
  es_worker :: string
  es_duration_sec :: int
  es_price_per_min :: pyfloat
  es_total_cost :: pyfloat
  es_provider_payout :: pyfloat
  es_platform_fee :: pyfloat
  es_hashrate :: pyfloat
  es_min_duration :: int
  es_max_duration :: int
  es_below_minimum :: bool
  es_above_maximum :: bool

definition estimate_for :: "int \<Rightarrow> worker \<Rightarrow> estimate" where
  "estimate_for duration w =
     (let duration_min = fl (fint duration / 60);
          total_cost = fl (w_price_per_min w * duration_min)
      in \<lparr>es_worker = w_id w, es_duration_sec = duration, es_price_per_min = py_round_n 4 (w_price_per_min w),
          es_total_cost = py_round_n 4 total_cost,
          es_provider_payout = py_round_n 4 (fl (total_cost * provider_share)),
          es_platform_fee = py_round_n 4 (fl (total_cost * platform_share)),
          es_hashrate = w_hashrate w, es_min_duration = w_min_duration_sec w,
          es_max_duration = w_max_duration_sec w,
          es_below_minimum = (duration < w_min_duration_sec w),
          es_above_maximum = (\<not> duration < w_min_duration_sec w \<and> duration > w_max_duration_sec w)\<rparr>)"

definition estimate_cost :: "int \<Rightarrow> string option \<Rightarrow> pyfloat option \<Rightarrow> market_db \<Rightarrow> estimate option" where
  "estimate_cost duration worker_id min_hashrate db =
     (if dflt [] worker_id \<noteq> [] then map_option (estimate_for duration) (worker_get (dflt [] worker_id) db)
      else (case browse_marketplace ''price'' \<lparr>lf_gpu_type = None, lf_min_hashrate = min_hashrate,
                   lf_max_price = None, lf_min_gpus = None, lf_available_only = True\<rparr> db of
              [] \<Rightarrow> None
            | w # _ \<Rightarrow> Some (estimate_for duration w)))"

subsection \<open>Reputation\<close>

record breakdown =
  bd_block_score :: pyfloat
  bd_verified_blocks :: nat
  bd_completion_score :: pyfloat
  bd_completed :: nat
  bd_total_leases :: nat
  bd_uptime_score :: pyfloat
  bd_age_score :: pyfloat

definition count_verified_blocks :: "string \<Rightarrow> market_db \<Rightarrow> nat" where
  "count_verified_blocks worker_id db =
     length (filter (\<lambda>b. b_worker b = worker_id \<and> b_chain_verified b) (blocks_get_all None 0 db))"

definition count_leases :: "pyfloat \<Rightarrow> string \<Rightarrow> market_db \<Rightarrow> nat \<times> nat" where
  "count_leases now worker_id db =
     (let ls = filter (\<lambda>l. l_worker l = worker_id) (lease_list_all now None None 0 db)
      in (length (filter (\<lambda>l. l_state l = Completed) ls), length ls))"

definition calculate_breakdown :: "pyfloat \<Rightarrow> worker \<Rightarrow> market_db \<Rightarrow> breakdown" where
  "calculate_breakdown now w db =
     (let verified = count_verified_blocks (w_id w) db;
          block_ratio = min (fdivi (int verified) 100) 1;
          (completed, total_leases) = count_leases now (w_id w) db;
          completion_ratio = (if total_leases > 0 then fdivi (int completed) (int total_leases) else 1);
          total_time = max (fl (now - w_registered_at w)) 1;
          uptime_ratio = min (fl (w_total_online_sec w / total_time)) 1;
          days = fl (fl (now - w_registered_at w) / 86400);
          age_ratio = min (fl (days / 90)) 1
      in \<lparr>bd_block_score = py_round_n 2 (fl (block_ratio * 40)), bd_verified_blocks = verified,
          bd_completion_score = py_round_n 2 (fl (completion_ratio * 30)), bd_completed = completed,
          bd_total_leases = total_leases, bd_uptime_score = py_round_n 2 (fl (uptime_ratio * 20)),
          bd_age_score = py_round_n 2 (fl (age_ratio * 10))\<rparr>)"

record reputation =
  rp_score :: pyfloat
  rp_stars :: pyfloat
  rp_breakdown :: breakdown

definition get_score :: "pyfloat \<Rightarrow> string \<Rightarrow> market_db \<Rightarrow> reputation option" where
  "get_score now worker_id db =
     (case worker_get worker_id db of
        None \<Rightarrow> None
      | Some w \<Rightarrow>
          (let b = calculate_breakdown now w db;
               s = fl (fl (fl (bd_block_score b + bd_completion_score b) + bd_uptime_score b) + bd_age_score b);
               score = py_round_n 2 (min s 100)
           in Some \<lparr>rp_score = score, rp_stars = py_round_n 1 (fl (score / 20)), rp_breakdown = b\<rparr>))"

definition get_score_value :: "pyfloat \<Rightarrow> string \<Rightarrow> market_db \<Rightarrow> pyfloat" where
  "get_score_value now worker_id db = (case get_score now worker_id db of None \<Rightarrow> 0 | Some r \<Rightarrow> rp_score r)"

subsection \<open>Properties\<close>

lemma sort_listing_mset: "mset (sort_listing sort_by ws) = mset ws"
  by (simp add: sort_listing_def)

text \<open>
  The marketplace lists exactly the registered workers that pass the filters, each once, in the
  order asked for: by rising price, or by falling hash rate, number of GPUs or memory; with any
  other key in the order of registration.
\<close>

theorem marketplace_listing:
  "mset (browse_marketplace sort_by f db) = mset (filter (listed f) (workers db)) \<and>
   (sort_by = ''price'' \<longrightarrow> sorted (map w_price_per_min (browse_marketplace sort_by f db))) \<and>
   (sort_by = ''hashrate'' \<longrightarrow> sorted (map (\<lambda>w. - w_hashrate w) (browse_marketplace sort_by f db))) \<and>
   (sort_by = ''gpus'' \<longrightarrow> sorted (map (\<lambda>w. - w_gpu_count w) (browse_marketplace sort_by f db))) \<and>
   (sort_by = ''memory'' \<longrightarrow> sorted (map (\<lambda>w. - w_total_memory_gb w) (browse_marketplace sort_by f db))) \<and>
   (sort_by \<notin> {''price'', ''hashrate'', ''gpus'', ''memory''} \<longrightarrow>
      browse_marketplace sort_by f db = filter (listed f) (workers db))"
  unfolding browse_marketplace_def sort_listing_mset
  by (intro conjI impI refl) (simp_all add: sort_listing_def)

definition sample_worker :: "string \<Rightarrow> pyfloat \<Rightarrow> worker" where
  "sample_worker i price = \<lparr>w_id = i, w_eth_address = [], w_gpu_count = 1, w_total_memory_gb = 24,
     w_gpus = [\<lparr>g_name = Some ''NVIDIA RTX 4090'', g_memory_gb = None, g_total_memory = None\<rparr>],
     w_version = [], w_state = ''AVAILABLE'', w_hashrate = 10, w_active_gpus = 1, w_last_heartbeat = 0,
     w_registered_at = 0, w_price_per_min = price, w_min_duration_sec = 60, w_max_duration_sec = 86400,
     w_total_online_sec = 0, w_last_online_at = None, w_self_blocks_found = 0\<rparr>"

definition any_listing :: listing_filter where
  "any_listing = \<lparr>lf_gpu_type = Some ''4090'', lf_min_hashrate = None, lf_max_price = None,
     lf_min_gpus = None, lf_available_only = True\<rparr>"

theorem marketplace_listing_witness:
  "map w_id (browse_marketplace ''price'' any_listing
     (empty_db\<lparr>workers := [sample_worker ''a'' 2, sample_worker ''b'' 1]\<rparr>)) = [''b'', ''a'']
   \<and> sorted (map w_price_per_min (browse_marketplace ''price'' any_listing
     (empty_db\<lparr>workers := [sample_worker ''a'' 2, sample_worker ''b'' 1]\<rparr>)))"
proof (rule conjI)
  show "map w_id (browse_marketplace ''price'' any_listing
     (empty_db\<lparr>workers := [sample_worker ''a'' 2, sample_worker ''b'' 1]\<rparr>)) = [''b'', ''a'']" by code_simp
qed (use marketplace_listing [where sort_by = "''price''" and f = any_listing] in blast)

text \<open>
  An estimate without a worker is for an available worker with the hash rate asked for, and no
  other such worker is cheaper; there is no estimate exactly when no worker qualifies.
\<close>

theorem estimate_takes_cheapest:
  assumes "dflt [] worker_id = []"
  shows "(case estimate_cost duration worker_id min_hashrate db of
      None \<Rightarrow> \<not> (\<exists>w \<in> set (workers db). w_state w = ''AVAILABLE'' \<and> dflt (w_hashrate w) min_hashrate \<le> w_hashrate w)
    | Some e \<Rightarrow> (\<exists>w \<in> set (workers db). e = estimate_for duration w \<and> w_state w = ''AVAILABLE'' \<and>
        dflt (w_hashrate w) min_hashrate \<le> w_hashrate w \<and>
        (\<forall>v \<in> set (workers db). w_state v = ''AVAILABLE'' \<longrightarrow> dflt (w_hashrate v) min_hashrate \<le> w_hashrate v \<longrightarrow>
           w_price_per_min w \<le> w_price_per_min v)))"
proof -
  let ?f = "\<lparr>lf_gpu_type = None, lf_min_hashrate = min_hashrate, lf_max_price = None, lf_min_gpus = None,
      lf_available_only = True\<rparr>"
  let ?ls = "browse_marketplace ''price'' ?f db"
  have listed: "listed ?f w \<longleftrightarrow> w_state w = ''AVAILABLE'' \<and> dflt (w_hashrate w) min_hashrate \<le> w_hashrate w" for w
    by (auto simp: listed_def dflt_def split: option.split)
  have set: "set ?ls = {w \<in> set (workers db). listed ?f w}" by (simp add: browse_marketplace_def sort_listing_def)
  have sorted: "sorted (map w_price_per_min ?ls)" by (simp add: browse_marketplace_def sort_listing_def)
  show ?thesis
  proof (cases ?ls)
    case Nil
    with set have "\<not> (\<exists>w \<in> set (workers db). listed ?f w)" by auto
    with Nil assms show ?thesis by (simp add: estimate_cost_def listed)
  next
    case (Cons w ws)
    have "w \<in> set (workers db)" "listed ?f w" using set Cons by auto
    moreover have "w_price_per_min w \<le> w_price_per_min v" if "v \<in> set (workers db)" "listed ?f v" for v
      using that set sorted Cons by auto
    ultimately show ?thesis using Cons assms by (auto simp: estimate_cost_def listed)
  qed
qed

theorem estimate_takes_cheapest_witness:
  "map_option es_worker (estimate_cost 60 None (Some 5)
     (empty_db\<lparr>workers := [sample_worker ''a'' 2, sample_worker ''b'' 1]\<rparr>)) = Some ''b''"
proof -
  let ?db = "empty_db\<lparr>workers := [sample_worker ''a'' 2, sample_worker ''b'' 1]\<rparr>"
  have ws: "workers ?db = [sample_worker ''a'' 2, sample_worker ''b'' 1]" by simp
  show ?thesis
    using estimate_takes_cheapest [where worker_id = None and duration = 60 and min_hashrate = "Some 5" and db = ?db]
    by (auto simp: ws dflt_def sample_worker_def estimate_for_def Let_def split: option.splits)
qed

lemma unit_ratio: "0 \<le> x \<Longrightarrow> 0 \<le> min (fl x) 1 \<and> min (fl x) 1 \<le> 1"
  by (simp add: dbl.nonneg min_def)

lemma weighted_bounds:
  assumes "0 \<le> r" "r \<le> 1" "0 \<le> k" "k \<le> 100"
  shows "0 \<le> py_round_n 2 (fl (r * of_int k)) \<and> py_round_n 2 (fl (r * of_int k)) \<le> of_int k"
proof -
  have k: "fl (of_int k) = of_int k" "py_round_n 2 (of_int k) = of_int k" "py_round_n 2 0 = 0"
    using assms fl_of_int [of k] py_round_n_of_int [of k 2] py_round_n_of_int [of 0 2] by simp_all
  have "0 \<le> r * of_int k" "r * of_int k \<le> of_int k" using assms by (simp_all add: mult_left_le_one_le)
  then have "0 \<le> fl (r * of_int k)" "fl (r * of_int k) \<le> of_int k"
    using dbl.nonneg fl_mono [of "r * of_int k" "of_int k"] k(1) by simp_all
  then have "py_round_n 2 0 \<le> py_round_n 2 (fl (r * of_int k))"
      "py_round_n 2 (fl (r * of_int k)) \<le> py_round_n 2 (of_int k)"
    by (simp_all add: py_round_n_mono)
  with k show ?thesis by simp
qed

text \<open>
  The reputation of a worker that registered in the past lies between 0 and 100 points, its
  four parts between 0 and their weights of 40, 30, 20 and 10, and its stars between 0 and 5.
\<close>

theorem reputation_bounds:
  assumes "get_score now i db = Some r" "\<And>w. w \<in> set (workers db) \<Longrightarrow> w_registered_at w \<le> now \<and> 0 \<le> w_total_online_sec w"
  shows "0 \<le> rp_score r \<and> rp_score r \<le> 100 \<and> 0 \<le> rp_stars r \<and> rp_stars r \<le> 5 \<and>
    (let b = rp_breakdown r in
      0 \<le> bd_block_score b \<and> bd_block_score b \<le> 40 \<and> 0 \<le> bd_completion_score b \<and> bd_completion_score b \<le> 30 \<and>
      0 \<le> bd_uptime_score b \<and> bd_uptime_score b \<le> 20 \<and> 0 \<le> bd_age_score b \<and> bd_age_score b \<le> 10)"
proof -
  obtain w where w: "worker_get i db = Some w" and r: "rp_breakdown r = calculate_breakdown now w db"
    using assms(1) by (auto simp: get_score_def Let_def split: option.splits)
  let ?b = "calculate_breakdown now w db"
  have "w \<in> set (workers db)" using w unfolding worker_get_def by (blast dest: find_pred_Some)
  with assms(2) have reg: "w_registered_at w \<le> now" and online: "0 \<le> w_total_online_sec w" by auto
  have age: "0 \<le> fl (now - w_registered_at w)" using reg by (simp add: dbl.nonneg)
  have ratios: "0 \<le> min (fdivi (int n) 100) 1 \<and> min (fdivi (int n) 100) 1 \<le> 1"
    "0 \<le> min (fl (w_total_online_sec w / max (fl (now - w_registered_at w)) 1)) 1 \<and>
     min (fl (w_total_online_sec w / max (fl (now - w_registered_at w)) 1)) 1 \<le> 1"
    "0 \<le> min (fl (fl (fl (now - w_registered_at w) / 86400) / 90)) 1 \<and>
     min (fl (fl (fl (now - w_registered_at w) / 86400) / 90)) 1 \<le> 1" for n
    unfolding fdivi_def by (rule unit_ratio, use online age in \<open>simp add: dbl.nonneg\<close>)+
  obtain c t where ct: "count_leases now (w_id w) db = (c, t)" by fastforce
  then have "c = length (filter (\<lambda>l. l_state l = Completed)
        (filter (\<lambda>l. l_worker l = w_id w) (lease_list_all now None None 0 db)))"
      "t = length (filter (\<lambda>l. l_worker l = w_id w) (lease_list_all now None None 0 db))"
    by (simp_all add: count_leases_def Let_def)
  then have "c \<le> t" by (simp only: length_filter_le)
  then have done_ratio: "0 \<le> (if t > 0 then fdivi (int c) (int t) else 1) \<and>
      (if t > 0 then fdivi (int c) (int t) else 1) \<le> 1"
    using fl_mono [of "of_int (int c) / of_int (int t)" 1] by (simp add: fdivi_def dbl.nonneg)
  have parts: "0 \<le> bd_block_score ?b \<and> bd_block_score ?b \<le> 40" "0 \<le> bd_completion_score ?b \<and> bd_completion_score ?b \<le> 30"
    "0 \<le> bd_uptime_score ?b \<and> bd_uptime_score ?b \<le> 20" "0 \<le> bd_age_score ?b \<and> bd_age_score ?b \<le> 10"
    using weighted_bounds [of _ 40] weighted_bounds [of _ 30] weighted_bounds [of _ 20] weighted_bounds [of _ 10]
      ratios done_ratio
    by (simp_all add: calculate_breakdown_def Let_def ct)
  let ?s = "fl (fl (fl (bd_block_score ?b + bd_completion_score ?b) + bd_uptime_score ?b) + bd_age_score ?b)"
  have s: "0 \<le> ?s" using parts by (simp add: dbl.nonneg)
  have score: "rp_score r = py_round_n 2 (min ?s 100)" "rp_stars r = py_round_n 1 (fl (rp_score r / 20))"
    using assms(1) w by (auto simp: get_score_def Let_def)
  have c100: "py_round_n 2 100 = 100" "py_round_n 2 0 = 0" "py_round_n 1 5 = 5" "py_round_n 1 0 = 0"
    using py_round_n_of_int [of 100 2] py_round_n_of_int [of 0 2] py_round_n_of_int [of 5 1] py_round_n_of_int [of 0 1]
    by simp_all
  have range: "0 \<le> rp_score r" "rp_score r \<le> 100"
    unfolding score(1) using py_round_n_mono [of 0 "min ?s 100" 2] py_round_n_mono [of "min ?s 100" 100 2] s c100
    by simp_all
  then have "0 \<le> fl (rp_score r / 20)" "fl (rp_score r / 20) \<le> 5"
    using fl_mono [of "rp_score r / 20" 5] fl_of_int [of 5] by (simp_all add: dbl.nonneg)
  then have "0 \<le> rp_stars r \<and> rp_stars r \<le> 5"
    unfolding score(2) using py_round_n_mono [of 0 "fl (rp_score r / 20)" 1] py_round_n_mono [of "fl (rp_score r / 20)" 5 1] c100
    by simp
  with range parts r show ?thesis by simp
qed

theorem reputation_bounds_witness:
  "0 \<le> get_score_value 100 ''a'' (empty_db\<lparr>workers := [sample_worker ''a'' 2]\<rparr>)
   \<and> get_score_value 100 ''a'' (empty_db\<lparr>workers := [sample_worker ''a'' 2]\<rparr>) \<le> 100"
proof -
  let ?db = "empty_db\<lparr>workers := [sample_worker ''a'' 2]\<rparr>"
  have "worker_get ''a'' ?db = Some (sample_worker ''a'' 2)" by (simp add: worker_get_def sample_worker_def)
  then obtain r where r: "get_score 100 ''a'' ?db = Some r" by (auto simp: get_score_def Let_def)
  have "w_registered_at w \<le> 100 \<and> 0 \<le> w_total_online_sec w" if "w \<in> set (workers ?db)" for w
    using that by (simp add: sample_worker_def)
  from reputation_bounds [OF r this] show ?thesis unfolding get_score_value_def r by simp
qed

end
