(* ===== verification/Server.thy ===== *)
theory Server
  imports Watcher Auth Pricing
begin

text \<open>
  The platform server (\<open>server.py\<close>, \<open>routers/rental.py\<close>, and the pricing route of
  \<open>routers/provider.py\<close>): the dispatch of MQTT messages, the rental and pricing routes, the watchdog, and the sequences of events the server handles.  An event runs
  to its end before the next one starts; the last section takes the handlers apart at their
  \<open>await\<close>s.
\<close>

subsection \<open>MQTT dispatch\<close>

definition is_word_char :: "char \<Rightarrow> bool" where
  "is_word_char c \<longleftrightarrow> is_digit_char c \<or> is_upper_char c \<or> is_lower_char c \<or> c = CHR ''_''"

text \<open>The pattern's end anchor also matches before a final newline.\<close>

definition drop_newline :: "string \<Rightarrow> string" where
  "drop_newline s = (if s \<noteq> [] \<and> last s = CHR 0x0A then butlast s else s)"

definition parse_topic :: "string \<Rightarrow> (string \<times> string) option" where
  "parse_topic topic =
     (case split_on (CHR ''/'') topic of
        [a, worker, msg_type] \<Rightarrow>
          (let t = drop_newline msg_type in
           if a = ''xenminer'' \<and> worker \<noteq> [] \<and> t \<noteq> [] \<and> (\<forall>c \<in> set t. is_word_char c)
           then Some (worker, t) else None)
      | _ \<Rightarrow> None)"

text \<open>The payload is one JSON object; the two records are its keys as the services read them.\<close>

definition on_mqtt_message :: "pyfloat \<Rightarrow> chain option \<Rightarrow> string \<Rightarrow> worker_msg \<Rightarrow> block_msg \<Rightarrow> platform \<Rightarrow> platform" where
  "on_mqtt_message now chain topic msg block p =
     (case parse_topic topic of
        None \<Rightarrow> p
      | Some (worker, msg_type) \<Rightarrow>
          if msg_type = ''register'' then fst (register_worker now msg p)
          else if msg_type = ''heartbeat'' then update_heartbeat now msg p
          else if msg_type = ''status'' then update_worker_state msg p
          else if msg_type = ''block'' then on_db (handle_block_found now chain block worker) p
          else p)"

subsection \<open>Rental routes\<close>

record rent_request =
  rq_consumer_id :: string
  rq_consumer_address :: string
  rq_duration_sec :: int
  rq_worker_id :: "string option"

definition rent_route :: "account option \<Rightarrow> pyfloat \<Rightarrow> string \<Rightarrow> string \<Rightarrow> rent_request \<Rightarrow> platform
    \<Rightarrow> platform \<times> lease_view py" where
  "rent_route caller now lease_id prefix req p =
     (if (case caller of None \<Rightarrow> False | Some c \<Rightarrow> acc_role c \<notin> {''consumer'', ''admin''})
      then (p, Inl (HTTPException 403))
      else
        (let consumer = (if rq_consumer_id req \<noteq> [] then rq_consumer_id req
                         else (case caller of None \<Rightarrow> [] | Some c \<Rightarrow> acc_id c));
             address = (if rq_consumer_address req \<noteq> [] then rq_consumer_address req
                        else (case caller of None \<Rightarrow> [] | Some c \<Rightarrow> acc_eth_address c))
         in if consumer = [] then (p, Inl (HTTPException 400))
            else case rent_hashpower now lease_id prefix consumer address (rq_duration_sec req) (rq_worker_id req) p of
              (p', Inl e) \<Rightarrow> (p', Inl e)
            | (p', Inr None) \<Rightarrow> (p', Inl (HTTPException 404))
            | (p', Inr (Some l)) \<Rightarrow> (p', Inr l)))"

definition stop_barred :: "account option \<Rightarrow> lease_view \<Rightarrow> bool" where
  "stop_barred caller l = (case caller of
     None \<Rightarrow> False
   | Some c \<Rightarrow> acc_role c \<noteq> ''admin'' \<and> acc_role c = ''consumer'' \<and> acc_id c \<noteq> l_consumer l)"

text \<open>The owner is checked after the lease has ended.\<close>

definition stop_route :: "account option \<Rightarrow> pyfloat \<Rightarrow> string \<Rightarrow> platform
    \<Rightarrow> platform \<times> (lease_view \<times> settlement_view option) py" where
  "stop_route caller now lease_id p =
     (case stop_lease now lease_id p of
        (p1, None) \<Rightarrow> (p1, Inl (HTTPException 404))
      | (p1, Some l) \<Rightarrow>
          if stop_barred caller l then (p1, Inl (HTTPException 403))
          else (let (db, r) = settle_lease now l (p_db p1)
                in (p1\<lparr>p_db := db\<rparr>, py_bind r (\<lambda>record. Inr (l, record)))))"

record renter_summary =
  rs_active_leases :: nat
  rs_completed_leases :: nat
  rs_total_leases :: nat
  rs_total_spent :: pyfloat
  rs_avg_cost :: pyfloat

definition renter_stats :: "pyfloat \<Rightarrow> account \<Rightarrow> market_db \<Rightarrow> renter_summary" where
  "renter_stats now acct db =
     (let aid = acc_id acct;
          finished = list_for_consumer now aid (Some ''completed'') 1000 0 db;
          spent = foldl (\<lambda>t l. fl (t + fl (cl_elapsed_sec l * dflt 0 (cl_price_per_sec l)))) 0 finished;
          avg_cost = (if finished \<noteq> [] then fl (spent / fint (int (length finished))) else 0)
      in \<lparr>rs_active_leases = count_for_consumer aid (Some ''active'') db,
          rs_completed_leases = count_for_consumer aid (Some ''completed'') db,
          rs_total_leases = count_for_consumer aid None db,
          rs_total_spent = py_round_n 4 spent, rs_avg_cost = py_round_n 4 avg_cost\<rparr>)"

subsection \<open>Pricing route\<close>

definition pricing_route :: "account option \<Rightarrow> string \<Rightarrow> pyfloat \<Rightarrow> int \<Rightarrow> int \<Rightarrow> market_db
    \<Rightarrow> market_db \<times> worker py" where
  "pricing_route caller worker_id price min_duration max_duration db =
     (if (case caller of None \<Rightarrow> False | Some c \<Rightarrow> acc_role c \<notin> {''provider'', ''admin''}
             \<or> acc_role c = ''provider'' \<and> acc_id c \<noteq> worker_id)
      then (db, Inl (HTTPException 403))
      else case set_pricing worker_id price min_duration max_duration db of
        (db', Inl e) \<Rightarrow> (db', Inl (http_of_exn e))
      | (db', Inr None) \<Rightarrow> (db', Inl (HTTPException 404))
      | (db', Inr (Some w)) \<Rightarrow> (db', Inr w))"

subsection \<open>The lease watchdog\<close>

text \<open>The loop over the ended leases; an exception leaves it.\<close>

fun settle_all :: "pyfloat \<Rightarrow> lease_view option list \<Rightarrow> market_db \<Rightarrow> market_db \<times> unit py" where
  "settle_all now [] db = (db, Inr ())"
| "settle_all now (None # us) db = (db, Inl TypeError)"
| "settle_all now (Some l # us) db =
     and_then (settle_lease now l db) (\<lambda>_ db1. settle_all now us db1)"

definition lease_watchdog :: "pyfloat \<Rightarrow> platform \<Rightarrow> platform" where
  "lease_watchdog now p =
     (let (p1, expired) = check_expired_leases now p
      in p1\<lparr>p_db := fst (settle_all now expired (p_db p1))\<rparr>)"

subsection \<open>Events\<close>

record server =
  s_platform :: platform
  s_auth :: auth
  s_chain :: "chain option"

definition init_services :: "pyfloat \<Rightarrow> string \<Rightarrow> string \<Rightarrow> chain option \<Rightarrow> server" where
  "init_services now key1 key2 chain =
     \<lparr>s_platform = \<lparr>p_db = ensure_api_keys_for_defaults now key1 key2
          (settlement_setup_defaults now (account_setup_defaults now empty_db)), p_config = (\<lambda>_. None), p_sent = []\<rparr>,
      s_auth = init_auth, s_chain = chain\<rparr>"

text \<open>The libraries the server relies on.\<close>

record libs =
  jwt_decode :: decoder
  jwt_encode :: "claims \<Rightarrow> string"
  eth_recover :: recoverer

record creds =
  x_api_key :: string
  authorization :: string

datatype event =
    Mqtt string worker_msg block_msg
  | Rent creds string string rent_request
  | Stop creds string
  | Tick
  | SetPricing creds string pyfloat int int
  | Deposit creds string pyfloat
  | Withdraw creds string pyfloat
  | RegisterAccount string string string string pyfloat
  | Login string string
  | Nonce string string
  | Verify string string string
  | ChainSubmit submission

definition caller_of :: "libs \<Rightarrow> creds \<Rightarrow> server \<Rightarrow> account option" where
  "caller_of lib c s = resolve_account (jwt_decode lib) (s_auth s) (x_api_key c) (authorization c) (p_db (s_platform s))"

definition with_platform :: "(platform \<Rightarrow> platform) \<Rightarrow> server \<Rightarrow> server" where
  "with_platform f s = s\<lparr>s_platform := f (s_platform s)\<rparr>"

definition with_db :: "(market_db \<Rightarrow> market_db) \<Rightarrow> server \<Rightarrow> server" where
  "with_db f s = with_platform (on_db f) s"

fun handle :: "libs \<Rightarrow> pyfloat \<Rightarrow> event \<Rightarrow> server \<Rightarrow> server" where
  "handle lib now (Mqtt topic msg block) s = with_platform (on_mqtt_message now (s_chain s) topic msg block) s"
| "handle lib now (Rent c lease_id prefix req) s =
     with_platform (\<lambda>p. fst (rent_route (caller_of lib c s) now lease_id prefix req p)) s"
| "handle lib now (Stop c lease_id) s = with_platform (\<lambda>p. fst (stop_route (caller_of lib c s) now lease_id p)) s"
| "handle lib now Tick s = with_platform (lease_watchdog now) s"
| "handle lib now (SetPricing c w price lo hi) s =
     with_db (\<lambda>db. fst (pricing_route (if x_api_key c \<noteq> [] \<or> authorization c \<noteq> [] then caller_of lib c s else None)
       w price lo hi db)) s"
| "handle lib now (Deposit c i amount) s =
     with_db (\<lambda>db. fst (deposit_route (jwt_decode lib) (s_auth s) (x_api_key c) (authorization c) now i amount db)) s"
| "handle lib now (Withdraw c i amount) s =
     with_db (\<lambda>db. fst (withdraw_route (jwt_decode lib) (s_auth s) (x_api_key c) (authorization c) now i amount db)) s"
| "handle lib now (RegisterAccount key i role eth balance) s =
     with_db (\<lambda>db. fst (auth_register now key i role eth balance db)) s"
| "handle lib now (Login key i) s = with_db (\<lambda>db. fst (auth_login now key i db)) s"
| "handle lib now (Nonce nonce address) s = s\<lparr>s_auth := fst (auth_nonce now nonce address (s_auth s))\<rparr>"
| "handle lib now (Verify address signature nonce) s =
     (let (au, db, r) = auth_verify (eth_recover lib) (jwt_encode lib) now address signature nonce
            (s_auth s) (p_db (s_platform s))
      in (with_db (\<lambda>_. db) s)\<lparr>s_auth := au\<rparr>)"
| "handle lib now (ChainSubmit sub) s = s\<lparr>s_chain := map_option (submit_one sub) (s_chain s)\<rparr>"

definition run_events :: "libs \<Rightarrow> (pyfloat \<times> event) list \<Rightarrow> server \<Rightarrow> server" where
  "run_events lib evs s = foldl (\<lambda>s (now, e). handle lib now e s) s evs"

abbreviation db_of :: "server \<Rightarrow> market_db" where
  "db_of s \<equiv> p_db (s_platform s)"

end
