(* ===== verification/ServerInv.thy ===== *)
theory ServerInv
  imports Server
begin

text \<open>
  What the server keeps, whatever events it handles: the consistency of its tables, the balances,
  and that a lease is charged once.  Every handler has a lemma; the properties are inductions over
  the list of events.
\<close>

subsection \<open>Ending and settling leases\<close>

lemma active_uncharged:
  assumes "db_ok db" "l \<in> set (leases db)" "l_state l = Active"
  shows "l_id l \<notin> set (charges (transactions db))"
proof
  assume "l_id l \<in> set (charges (transactions db))"
  moreover have "charges_ok (map key_of_lease (leases db)) (map st_lease (settlements db)) (charges (transactions db))"
    using assms(1) by (simp add: db_ok_def market_keys_def keys_ok_def)
  ultimately obtain k where k: "k \<in> set (map key_of_lease (leases db))" "k_id k = l_id l" "\<not> k_active k"
    unfolding charges_ok_def by blast
  have "distinct (map k_id (map key_of_lease (leases db)))"
    using assms(1) by (simp add: db_ok_def market_keys_def keys_ok_def leases_ok_def)
  moreover have "key_of_lease l \<in> set (map key_of_lease (leases db))" "k_id (key_of_lease l) = k_id k"
    using assms(2) k(2) by (simp_all add: key_of_lease_def)
  ultimately have "key_of_lease l = k" using k(1) by (simp only: distinct_map inj_on_def)
  with assms(3) k(3) show False by (auto simp: key_of_lease_def)
qed

lemma completed_simps [simp]:
  "l_id (completed now l) = l_id l" "l_worker (completed now l) = l_worker l"
  "l_consumer (completed now l) = l_consumer l" "l_state (completed now l) = Completed"
  "l_price_per_sec (completed now l) = l_price_per_sec l" "l_created_at (completed now l) = l_created_at l"
  "l_ended_at (completed now l) = Some now"
  by (simp_all add: completed_def)

lemma find_completed:
  "find (\<lambda>l. l_id l = j) (update_rows (\<lambda>l. l_id l = i) (completed now) ls) =
     (if j = i then map_option (completed now) (find (\<lambda>l. l_id l = j) ls) else find (\<lambda>l. l_id l = j) ls)"
  by (induction ls) auto

lemma end_lease_find:
  "lease_find j (p_db (end_lease now i w p)) =
     (if j = i then map_option (completed now) (lease_find j (p_db p)) else lease_find j (p_db p))"
  by (simp add: lease_find_def end_lease_leases find_completed)

text \<open>The row a handler settles: the lease as it ended at this moment.\<close>

definition ended_view :: "pyfloat \<Rightarrow> lease \<Rightarrow> lease_view" where
  "ended_view now l = view_lease now (completed now l)"

lemma ended_view_simps [simp]:
  "l_id (ended_view now l) = l_id l" "l_worker (ended_view now l) = l_worker l"
  "l_consumer (ended_view now l) = l_consumer l" "l_state (ended_view now l) = Completed"
  "l_price_per_sec (ended_view now l) = l_price_per_sec l"
  by (simp_all add: ended_view_def)

lemma ended_elapsed: "v_elapsed_sec (ended_view now l) = fl (now - l_created_at l)"
  by (simp add: ended_view_def lease_elapsed_def)

lemma ended_settleable:
  assumes "db_ok (p_db p)" "l \<in> set (leases (p_db p))" "l_state l = Active"
  shows "settleable (p_db (end_lease now (l_id l) w p)) (ended_view now l)"
proof -
  have "completed now l \<in> set (leases (p_db (end_lease now (l_id l) w p)))"
    unfolding end_lease_leases in_update_rows using assms(2) by (intro bexI [of _ l]) simp_all
  then show ?thesis
    using active_uncharged [OF assms]
    by (auto simp: settleable_def end_lease_transactions intro!: bexI [of _ "completed now l"])
qed

lemma settled_db_simps:
  "leases (settled_db now l c db) = leases db" "workers (settled_db now l c db) = workers db"
  "rollback_to (settled_db now l c db) = None"
  "charges (transactions (settled_db now l c db)) = charges (transactions db) @ [l_id l]"
  "settlements (settled_db now l c db) = settlements db @ [settlement_row now l c]"
  by (simp_all add: settled_db_def row_simps paid_rows_def charges_def tx_row_def)

lemma settle_step:
  assumes "db_ok db" "rollback_to db = None" "settleable db l"
  obtains c a where "settle_lease now l db = (settled_db now l c db, Inr (Some (view_settlement (settlement_row now l c))))"
    "account_get (l_consumer l) db = Some a" "c = settled_cost l (acc_balance a)"
    "db_ok (settled_db now l c db)" "rollback_to (settled_db now l c db) = None"
    "\<And>k. settleable db k \<Longrightarrow> l_id k \<noteq> l_id l \<Longrightarrow> settleable (settled_db now l c db) k"
proof -
  obtain a where a: "account_get (l_consumer l) db = Some a"
    "settle_lease now l db = (settled_db now l (settled_cost l (acc_balance a)) db,
       Inr (Some (view_settlement (settlement_row now l (settled_cost l (acc_balance a))))))"
    using settle_succeeds [OF assms] by blast
  from a settled_ok [OF assms(1,3)] show thesis
    by (intro that [OF a(2) a(1) refl]) (auto simp: settled_db_simps settleable_def)
qed

text \<open>The watchdog's loop settles every lease it is given.\<close>

lemma settle_all_ok:
  assumes "db_ok db" "vs \<noteq> [] \<longrightarrow> rollback_to db = None" "\<forall>v \<in> set vs. settleable db v" "distinct (map l_id vs)"
  shows "\<exists>db'. settle_all now (map Some vs) db = (db', Inr ()) \<and> db_ok db' \<and> leases db' = leases db
    \<and> charges (transactions db') = charges (transactions db) @ map l_id vs
    \<and> map st_lease (settlements db') = map st_lease (settlements db) @ map l_id vs"
  using assms
proof (induction vs arbitrary: db)
  case (Cons v vs)
  then obtain c a where s: "settle_lease now v db = (settled_db now v c db, Inr (Some (view_settlement (settlement_row now v c))))"
    "db_ok (settled_db now v c db)" "rollback_to (settled_db now v c db) = None"
    "\<And>k. settleable db k \<Longrightarrow> l_id k \<noteq> l_id v \<Longrightarrow> settleable (settled_db now v c db) k"
    using settle_step [of db v now] by (metis list.discI list.set_intros(1))
  have "\<exists>db'. settle_all now (map Some vs) (settled_db now v c db) = (db', Inr ()) \<and> db_ok db' \<and>
      leases db' = leases (settled_db now v c db)
      \<and> charges (transactions db') = charges (transactions (settled_db now v c db)) @ map l_id vs
      \<and> map st_lease (settlements db') = map st_lease (settlements (settled_db now v c db)) @ map l_id vs"
  proof (intro Cons.IH)
    show "\<forall>x \<in> set vs. settleable (settled_db now v c db) x"
      using Cons.prems(3,4) s(4) by (metis distinct.simps(2) image_eqI list.set_intros(2) list.set_map list.simps(9))
  qed (use Cons.prems(4) s in auto)
  with s(1) show ?case by (auto simp: settled_db_simps settlement_row_def)
qed simp

text \<open>The leases the watchdog ends are all there, ended, and ready to be settled.\<close>

lemma end_lease_other:
  "l \<in> set (leases (p_db p)) \<Longrightarrow> l_id l \<noteq> i \<Longrightarrow> l \<in> set (leases (p_db (end_lease now i w p)))"
  unfolding end_lease_leases in_update_rows by (intro bexI [of _ l]) simp_all

lemma end_lease_self:
  "l \<in> set (leases (p_db p)) \<Longrightarrow> completed now l \<in> set (leases (p_db (end_lease now (l_id l) w p)))"
  unfolding end_lease_leases in_update_rows by (intro bexI [of _ l]) simp_all

lemma expire_leases_spec:
  assumes "db_ok (p_db p)" "\<forall>l \<in> set ls. l \<in> set (leases (p_db p))" "distinct (map l_id ls)"
  shows "\<exists>q. expire_leases now (map (view_lease now) ls) p = (q, map (\<lambda>l. Some (ended_view now l)) ls)
    \<and> db_ok (p_db q) \<and> (ls \<noteq> [] \<longrightarrow> rollback_to (p_db q) = None)
    \<and> transactions (p_db q) = transactions (p_db p)
    \<and> (\<forall>l \<in> set ls. completed now l \<in> set (leases (p_db q)))
    \<and> (\<forall>l \<in> set (leases (p_db p)). l_id l \<notin> l_id ` set ls \<longrightarrow> l \<in> set (leases (p_db q)))"
  using assms
proof (induction ls arbitrary: p)
  case Nil
  then show ?case by auto
next
  case (Cons l ls)
  let ?p1 = "end_lease now (l_id l) (l_worker l) p"
  have find: "lease_find (l_id l) (p_db ?p1) = Some (completed now l)"
    using lease_find_unique [OF db_ok_lease_ids [OF Cons.prems(1)]] Cons.prems(2) by (simp add: end_lease_find)
  have "\<exists>q. expire_leases now (map (view_lease now) ls) ?p1 = (q, map (\<lambda>l. Some (ended_view now l)) ls)
    \<and> db_ok (p_db q) \<and> (ls \<noteq> [] \<longrightarrow> rollback_to (p_db q) = None)
    \<and> transactions (p_db q) = transactions (p_db ?p1)
    \<and> (\<forall>l \<in> set ls. completed now l \<in> set (leases (p_db q)))
    \<and> (\<forall>l \<in> set (leases (p_db ?p1)). l_id l \<notin> l_id ` set ls \<longrightarrow> l \<in> set (leases (p_db q)))"
  proof (rule Cons.IH)
    show "\<forall>k \<in> set ls. k \<in> set (leases (p_db ?p1))"
    proof
      fix k assume "k \<in> set ls"
      with Cons.prems(2,3) have "k \<in> set (leases (p_db p))" "l_id k \<noteq> l_id l" by (auto simp: image_iff)
      then show "k \<in> set (leases (p_db ?p1))" by (rule end_lease_other)
    qed
    show "db_ok (p_db ?p1)" by (rule end_lease_ok [OF Cons.prems(1)])
    show "distinct (map l_id ls)" using Cons.prems(3) by simp
  qed
  then obtain q where q: "expire_leases now (map (view_lease now) ls) ?p1 = (q, map (\<lambda>l. Some (ended_view now l)) ls)"
    "db_ok (p_db q)" "ls \<noteq> [] \<longrightarrow> rollback_to (p_db q) = None"
    "transactions (p_db q) = transactions (p_db ?p1)"
    "\<forall>l \<in> set ls. completed now l \<in> set (leases (p_db q))"
    "\<forall>l \<in> set (leases (p_db ?p1)). l_id l \<notin> l_id ` set ls \<longrightarrow> l \<in> set (leases (p_db q))"
    by blast
  have "rollback_to (p_db q) = None"
    using q(1,3) end_lease_committed [of now "l_id l" "l_worker l" p] by (cases ls) auto
  moreover have "completed now l \<in> set (leases (p_db q))"
    using q(6) end_lease_self [of l p now "l_worker l"] Cons.prems(2,3) by auto
  moreover have "k \<in> set (leases (p_db q))" if "k \<in> set (leases (p_db p))" "l_id k \<notin> l_id ` set (l # ls)" for k
    using q(6) end_lease_other [OF that(1)] that(2) by auto
  ultimately have "transactions (p_db q) = transactions (p_db p) \<and> rollback_to (p_db q) = None
    \<and> (\<forall>k \<in> set (l # ls). completed now k \<in> set (leases (p_db q)))
    \<and> (\<forall>k \<in> set (leases (p_db p)). l_id k \<notin> l_id ` set (l # ls) \<longrightarrow> k \<in> set (leases (p_db q)))"
    using q(4,5) by (simp add: end_lease_transactions)
  moreover have "expire_leases now (map (view_lease now) (l # ls)) p = (q, map (\<lambda>l. Some (ended_view now l)) (l # ls))"
    using q(1) find by (simp add: Let_def lease_get_def ended_view_def)
  ultimately show ?case using q(2) by blast
qed

lemma expire_leases_amounts:
  assumes "amounts_ok T (p_db p)" "T \<le> now"
  shows "amounts_ok now (p_db (fst (expire_leases now vs p)))"
  using assms
proof (induction vs arbitrary: p T)
  case Nil
  then show ?case using amounts_ok_later by simp
next
  case (Cons v vs)
  then have "amounts_ok now (p_db (end_lease now (l_id v) (l_worker v) p))" by (blast intro: end_lease_amounts)
  from Cons.IH [OF this order_refl] show ?case by (simp add: Let_def case_prod_beta)
qed

lemma map_filter_Some: "(\<And>x. x \<in> set xs \<Longrightarrow> f x = Some (g x)) \<Longrightarrow> List.map_filter f xs = map g xs"
  by (induction xs) (simp_all add: List.map_filter_simps)

lemma find_expired_eq:
  assumes "distinct (map l_id (leases db))"
  shows "find_expired now db = map (view_lease now) (filter (lease_expired now) (leases db))"
  unfolding find_expired_def
  using lease_find_unique [OF assms] by (intro map_filter_Some) (simp add: lease_get_def)

lemma count_list_distinct: "distinct xs \<Longrightarrow> count_list xs x = (if x \<in> set xs then 1 else 0)"
  by (induction xs) auto

lemma watchdog_spec:
  fixes now :: pyfloat and p :: platform
  assumes "db_ok (p_db p)"
  defines "ls \<equiv> filter (lease_expired now) (leases (p_db p))"
  obtains q db where "check_expired_leases now p = (q, map (\<lambda>l. Some (ended_view now l)) ls)"
    "settle_all now (map (\<lambda>l. Some (ended_view now l)) ls) (p_db q) = (db, Inr ())"
    "lease_watchdog now p = q\<lparr>p_db := db\<rparr>" "db_ok db" "leases db = leases (p_db q)"
    "map st_lease (settlements db) = map st_lease (settlements (p_db q)) @ map l_id ls"
    "charges (transactions db) = charges (transactions (p_db p)) @ map l_id ls"
    "\<forall>l \<in> set ls. completed now l \<in> set (leases db)"
    "\<forall>l \<in> set (leases (p_db p)) - set ls. l \<in> set (leases db)"
proof -
  have dist: "distinct (map l_id (leases (p_db p)))" by (rule db_ok_lease_ids [OF assms(1)])
  then have distl: "distinct (map l_id ls)" by (simp add: ls_def distinct_map_filter)
  have sub: "\<forall>l \<in> set ls. l \<in> set (leases (p_db p))" by (simp add: ls_def)
  obtain q where q: "expire_leases now (map (view_lease now) ls) p = (q, map (\<lambda>l. Some (ended_view now l)) ls)"
    "db_ok (p_db q)" "ls \<noteq> [] \<longrightarrow> rollback_to (p_db q) = None"
    "transactions (p_db q) = transactions (p_db p)"
    "\<forall>l \<in> set ls. completed now l \<in> set (leases (p_db q))"
    "\<forall>l \<in> set (leases (p_db p)). l_id l \<notin> l_id ` set ls \<longrightarrow> l \<in> set (leases (p_db q))"
    using expire_leases_spec [OF assms(1) sub distl, of now] by blast
  have "settleable (p_db q) (ended_view now l)" if "l \<in> set ls" for l
  proof -
    have "l \<in> set (leases (p_db p))" "l_state l = Active" using that by (simp_all add: ls_def lease_expired_def)
    from active_uncharged [OF assms(1) this] q(4,5) that show ?thesis
      by (auto simp: settleable_def intro!: bexI [of _ "completed now l"])
  qed
  then obtain db where db: "settle_all now (map Some (map (ended_view now) ls)) (p_db q) = (db, Inr ())"
    "db_ok db" "leases db = leases (p_db q)"
    "charges (transactions db) = charges (transactions (p_db q)) @ map l_id (map (ended_view now) ls)"
    "map st_lease (settlements db) = map st_lease (settlements (p_db q)) @ map l_id (map (ended_view now) ls)"
    using settle_all_ok [OF q(2), of "map (ended_view now) ls" now] q(3) distl by (auto simp: comp_def)
  have check: "check_expired_leases now p = (q, map (\<lambda>l. Some (ended_view now l)) ls)"
    using q(1) by (simp add: check_expired_leases_def find_expired_eq [OF dist] ls_def)
  have kept: "l \<in> set (leases db)" if "l \<in> set (leases (p_db p)) - set ls" for l
  proof -
    have "l_id l \<notin> l_id ` set ls"
      using that sub dist by (auto simp: distinct_map inj_on_def)
    then show ?thesis using q(6) that db(3) by simp
  qed
  show thesis
    by (rule that [of q db])
      (use check db q(4,5) kept in \<open>simp_all add: lease_watchdog_def comp_def\<close>)
qed

text \<open>
  C6: one round of the watchdog ends every lease that is over and settles each of them, none is
  skipped and no settlement fails: the lease is completed at this moment, there is a settlement
  for it and exactly one charge; leases that are not over are left as they are.
\<close>

theorem watchdog_settles_expired:
  assumes "db_ok (p_db p)" "l \<in> set (leases (p_db p))"
  shows "(if lease_expired now l
    then lease_find (l_id l) (p_db (lease_watchdog now p)) = Some (completed now l)
      \<and> settlement_find (l_id l) (p_db (lease_watchdog now p)) \<noteq> None
      \<and> count_list (charges (transactions (p_db (lease_watchdog now p)))) (l_id l) = 1
    else lease_find (l_id l) (p_db (lease_watchdog now p)) = Some l)"
proof -
  let ?ls = "filter (lease_expired now) (leases (p_db p))"
  obtain q db where w: "lease_watchdog now p = q\<lparr>p_db := db\<rparr>" "db_ok db"
    "map st_lease (settlements db) = map st_lease (settlements (p_db q)) @ map l_id ?ls"
    "charges (transactions db) = charges (transactions (p_db p)) @ map l_id ?ls"
    "\<forall>l \<in> set ?ls. completed now l \<in> set (leases db)"
    "\<forall>l \<in> set (leases (p_db p)) - set ?ls. l \<in> set (leases db)"
    using watchdog_spec [OF assms(1)] by metis
  note find = lease_find_unique [OF db_ok_lease_ids [OF w(2)]]
  show ?thesis
  proof (cases "lease_expired now l")
    case True
    then have l: "l \<in> set ?ls" using assms(2) by simp
    then have "l_id l \<in> set (map st_lease (settlements db))" unfolding w(3) by auto
    then have "settlement_find (l_id l) db \<noteq> None" by (auto simp: settlement_find_def find_key_None)
    moreover have "distinct (charges (transactions db))" "l_id l \<in> set (charges (transactions db))"
      using w(2) l by (simp_all add: db_ok_def market_keys_def keys_ok_def charges_ok_def w(4))
    then have "count_list (charges (transactions db)) (l_id l) = 1" by (simp add: count_list_distinct)
    moreover have "lease_find (l_id l) db = Some (completed now l)"
      using find [of "completed now l"] w(5) l by simp
    ultimately show ?thesis using True by (simp add: w(1))
  next
    case False
    then have "l \<in> set (leases db)" using w(6) assms(2) by simp
    from find [OF this] False show ?thesis by (simp add: w(1))
  qed
qed

subsection \<open>Handlers keep the tables consistent\<close>

lemma update_heartbeat_db:
  "p_db (update_heartbeat now msg p) \<in>
     {worker_heartbeat now (dflt [] (m_worker_id msg)) (dflt 0 (m_hashrate msg)) (dflt 0 (m_active_gpus msg)) (p_db p)}
     \<union> range (\<lambda>i. update_hashrate_stats i (dflt 0 (m_hashrate msg))
         (worker_heartbeat now (dflt [] (m_worker_id msg)) (dflt 0 (m_hashrate msg)) (dflt 0 (m_active_gpus msg)) (p_db p)))"
  by (auto simp: update_heartbeat_def Let_def split: option.split)

lemma mqtt_ok: "db_ok (p_db p) \<Longrightarrow> db_ok (p_db (on_mqtt_message now chain topic msg block p))"
  using update_heartbeat_db [of now msg p]
  by (auto simp: on_mqtt_message_def register_worker_def update_worker_state_def Let_def registered_ok
      heartbeat.db_ok hashrate_stats.db_ok set_state.db_ok watched.db_ok split: option.split)

lemma mqtt_amounts: "amounts_ok T (p_db p) \<Longrightarrow> amounts_ok T (p_db (on_mqtt_message now chain topic msg block p))"
  using update_heartbeat_db [of now msg p]
  by (auto simp: on_mqtt_message_def register_worker_def update_worker_state_def Let_def registered_amounts
      heartbeat.amounts hashrate_stats.amounts set_state.amounts watched.amounts split: option.split)

lemma rent_target_worker: "rent_target now wid db = Some w \<Longrightarrow> w \<in> set (workers db)"
  by (auto simp: rent_target_def worker_get_def dest: find_pred_Some split: if_splits option.splits)

lemma rent_cases:
  obtains (no) "rent_target now wid (p_db p) = None" "rent_hashpower now i prefix c addr dur wid p = (p, Inr None)"
  | (failed) w where "rent_target now wid (p_db p) = Some w"
      "lease_create now i (w_id w) c addr prefix dur (fl (w_price_per_min w / 60)) (p_db p)
         = (begin_stmt (p_db p), Inl IntegrityError)"
      "rent_hashpower now i prefix c addr dur wid p = (p\<lparr>p_db := begin_stmt (p_db p)\<rparr>, Inl IntegrityError)"
  | (rented) w db l where "rent_target now wid (p_db p) = Some w"
      "lease_create now i (w_id w) c addr prefix dur (fl (w_price_per_min w / 60)) (p_db p) = (db, Inr l)"
      "rent_hashpower now i prefix c addr dur wid p =
         (publish (w_id w) (AssignTask i c addr prefix dur) (p\<lparr>p_db := worker_set_state (w_id w) ''LEASED'' db\<rparr>), Inr l)"
proof (cases "rent_target now wid (p_db p)")
  case None
  then show thesis by (intro no) (simp_all add: rent_hashpower_def)
next
  case (Some w)
  obtain db r where cr: "lease_create now i (w_id w) c addr prefix dur (fl (w_price_per_min w / 60)) (p_db p) = (db, r)"
    by fastforce
  from cr show thesis
  proof (cases rule: lease_create_cases)
    case refused
    with cr Some show thesis by (intro failed [of w]) (simp_all add: rent_hashpower_def Let_def)
  next
    case created
    with cr Some show thesis by (intro rented [of w db]) (simp_all add: rent_hashpower_def Let_def)
  qed
qed

lemma rent_ok:
  assumes "db_ok (p_db p)"
  shows "db_ok (p_db (fst (rent_hashpower now i prefix c addr dur wid p)))"
proof (cases rule: rent_cases [where now = now and wid = wid and p = p and i = i and prefix = prefix
      and c = c and addr = addr and dur = dur])
  case (rented w db l)
  then show ?thesis using set_state.db_ok [OF lease_create_ok [OF assms rented(2)]] by simp
qed (use assms begun.db_ok in simp_all)

lemma rent_amounts:
  assumes "amounts_ok T (p_db p)" "T \<le> now"
  shows "amounts_ok now (p_db (fst (rent_hashpower now i prefix c addr dur wid p)))"
proof (cases rule: rent_cases [where now = now and wid = wid and p = p and i = i and prefix = prefix
      and c = c and addr = addr and dur = dur])
  case (rented w db l)
  have "0 \<le> fl (w_price_per_min w / 60)"
    using rent_target_worker [OF rented(1)] assms(1) by (simp add: amounts_ok_def worker_ok_def dbl.nonneg)
  from lease_create_amounts [OF amounts_ok_later [OF assms] rented(2) this order_refl]
  show ?thesis using rented set_state.amounts by simp
qed (use amounts_ok_later [OF assms] begun.amounts in simp_all)

lemma rent_route_db:
  "fst (rent_route caller now i prefix req p) = p \<or>
   (\<exists>c addr. fst (rent_route caller now i prefix req p)
      = fst (rent_hashpower now i prefix c addr (rq_duration_sec req) (rq_worker_id req) p))"
proof -
  have "fst (case x of (p', Inl e) \<Rightarrow> (p', Inl e) | (p', Inr None) \<Rightarrow> (p', Inl (HTTPException 404))
      | (p', Inr (Some l)) \<Rightarrow> (p', Inr l)) = fst x" for x :: "platform \<times> lease_view option py"
    by (cases x rule: prod.exhaust) (auto split: sum.split option.split)
  then show ?thesis unfolding rent_route_def Let_def by auto
qed

lemma stop_lease_cases:
  assumes "db_ok (p_db p)"
  obtains (no) "stop_lease now i p = (p, None)"
  | (yes) l where "l \<in> set (leases (p_db p))" "l_id l = i" "l_state l = Active"
      "stop_lease now i p = (end_lease now i (l_worker l) p, Some (ended_view now l))"
      "settleable (p_db (end_lease now i (l_worker l) p)) (ended_view now l)"
proof (cases "lease_find i (p_db p)")
  case None
  then show thesis by (intro no) (simp add: stop_lease_def lease_get_def)
next
  case (Some l)
  show thesis
  proof (cases "l_state l = Active")
    case True
    from lease_find_Some [OF Some] have l: "l \<in> set (leases (p_db p))" "l_id l = i" by auto
    show thesis
      by (rule yes [OF l True])
        (use Some True l ended_settleable [OF assms l(1) True] in
          \<open>simp_all add: stop_lease_def lease_get_def Let_def end_lease_find ended_view_def\<close>)
  next
    case False
    with Some show thesis by (intro no) (simp add: stop_lease_def lease_get_def)
  qed
qed

text \<open>The stop route: nothing, the lease ended without a settlement, or ended and settled.\<close>

lemma stop_route_cases:
  assumes "db_ok (p_db p)"
  obtains (no) "stop_route caller now i p = (p, Inl (HTTPException 404))"
  | (barred) l where "l \<in> set (leases (p_db p))" "l_id l = i" "l_state l = Active"
      "stop_barred caller (ended_view now l)"
      "stop_route caller now i p = (end_lease now i (l_worker l) p, Inl (HTTPException 403))"
  | (settled) l a c where "l \<in> set (leases (p_db p))" "l_id l = i" "l_state l = Active"
      "\<not> stop_barred caller (ended_view now l)"
      "account_get (l_consumer l) (p_db p) = Some a" "c = settled_cost (ended_view now l) (acc_balance a)"
      "p_db (fst (stop_route caller now i p)) = settled_db now (ended_view now l) c (p_db (end_lease now i (l_worker l) p))"
      "snd (stop_route caller now i p) =
         Inr (ended_view now l, Some (view_settlement (settlement_row now (ended_view now l) c)))"
      "db_ok (p_db (fst (stop_route caller now i p)))"
  using assms
proof (cases rule: stop_lease_cases [where now = now and i = i])
  case no
  then show thesis by (intro that(1)) (simp add: stop_route_def)
next
  case (yes l)
  show thesis
  proof (cases "stop_barred caller (ended_view now l)")
    case True
    with yes show thesis by (intro barred [of l]) (simp_all add: stop_route_def)
  next
    case False
    let ?e = "end_lease now i (l_worker l) p"
    have get: "account_get j (p_db ?e) = account_get j (p_db p)" for j
      by (simp add: account_get_def end_lease_db worker_set_state_def row_simps)
    obtain c a where s: "settle_lease now (ended_view now l) (p_db ?e) =
        (settled_db now (ended_view now l) c (p_db ?e),
         Inr (Some (view_settlement (settlement_row now (ended_view now l) c))))"
      "account_get (l_consumer (ended_view now l)) (p_db ?e) = Some a" "c = settled_cost (ended_view now l) (acc_balance a)"
      "db_ok (settled_db now (ended_view now l) c (p_db ?e))"
      using settle_step [OF end_lease_ok [OF assms] end_lease_committed yes(5)] by metis
    show thesis
      by (rule settled [of l a c])
        (use yes False s in \<open>simp_all add: stop_route_def get\<close>)
  qed
qed

lemma stop_route_ok:
  assumes "db_ok (p_db p)"
  shows "db_ok (p_db (fst (stop_route caller now i p)))"
  using assms
  by (cases rule: stop_route_cases [where caller = caller and now = now and i = i])
    (use end_lease_ok [OF assms] assms in simp_all)

lemma ended_elapsed_nonneg:
  "amounts_ok T (p_db p) \<Longrightarrow> T \<le> now \<Longrightarrow> l \<in> set (leases (p_db p)) \<Longrightarrow>
   0 \<le> v_elapsed_sec (ended_view now l) \<and> 0 \<le> l_price_per_sec (ended_view now l)"
  by (auto simp: ended_elapsed amounts_ok_def lease_ok_def intro!: dbl.nonneg)

lemma stop_route_amounts:
  assumes "db_ok (p_db p)" "amounts_ok T (p_db p)" "T \<le> now"
  shows "amounts_ok now (p_db (fst (stop_route caller now i p)))"
  using assms(1)
proof (cases rule: stop_route_cases [where caller = caller and now = now and i = i])
  case (settled l a c)
  let ?e = "end_lease now i (l_worker l) p"
  have "account_get (l_consumer (ended_view now l)) (p_db ?e) = Some a"
    using settled(5) by (simp add: account_get_def end_lease_db worker_set_state_def row_simps)
  from settled_amounts [OF end_lease_ok [OF assms(1)] end_lease_amounts [OF assms(2,3)] this]
    ended_elapsed_nonneg [OF assms(2,3) settled(1)]
  show ?thesis unfolding settled(7) settled(6) by blast
qed (use amounts_ok_later [OF assms(2,3)] end_lease_amounts [OF assms(2,3)] in simp_all)

lemma settle_all_amounts:
  assumes "db_ok db" "vs \<noteq> [] \<longrightarrow> rollback_to db = None" "\<forall>v \<in> set vs. settleable db v" "distinct (map l_id vs)"
    and "amounts_ok T db" "\<forall>v \<in> set vs. 0 \<le> v_elapsed_sec v \<and> 0 \<le> l_price_per_sec v"
  shows "amounts_ok T (fst (settle_all now (map Some vs) db))"
  using assms
proof (induction vs arbitrary: db)
  case (Cons v vs)
  then obtain c a where s: "settle_lease now v db = (settled_db now v c db, Inr (Some (view_settlement (settlement_row now v c))))"
    "account_get (l_consumer v) db = Some a" "c = settled_cost v (acc_balance a)"
    "db_ok (settled_db now v c db)" "rollback_to (settled_db now v c db) = None"
    "\<And>k. settleable db k \<Longrightarrow> l_id k \<noteq> l_id v \<Longrightarrow> settleable (settled_db now v c db) k"
    using settle_step [of db v now] by (metis list.discI list.set_intros(1))
  have "amounts_ok T (settled_db now v c db)"
    unfolding s(3) using Cons.prems by (intro settled_amounts s(2)) simp_all
  moreover have "\<forall>x \<in> set vs. settleable (settled_db now v c db) x"
    using Cons.prems(3,4) s(6) by (metis distinct.simps(2) image_eqI list.set_intros(2) list.set_map list.simps(9))
  ultimately have "amounts_ok T (fst (settle_all now (map Some vs) (settled_db now v c db)))"
    using Cons.prems(4,6) s(4,5) by (intro Cons.IH) simp_all
  with s(1) show ?case by simp
qed simp

lemma watchdog_ok: "db_ok (p_db p) \<Longrightarrow> db_ok (p_db (lease_watchdog now p))"
  by (erule watchdog_spec [where now = now]) simp

lemma watchdog_chain:
  assumes "db_ok (p_db p)"
  obtains q vs where "lease_watchdog now p = q\<lparr>p_db := fst (settle_all now (map Some vs) (p_db q))\<rparr>"
    "q = fst (check_expired_leases now p)" "db_ok (p_db q)" "vs \<noteq> [] \<longrightarrow> rollback_to (p_db q) = None"
    "\<forall>v \<in> set vs. settleable (p_db q) v" "distinct (map l_id vs)"
    "\<forall>v \<in> set vs. \<exists>l \<in> set (leases (p_db p)). v = ended_view now l"
proof -
  let ?ls = "filter (lease_expired now) (leases (p_db p))"
  have dist: "distinct (map l_id (leases (p_db p)))" by (rule db_ok_lease_ids [OF assms(1)])
  then have distl: "distinct (map l_id ?ls)" by (simp add: distinct_map_filter)
  have sub: "\<forall>l \<in> set ?ls. l \<in> set (leases (p_db p))" by simp
  obtain q where q: "expire_leases now (map (view_lease now) ?ls) p = (q, map (\<lambda>l. Some (ended_view now l)) ?ls)"
    "db_ok (p_db q)" "?ls \<noteq> [] \<longrightarrow> rollback_to (p_db q) = None"
    "transactions (p_db q) = transactions (p_db p)" "\<forall>l \<in> set ?ls. completed now l \<in> set (leases (p_db q))"
    using expire_leases_spec [OF assms(1) sub distl, of now] by blast
  have ok: "settleable (p_db q) (ended_view now l)" if "l \<in> set ?ls" for l
  proof -
    have "l \<in> set (leases (p_db p))" "l_state l = Active" using that by (simp_all add: lease_expired_def)
    from active_uncharged [OF assms(1) this] q(4,5) that show ?thesis
      by (auto simp: settleable_def intro!: bexI [of _ "completed now l"])
  qed
  have check: "check_expired_leases now p = (q, map (\<lambda>l. Some (ended_view now l)) ?ls)"
    using q(1) by (simp add: check_expired_leases_def find_expired_eq [OF dist])
  show thesis
    by (rule that [of "map (ended_view now) ?ls" q])
      (use q ok distl check in \<open>auto simp: lease_watchdog_def comp_def\<close>)
qed

lemma watchdog_amounts:
  assumes "db_ok (p_db p)" "amounts_ok T (p_db p)" "T \<le> now"
  shows "amounts_ok now (p_db (lease_watchdog now p))"
proof -
  obtain q vs where w: "lease_watchdog now p = q\<lparr>p_db := fst (settle_all now (map Some vs) (p_db q))\<rparr>"
    "q = fst (check_expired_leases now p)" "db_ok (p_db q)" "vs \<noteq> [] \<longrightarrow> rollback_to (p_db q) = None"
    "\<forall>v \<in> set vs. settleable (p_db q) v" "distinct (map l_id vs)"
    "\<forall>v \<in> set vs. \<exists>l \<in> set (leases (p_db p)). v = ended_view now l"
    by (rule watchdog_chain [OF assms(1), where now = now]) (rule that)
  have "amounts_ok now (p_db q)"
    unfolding w(2) check_expired_leases_def by (rule expire_leases_amounts [OF assms(2,3)])
  moreover have "\<forall>v \<in> set vs. 0 \<le> v_elapsed_sec v \<and> 0 \<le> l_price_per_sec v"
  proof
    fix v assume "v \<in> set vs"
    with w(7) obtain l where "l \<in> set (leases (p_db p))" "v = ended_view now l" by blast
    with ended_elapsed_nonneg [OF assms(2,3)] show "0 \<le> v_elapsed_sec v \<and> 0 \<le> l_price_per_sec v" by simp
  qed
  ultimately show ?thesis using settle_all_amounts [OF w(3-6)] by (simp add: w(1))
qed

lemma pricing_route_db:
  "fst (pricing_route caller w price lo hi db) = db \<or>
   (0 \<le> price \<and> fst (pricing_route caller w price lo hi db) = worker_update_pricing w price lo hi db)"
  by (auto simp: pricing_route_def set_pricing_def Let_def split: option.split sum.split prod.split)

lemma http_result_fst [simp]: "fst (http_result r) = fst r"
  by (auto simp: http_result_def split: prod.split sum.split)

lemma deposit_route_db:
  "fst (deposit_route jwt au k z now i amount db) \<in> {db, fst (deposit now i amount db)}"
  by (auto simp: deposit_route_def)

lemma withdraw_route_db:
  "fst (withdraw_route jwt au k z now i amount db) \<in> {db, fst (withdraw now i amount db)}"
  by (auto simp: withdraw_route_def split: sum.split)

lemma register_db:
  "fst (auth_register now key i role eth balance db) = db \<or>
   (\<exists>db1 r. account_create now i role balance eth db = (db1, r) \<and>
      fst (auth_register now key i role eth balance db) \<in> {db1, set_api_key now i key db1})"
  by (auto simp: auth_register_def register_def Let_def split: prod.split option.split)

lemma login_db: "fst (auth_login now key i db) \<in> {db, set_api_key now i key db}"
  by (auto simp: auth_login_def login_def split: option.split)

lemma verify_db:
  "(case auth_verify recover encode now address sg nonce au db of (au', db', r) \<Rightarrow>
     db' = db \<or> (\<exists>r'. account_create now (wallet_account_id address) ''provider'' 0 address db = (db', r')))"
  by (auto simp: auth_verify_def get_or_create_by_eth_address_def Let_def split: prod.split option.split)

subsection \<open>Runs of the server\<close>

lemma with_db_simps [simp]:
  "db_of (with_db f s) = f (db_of s)" "db_of (with_platform g s) = p_db (g (s_platform s))"
  "db_of (s\<lparr>s_auth := au\<rparr>) = db_of s" "db_of (s\<lparr>s_chain := ch\<rparr>) = db_of s"
  by (simp_all add: with_db_def with_platform_def)

lemma handle_ok:
  assumes "db_ok (db_of s)"
  shows "db_ok (db_of (handle lib now e s))"
proof (cases e)
  case (Mqtt topic msg block)
  then show ?thesis using assms by (simp add: mqtt_ok)
next
  case (Rent c i prefix req)
  then show ?thesis
    using assms rent_route_db [of "caller_of lib c s" now i prefix req "s_platform s"] rent_ok by auto
next
  case (Stop c i)
  then show ?thesis using assms by (simp add: stop_route_ok)
next
  case Tick
  then show ?thesis using assms by (simp add: watchdog_ok)
next
  case (SetPricing c w price lo hi)
  then show ?thesis
    using assms pricing_route_db [of _ w price lo hi "db_of s"] pricing.db_ok by (auto simp del: fst_conv) metis+
next
  case (Deposit c i amount)
  then show ?thesis
    using assms deposit_route_db [of "jwt_decode lib" "s_auth s" "x_api_key c" "authorization c" now i amount "db_of s"]
      deposited.db_ok by auto
next
  case (Withdraw c i amount)
  then show ?thesis
    using assms withdraw_route_db [of "jwt_decode lib" "s_auth s" "x_api_key c" "authorization c" now i amount "db_of s"]
      withdrawn.db_ok by auto
next
  case (RegisterAccount key i role eth balance)
  then show ?thesis
    using assms register_db [of now key i role eth balance "db_of s"] account_create_ok set_api_key.db_ok by auto
next
  case (Login key i)
  then show ?thesis using assms login_db [of now key i "db_of s"] set_api_key.db_ok by auto
next
  case (Verify address sg nonce)
  then show ?thesis
    using assms verify_db [where recover = "eth_recover lib" and encode = "jwt_encode lib" and now = now
        and address = address and sg = sg and nonce = nonce and au = "s_auth s" and db = "db_of s"] account_create_ok
    by (auto simp: Let_def split: prod.splits)
qed (use assms in simp_all)

definition fair_event :: "event \<Rightarrow> bool" where
  "fair_event e = (case e of RegisterAccount key i role eth balance \<Rightarrow> 0 \<le> balance | _ \<Rightarrow> True)"

lemma handle_amounts:
  assumes "db_ok (db_of s)" "amounts_ok T (db_of s)" "T \<le> now" "fair_event e"
  shows "amounts_ok now (db_of (handle lib now e s))"
proof -
  note later = amounts_ok_later [OF assms(2,3)]
  show ?thesis
  proof (cases e)
    case (Mqtt topic msg block)
    then show ?thesis using later by (simp add: mqtt_amounts)
  next
    case (Rent c i prefix req)
    then show ?thesis
      using later rent_route_db [of "caller_of lib c s" now i prefix req "s_platform s"] rent_amounts [OF assms(2,3)] by auto
  next
    case (Stop c i)
    then show ?thesis using stop_route_amounts [OF assms(1-3)] by simp
  next
    case Tick
    then show ?thesis using watchdog_amounts [OF assms(1-3)] by simp
  next
    case (SetPricing c w price lo hi)
    then show ?thesis
      using later pricing_route_db [of _ w price lo hi "db_of s"] pricing_amounts by (auto simp del: fst_conv) metis+
  next
    case (Deposit c i amount)
    then show ?thesis
      using later deposit_route_db [of "jwt_decode lib" "s_auth s" "x_api_key c" "authorization c" now i amount "db_of s"]
        deposited.amounts by auto
  next
    case (Withdraw c i amount)
    then show ?thesis
      using later withdraw_route_db [of "jwt_decode lib" "s_auth s" "x_api_key c" "authorization c" now i amount "db_of s"]
        withdrawn.amounts by auto
  next
    case (RegisterAccount key i role eth balance)
    with assms(4) have "0 \<le> balance" by (simp add: fair_event_def)
    with RegisterAccount show ?thesis
      using later register_db [of now key i role eth balance "db_of s"] account_create_amounts [OF later]
        set_api_key.amounts by auto
  next
    case (Login key i)
    then show ?thesis using later login_db [of now key i "db_of s"] set_api_key.amounts by auto
  next
    case (Verify address sg nonce)
    then show ?thesis
      using later verify_db [where recover = "eth_recover lib" and encode = "jwt_encode lib" and now = now
        and address = address and sg = sg and nonce = nonce and au = "s_auth s" and db = "db_of s"]
        account_create_amounts [OF later]
      by (auto simp: Let_def split: prod.splits)
  qed (use later in simp_all)
qed

lemma run_ok: "db_ok (db_of s) \<Longrightarrow> db_ok (db_of (run_events lib evs s))"
  unfolding run_events_def by (induction evs arbitrary: s) (auto simp: handle_ok)

lemma run_amounts:
  assumes "db_ok (db_of s)" "amounts_ok T (db_of s)" "sorted (T # map fst evs)" "\<forall>(t, e) \<in> set evs. fair_event e"
  shows "\<exists>T'. amounts_ok T' (db_of (run_events lib evs s))"
  using assms
proof (induction evs arbitrary: s T)
  case (Cons te evs)
  obtain t e where te: "te = (t, e)" by (cases te)
  have "amounts_ok t (db_of (handle lib t e s))"
    using Cons.prems te by (intro handle_amounts [of s T]) auto
  with Cons.IH [OF handle_ok [OF Cons.prems(1)] this] Cons.prems(3,4) te show ?case
    by (simp add: run_events_def)
qed (auto simp: run_events_def)

lemma empty_keys: "market_keys empty_db = ([], [], [], [], [])"
  by (simp add: market_keys_def empty_db_def charges_def)

definition accounts_only :: "market_db \<Rightarrow> bool" where
  "accounts_only db \<longleftrightarrow> workers db = [] \<and> leases db = [] \<and> settlements db = [] \<and> transactions db = []
     \<and> distinct (map acc_id (accounts db)) \<and> (\<forall>a \<in> set (accounts db). 0 \<le> acc_balance a)"

lemma create_accounts_only:
  assumes "accounts_only db" "0 \<le> b" "role \<in> {''provider'', ''consumer''}"
  shows "accounts_only (fst (account_create now i role b eth db)) \<and>
    acc_id ` set (accounts (fst (account_create now i role b eth db))) = insert i (acc_id ` set (accounts db))"
proof -
  obtain db' r where c: "account_create now i role b eth db = (db', r)" by fastforce
  then show ?thesis
    by (cases rule: account_create_cases)
      (use assms c in \<open>auto simp: accounts_only_def row_simps account_get_None dest: account_get_Some\<close>)
qed

lemma init_ok: "db_ok (db_of (init_services now k1 k2 chain)) \<and> amounts_ok T (db_of (init_services now k1 k2 chain))"
proof -
  let ?d = "settlement_setup_defaults now (account_setup_defaults now empty_db)"
  have e: "accounts_only empty_db" by (simp add: accounts_only_def empty_db_def)
  have d: "accounts_only ?d \<and> platform_account \<in> acc_id ` set (accounts ?d)"
    unfolding settlement_setup_defaults_def account_setup_defaults_def
    using create_accounts_only e by simp
  have "rollback_to ?d = None"
    by (simp add: settlement_setup_defaults_def account_create_def Let_def row_simps)
  with d have "db_ok ?d \<and> amounts_ok T ?d"
    by (auto simp: accounts_only_def db_ok_def market_keys_def keys_ok_def leases_ok_def charges_ok_def charges_def
        clean_tx_def amounts_ok_def)
  moreover have "db_ok (ensure_api_key now k i db)" if "db_ok db" for k i db
    using that set_api_key.db_ok by (simp add: ensure_api_key_def split: option.split)
  moreover have "amounts_ok T (ensure_api_key now k i db)" if "amounts_ok T db" for k i db
    using that set_api_key.amounts by (simp add: ensure_api_key_def split: option.split)
  ultimately show ?thesis by (simp add: init_services_def ensure_api_keys_for_defaults_def)
qed

subsection \<open>Properties\<close>

text \<open>
  C1: whatever messages, requests and watchdog rounds the server handles, one after the other,
  account, worker and lease ids stay unique, no worker has two active leases, every lease refers to
  a registered worker and an existing consumer, and every worker has a provider account.
\<close>

theorem market_invariant:
  "let db = db_of (run_events lib evs (init_services now k1 k2 chain)) in
    distinct (map acc_id (accounts db)) \<and> distinct (map w_id (workers db)) \<and> distinct (map l_id (leases db)) \<and>
    distinct (map l_worker (filter (\<lambda>l. l_state l = Active) (leases db))) \<and>
    (\<forall>l \<in> set (leases db). worker_get (l_worker l) db \<noteq> None \<and> account_get (l_consumer l) db \<noteq> None) \<and>
    (\<forall>w \<in> set (workers db). account_get (w_id w) db \<noteq> None)"
proof -
  have ok: "db_ok (db_of (run_events lib evs (init_services now k1 k2 chain)))"
    using run_ok init_ok by blast
  have worker: "worker_get i db \<noteq> None \<longleftrightarrow> i \<in> w_id ` set (workers db)" for i and db :: market_db
    by (auto simp: worker_get_def find_key_None)
  have active: "map k_worker (filter k_active (map key_of_lease ls)) = map l_worker (filter (\<lambda>l. l_state l = Active) ls)"
    for ls by (induction ls) (auto simp: key_of_lease_def)
  have ids: "map k_id (map key_of_lease ls) = map l_id ls" for ls by (rule lease_ids)
  show ?thesis
    using ok unfolding db_ok_def market_keys_def keys_ok_def prod.case leases_ok_def active ids Let_def worker
    by (auto simp: key_of_lease_def account_get_None)
qed

text \<open>
  C2: in any sequence of events a lease is charged at most once and settled at most once, it is not
  charged while it is active, and a settlement is recorded only for a lease that was charged.
\<close>

theorem lease_charged_once:
  "let db = db_of (run_events lib evs (init_services now k1 k2 chain)) in
    count_list (charges (transactions db)) i \<le> 1 \<and> count_list (map st_lease (settlements db)) i \<le> 1 \<and>
    (i \<in> set (map st_lease (settlements db)) \<longrightarrow> i \<in> set (charges (transactions db))) \<and>
    (i \<in> set (charges (transactions db)) \<longrightarrow> (\<exists>l. lease_find i db = Some l \<and> l_state l \<noteq> Active))"
proof -
  define db where "db = db_of (run_events lib evs (init_services now k1 k2 chain))"
  have ok: "db_ok db" unfolding db_def using run_ok init_ok by blast
  then have "charges_ok (map key_of_lease (leases db)) (map st_lease (settlements db)) (charges (transactions db))"
    by (simp add: db_ok_def market_keys_def keys_ok_def)
  moreover have "\<exists>l. lease_find i db = Some l \<and> l_state l \<noteq> Active"
    if "k \<in> set (map key_of_lease (leases db))" "k_id k = i" "\<not> k_active k" for k
    using that lease_find_unique [OF db_ok_lease_ids [OF ok]] by (auto simp: key_of_lease_def)
  ultimately have "i \<in> set (charges (transactions db)) \<longrightarrow> (\<exists>l. lease_find i db = Some l \<and> l_state l \<noteq> Active)"
    and "distinct (map st_lease (settlements db))" "distinct (charges (transactions db))"
      "set (map st_lease (settlements db)) \<subseteq> set (charges (transactions db))"
    unfolding charges_ok_def by blast+
  then show ?thesis
    unfolding db_def [symmetric] Let_def by (auto simp: count_list_distinct)
qed

text \<open>
  C3: in a run whose clock does not go back between the events, and in which no account is registered
  with a negative opening balance (the route takes it from the client as it is), every account
  has at the end a balance that is not negative.
\<close>

theorem balances_nonneg:
  assumes "sorted (map fst evs)" "\<forall>(t, e) \<in> set evs. fair_event e"
    and "a \<in> set (accounts (db_of (run_events lib evs (init_services now k1 k2 chain))))"
  shows "0 \<le> acc_balance a"
proof (cases evs)
  case Nil
  then show ?thesis using assms(3) init_ok [of now k1 k2 chain 0] by (auto simp: run_events_def amounts_ok_def)
next
  case (Cons te evs')
  have "sorted (fst te # map fst evs)" using assms(1) Cons by simp
  from run_amounts [OF _ _ this assms(2)] init_ok assms(3) show ?thesis
    unfolding amounts_ok_def by blast
qed

end
