(* ===== verification/ServerProps.thy ===== *)
theory ServerProps
  imports ServerInv
begin

text \<open>
  What single requests of the market do: renting, stopping and paying; and what goes wrong when a
  request is refused late or two handlers interleave at an \<open>await\<close>.
\<close>

subsection \<open>Balances\<close>

definition bal :: "string \<Rightarrow> account list \<Rightarrow> pyfloat option" where
  "bal j as = map_option acc_balance (find (\<lambda>a. acc_id a = j) as)"

lemma balance_in_bal: "balance_in j db = bal j (accounts db)"
  by (simp add: balance_in_def bal_def account_get_def)

lemma bal_credit: "bal j (credit now i x as) = (if j = i then map_option (\<lambda>b. fl (b + x)) (bal j as) else bal j as)"
  unfolding bal_def credit_def by (induction as) auto

lemma end_lease_accounts [simp]: "accounts (p_db (end_lease now i w p)) = accounts (p_db p)"
  by (simp add: end_lease_db worker_set_state_def row_simps)

lemma end_lease_workers:
  "workers (p_db (end_lease now i w p)) = update_rows (\<lambda>v. w_id v = w) (\<lambda>v. v\<lparr>w_state := ''AVAILABLE''\<rparr>) (workers (p_db p))"
  by (simp add: end_lease_db worker_set_state_def row_simps)

subsection \<open>Renting\<close>

definition target_free :: "string option \<Rightarrow> market_db \<Rightarrow> worker \<Rightarrow> bool" where
  "target_free wid db w \<longleftrightarrow> w \<in> set (workers db) \<and> w_state w = ''AVAILABLE'' \<and> active_lease (w_id w) db = None
     \<and> (dflt [] wid \<noteq> [] \<longrightarrow> w_id w = dflt [] wid)"

lemma rent_target_Some: "rent_target now wid db = Some w \<Longrightarrow> target_free wid db w"
  by (auto simp: rent_target_def target_free_def worker_free_def active_get_None worker_get_def
      dest!: find_pred_Some split: if_splits option.splits)

lemma rent_target_None:
  assumes "rent_target now wid db = None" "distinct (map w_id (workers db))"
  shows "\<not> target_free wid db w"
proof
  assume t: "target_free wid db w"
  show False
  proof (cases "dflt [] wid = []")
    case True
    with assms(1) t show False
      by (auto simp: rent_target_def target_free_def worker_free_def active_get_None find_None_iff)
  next
    case False
    with t assms(2) have "worker_get (dflt [] wid) db = Some w"
      unfolding worker_get_def target_free_def using find_distinct [of w_id "workers db" w] by auto
    with assms(1) False t show False by (auto simp: rent_target_def target_free_def active_get_None)
  qed
qed

text \<open>
  C7: renting succeeds with a worker that is available and has no active lease (the one asked for,
  if one was), at a sixtieth of its price per minute; it adds one active lease, marks that worker
  as leased and sends it the task, and changes no other worker and no account.  Without such a
  worker nothing changes, and an error leaves every table as it was.
\<close>

theorem rent_sound:
  assumes "db_ok (p_db p)" "rent_hashpower now i prefix c addr dur wid p = (q, r)"
  shows "(case r of
      Inr (Some l) \<Rightarrow> (\<exists>w. target_free wid (p_db p) w \<and>
        l = view_lease now (new_lease now i (w_id w) c addr prefix dur (fl (w_price_per_min w / 60))) \<and>
        leases (p_db q) = leases (p_db p) @ [new_lease now i (w_id w) c addr prefix dur (fl (w_price_per_min w / 60))] \<and>
        workers (p_db q) = update_rows (\<lambda>v. w_id v = w_id w) (\<lambda>v. v\<lparr>w_state := ''LEASED''\<rparr>) (workers (p_db p)) \<and>
        accounts (p_db q) = accounts (p_db p) \<and>
        p_sent q = p_sent p @ [(w_id w, AssignTask i c addr prefix dur)])
    | Inr None \<Rightarrow> q = p \<and> (\<forall>w. \<not> target_free wid (p_db p) w)
    | Inl e \<Rightarrow> e = IntegrityError \<and> market_tables.truncate (p_db q) = market_tables.truncate (p_db p) \<and> p_sent q = p_sent p \<and>
        (lease_find i (p_db p) \<noteq> None \<or> account_get c (p_db p) = None))"
proof (cases rule: rent_cases [where now = now and wid = wid and p = p and i = i and prefix = prefix
      and c = c and addr = addr and dur = dur])
  case no
  have "distinct (map w_id (workers (p_db p)))" using assms(1) by (simp add: db_ok_def market_keys_def keys_ok_def)
  with no rent_target_None assms(2) show ?thesis by auto
next
  case (failed w)
  from failed(2) have "lease_find i (p_db p) \<noteq> None \<or> account_get c (p_db p) = None"
    using rent_target_Some [OF failed(1)]
    by (cases rule: lease_create_cases) (auto simp: target_free_def worker_get_def find_key_None)
  with failed(3) assms(2) show ?thesis
    by (auto simp: begin_stmt_def market_tables.defs split: option.split)
next
  case (rented w db l)
  from rented(2) rented(3) assms(2) rent_target_Some [OF rented(1)] show ?thesis
    by (cases rule: lease_create_cases) (auto simp: row_simps worker_set_state_def intro!: exI [of _ w])
qed

subsection \<open>Paying\<close>

lemma shares_add_up:
  assumes "0 \<le> c"
  shows "\<bar>provider_payment c + platform_fee c - c\<bar> \<le> c / 2 ^ 51"
proof -
  have err: "\<bar>fl (c * s) - c * s\<bar> \<le> c * s / 2 ^ 53" if "0 \<le> s" for s
    using fl_error [of "c * s"] assms that by simp
  have A: "\<bar>provider_share - 95 / 100\<bar> \<le> 95 / 100 / 2 ^ 53" and B: "\<bar>platform_share - 5 / 100\<bar> \<le> 5 / 100 / 2 ^ 53"
    unfolding provider_share_def platform_share_def using fl_error [of "95 / 100"] fl_error [of "5 / 100"] by simp_all
  have pos: "0 \<le> provider_share" "0 \<le> platform_share" by (simp_all add: provider_share_def platform_share_def dbl.nonneg)
  define x y where "x = c * provider_share" and "y = c * platform_share"
  have E: "c * (95 / 100 - 95 / 100 / 2 ^ 53) \<le> x" "x \<le> c * (95 / 100 + 95 / 100 / 2 ^ 53)"
    and E': "c * (5 / 100 - 5 / 100 / 2 ^ 53) \<le> y" "y \<le> c * (5 / 100 + 5 / 100 / 2 ^ 53)"
    unfolding x_def y_def using A B assms by (intro mult_left_mono; linarith)+
  have R: "provider_payment c - x \<le> x / 2 ^ 53" "x - provider_payment c \<le> x / 2 ^ 53"
      "platform_fee c - y \<le> y / 2 ^ 53" "y - platform_fee c \<le> y / 2 ^ 53"
    using err [OF pos(1)] err [OF pos(2)]
    unfolding x_def y_def provider_payment_def platform_fee_def by linarith+
  have pow: "(2 :: pyfloat) ^ 53 = 9007199254740992" "(2 :: pyfloat) ^ 51 = 2251799813685248" by simp_all
  show ?thesis
    unfolding pow abs_le_iff
    using E [simplified] E' [simplified] R [unfolded pow] assms by (intro conjI) linarith+
qed

text \<open>
  C4: stopping a lease pays it: with the price per second fixed when it was rented, the consumer is
  charged for the seconds since the lease began, at most the whole balance; the provider gets 95
  and the platform 5 per cent of the charge, each rounded once, together the charge up to a
  relative error of 2^-51; all other balances stay, and none of the three becomes negative.
\<close>

theorem stop_settles:
  assumes "db_ok (p_db p)" "amounts_ok T (p_db p)" "T \<le> now" "stop_route caller now i p = (q, Inr (l, rec))"
    and "l_consumer l \<noteq> l_worker l" "l_consumer l \<noteq> platform_account" "l_worker l \<noteq> platform_account"
  shows "\<exists>b cost. balance_in (l_consumer l) (p_db p) = Some b \<and>
    cost = min b (fl (fl (now - l_created_at l) * l_price_per_sec l)) \<and> 0 \<le> cost \<and>
    rec = Some (view_settlement (settlement_row now l cost)) \<and>
    balance_in (l_consumer l) (p_db q) = Some (fl (b - cost)) \<and> 0 \<le> fl (b - cost) \<and>
    balance_in (l_worker l) (p_db q) = map_option (\<lambda>x. fl (x + fl (cost * fl (95 / 100)))) (balance_in (l_worker l) (p_db p)) \<and>
    balance_in platform_account (p_db q) =
      map_option (\<lambda>x. fl (x + fl (cost * fl (5 / 100)))) (balance_in platform_account (p_db p)) \<and>
    \<bar>fl (cost * fl (95 / 100)) + fl (cost * fl (5 / 100)) - cost\<bar> \<le> cost / 2 ^ 51 \<and>
    (\<forall>j. j \<notin> {l_consumer l, l_worker l, platform_account} \<longrightarrow> balance_in j (p_db q) = balance_in j (p_db p))"
  using assms(1)
proof (cases rule: stop_route_cases [where caller = caller and now = now and i = i])
  case (settled k a c)
  have l: "l = ended_view now k" "rec = Some (view_settlement (settlement_row now l c))" "q = fst (stop_route caller now i p)"
    using settled(8) assms(4) by simp_all
  note el = ended_elapsed_nonneg [OF assms(2,3) settled(1)]
  have b: "0 \<le> acc_balance a" by (rule balance_nonneg [OF assms(2) settled(5)])
  have range: "0 \<le> c" "c \<le> acc_balance a"
    unfolding settled(6) using settled_cost_range [of "ended_view now k" "acc_balance a"] el b by auto
  have c: "c = min (acc_balance a) (fl (fl (now - l_created_at l) * l_price_per_sec l))"
    using b by (simp add: settled(6) l(1) settled_cost_def Let_def ended_elapsed) (simp add: ended_view_def)
  have accs: "accounts (p_db q) = paid_accounts now l c (accounts (p_db p))"
    unfolding l(3) settled(7) by (simp add: settled_db_def row_simps l(1))
  have "bal (l_consumer l) (accounts (p_db p)) = Some (acc_balance a)"
    using settled(5) by (simp add: l(1) bal_def account_get_def)
  then have B: "balance_in (l_consumer l) (p_db p) = Some (acc_balance a)"
      "balance_in (l_consumer l) (p_db q) = Some (fl (acc_balance a - c))"
    using assms(5,6) by (simp_all add: balance_in_bal accs paid_accounts_def bal_credit)
  have pos: "0 \<le> fl (acc_balance a - c)" using range by (simp add: dbl.nonneg)
  note shares = provider_payment_def platform_fee_def provider_share_def platform_share_def
  have others: "balance_in (l_worker l) (p_db q) =
      map_option (\<lambda>x. fl (x + fl (c * fl (95 / 100)))) (balance_in (l_worker l) (p_db p))"
    "balance_in platform_account (p_db q) =
      map_option (\<lambda>x. fl (x + fl (c * fl (5 / 100)))) (balance_in platform_account (p_db p))"
    "\<forall>j. j \<notin> {l_consumer l, l_worker l, platform_account} \<longrightarrow> balance_in j (p_db q) = balance_in j (p_db p)"
    unfolding shares [symmetric]
    using assms(5-7) by (simp_all add: balance_in_bal accs paid_accounts_def bal_credit)
  show ?thesis
    by (intro exI [of _ "acc_balance a"] exI [of _ c] conjI)
      (rule B c range(1) l(2) pos others shares_add_up [OF range(1), unfolded shares])+
qed (use assms(4) in simp_all)

subsection \<open>A refusal that comes too late\<close>

text \<open>A lease that is over and was not charged.\<close>

definition closed_unpaid :: "string \<Rightarrow> market_db \<Rightarrow> bool" where
  "closed_unpaid i db \<longleftrightarrow> (\<exists>k \<in> set (map key_of_lease (leases db)). k_id k = i \<and> \<not> k_active k) \<and>
     i \<notin> set (charges (transactions db))"

lemma closed_cong:
  "map key_of_lease (leases db') = map key_of_lease (leases db) \<Longrightarrow>
   charges (transactions db') = charges (transactions db) \<Longrightarrow> closed_unpaid i db' = closed_unpaid i db"
  by (simp only: closed_unpaid_def)

lemma closed_neutral: "market_keys db' = market_keys db \<Longrightarrow> closed_unpaid i db' = closed_unpaid i db"
  by (rule closed_cong) (simp_all add: market_keys_def)

lemma closed_create:
  "account_create now j role b eth db = (db', r) \<Longrightarrow> closed_unpaid i db' = closed_unpaid i db"
  by (rule closed_cong) (auto simp: account_create_def Let_def row_simps)

lemma closed_inactive:
  assumes "db_ok db" "closed_unpaid i db" "l \<in> set (leases db)" "l_id l = i"
  shows "l_state l \<noteq> Active"
proof -
  obtain k where k: "k \<in> set (leases db)" "l_id k = i" "l_state k \<noteq> Active"
    using assms(2) by (auto simp: closed_unpaid_def key_of_lease_def)
  have "k = l"
    using lease_find_unique [OF db_ok_lease_ids [OF assms(1)]] k(1,2) assms(3,4) by (metis option.inject)
  with k show ?thesis by simp
qed

lemma closed_end_lease:
  "closed_unpaid i (p_db p) \<Longrightarrow> closed_unpaid i (p_db (end_lease now j w p))"
  unfolding closed_unpaid_def end_lease_leases end_lease_transactions completed_keys by fastforce

lemma closed_settled:
  "closed_unpaid i db \<Longrightarrow> l_id l \<noteq> i \<Longrightarrow> closed_unpaid i (settled_db now l c db)"
  by (simp add: closed_unpaid_def settled_db_simps)

lemma closed_mqtt:
  "closed_unpaid i (p_db p) \<Longrightarrow> closed_unpaid i (p_db (on_mqtt_message now chain topic msg block p))"
proof -
  have hb: "market_keys (p_db (update_heartbeat now msg p)) = market_keys (p_db p)"
    using update_heartbeat_db [of now msg p] by (auto simp: heartbeat.keys hashrate_stats.keys)
  have up: "closed_unpaid i (worker_upsert now j e g m gs v st db) = closed_unpaid i db" for j e g m gs v st db
    by (rule closed_cong) (simp_all add: worker_upsert_def row_simps)
  have prov: "closed_unpaid i (fst (get_or_create_provider now j e db)) = closed_unpaid i db" for j e db
    using closed_create [where now = now and j = j and role = "''provider''" and b = 0 and eth = e and db = db]
    by (auto simp: get_or_create_provider_def split: option.split) (metis prod.collapse)+
  show "closed_unpaid i (p_db p) \<Longrightarrow> ?thesis"
    by (simp add: on_mqtt_message_def register_worker_def update_worker_state_def Let_def up prov
        closed_neutral [OF hb] closed_neutral [OF set_state.keys] closed_neutral [OF watched.keys]
        split: option.split prod.split)
qed

lemma closed_rent:
  assumes "closed_unpaid i (p_db p)"
  shows "closed_unpaid i (p_db (fst (rent_hashpower now j prefix c addr dur wid p)))"
proof (cases rule: rent_cases [where now = now and wid = wid and p = p and i = j and prefix = prefix
      and c = c and addr = addr and dur = dur])
  case (failed w)
  then show ?thesis using assms closed_neutral [OF begun.keys] by simp
next
  case (rented w db l)
  from rented(2) have "closed_unpaid i db"
    by (cases rule: lease_create_cases) (use assms in \<open>auto simp: closed_unpaid_def row_simps\<close>)
  then show ?thesis using rented(3) closed_neutral [OF set_state.keys] by simp
qed (use assms in simp)

lemma closed_stop:
  assumes "db_ok (p_db p)" "closed_unpaid i (p_db p)"
  shows "closed_unpaid i (p_db (fst (stop_route caller now j p)))"
  using assms(1)
proof (cases rule: stop_route_cases [where caller = caller and now = now and i = j])
  case (barred l)
  then show ?thesis using closed_end_lease [OF assms(2)] by simp
next
  case (settled l a c)
  have "j \<noteq> i" using closed_inactive [OF assms settled(1)] settled(2,3) by auto
  then show ?thesis
    unfolding settled(7) using settled(2) by (intro closed_settled closed_end_lease assms(2)) simp
qed (use assms(2) in simp)

lemma closed_watchdog:
  assumes "db_ok (p_db p)" "closed_unpaid i (p_db p)"
  shows "closed_unpaid i (p_db (lease_watchdog now p))"
proof -
  let ?ls = "filter (lease_expired now) (leases (p_db p))"
  obtain q db where w: "lease_watchdog now p = q\<lparr>p_db := db\<rparr>"
    "charges (transactions db) = charges (transactions (p_db p)) @ map l_id ?ls"
    "\<forall>l \<in> set (leases (p_db p)) - set ?ls. l \<in> set (leases db)"
    using watchdog_spec [OF assms(1)] by metis
  obtain l where l: "l \<in> set (leases (p_db p))" "l_id l = i" "l_state l \<noteq> Active"
    using assms(2) by (auto simp: closed_unpaid_def key_of_lease_def)
  then have "l \<in> set (leases db)" using w(3) by (auto simp: lease_expired_def)
  then have "key_of_lease l \<in> set (map key_of_lease (leases db))" by simp
  moreover have "k_id (key_of_lease l) = i" "\<not> k_active (key_of_lease l)" using l by (simp_all add: key_of_lease_def)
  ultimately have "\<exists>k \<in> set (map key_of_lease (leases db)). k_id k = i \<and> \<not> k_active k" by blast
  moreover have "i \<notin> set (map l_id ?ls)"
    using closed_inactive [OF assms] by (auto simp: lease_expired_def)
  ultimately show ?thesis using assms(2) by (simp add: closed_unpaid_def w(1,2))
qed

lemma closed_handle:
  assumes "db_ok (db_of s)" "closed_unpaid i (db_of s)"
  shows "closed_unpaid i (db_of (handle lib now e s))"
proof (cases e)
  case (Mqtt topic msg block)
  then show ?thesis using closed_mqtt assms(2) by simp
next
  case (Rent c j prefix req)
  then show ?thesis
    using assms(2) rent_route_db [of "caller_of lib c s" now j prefix req "s_platform s"] closed_rent by auto
next
  case (Stop c j)
  then show ?thesis using closed_stop [OF assms] by simp
next
  case Tick
  then show ?thesis using closed_watchdog [OF assms] by simp
next
  case (SetPricing c w price lo hi)
  then show ?thesis
    using assms(2) pricing_route_db [of _ w price lo hi "db_of s"] closed_neutral [OF pricing.keys]
    by (auto simp del: fst_conv) metis+
next
  case (Deposit c j amount)
  then show ?thesis
    using assms(2) closed_neutral [OF deposited.keys]
      deposit_route_db [of "jwt_decode lib" "s_auth s" "x_api_key c" "authorization c" now j amount "db_of s"] by auto
next
  case (Withdraw c j amount)
  then show ?thesis
    using assms(2) closed_neutral [OF withdrawn.keys]
      withdraw_route_db [of "jwt_decode lib" "s_auth s" "x_api_key c" "authorization c" now j amount "db_of s"] by auto
next
  case (RegisterAccount key j role eth balance)
  then show ?thesis
    using assms(2) register_db [of now key j role eth balance "db_of s"] closed_create
      closed_neutral [OF set_api_key.keys] by auto
next
  case (Login key j)
  then show ?thesis using assms(2) login_db [of now key j "db_of s"] closed_neutral [OF set_api_key.keys] by auto
next
  case (Verify address sg nonce)
  then show ?thesis
    using assms(2) closed_create verify_db [where recover = "eth_recover lib" and encode = "jwt_encode lib" and now = now
        and address = address and sg = sg and nonce = nonce and au = "s_auth s" and db = "db_of s"]
    by (auto simp: Let_def split: prod.splits)
qed (use assms(2) in simp_all)

lemma closed_run:
  "db_ok (db_of s) \<Longrightarrow> closed_unpaid i (db_of s) \<Longrightarrow> closed_unpaid i (db_of (run_events lib evs s))"
  unfolding run_events_def by (induction evs arbitrary: s) (auto simp: handle_ok closed_handle)

text \<open>
  C37: a consumer can end the running lease of another: the request is answered with 403, but the
  lease is over by then, its worker is back on the market, and whatever happens afterwards the
  lease is never charged and never settled.
\<close>

theorem refused_stop_ends_lease_unpaid:
  assumes "db_ok (db_of s)" "l \<in> set (leases (db_of s))" "l_state l = Active"
    and "caller_of lib c s = Some caller" "acc_role caller = ''consumer''" "acc_id caller \<noteq> l_consumer l"
  shows "snd (stop_route (caller_of lib c s) now (l_id l) (s_platform s)) = Inl (HTTPException 403) \<and>
    lease_find (l_id l) (db_of (handle lib now (Stop c (l_id l)) s)) = Some (completed now l) \<and>
    (\<forall>evs. let db = db_of (run_events lib ((now, Stop c (l_id l)) # evs) s) in
       l_id l \<notin> set (charges (transactions db)) \<and> settlement_find (l_id l) db = None)"
proof -
  note dist = db_ok_lease_ids [OF assms(1)]
  have barred: "stop_barred (caller_of lib c s) (ended_view now l)"
    using assms(4-6) by (simp add: stop_barred_def)
  have find: "lease_find (l_id l) (db_of s) = Some l" by (rule lease_find_unique [OF dist assms(2)])
  have stop: "stop_route (caller_of lib c s) now (l_id l) (s_platform s) =
      (end_lease now (l_id l) (l_worker l) (s_platform s), Inl (HTTPException 403))"
    using find assms(3) barred
    by (simp add: stop_route_def stop_lease_def lease_get_def Let_def end_lease_find flip: ended_view_def)
  let ?s1 = "handle lib now (Stop c (l_id l)) s"
  have found: "lease_find (l_id l) (db_of ?s1) = Some (completed now l)"
    by (simp add: stop end_lease_find find)
  have unc: "l_id l \<notin> set (charges (transactions (db_of s)))" by (rule active_uncharged [OF assms(1-3)])
  have ok: "db_ok (db_of ?s1)" by (rule handle_ok [OF assms(1)])
  have "key_of_lease (completed now l) \<in> set (map key_of_lease (leases (db_of ?s1)))"
    using lease_find_Some [OF found] by simp
  moreover have "k_id (key_of_lease (completed now l)) = l_id l" "\<not> k_active (key_of_lease (completed now l))"
    by (simp_all add: key_of_lease_def)
  moreover have "charges (transactions (db_of ?s1)) = charges (transactions (db_of s))"
    by (simp add: stop end_lease_transactions)
  ultimately have "closed_unpaid (l_id l) (db_of ?s1)" unfolding closed_unpaid_def using unc by auto
  from closed_run [OF ok this] run_ok [OF ok]
  have run: "closed_unpaid (l_id l) (db_of (run_events lib evs ?s1)) \<and> db_ok (db_of (run_events lib evs ?s1))" for evs
    by blast
  have later: "l_id l \<notin> set (charges (transactions (db_of (run_events lib evs ?s1)))) \<and>
      settlement_find (l_id l) (db_of (run_events lib evs ?s1)) = None" for evs
    using run [of evs]
    by (auto simp: closed_unpaid_def db_ok_def market_keys_def keys_ok_def charges_ok_def settlement_find_def find_key_None)
  have step: "run_events lib ((now, Stop c (l_id l)) # evs) s = run_events lib evs ?s1" for evs
    by (simp add: run_events_def)
  have "snd (stop_route (caller_of lib c s) now (l_id l) (s_platform s)) = Inl (HTTPException 403)"
    by (simp add: stop)
  with found later show ?thesis unfolding Let_def step by blast
qed

end
