(* ===== verification/ServerRaces.thy ===== *)
theory ServerRaces
  imports ServerProps
begin

text \<open>
  Two handlers of the server at the same time.  A handler gives up control at its \<open>await\<close>s;
  \<open>check_expired_leases\<close> reads the expired leases and ends them without the matcher's lock, so a
  \<open>stop\<close> request can run in between.  The watchdog is taken apart there.  Also here: what a
  statement that failed leaves behind on the connection all handlers share.
\<close>

subsection \<open>The watchdog from the list it has read\<close>

definition lease_watchdog_from :: "pyfloat \<Rightarrow> lease_view list \<Rightarrow> platform \<Rightarrow> platform \<times> unit py" where
  "lease_watchdog_from now seen p =
     (let (p1, expired) = expire_leases now seen p;
          (db, r) = settle_all now expired (p_db p1)
      in (p1\<lparr>p_db := db\<rparr>, r))"

lemma watchdog_is_from: "lease_watchdog now p = fst (lease_watchdog_from now (find_expired now (p_db p)) p)"
  by (simp add: lease_watchdog_def lease_watchdog_from_def check_expired_leases_def Let_def split: prod.split)

subsection \<open>Paying twice\<close>

lemma leased_accounts:
  assumes "db_ok db" "lease_find i db = Some k"
  shows "account_get (l_consumer k) db \<noteq> None" "account_get (l_worker k) db \<noteq> None"
    "account_get platform_account db \<noteq> None"
proof -
  from lease_find_Some [OF assms(2)] have "key_of_lease k \<in> set (map key_of_lease (leases db))" by simp
  with assms(1) have acc: "l_worker k \<in> w_id ` set (workers db)" "l_consumer k \<in> acc_id ` set (accounts db)"
    "w_id ` set (workers db) \<subseteq> acc_id ` set (accounts db)"
    by (auto simp: db_ok_def market_keys_def keys_ok_def leases_ok_def key_of_lease_def)
  then show "account_get (l_consumer k) db \<noteq> None" "account_get (l_worker k) db \<noteq> None"
    by (auto simp: account_get_None)
  show "account_get platform_account db \<noteq> None"
    using assms(1) by (auto simp: db_ok_def market_keys_def keys_ok_def account_get_None)
qed

lemma settle_again:
  assumes "rollback_to db = None" "account_get (l_consumer l) db = Some a"
    and "account_get (l_worker l) db \<noteq> None" "account_get platform_account db \<noteq> None"
    and "settlement_find (l_id l) db \<noteq> None"
  shows "settle_lease now l db =
    (begin_stmt (db\<lparr>accounts := paid_accounts now l (settled_cost l (acc_balance a)) (accounts db),
       transactions := transactions db @ paid_rows now l (settled_cost l (acc_balance a))\<rparr>), Inl IntegrityError)"
proof -
  have get: "account_get j (begin_stmt db) = account_get j db" for j
    by (simp add: account_get_def row_simps)
  have pay: "pay_lease now l cost (begin_stmt db) =
      ((begin_stmt db)\<lparr>accounts := paid_accounts now l cost (accounts db),
         transactions := transactions db @ paid_rows now l cost\<rparr>, Inr ())" for cost
    using assms(2-4) pay_lease_eq [of "begin_stmt db" l now cost] by (simp add: row_simps get)
  have "commit ((begin_stmt db)\<lparr>accounts := as, transactions := ts\<rparr>) = db\<lparr>accounts := as, transactions := ts\<rparr>" for as ts
    using assms(1) by (simp add: commit_def begin_stmt_def)
  then show ?thesis
    using assms by (simp add: settle_lease_def pay settlement_create_def settlement_find_def Let_def)
qed

lemma expire_leases_step:
  "fst (expire_leases now (v # vs) p) = fst (expire_leases now vs (end_lease now (l_id v) (l_worker v) p))"
  by (simp add: Let_def split: prod.split)

lemma end_lease_settlements: "settlements (p_db (end_lease now i w p)) = settlements (p_db p)"
  by (simp add: end_lease_db worker_set_state_def row_simps)

lemma expire_leases_keeps:
  "accounts (p_db (fst (expire_leases now vs p))) = accounts (p_db p) \<and>
   transactions (p_db (fst (expire_leases now vs p))) = transactions (p_db p) \<and>
   settlements (p_db (fst (expire_leases now vs p))) = settlements (p_db p)"
  by (induction vs arbitrary: p)
    (simp_all only: expire_leases_step end_lease_transactions end_lease_settlements end_lease_accounts, simp)

lemma expire_leases_committed:
  "rollback_to (p_db p) = None \<or> vs \<noteq> [] \<Longrightarrow> rollback_to (p_db (fst (expire_leases now vs p))) = None"
proof (induction vs arbitrary: p)
  case (Cons v vs)
  then show ?case by (simp only: expire_leases_step end_lease_committed simp_thms)
qed simp

text \<open>
  C38: the watchdog finds a lease expired; before it goes on, a request stops and settles the same
  lease.  The watchdog then charges the lease a second time and commits that; recording the
  settlement fails, the error ends the round, so that of the leases found after it none is
  charged, and the failed statement's transaction stays open.
\<close>

theorem stop_during_watchdog_charges_twice:
  assumes "db_ok (p_db p)" "find_expired now (p_db p) = v # vs"
    and "stop_route caller now' (l_id v) p = (q, Inr (l, rec))"
    and "lease_watchdog_from now'' (v # vs) q = (q', r)"
  shows "r = Inl IntegrityError \<and>
    charges (transactions (p_db q')) = charges (transactions (p_db p)) @ [l_id v, l_id v] \<and>
    count_list (map st_lease (settlements (p_db q'))) (l_id v) = 1 \<and>
    rollback_to (p_db q') \<noteq> None"
proof -
  obtain k a c where k: "k \<in> set (leases (p_db p))" "l_id k = l_id v" "l_state k = Active"
      "p_db q = settled_db now' (ended_view now' k) c (p_db (end_lease now' (l_id v) (l_worker k) p))" "db_ok (p_db q)"
    using assms(1)
    by (cases rule: stop_route_cases [where caller = caller and now = now' and i = "l_id v"]) (use assms(3) in auto)
  have ch: "charges (transactions (p_db q)) = charges (transactions (p_db p)) @ [l_id v]"
    by (simp add: k(2,4) settled_db_simps end_lease_transactions)
  have st: "l_id v \<in> set (map st_lease (settlements (p_db q)))"
    by (simp add: k(2,4) settled_db_simps settlement_row_def)
  have "lease_find (l_id v) (p_db p) = Some k"
    using lease_find_unique [OF db_ok_lease_ids [OF assms(1)] k(1)] k(2) by simp
  then have find: "lease_find (l_id v) (p_db q) = Some (completed now' k)"
    by (simp add: k(4) lease_find_def settled_db_simps) (simp add: end_lease_find flip: lease_find_def)
  obtain q1 us where e: "expire_leases now'' (v # vs) q = (q1, us)" by fastforce
  then obtain us' where us: "us = lease_get now'' (l_id v) (p_db (end_lease now'' (l_id v) (l_worker v) q)) # us'"
    by (auto simp: Let_def split: prod.splits)
  define x where "x = view_lease now'' (completed now'' (completed now' k))"
  have head: "us = Some x # us'"
    by (simp add: us x_def lease_get_def end_lease_find find)
  have keep: "accounts (p_db q1) = accounts (p_db q)" "transactions (p_db q1) = transactions (p_db q)"
    "settlements (p_db q1) = settlements (p_db q)" "rollback_to (p_db q1) = None"
    using expire_leases_keeps [of now'' "v # vs" q] expire_leases_committed [of q "v # vs" now''] by (simp_all add: e del: expire_leases.simps)
  have same: "account_get j (p_db q1) = account_get j (p_db q)" for j by (simp add: account_get_def keep)
  have xs: "l_id x = l_id v" "l_consumer x = l_consumer k" "l_worker x = l_worker k" by (simp_all add: x_def k(2))
  obtain b where b: "account_get (l_consumer x) (p_db q1) = Some b"
    using leased_accounts(1) [OF k(5) find] by (auto simp: same xs)
  have "settlement_find (l_id x) (p_db q1) \<noteq> None"
    using st by (auto simp: settlement_find_def find_key_None keep xs)
  from settle_again [OF keep(4) b _ _ this] leased_accounts [OF k(5) find]
  obtain d where d: "settle_lease now'' x (p_db q1) = (begin_stmt d, Inl IntegrityError)"
    "charges (transactions d) = charges (transactions (p_db q1)) @ [l_id x]" "settlements d = settlements (p_db q1)"
    by (simp add: same xs paid_rows_def charges_def tx_row_def)
  have "(q', r) = (q1\<lparr>p_db := begin_stmt d\<rparr>, Inl IntegrityError)"
    using assms(4) unfolding lease_watchdog_from_def e head by (simp add: d(1) and_then_def)
  moreover have "distinct (map st_lease (settlements (p_db q)))"
    using k(5) by (simp add: db_ok_def market_keys_def keys_ok_def charges_ok_def)
  ultimately show ?thesis
    using st by (simp add: d keep ch xs row_simps count_list_distinct)
qed

subsection \<open>A settlement that is lost\<close>

text \<open>
  A request ends a lease and, before it is settled, another rental request fails on a
  constraint.  The failed insert leaves a transaction open, so the settlement cannot begin its
  own: it gives up without an error, the lease is over and nothing was charged.
\<close>

theorem failed_rent_loses_settlement:
  assumes "stop_lease now i p = (p1, Some l)"
    and "rent_hashpower now' j prefix c addr dur wid p1 = (p2, Inl e)"
  shows "settle_lease now'' l (p_db p2) = (p_db p1, Inr None) \<and>
    transactions (p_db p1) = transactions (p_db p) \<and> accounts (p_db p1) = accounts (p_db p) \<and>
    (\<exists>k. lease_find i (p_db p1) = Some k \<and> l_state k = Completed)"
proof -
  obtain k where k: "lease_find i (p_db p) = Some k" "p1 = end_lease now i (l_worker k) p"
    using assms(1) by (auto simp: stop_lease_def lease_get_def Let_def split: option.splits if_splits)
  have "p_db p2 = begin_stmt (p_db p1)"
    by (cases rule: rent_cases [where now = now' and wid = wid and p = p1 and i = j and prefix = prefix
          and c = c and addr = addr and dur = dur]) (use assms(2) in auto)
  moreover have "rollback_to (p_db p1) = None" by (simp add: k(2) end_lease_committed)
  moreover have "rollback_to (begin_stmt (p_db p1)) \<noteq> None" by (simp add: begin_stmt_def split: option.split)
  ultimately have "settle_lease now'' l (p_db p2) = (p_db p1, Inr None)"
    using settle_open_transaction [of "p_db p2" now'' l] rollback_begin [of "p_db p1"] by simp
  then show ?thesis by (simp add: k end_lease_transactions end_lease_find)
qed

subsection \<open>The renter's statistics\<close>

lemma foldl_zero: "(\<And>l. l \<in> set ls \<Longrightarrow> f l = 0) \<Longrightarrow> foldl (\<lambda>t l. fl (t + f l)) 0 ls = (0 :: pyfloat)"
  by (induction ls) simp_all

text \<open>
  Whatever a consumer paid, the statistics report a total and an average cost of zero, because
  the rows they add up carry no price.
\<close>

theorem renter_stats_cost_zero:
  "rs_total_spent (renter_stats now acct db) = 0 \<and> rs_avg_cost (renter_stats now acct db) = 0"
proof -
  have none: "cl_price_per_sec l = None" if "l \<in> set (list_for_consumer now aid st lim off db)" for l aid st lim off
    using that by (auto simp: list_for_consumer_def consumer_view_def)
  have "foldl (\<lambda>t l. fl (t + fl (cl_elapsed_sec l * dflt 0 (cl_price_per_sec l)))) 0
      (list_for_consumer now aid st lim off db) = 0" for aid st lim off
    by (rule foldl_zero) (simp add: none dflt_def)
  then show ?thesis by (simp add: renter_stats_def Let_def py_round_n_def)
qed

end
