(* ===== verification/Ledger.thy ===== *)
theory Ledger
  imports ServerProps
begin

text \<open>
  The balances as a ledger.  The abstract view of the tables is a balance for each account; the
  entries of the transaction log are its only steps.  Every handler of the server refines it: what
  happens to the balances is what posting the logged entries, in their order, does to them.
\<close>

subsection \<open>The abstract ledger\<close>

type_synonym ledger = "string \<Rightarrow> pyfloat option"

definition ledger_of :: "'z market_tables_scheme \<Rightarrow> ledger" where
  "ledger_of db = (\<lambda>i. bal i (accounts db))"

definition posted :: "transaction \<Rightarrow> pyfloat \<Rightarrow> pyfloat" where
  "posted t b = (case t_type t of
     TxDeposit \<Rightarrow> fl (b + t_amount t) | TxProviderPayout \<Rightarrow> fl (b + t_amount t)
   | TxPlatformFee \<Rightarrow> fl (b + t_amount t) | TxTransferIn \<Rightarrow> fl (b + t_amount t)
   | TxWithdraw \<Rightarrow> fl (b - t_amount t) | TxLeaseCharge \<Rightarrow> fl (b - t_amount t)
   | TxTransferOut \<Rightarrow> fl (b - t_amount t))"

definition post :: "transaction \<Rightarrow> ledger \<Rightarrow> ledger" where
  "post t g = g(t_account t := map_option (posted t) (g (t_account t)))"

definition post_all :: "transaction list \<Rightarrow> ledger \<Rightarrow> ledger" where
  "post_all ts g = foldl (\<lambda>g t. post t g) g ts"

lemma post_all_append: "post_all (ts @ us) g = post_all us (post_all ts g)"
  by (simp add: post_all_def)

lemma post_all_mono: "g \<subseteq>\<^sub>m h \<Longrightarrow> post_all ts g \<subseteq>\<^sub>m post_all ts h"
proof (induction ts arbitrary: g h)
  case (Cons t ts)
  have "post t g \<subseteq>\<^sub>m post t h"
    using Cons.prems by (auto simp: post_def map_le_def dom_def)
  with Cons.IH show ?case by (simp add: post_all_def)
qed (simp add: post_all_def)

text \<open>A change of the tables refines the ledger: the log grows, and the accounts there were have
  the balances the new entries give them; accounts may be opened.\<close>

definition refines_ledger :: "market_db \<Rightarrow> market_db \<Rightarrow> bool" where
  "refines_ledger db db' \<longleftrightarrow> (\<exists>ts. transactions db' = transactions db @ ts \<and>
     post_all ts (ledger_of db) \<subseteq>\<^sub>m ledger_of db')"

lemma refines_refl [simp]: "refines_ledger db db"
  by (auto simp: refines_ledger_def post_all_def)

lemma refines_trans: "refines_ledger db1 db2 \<Longrightarrow> refines_ledger db2 db3 \<Longrightarrow> refines_ledger db1 db3"
  unfolding refines_ledger_def
  by (metis append_assoc map_le_trans post_all_append post_all_mono)

lemma refines_same:
  "map (\<lambda>a. (acc_id a, acc_balance a)) (accounts db') = map (\<lambda>a. (acc_id a, acc_balance a)) (accounts db) \<Longrightarrow>
   transactions db' = transactions db \<Longrightarrow> refines_ledger db db'"
proof -
  assume m: "map (\<lambda>a. (acc_id a, acc_balance a)) (accounts db') = map (\<lambda>a. (acc_id a, acc_balance a)) (accounts db)"
    and t: "transactions db' = transactions db"
  have "bal i as = map_option snd (find (\<lambda>x. fst x = i) (map (\<lambda>a. (acc_id a, acc_balance a)) as))" for i as
    by (induction as) (auto simp: bal_def)
  then have "ledger_of db' = ledger_of db" by (simp add: ledger_of_def m)
  with t show ?thesis by (simp add: refines_ledger_def post_all_def)
qed

subsection \<open>Operations that do not touch money\<close>

lemma map_money_update:
  "(\<And>a. acc_id (f a) = acc_id a \<and> acc_balance (f a) = acc_balance a) \<Longrightarrow>
   map (\<lambda>a. (acc_id a, acc_balance a)) (update_rows P f as) = map (\<lambda>a. (acc_id a, acc_balance a)) as"
  by (induction as) auto

locale moneyless =
  fixes f :: "market_db \<Rightarrow> market_db"
  assumes log: "transactions (f db) = transactions db"
    and money: "map (\<lambda>a. (acc_id a, acc_balance a)) (accounts (f db)) = map (\<lambda>a. (acc_id a, acc_balance a)) (accounts db)"
begin

lemma refines: "refines_ledger db (f db)"
  by (rule refines_same [OF money log])

lemma refines_then: "refines_ledger db0 db \<Longrightarrow> refines_ledger db0 (f db)"
  using refines refines_trans by blast

end

lemmas moneyless_simps = row_simps map_money_update

interpretation m_api_key: moneyless "set_api_key now i key" for now i key
  by unfold_locales (simp_all add: set_api_key_def moneyless_simps)

interpretation m_state: moneyless "worker_set_state i st" for i st
  by unfold_locales (simp_all add: worker_set_state_def moneyless_simps)

interpretation m_upsert: moneyless "worker_upsert now i e g m gs v st" for now i e g m gs v st
  by unfold_locales (simp_all add: worker_upsert_def moneyless_simps)

interpretation m_heartbeat: moneyless "worker_heartbeat now i h g" for now i h g
  by unfold_locales (simp_all add: worker_heartbeat_def Let_def moneyless_simps)

interpretation m_pricing: moneyless "worker_update_pricing i p a b" for i p a b
  by unfold_locales (simp_all add: worker_update_pricing_def moneyless_simps)

interpretation m_hashrate: moneyless "update_hashrate_stats i h" for i h
  by unfold_locales (simp_all add: update_hashrate_stats_def moneyless_simps)

interpretation m_begin: moneyless begin_stmt
  by unfold_locales (simp_all add: moneyless_simps)

interpretation m_block: moneyless "handle_block_found now chain msg topic" for now chain msg topic
  by unfold_locales
    (simp_all add: handle_block_found_def handle_self_mined_block_def block_create_def worker_increment_self_blocks_def
      lease_increment_blocks_def Let_def moneyless_simps split: option.split prod.split)

subsection \<open>Operations on balances\<close>

lemma refines_create:
  assumes "account_create now i role b eth db = (db', r)"
  shows "refines_ledger db db'"
  using assms
proof (cases rule: account_create_cases)
  case 1
  then show ?thesis by (intro refines_same) (simp_all add: row_simps)
next
  case (2 a)
  have "bal j as = Some x \<Longrightarrow> bal j (as @ [a]) = Some x" for j as x
    by (induction as) (auto simp: bal_def)
  then show ?thesis
    by (auto simp: refines_ledger_def post_all_def map_le_def dom_def ledger_of_def 2 row_simps)
qed

lemma ledger_update:
  "accounts db' = update_rows (\<lambda>a. acc_id a = i) f (accounts db) \<Longrightarrow> (\<And>a. acc_id (f a) = acc_id a) \<Longrightarrow>
   ledger_of db' = (ledger_of db)(i := map_option (\<lambda>a. acc_balance (f a)) (find (\<lambda>a. acc_id a = i) (accounts db)))"
proof -
  assume "accounts db' = update_rows (\<lambda>a. acc_id a = i) f (accounts db)" and f: "\<And>a. acc_id (f a) = acc_id a"
  moreover have "bal j (update_rows (\<lambda>a. acc_id a = i) f as) =
      (if j = i then map_option (\<lambda>a. acc_balance (f a)) (find (\<lambda>a. acc_id a = i) as) else bal j as)" for j as
    by (induction as) (auto simp: bal_def f)
  ultimately show ?thesis by (auto simp: ledger_of_def)
qed

lemma refines_balance:
  assumes "account_get i db = Some a" "posted t (acc_balance a) = b" "t_account t = i"
  shows "refines_ledger db (commit ((update_balance now i b db)\<lparr>transactions := transactions db @ [t]\<rparr>))"
proof -
  have "ledger_of (update_balance now i b db) = (ledger_of db)(i := Some b)"
    using ledger_update [of "update_balance now i b db" i "\<lambda>a. a\<lparr>acc_balance := b, acc_updated_at := now\<rparr>" db] assms(1)
    by (simp add: update_balance_def row_simps account_get_def)
  moreover have "ledger_of db i = Some (acc_balance a)"
    using assms(1) by (simp add: ledger_of_def bal_def account_get_def)
  ultimately have "ledger_of (commit ((update_balance now i b db)\<lparr>transactions := transactions db @ [t]\<rparr>)) = post_all [t] (ledger_of db)"
    using assms(2,3) by (simp add: post_all_def post_def) (simp add: ledger_of_def row_simps)
  then show ?thesis by (auto simp: refines_ledger_def row_simps)
qed

lemma refines_deposit: "refines_ledger db (fst (deposit now i amount db))"
  by (auto simp: deposit_eq tx_row_def posted_def intro!: refines_balance split: option.split)

lemma refines_withdraw: "refines_ledger db (fst (withdraw now i amount db))"
  by (auto simp: withdraw_eq tx_row_def posted_def intro!: refines_balance split: option.split)

lemma post_credit:
  assumes "\<And>b. posted t b = fl (b + y)" "t_account t = i"
  shows "post t (\<lambda>j. bal j as) = (\<lambda>j. bal j (credit now i y as))"
proof -
  have "posted t = (\<lambda>b. fl (b + y))" using assms(1) by auto
  then show ?thesis by (auto simp: post_def bal_credit assms(2))
qed

lemma refines_settled: "refines_ledger db (settled_db now l c db)"
proof -
  have "post_all (paid_rows now l c) (\<lambda>j. bal j (accounts db)) = (\<lambda>j. bal j (paid_accounts now l c (accounts db)))"
    unfolding post_all_def paid_rows_def paid_accounts_def foldl.simps
    by (simp add: post_credit [where y = "- c" and i = "l_consumer l" and now = now]
        post_credit [where y = "provider_payment c" and i = "l_worker l" and now = now]
        post_credit [where y = "platform_fee c" and i = platform_account and now = now] tx_row_def posted_def)
  then show ?thesis
    by (auto simp: refines_ledger_def ledger_of_def settled_db_def row_simps)
qed

lemma refines_end_lease: "refines_ledger (p_db p) (p_db (end_lease now i w p))"
  by (rule refines_same) (simp_all add: end_lease_transactions)

subsection \<open>Handlers\<close>

lemma refines_rollback: "clean_tx db \<Longrightarrow> refines_ledger db (rollback db)"
  by (rule refines_same) (auto simp: clean_tx_def rollback_def market_tables.defs split: option.split)

lemma refines_mqtt: "refines_ledger (p_db p) (p_db (on_mqtt_message now chain topic msg block p))"
proof -
  have hb: "refines_ledger (p_db p) (p_db (update_heartbeat now msg p))"
    using update_heartbeat_db [of now msg p] m_heartbeat.refines m_hashrate.refines_then by auto
  have prov: "refines_ledger db (fst (get_or_create_provider now j e db))" for j e db
    by (auto simp: get_or_create_provider_def split: option.split prod.split) (metis prod.collapse refines_create)
  have reg: "refines_ledger (p_db p) (p_db (fst (register_worker now msg p)))"
    by (simp add: register_worker_def Let_def refines_trans [OF m_upsert.refines prov] split: option.split)
  show ?thesis
    by (auto simp: on_mqtt_message_def update_worker_state_def hb reg m_state.refines m_block.refines
        split: option.split prod.split)
qed

lemma refines_rent: "refines_ledger (p_db p) (p_db (fst (rent_hashpower now i prefix c addr dur wid p)))"
proof (cases rule: rent_cases [where now = now and wid = wid and p = p and i = i and prefix = prefix
      and c = c and addr = addr and dur = dur])
  case (rented w db l)
  from rented(2) have "refines_ledger (p_db p) db"
    by (cases rule: lease_create_cases) (auto intro!: refines_same simp: row_simps m_begin.refines)
  then show ?thesis using rented(3) m_state.refines_then by simp
qed (simp_all add: m_begin.refines)

lemma refines_stop:
  assumes "db_ok (p_db p)"
  shows "refines_ledger (p_db p) (p_db (fst (stop_route caller now i p)))"
  using assms
proof (cases rule: stop_route_cases [where caller = caller and now = now and i = i])
  case (settled l a c)
  show ?thesis unfolding settled(7) by (rule refines_trans [OF refines_end_lease refines_settled])
qed (simp_all add: refines_end_lease)

lemma refines_expire: "refines_ledger (p_db p) (p_db (fst (expire_leases now vs p)))"
proof (induction vs arbitrary: p)
  case (Cons v vs)
  have "fst (expire_leases now (v # vs) p) = fst (expire_leases now vs (end_lease now (l_id v) (l_worker v) p))"
    by (simp add: Let_def split: prod.split)
  with refines_trans [OF refines_end_lease Cons.IH] show ?case by metis
qed simp

lemma refines_settle_all:
  assumes "db_ok db" "vs \<noteq> [] \<longrightarrow> rollback_to db = None" "\<forall>v \<in> set vs. settleable db v" "distinct (map l_id vs)"
  shows "refines_ledger db (fst (settle_all now (map Some vs) db))"
  using assms
proof (induction vs arbitrary: db)
  case (Cons v vs)
  then obtain c where s: "settle_lease now v db = (settled_db now v c db, Inr (Some (view_settlement (settlement_row now v c))))"
    "db_ok (settled_db now v c db)" "rollback_to (settled_db now v c db) = None"
    "\<And>k. settleable db k \<Longrightarrow> l_id k \<noteq> l_id v \<Longrightarrow> settleable (settled_db now v c db) k"
    using settle_step [of db v now] by (metis list.discI list.set_intros(1))
  have "\<forall>x \<in> set vs. settleable (settled_db now v c db) x"
    using Cons.prems(3,4) s(4) by (metis distinct.simps(2) image_eqI list.set_intros(2) list.set_map list.simps(9))
  then have "refines_ledger (settled_db now v c db) (fst (settle_all now (map Some vs) (settled_db now v c db)))"
    using Cons.prems(4) s(2,3) by (intro Cons.IH) simp_all
  from refines_trans [OF refines_settled this] s(1) show ?case by simp
qed simp

lemma refines_watchdog:
  assumes "db_ok (p_db p)"
  shows "refines_ledger (p_db p) (p_db (lease_watchdog now p))"
proof -
  obtain q vs where w: "lease_watchdog now p = q\<lparr>p_db := fst (settle_all now (map Some vs) (p_db q))\<rparr>"
    "q = fst (check_expired_leases now p)" "db_ok (p_db q)" "vs \<noteq> [] \<longrightarrow> rollback_to (p_db q) = None"
    "\<forall>v \<in> set vs. settleable (p_db q) v" "distinct (map l_id vs)"
    by (rule watchdog_chain [OF assms, where now = now]) (rule that)
  have "refines_ledger (p_db p) (p_db q)" unfolding w(2) check_expired_leases_def by (rule refines_expire)
  from refines_trans [OF this refines_settle_all [OF w(3-6)]] show ?thesis by (simp add: w(1))
qed

lemma refines_handle:
  assumes "db_ok (db_of s)"
  shows "refines_ledger (db_of s) (db_of (handle lib now e s))"
proof (cases e)
  case (Mqtt topic msg block)
  then show ?thesis using refines_mqtt by simp
next
  case (Rent c i prefix req)
  then show ?thesis
    using rent_route_db [of "caller_of lib c s" now i prefix req "s_platform s"] refines_rent by auto
next
  case (Stop c i)
  then show ?thesis using refines_stop [OF assms] by simp
next
  case Tick
  then show ?thesis using refines_watchdog [OF assms] by simp
next
  case (SetPricing c w price lo hi)
  then show ?thesis
    using pricing_route_db [of _ w price lo hi "db_of s"] m_pricing.refines by (auto simp del: fst_conv) (metis refines_refl)+
next
  case (Deposit c i amount)
  then show ?thesis
    using deposit_route_db [of "jwt_decode lib" "s_auth s" "x_api_key c" "authorization c" now i amount "db_of s"]
      refines_deposit by auto
next
  case (Withdraw c i amount)
  then show ?thesis
    using withdraw_route_db [of "jwt_decode lib" "s_auth s" "x_api_key c" "authorization c" now i amount "db_of s"]
      refines_withdraw by auto
next
  case (RegisterAccount key i role eth balance)
  then show ?thesis
    using register_db [of now key i role eth balance "db_of s"] refines_create m_api_key.refines_then by auto
next
  case (Login key i)
  then show ?thesis using login_db [of now key i "db_of s"] m_api_key.refines by auto
next
  case (Verify address sg nonce)
  then show ?thesis
    using refines_create verify_db [where recover = "eth_recover lib" and encode = "jwt_encode lib" and now = now
        and address = address and sg = sg and nonce = nonce and au = "s_auth s" and db = "db_of s"]
    by (auto simp: Let_def split: prod.splits)
qed simp_all

lemma refines_run: "db_ok (db_of s) \<Longrightarrow> refines_ledger (db_of s) (db_of (run_events lib evs s))"
  unfolding run_events_def
proof (induction evs arbitrary: s)
  case (Cons te evs)
  show ?case
    using refines_trans [OF refines_handle [OF Cons.prems] Cons.IH [OF handle_ok [OF Cons.prems]]]
    by (cases te) simp
qed simp

text \<open>
  C5: the transaction log explains every balance: over any run of events the log only grows, and
  an account that existed before has at the end exactly the balance that posting the new entries
  of the log, in their order, gives it; accounts are opened, but never lost.
\<close>

theorem balances_follow_log:
  assumes "db_ok (db_of s)"
  shows "\<exists>ts. transactions (db_of (run_events lib evs s)) = transactions (db_of s) @ ts \<and>
    post_all ts (ledger_of (db_of s)) \<subseteq>\<^sub>m ledger_of (db_of (run_events lib evs s))"
  using refines_run [OF assms] by (simp add: refines_ledger_def)

end
