(* ===== verification/ServerSamples.thy ===== *)
theory ServerSamples
  imports ServerRaces Ledger
begin

text \<open>
  The properties of the server at concrete inputs: one worker, two consumers and the platform, with
  and without a running lease of the first consumer, which costs one unit per second.
\<close>

subsection \<open>A small market\<close>

definition sample_account :: "string \<Rightarrow> string \<Rightarrow> pyfloat \<Rightarrow> account" where
  "sample_account i role balance = \<lparr>acc_id = i, acc_role = role, acc_eth_address = [], acc_balance = balance,
     acc_api_key = ''key-'' @ i, acc_created_at = 0, acc_updated_at = 0\<rparr>"

definition idle_market :: market_db where
  "idle_market = empty_db\<lparr>
     accounts := [sample_account ''c1'' ''consumer'' 100, sample_account ''c2'' ''consumer'' 100,
       sample_account ''w1'' ''provider'' 0, sample_account platform_account ''consumer'' 0],
     workers := [sample_worker ''w1'' 60]\<rparr>"

definition leased_market :: market_db where
  "leased_market = idle_market\<lparr>leases := [new_lease 0 ''l1'' ''w1'' ''c1'' ''0x1'' ''ab'' 60 1]\<rparr>"

definition on_market :: "market_db \<Rightarrow> platform" where
  "on_market db = \<lparr>p_db = db, p_config = (\<lambda>_. None), p_sent = []\<rparr>"

definition sample_server :: "market_db \<Rightarrow> server" where
  "sample_server db = \<lparr>s_platform = on_market db, s_auth = init_auth, s_chain = None\<rparr>"

definition sample_libs :: libs where
  "sample_libs = \<lparr>jwt_decode = (\<lambda>_. None), jwt_encode = c_account_id, eth_recover = (\<lambda>text s. Some s)\<rparr>"

lemmas sample_defs = idle_market_def leased_market_def sample_account_def sample_worker_def new_lease_def empty_db_def

lemma idle_ok: "db_ok idle_market" "amounts_ok 0 idle_market"
  by (simp_all add: sample_defs db_ok_def market_keys_def keys_ok_def leases_ok_def charges_ok_def charges_def
      clean_tx_def amounts_ok_def worker_ok_def platform_account_def)

lemma leased_ok: "db_ok leased_market" "amounts_ok 0 leased_market"
  by (simp_all add: sample_defs db_ok_def market_keys_def keys_ok_def leases_ok_def charges_ok_def charges_def
      clean_tx_def amounts_ok_def worker_ok_def platform_account_def key_of_lease_def lease_ok_def)

lemma on_market_db [simp]: "p_db (on_market db) = db"
  by (simp add: on_market_def)

lemma not_isl_pair: "\<not> isl (snd x) \<Longrightarrow> \<exists>q l k. x = (q, Inr (l, k))"
  by (cases x; cases "snd x") auto

subsection \<open>Witnesses\<close>

theorem rent_sound_witness:
  "p_sent (fst (rent_hashpower 1 ''l2'' ''ab'' ''c1'' ''0x1'' 60 None (on_market idle_market))) =
     [(''w1'', AssignTask ''l2'' ''c1'' ''0x1'' ''ab'' 60)]"
proof -
  have "case snd (rent_hashpower 1 ''l2'' ''ab'' ''c1'' ''0x1'' 60 None (on_market idle_market)) of
      Inr (Some l) \<Rightarrow> l_worker l = ''w1'' | _ \<Rightarrow> False"
    by code_simp
  moreover obtain q r where "rent_hashpower 1 ''l2'' ''ab'' ''c1'' ''0x1'' 60 None (on_market idle_market) = (q, r)"
    by fastforce
  ultimately show ?thesis
    using rent_sound [of "on_market idle_market" 1 "''l2''" "''ab''" "''c1''" "''0x1''" 60 None q r] idle_ok
    by (auto simp: on_market_def new_lease_def split: sum.splits option.splits)
qed

theorem stop_settles_witness:
  "balance_in ''c1'' (p_db (fst (stop_route None 10 ''l1'' (on_market leased_market)))) = Some 90"
proof -
  have "case snd (stop_route None 10 ''l1'' (on_market leased_market)) of
      Inr (l, rec) \<Rightarrow> l_consumer l = ''c1'' \<and> l_worker l = ''w1'' \<and> l_created_at l = 0 \<and> l_price_per_sec l = 1
    | Inl e \<Rightarrow> False" by code_simp
  then obtain q l rec where r: "stop_route None 10 ''l1'' (on_market leased_market) = (q, Inr (l, rec))"
    and l: "l_consumer l = ''c1''" "l_worker l = ''w1''" "l_created_at l = 0" "l_price_per_sec l = 1"
    by (cases "stop_route None 10 ''l1'' (on_market leased_market)") (auto split: sum.splits)
  have "balance_in ''c1'' leased_market = Some 100" "fl 10 = 10" "fl 90 = 90" by code_simp+
  then show ?thesis
    using stop_settles [OF _ _ _ r, of 0] leased_ok by (auto simp: l r platform_account_def)
qed

theorem refused_stop_ends_lease_unpaid_witness:
  "let db = db_of (run_events sample_libs
      [(10, Stop \<lparr>x_api_key = ''key-c2'', authorization = []\<rparr> ''l1''), (100, Tick)] (sample_server leased_market))
   in ''l1'' \<notin> set (charges (transactions db)) \<and> settlement_find ''l1'' db = None"
proof -
  let ?l = "new_lease 0 ''l1'' ''w1'' ''c1'' ''0x1'' ''ab'' 60 1"
  let ?s = "sample_server leased_market"
  have db: "db_of ?s = leased_market" by (simp add: sample_server_def)
  have l: "?l \<in> set (leases (db_of ?s))" "l_state ?l = Active" "l_id ?l = ''l1''" "l_consumer ?l = ''c1''"
    unfolding db by (simp_all add: sample_defs)
  have "map_option (\<lambda>a. (acc_role a, acc_id a)) (caller_of sample_libs \<lparr>x_api_key = ''key-c2'', authorization = []\<rparr> ?s)
      = Some (''consumer'', ''c2'')" by code_simp
  then obtain a where a: "caller_of sample_libs \<lparr>x_api_key = ''key-c2'', authorization = []\<rparr> ?s = Some a"
    "acc_role a = ''consumer''" "acc_id a = ''c2''" by auto
  show ?thesis
    using refused_stop_ends_lease_unpaid [OF _ l(1,2) a(1,2), of 10] leased_ok l(3,4) a(3) by (simp add: db Let_def)
qed

theorem watchdog_settles_expired_witness:
  "count_list (charges (transactions (p_db (lease_watchdog 100 (on_market leased_market))))) ''l1'' = 1"
proof -
  let ?l = "new_lease 0 ''l1'' ''w1'' ''c1'' ''0x1'' ''ab'' 60 1"
  have "lease_expired 100 ?l" by code_simp
  moreover have "?l \<in> set (leases leased_market)" "l_id ?l = ''l1''" by (simp_all add: sample_defs)
  ultimately show ?thesis
    using watchdog_settles_expired [of "on_market leased_market" ?l 100] leased_ok by simp
qed

theorem stop_during_watchdog_charges_twice_witness:
  "\<exists>v. find_expired 100 leased_market = [v] \<and>
    charges (transactions (p_db (fst (lease_watchdog_from 102 [v]
      (fst (stop_route None 101 ''l1'' (on_market leased_market))))))) = [''l1'', ''l1'']"
proof -
  have "map l_id (find_expired 100 leased_market) = [''l1'']" by code_simp
  then obtain v where v: "find_expired 100 leased_market = [v]" "l_id v = ''l1''" by auto
  have "\<not> isl (snd (stop_route None 101 ''l1'' (on_market leased_market)))" by code_simp
  then obtain q l rec where r: "stop_route None 101 ''l1'' (on_market leased_market) = (q, Inr (l, rec))"
    using not_isl_pair by fastforce
  obtain q' x where w: "lease_watchdog_from 102 [v] q = (q', x)" by fastforce
  have "charges (transactions leased_market) = []" by (simp add: sample_defs charges_def)
  with stop_during_watchdog_charges_twice [of "on_market leased_market" 100 v "[]" None 101 q l rec 102 q' x] leased_ok
  show ?thesis using v r w by simp
qed

theorem failed_rent_loses_settlement_witness:
  "\<exists>l. snd (stop_lease 10 ''l1'' (on_market leased_market)) = Some l \<and>
    settle_lease 12 l (p_db (fst (rent_hashpower 11 ''l2'' ''cd'' ''nobody'' ''0x1'' 60 None
      (fst (stop_lease 10 ''l1'' (on_market leased_market))))))
    = (p_db (fst (stop_lease 10 ''l1'' (on_market leased_market))), Inr None)"
proof -
  let ?stop = "stop_lease 10 ''l1'' (on_market leased_market)"
  have "map_option l_id (snd ?stop) = Some ''l1''" by code_simp
  then obtain p1 l where s: "?stop = (p1, Some l)" by (cases ?stop) auto
  let ?rent = "rent_hashpower 11 ''l2'' ''cd'' ''nobody'' ''0x1'' 60 None (fst ?stop)"
  have "isl (snd ?rent)" by code_simp
  then obtain p2 e where r: "?rent = (p2, Inl e)" by (cases ?rent) (auto simp: isl_def)
  show ?thesis using failed_rent_loses_settlement [OF s, of 11 "''l2''" "''cd''" "''nobody''" "''0x1''" 60 None p2 e 12] r s by simp
qed

theorem balances_follow_log_witness:
  "let db = db_of (run_events sample_libs [(10, Stop \<lparr>x_api_key = [], authorization = []\<rparr> ''l1'')] (sample_server leased_market))
   in post_all (transactions db) (ledger_of leased_market) \<subseteq>\<^sub>m ledger_of db"
proof -
  have "db_ok (db_of (sample_server leased_market))" "db_of (sample_server leased_market) = leased_market"
    using leased_ok by (simp_all add: sample_server_def)
  moreover have "transactions leased_market = []" by (simp add: sample_defs)
  ultimately show ?thesis
    using balances_follow_log [of "sample_server leased_market" sample_libs
        "[(10, Stop \<lparr>x_api_key = [], authorization = []\<rparr> ''l1'')]"] by (auto simp: Let_def)
qed

subsection \<open>A run from the start\<close>

definition sample_run :: "(pyfloat \<times> event) list" where
  "sample_run = [(1, Mqtt ''xenminer/w1/register''
       \<lparr>m_worker_id = Some ''w1'', m_eth_address = None, m_gpu_count = None, m_total_memory_gb = None, m_gpus = None,
        m_version = None, m_hashrate = None, m_active_gpus = None, m_address = None, m_prefix = None,
        m_block_pattern = None, m_state = None\<rparr>
       \<lparr>bm_worker_id = None, bm_lease_id = None, bm_key = None, bm_hash = None, bm_account = None,
        bm_attempts = None, bm_hashrate = None\<rparr>),
     (2, Rent \<lparr>x_api_key = [], authorization = []\<rparr> ''l1'' ''ab''
       \<lparr>rq_consumer_id = ''consumer-1'', rq_consumer_address = ''0x1'', rq_duration_sec = 60, rq_worker_id = None\<rparr>)]"

definition sample_start :: server where
  "sample_start = init_services 0 ''k1'' ''k2'' None"

definition sample_end :: server where
  "sample_end = run_events sample_libs (sample_run @ [(100, Tick)]) sample_start"

theorem market_invariant_witness:
  "map l_id (leases (db_of (run_events sample_libs sample_run sample_start))) = [''l1''] \<and>
   list_all (\<lambda>l. worker_get (l_worker l) (db_of (run_events sample_libs sample_run sample_start)) \<noteq> None)
     (leases (db_of (run_events sample_libs sample_run sample_start)))"
proof
  show "map l_id (leases (db_of (run_events sample_libs sample_run sample_start))) = [''l1'']" by code_simp
  show "list_all (\<lambda>l. worker_get (l_worker l) (db_of (run_events sample_libs sample_run sample_start)) \<noteq> None)
     (leases (db_of (run_events sample_libs sample_run sample_start)))"
    unfolding list_all_iff
    using market_invariant [where lib = sample_libs and evs = sample_run and now = 0 and ?k1.0 = "''k1''"
        and ?k2.0 = "''k2''" and chain = None]
    unfolding Let_def sample_start_def by blast
qed

theorem lease_charged_once_witness:
  "''l1'' \<in> set (map st_lease (settlements (db_of sample_end))) \<and> ''l1'' \<in> set (charges (transactions (db_of sample_end)))"
proof -
  let ?s = "run_events sample_libs sample_run sample_start"
  have ok: "db_ok (db_of ?s)" unfolding sample_start_def using run_ok init_ok by blast
  obtain q db where w: "lease_watchdog 100 (s_platform ?s) = q\<lparr>p_db := db\<rparr>"
      "map st_lease (settlements db) = map st_lease (settlements (p_db q)) @
         map l_id (filter (lease_expired 100) (leases (db_of ?s)))"
    using watchdog_spec [OF ok, of 100] by metis
  have "map l_id (filter (lease_expired 100) (leases (db_of ?s))) = [''l1'']" by code_simp
  moreover have "db_of sample_end = db" by (simp add: sample_end_def run_events_def flip: w) (simp add: w flip: run_events_def)
  ultimately have st: "''l1'' \<in> set (map st_lease (settlements (db_of sample_end)))" by (simp add: w)
  then show ?thesis
    using lease_charged_once [where lib = sample_libs and evs = "sample_run @ [(100, Tick)]" and now = 0
        and ?k1.0 = "''k1''" and ?k2.0 = "''k2''" and chain = None and i = "''l1''"]
    by (simp add: Let_def sample_end_def sample_start_def)
qed

theorem balances_nonneg_witness:
  "list_all (\<lambda>a. 0 \<le> acc_balance a) (accounts (db_of sample_end))"
  unfolding list_all_iff
proof
  fix a assume a: "a \<in> set (accounts (db_of sample_end))"
  have "\<forall>(t, e) \<in> set (sample_run @ [(100, Tick)]). fair_event e" "sorted (map fst (sample_run @ [(100, Tick)]))"
    by (simp_all add: sample_run_def fair_event_def)
  then show "0 \<le> acc_balance a"
    using balances_nonneg [where lib = sample_libs and evs = "sample_run @ [(100, Tick)]" and now = 0
        and ?k1.0 = "''k1''" and ?k2.0 = "''k2''" and chain = None and a = a] a
    by (simp only: sample_end_def sample_start_def)
qed

end
