(* ===== verification/LeaseBlocks.thy ===== *)
theory LeaseBlocks
  imports ServerSamples
begin

text \<open>
  The blocks of the leases over whole runs of the server: the number that a lease shows, the recorded
  blocks it stands for, and the chain they were found on.
\<close>

subsection \<open>What the watcher looks up\<close>

lemma first_n_subset: "set (first_n n xs) \<subseteq> set xs"
  by (simp add: first_n_def set_take_subset)

lemma chain_lookup_sound:
  assumes "chain_lookup (Some ch) key = (True, cid)"
  shows "\<exists>b \<in> set (ch_blocks ch). cb_key b = key \<and> cid = Some (cb_id b)"
proof -
  obtain b where b: "find (\<lambda>b. cb_key b = key) (get_blocks_by_key_prefix (key_prefix key) 100 ch) = Some b"
      "cid = Some (cb_id b)"
    using assms by (auto simp: chain_lookup_def split: option.splits)
  from find_pred_Some [OF b(1)] have "b \<in> set (get_blocks_by_key_prefix (key_prefix key) 100 ch)" "cb_key b = key"
    by blast+
  moreover from this(1) have "b \<in> set (ch_blocks ch)"
    using first_n_subset by (fastforce simp: get_blocks_by_key_prefix_def)
  ultimately show ?thesis using b(2) by blast
qed

text \<open>What one message does: a self-mined block, nothing, or a block of a lease.\<close>

lemma handle_block_cases:
  obtains (self) b where "b_lease b = []"
      "leases (handle_block_found now chain msg topic db) = leases db"
      "blocks (handle_block_found now chain msg topic db) = blocks db @ [b]"
  | (unknown) "handle_block_found now chain msg topic db = db"
  | (leased) l b where "l \<in> set (leases db)" "l_id l = b_lease b" "b_lease b \<noteq> []"
      "b_prefix_valid b = prefix_matches (l_prefix l) (b_key b)"
      "(b_chain_verified b, b_chain_block_id b) = chain_lookup chain (b_key b)"
      "blocks (handle_block_found now chain msg topic db) = blocks db @ [b]"
      "leases (handle_block_found now chain msg topic db) =
         (if b_chain_verified b \<and> b_prefix_valid b
          then update_rows (\<lambda>l. l_id l = b_lease b) (\<lambda>l. l\<lparr>l_blocks_found := l_blocks_found l + 1\<rparr>) (leases db)
          else leases db)"
proof (cases "dflt [] (bm_lease_id msg) = []")
  case True
  let ?w = "dflt topic (bm_worker_id msg)"
  show thesis
    by (rule self [of "\<lparr>b_lease = [], b_worker = ?w, b_hash = dflt [] (bm_hash msg),
        b_key = dflt [] (bm_key msg), b_account = dflt [] (bm_account msg), b_attempts = dflt 0 (bm_attempts msg),
        b_hashrate = dflt ''0.0'' (bm_hashrate msg), b_prefix_valid = True, b_chain_verified = True,
        b_chain_block_id = None, b_created_at = now\<rparr>"])
      (simp_all add: True handle_block_found_def handle_self_mined_block_def worker_increment_self_blocks_def
        block_create_def row_simps Let_def)
next
  case False
  let ?i = "dflt [] (bm_lease_id msg)" and ?key = "dflt [] (bm_key msg)" and ?w = "dflt topic (bm_worker_id msg)"
  show thesis
  proof (cases "lease_find ?i db")
    case None
    with False show thesis by (intro unknown) (simp add: handle_block_found_def lease_get_def Let_def)
  next
    case (Some l)
    obtain v cid where look: "chain_lookup chain ?key = (v, cid)" by fastforce
    from lease_find_Some [OF Some] have l: "l \<in> set (leases db)" "l_id l = ?i" by auto
    show thesis
      by (rule leased [of l "\<lparr>b_lease = ?i, b_worker = ?w, b_hash = dflt [] (bm_hash msg),
        b_key = ?key, b_account = dflt [] (bm_account msg), b_attempts = dflt 0 (bm_attempts msg),
        b_hashrate = dflt ''0.0'' (bm_hashrate msg), b_prefix_valid = prefix_matches (l_prefix l) ?key,
        b_chain_verified = v, b_chain_block_id = cid, b_created_at = now\<rparr>"])
        (simp_all add: False Some l look handle_block_found_def lease_get_def block_create_def
          lease_increment_blocks_def row_simps Let_def)
  qed
qed

subsection \<open>The count of a lease\<close>

text \<open>The blocks of a lease that count for it: on the chain and with the prefix of the lease.\<close>

definition counted :: "string \<Rightarrow> block \<Rightarrow> bool" where
  "counted i b \<longleftrightarrow> b_lease b = i \<and> b_chain_verified b \<and> b_prefix_valid b"

type_synonym block_view = "(string \<times> string \<times> int) list \<times> block list"

definition block_view :: "'z market_tables_scheme \<Rightarrow> block_view" where
  "block_view db = (map (\<lambda>l. (l_id l, l_prefix l, l_blocks_found l)) (leases db), blocks db)"

definition blocks_inv :: "block_view \<Rightarrow> bool" where
  "blocks_inv v = (case v of (L, B) \<Rightarrow>
     (\<forall>(i, p, n) \<in> set L. i \<noteq> [] \<longrightarrow> n = int (length (filter (counted i) B)))
   \<and> (\<forall>b \<in> set B. b_lease b \<noteq> [] \<longrightarrow>
        (\<exists>(i, p, n) \<in> set L. i = b_lease b \<and> b_prefix_valid b = prefix_matches p (b_key b))))"

lemma blocks_inv_iff:
  "blocks_inv (block_view db) \<longleftrightarrow>
     (\<forall>l \<in> set (leases db). l_id l \<noteq> [] \<longrightarrow> l_blocks_found l = int (length (filter (counted (l_id l)) (blocks db))))
   \<and> (\<forall>b \<in> set (blocks db). b_lease b \<noteq> [] \<longrightarrow>
        (\<exists>l \<in> set (leases db). l_id l = b_lease b \<and> b_prefix_valid b = prefix_matches (l_prefix l) (b_key b)))"
  by (auto simp: blocks_inv_def block_view_def)

lemma blocks_inv_found:
  assumes "blocks_inv (block_view db)"
  shows "blocks_inv (block_view (handle_block_found now chain msg topic db))"
proof (cases rule: handle_block_cases [where now = now and chain = chain and msg = msg and topic = topic and db = db])
  case (self b)
  with assms show ?thesis by (auto simp: blocks_inv_iff counted_def)
next
  case (leased l b)
  let ?db = "handle_block_found now chain msg topic db" and ?f = "\<lambda>l. l\<lparr>l_blocks_found := l_blocks_found l + 1\<rparr>"
  have row: "\<exists>r' \<in> set (leases ?db). l_id r' = l_id r \<and> l_prefix r' = l_prefix r" if "r \<in> set (leases db)" for r
  proof (cases "b_chain_verified b \<and> b_prefix_valid b")
    case True
    then have "(if l_id r = b_lease b then ?f r else r) \<in> set (leases ?db)"
      using that leased(7) by (auto simp: in_update_rows)
    then show ?thesis by (rule rev_bexI) simp
  qed (use that leased(7) in auto)
  have "l_blocks_found r = int (length (filter (counted (l_id r)) (blocks ?db)))"
    if r: "r \<in> set (leases ?db)" "l_id r \<noteq> []" for r
  proof (cases "b_chain_verified b \<and> b_prefix_valid b")
    case True
    with r(1) leased(7) obtain r0 where r0: "r0 \<in> set (leases db)"
        "r = (if l_id r0 = b_lease b then ?f r0 else r0)" by (auto simp: in_update_rows)
    with assms r(2) True leased(6) show ?thesis
      by (cases "l_id r0 = b_lease b") (auto simp: blocks_inv_iff counted_def)
  next
    case False
    with assms r leased(6,7) show ?thesis by (auto simp: blocks_inv_iff counted_def)
  qed
  moreover have "\<exists>r \<in> set (leases ?db). l_id r = b_lease c \<and> b_prefix_valid c = prefix_matches (l_prefix r) (b_key c)"
    if c: "c \<in> set (blocks ?db)" "b_lease c \<noteq> []" for c
  proof -
    have "\<exists>r \<in> set (leases db). l_id r = b_lease c \<and> b_prefix_valid c = prefix_matches (l_prefix r) (b_key c)"
      using c leased(1,2,4,6) assms by (auto simp: blocks_inv_iff)
    then show ?thesis using row by metis
  qed
  ultimately show ?thesis by (simp add: blocks_inv_iff)
qed (use assms in simp)

lemma blocks_inv_new_lease:
  assumes "blocks_inv (block_view db)" "lease_find (l_id l) db = None" "l_blocks_found l = 0"
    and "leases db' = leases db @ [l]" "blocks db' = blocks db"
  shows "blocks_inv (block_view db')"
proof -
  have fresh: "l_id k \<noteq> l_id l" if "k \<in> set (leases db)" for k
    using that assms(2) by (auto simp: lease_find_def find_None_iff)
  then have "filter (counted (l_id l)) (blocks db) = []" if "l_id l \<noteq> []"
    using that assms(1) by (fastforce simp: blocks_inv_iff counted_def filter_empty_conv)
  with assms show ?thesis by (auto simp: blocks_inv_iff)
qed

subsection \<open>Operations that leave the blocks alone\<close>

locale block_neutral =
  fixes f :: "market_db \<Rightarrow> market_db"
  assumes same_view: "block_view (f db) = block_view db"
begin

lemma keeps_inv: "blocks_inv (block_view db) \<Longrightarrow> blocks_inv (block_view (f db))"
  by (simp add: same_view)

end

lemma view_tx [row_simps]: "block_view (commit db) = block_view db" "block_view (begin_stmt db) = block_view db"
  by (simp_all add: block_view_def row_simps)

lemma view_update_rows:
  "(\<And>l. (l_id (f l), l_prefix (f l), l_blocks_found (f l)) = (l_id l, l_prefix l, l_blocks_found l)) \<Longrightarrow>
    block_view (db\<lparr>leases := update_rows P f (leases db)\<rparr>) = block_view db"
  using map_update_rows [of "leases db" P "\<lambda>l. (l_id l, l_prefix l, l_blocks_found l)" f] by (simp add: block_view_def)

lemma view_simps [row_simps]:
  "block_view (db\<lparr>accounts := as\<rparr>) = block_view db" "block_view (db\<lparr>workers := ws\<rparr>) = block_view db"
  "block_view (db\<lparr>settlements := ss\<rparr>) = block_view db" "block_view (db\<lparr>transactions := ts\<rparr>) = block_view db"
  by (simp_all add: block_view_def)

interpretation key_set: block_neutral "set_api_key now i key" for now i key
  by unfold_locales (simp add: set_api_key_def row_simps)

interpretation state_set: block_neutral "worker_set_state i st" for i st
  by unfold_locales (simp add: worker_set_state_def row_simps)

interpretation beat: block_neutral "worker_heartbeat now i h g" for now i h g
  by unfold_locales (simp add: worker_heartbeat_def Let_def row_simps)

interpretation upsert: block_neutral "worker_upsert now i eth n m gs v st" for now i eth n m gs v st
  by unfold_locales (simp add: worker_upsert_def row_simps)

interpretation priced: block_neutral "worker_update_pricing i p a b" for i p a b
  by unfold_locales (simp add: worker_update_pricing_def row_simps)

interpretation hashrates: block_neutral "update_hashrate_stats i h" for i h
  by unfold_locales (simp add: update_hashrate_stats_def row_simps view_update_rows)

interpretation account_made: block_neutral "\<lambda>db. fst (account_create now i role b eth db)" for now i role b eth
  by unfold_locales (simp add: account_create_def Let_def row_simps)

interpretation paid_in: block_neutral "\<lambda>db. fst (deposit now i amount db)" for now i amount
  by unfold_locales (simp add: deposit_eq update_balance_def row_simps split: option.split)

interpretation paid_out: block_neutral "\<lambda>db. fst (withdraw now i amount db)" for now i amount
  by unfold_locales (simp add: withdraw_eq update_balance_def row_simps split: option.split)

lemma end_lease_view: "block_view (p_db (end_lease now i w p)) = block_view (p_db p)"
  by (simp add: end_lease_def state_set.same_view lease_update_state_def row_simps view_update_rows)

lemma expire_leases_view: "block_view (p_db (fst (expire_leases now vs p))) = block_view (p_db p)"
  by (induction vs arbitrary: p) (simp_all add: Let_def case_prod_unfold end_lease_view)

lemma settled_view: "block_view (settled_db now l c db) = block_view db"
  by (simp add: settled_db_def row_simps)

lemma settle_all_view:
  assumes "db_ok db" "vs \<noteq> [] \<longrightarrow> rollback_to db = None" "\<forall>v \<in> set vs. settleable db v" "distinct (map l_id vs)"
  shows "block_view (fst (settle_all now (map Some vs) db)) = block_view db"
  using assms
proof (induction vs arbitrary: db)
  case (Cons v vs)
  then obtain c a where s: "settle_lease now v db = (settled_db now v c db, Inr (Some (view_settlement (settlement_row now v c))))"
    "db_ok (settled_db now v c db)" "rollback_to (settled_db now v c db) = None"
    "\<And>k. settleable db k \<Longrightarrow> l_id k \<noteq> l_id v \<Longrightarrow> settleable (settled_db now v c db) k"
    using settle_step [of db v now] by (metis list.discI list.set_intros(1))
  have "\<forall>x \<in> set vs. settleable (settled_db now v c db) x"
    using Cons.prems(3,4) s(4) by (metis distinct.simps(2) image_eqI list.set_intros(2) list.set_map list.simps(9))
  then have "block_view (fst (settle_all now (map Some vs) (settled_db now v c db))) = block_view (settled_db now v c db)"
    using Cons.prems(4) s(2,3) by (intro Cons.IH) simp_all
  with s(1) show ?case by (simp add: settled_view)
qed simp

lemma watchdog_view:
  assumes "db_ok (p_db p)"
  shows "block_view (p_db (lease_watchdog now p)) = block_view (p_db p)"
proof -
  obtain q vs where w: "lease_watchdog now p = q\<lparr>p_db := fst (settle_all now (map Some vs) (p_db q))\<rparr>"
    "q = fst (check_expired_leases now p)" "db_ok (p_db q)" "vs \<noteq> [] \<longrightarrow> rollback_to (p_db q) = None"
    "\<forall>v \<in> set vs. settleable (p_db q) v" "distinct (map l_id vs)"
    "\<forall>v \<in> set vs. \<exists>l \<in> set (leases (p_db p)). v = ended_view now l"
    by (rule watchdog_chain [OF assms, where now = now]) (rule that)
  have "block_view (p_db q) = block_view (p_db p)" by (simp add: w(2) check_expired_leases_def expire_leases_view)
  with settle_all_view [OF w(3-6)] show ?thesis by (simp add: w(1))
qed

lemma stop_route_view:
  assumes "db_ok (p_db p)"
  shows "block_view (p_db (fst (stop_route caller now i p))) = block_view (p_db p)"
  using assms
  by (cases rule: stop_route_cases [where caller = caller and now = now and i = i])
    (simp_all add: end_lease_view settled_view)

subsection \<open>Runs of the server\<close>

lemma mqtt_blocks:
  assumes "blocks_inv (block_view (p_db p))"
  shows "blocks_inv (block_view (p_db (on_mqtt_message now chain topic msg block p)))"
proof -
  have "block_view (p_db (fst (register_worker now msg p))) = block_view (p_db p)"
    by (simp add: register_worker_def Let_def get_or_create_provider_def upsert.same_view account_made.same_view
        split: option.split)
  moreover have "block_view (p_db (update_heartbeat now msg p)) = block_view (p_db p)"
    using update_heartbeat_db [of now msg p] by (auto simp: hashrates.same_view beat.same_view)
  ultimately show ?thesis using assms
    by (simp add: on_mqtt_message_def update_worker_state_def state_set.same_view blocks_inv_found
        split: option.split)
qed

lemma rent_blocks:
  assumes "blocks_inv (block_view (p_db p))"
  shows "blocks_inv (block_view (p_db (fst (rent_hashpower now i prefix c addr dur wid p))))"
proof (cases rule: rent_cases [where now = now and wid = wid and p = p and i = i and prefix = prefix
      and c = c and addr = addr and dur = dur])
  case (rented w db l)
  from rented(2) have new: "lease_find i (p_db p) = None"
    "leases db = leases (p_db p) @ [new_lease now i (w_id w) c addr prefix dur (fl (w_price_per_min w / 60))]"
    "blocks db = blocks (p_db p)"
    by (auto simp: lease_create_def Let_def row_simps new_lease_def split: if_splits)
  have "blocks_inv (block_view db)"
    by (rule blocks_inv_new_lease [OF assms _ _ new(2,3)]) (simp_all add: new_lease_def new(1))
  then show ?thesis using rented(3) by (simp add: state_set.same_view)
qed (use assms in \<open>simp_all add: row_simps\<close>)

lemma handle_blocks:
  assumes ok: "db_ok (db_of s)" and inv: "blocks_inv (block_view (db_of s))"
  shows "blocks_inv (block_view (db_of (handle lib now e s)))"
proof (cases e)
  case (Mqtt topic msg block)
  then show ?thesis using inv by (simp add: mqtt_blocks)
next
  case (Rent c i prefix req)
  then show ?thesis
    using inv rent_route_db [of "caller_of lib c s" now i prefix req "s_platform s"] rent_blocks by auto
next
  case (Stop c i)
  then show ?thesis using inv by (simp add: stop_route_view [OF ok])
next
  case Tick
  then show ?thesis using inv by (simp add: watchdog_view [OF ok])
next
  case (SetPricing c w price lo hi)
  then show ?thesis
    using inv pricing_route_db [of _ w price lo hi "db_of s"] priced.keeps_inv by (auto simp del: fst_conv) metis+
next
  case (Deposit c i amount)
  then show ?thesis
    using inv deposit_route_db [of "jwt_decode lib" "s_auth s" "x_api_key c" "authorization c" now i amount "db_of s"]
      paid_in.keeps_inv by auto
next
  case (Withdraw c i amount)
  then show ?thesis
    using inv withdraw_route_db [of "jwt_decode lib" "s_auth s" "x_api_key c" "authorization c" now i amount "db_of s"]
      paid_out.keeps_inv by auto
next
  case (RegisterAccount key i role eth balance)
  have "blocks_inv (block_view db1)" if "account_create now i role balance eth (db_of s) = (db1, r)" for db1 r
    using account_made.keeps_inv [OF inv, of now i role balance eth] that by simp
  then show ?thesis
    using RegisterAccount inv register_db [of now key i role eth balance "db_of s"] key_set.keeps_inv by auto
next
  case (Login key i)
  then show ?thesis using inv login_db [of now key i "db_of s"] key_set.keeps_inv by auto
next
  case (Verify address sg nonce)
  have "blocks_inv (block_view db1)" if "account_create now j role b eth (db_of s) = (db1, r)" for j role b eth db1 r
    using account_made.keeps_inv [OF inv, of now j role b eth] that by simp
  then show ?thesis
    using Verify inv verify_db [where recover = "eth_recover lib" and encode = "jwt_encode lib" and now = now
        and address = address and sg = sg and nonce = nonce and au = "s_auth s" and db = "db_of s"]
    by (auto simp: Let_def split: prod.splits)
qed (use inv in simp_all)

text \<open>The chain only grows, so a block that was found on it stays on it.\<close>

definition on_chain :: "chain option \<Rightarrow> block \<Rightarrow> bool" where
  "on_chain chain b = (case chain of
     None \<Rightarrow> True
   | Some ch \<Rightarrow> list_ex (\<lambda>c. cb_key c = b_key b \<and> b_chain_block_id b = Some (cb_id c)) (ch_blocks ch))"

definition verified_on_chain :: "chain option \<Rightarrow> block list \<Rightarrow> bool" where
  "verified_on_chain chain bs \<longleftrightarrow> (\<forall>b \<in> set bs. b_lease b \<noteq> [] \<and> b_chain_verified b \<longrightarrow> on_chain chain b)"

lemma on_chain_grows: "on_chain chain b \<Longrightarrow> on_chain (map_option (submit_one sub) chain) b"
proof -
  have "set (ch_blocks ch) \<subseteq> set (ch_blocks (submit_one sub ch))" for ch
    by (cases sub ch rule: submit_one_cases) (auto simp: adjust_difficulty_def)
  then show "on_chain chain b \<Longrightarrow> on_chain (map_option (submit_one sub) chain) b"
    by (cases chain) (simp_all add: on_chain_def list_ex_iff, blast)
qed

lemma found_on_chain:
  assumes "verified_on_chain chain (blocks db)"
  shows "verified_on_chain chain (blocks (handle_block_found now chain msg topic db))"
proof (cases rule: handle_block_cases [where now = now and chain = chain and msg = msg and topic = topic and db = db])
  case (leased l b)
  have "on_chain chain b" if "b_chain_verified b"
    using chain_lookup_sound [of _ "b_key b" "b_chain_block_id b"] leased(5) that
    by (auto simp: on_chain_def list_ex_iff split: option.split)
  with assms leased(6) show ?thesis by (auto simp: verified_on_chain_def)
qed (use assms in \<open>auto simp: verified_on_chain_def\<close>)

lemma handle_on_chain:
  assumes ok: "db_ok (db_of s)" and inv: "verified_on_chain (s_chain s) (blocks (db_of s))"
  shows "verified_on_chain (s_chain (handle lib now e s)) (blocks (db_of (handle lib now e s)))"
proof -
  have same: "verified_on_chain (s_chain s) (blocks db)" if "block_view db = block_view (db_of s)" for db
    using that inv by (simp add: block_view_def)
  have snd_view: "snd (block_view db) = blocks db" for db :: market_db by (simp add: block_view_def)
  show ?thesis
  proof (cases e)
    case (Mqtt topic msg block)
    have r: "blocks (p_db (fst (register_worker now msg p))) = blocks (p_db p)"
        "blocks (p_db (update_heartbeat now msg p)) = blocks (p_db p)"
        "blocks (p_db (update_worker_state msg p)) = blocks (p_db p)" for p
      using update_heartbeat_db [of now msg p] unfolding snd_view [symmetric]
      by (auto simp: register_worker_def Let_def get_or_create_provider_def upsert.same_view account_made.same_view
          hashrates.same_view beat.same_view update_worker_state_def state_set.same_view split: option.split)
    show ?thesis using inv found_on_chain [OF inv] unfolding Mqtt
      by (simp add: with_platform_def on_mqtt_message_def r split: option.split)
  next
    case (ChainSubmit sub)
    then show ?thesis using inv on_chain_grows by (auto simp: verified_on_chain_def)
  next
    case (Rent c i prefix req)
    have "blocks (p_db (fst (rent_hashpower now i prefix x addr dur wid p))) = blocks (p_db p)" for x addr dur wid p
    proof (cases rule: rent_cases [where now = now and wid = wid and p = p and i = i and prefix = prefix
          and c = x and addr = addr and dur = dur])
      case (rented w db l)
      then have "blocks db = blocks (p_db p)" by (auto simp: lease_create_def Let_def row_simps split: if_splits)
      with rented show ?thesis unfolding snd_view [symmetric] by (simp add: state_set.same_view)
    qed (simp_all add: row_simps)
    then show ?thesis
      using Rent inv rent_route_db [of "caller_of lib c s" now i prefix req "s_platform s"]
      by (auto simp: with_platform_def)
  next
    case (Stop c i)
    then show ?thesis
      using same [of "p_db (fst (stop_route (caller_of lib c s) now i (s_platform s)))"] stop_route_view [OF ok]
      by (simp add: with_platform_def)
  next
    case Tick
    then show ?thesis using same [of "p_db (lease_watchdog now (s_platform s))"] watchdog_view [OF ok]
      by (simp add: with_platform_def)
  next
    case (SetPricing c w price lo hi)
    have "block_view (fst (pricing_route x w price lo hi (db_of s))) = block_view (db_of s)" for x
      using pricing_route_db [of x w price lo hi "db_of s"] priced.same_view by auto
    from same [OF this] show ?thesis using SetPricing by (simp add: with_db_def with_platform_def)
  next
    case (Deposit c i amount)
    have "block_view (fst (deposit_route (jwt_decode lib) (s_auth s) (x_api_key c) (authorization c) now i amount (db_of s)))
        = block_view (db_of s)"
      using deposit_route_db [of "jwt_decode lib" "s_auth s" "x_api_key c" "authorization c" now i amount "db_of s"]
        paid_in.same_view by auto
    from same [OF this] show ?thesis using Deposit by (simp add: with_db_def with_platform_def)
  next
    case (Withdraw c i amount)
    have "block_view (fst (withdraw_route (jwt_decode lib) (s_auth s) (x_api_key c) (authorization c) now i amount (db_of s)))
        = block_view (db_of s)"
      using withdraw_route_db [of "jwt_decode lib" "s_auth s" "x_api_key c" "authorization c" now i amount "db_of s"]
        paid_out.same_view by auto
    from same [OF this] show ?thesis using Withdraw by (simp add: with_db_def with_platform_def)
  next
    case (RegisterAccount key i role eth balance)
    have "block_view db1 = block_view (db_of s)" if "account_create now i role balance eth (db_of s) = (db1, r)" for db1 r
      using account_made.same_view [of now i role balance eth "db_of s"] that by simp
    then have "block_view (fst (auth_register now key i role eth balance (db_of s))) = block_view (db_of s)"
      using register_db [of now key i role eth balance "db_of s"] key_set.same_view by auto
    from same [OF this] show ?thesis using RegisterAccount by (simp add: with_db_def with_platform_def)
  next
    case (Login key i)
    have "block_view (fst (auth_login now key i (db_of s))) = block_view (db_of s)"
      using login_db [of now key i "db_of s"] key_set.same_view by auto
    from same [OF this] show ?thesis using Login by (simp add: with_db_def with_platform_def)
  next
    case (Verify address sg nonce)
    have "block_view db1 = block_view (db_of s)" if "account_create now j role b eth (db_of s) = (db1, r)" for j role b eth db1 r
      using account_made.same_view [of now j role b eth "db_of s"] that by simp
    then have "block_view (fst (snd (auth_verify (eth_recover lib) (jwt_encode lib) now address sg nonce (s_auth s) (db_of s))))
        = block_view (db_of s)"
      using verify_db [where recover = "eth_recover lib" and encode = "jwt_encode lib" and now = now
          and address = address and sg = sg and nonce = nonce and au = "s_auth s" and db = "db_of s"]
      by (auto split: prod.splits)
    from same [OF this] show ?thesis using Verify by (simp add: Let_def with_db_def with_platform_def case_prod_unfold)
  qed (use inv in simp_all)
qed

lemma run_blocks:
  assumes "db_ok (db_of s)" "blocks_inv (block_view (db_of s))" "verified_on_chain (s_chain s) (blocks (db_of s))"
  shows "blocks_inv (block_view (db_of (run_events lib evs s)))
    \<and> verified_on_chain (s_chain (run_events lib evs s)) (blocks (db_of (run_events lib evs s)))"
  using assms unfolding run_events_def
  by (induction evs arbitrary: s) (auto simp: handle_ok handle_blocks handle_on_chain)

lemma init_blocks:
  "leases (db_of (init_services now k1 k2 chain)) = []" "blocks (db_of (init_services now k1 k2 chain)) = []"
proof -
  have k: "block_view (ensure_api_key now k i db) = block_view db" for k i db
    using key_set.same_view by (simp add: ensure_api_key_def split: option.split)
  have "block_view (db_of (init_services now k1 k2 chain)) = block_view empty_db"
    by (simp add: init_services_def ensure_api_keys_for_defaults_def k settlement_setup_defaults_def
        account_setup_defaults_def account_made.same_view)
  then show "leases (db_of (init_services now k1 k2 chain)) = []" "blocks (db_of (init_services now k1 k2 chain)) = []"
    by (simp_all add: block_view_def empty_db_def)
qed

text \<open>
  C25: whatever the server handles from its start on, the number of blocks found that a lease shows
  is the number of the recorded blocks of that lease that were verified and carry the lease's
  prefix.  Every recorded block that names a lease names an existing one, and its prefix flag says
  whether the first sixteen characters of its key are that lease's prefix; and with a simulated chain a block of a lease
  that is recorded as verified has its key and its block id on the chain.  (Without a chain every
  block counts as verified.)
\<close>

theorem lease_counts_verified_blocks:
  "let s = run_events lib evs (init_services now k1 k2 chain); db = db_of s in
    (\<forall>l \<in> set (leases db). l_id l \<noteq> [] \<longrightarrow>
       l_blocks_found l = int (length (filter (counted (l_id l)) (blocks db))))
    \<and> (\<forall>b \<in> set (blocks db). b_lease b \<noteq> [] \<longrightarrow>
        (\<exists>l \<in> set (leases db). l_id l = b_lease b \<and> b_prefix_valid b = prefix_matches (l_prefix l) (b_key b)))
    \<and> (\<forall>b \<in> set (blocks db). b_lease b \<noteq> [] \<and> b_chain_verified b \<longrightarrow> on_chain (s_chain s) b)"
proof -
  let ?s = "init_services now k1 k2 chain"
  have "blocks_inv (block_view (db_of ?s))" "verified_on_chain (s_chain ?s) (blocks (db_of ?s))"
    by (simp_all add: blocks_inv_iff verified_on_chain_def init_blocks)
  from run_blocks [OF _ this, of lib evs] init_ok [of now k1 k2 chain 0] show ?thesis
    by (simp add: blocks_inv_iff verified_on_chain_def Let_def)
qed

text \<open>A lease with the prefix \<open>ab\<close>: a block of it that is on the chain, one with another prefix that is
  on the chain, and one with its prefix that is not.\<close>

definition sample_block_msg :: "string \<Rightarrow> block_msg" where
  "sample_block_msg key = \<lparr>bm_worker_id = None, bm_lease_id = Some ''l1'', bm_key = Some key, bm_hash = None,
     bm_account = None, bm_attempts = None, bm_hashrate = None\<rparr>"

definition no_worker_msg :: worker_msg where
  "no_worker_msg = \<lparr>m_worker_id = None, m_eth_address = None, m_gpu_count = None, m_total_memory_gb = None, m_gpus = None,
     m_version = None, m_hashrate = None, m_active_gpus = None, m_address = None, m_prefix = None,
     m_block_pattern = None, m_state = None\<rparr>"

definition block_run :: "(pyfloat \<times> event) list" where
  "block_run = sample_run @ map (\<lambda>key. (3, Mqtt ''xenminer/w1/block'' no_worker_msg (sample_block_msg key)))
     [''ab'', ''abcd'', ''AB'']"

definition sample_chain :: chain where
  "sample_chain = (init_chain 1 50 True [])\<lparr>ch_blocks := map (\<lambda>(i, key). \<lparr>cb_id = i, cb_account = [], cb_key = key,
     cb_hash = [], cb_type = ''normal'', cb_attempts = 0, cb_hashes_per_second = [], cb_worker = [],
     cb_timestamp = 0\<rparr>) [(1, ''ab''), (2, ''abcd'')]\<rparr>"

theorem lease_counts_verified_blocks_witness:
  "map l_blocks_found (leases (db_of (run_events sample_libs block_run (init_services 0 ''k1'' ''k2'' (Some sample_chain))))) = [1]"
proof -
  let ?db = "db_of (run_events sample_libs block_run (init_services 0 ''k1'' ''k2'' (Some sample_chain)))"
  have c: "map l_id (leases ?db) = [''l1''] \<and> length (filter (counted ''l1'') (blocks ?db)) = 1" by code_simp
  then obtain l where l: "leases ?db = [l]" "l_id l = ''l1''" by (auto simp: map_eq_Cons_conv)
  with c lease_counts_verified_blocks [where lib = sample_libs and evs = block_run and now = 0 and ?k1.0 = "''k1''"
      and ?k2.0 = "''k2''" and chain = "Some sample_chain"]
  show ?thesis by (simp add: Let_def)
qed

end
