(* ===== verification/HashApi.thy ===== *)
theory HashApi
  imports ChainSim
begin

text \<open>
  The local Hash API (\<open>hash_api\<close> under \<open>src/native/XenblocksMiner-main/server\<close>): the validation of
  a request, the command line that it becomes, the limit of concurrent commands and the answers of
  the routes.  A request is what the models have made of the JSON body, so its fields have
  their types.  What the command does is an argument.
\<close>

subsection \<open>Requests\<close>

record hash_request =
  hq_request_id :: string
  hq_algorithm :: string
  hq_backend :: string
  hq_salt_hex :: string
  hq_key_prefix :: string
  hq_key :: string
  hq_target_pattern :: string
  hq_difficulty :: int
  hq_batch_size :: int
  hq_device_id :: int
  hq_allow_xuni :: bool
  hq_gpu_first_blocks :: bool
  hq_seconds :: int

definition normalize_hex :: "string \<Rightarrow> string" where
  "normalize_hex value = py_lower (if py_startswith value ''0x'' \<or> py_startswith value ''0X'' then drop 2 value else value)"

definition is_hex :: "string \<Rightarrow> bool" where
  "is_hex value = list_all is_hex_char value"

definition salt_errors :: "string \<Rightarrow> string list" where
  "salt_errors salt =
     (if salt = [] then [''salt_hex is required'']
      else (if length salt mod 2 \<noteq> 0 then [''salt_hex must contain an even number of hex characters''] else [])
        @ (if length salt < 16 then [''salt_hex must be at least 16 hex characters''] else [])
        @ (if \<not> is_hex salt then [''salt_hex must contain only hex characters''] else []))"

definition prefix_errors :: "string \<Rightarrow> string list" where
  "prefix_errors pre =
     (if pre = [] then []
      else (if length pre > 64 then [''key_prefix cannot exceed 64 hex characters''] else [])
        @ (if \<not> is_hex pre then [''key_prefix must contain only hex characters''] else []))"

definition key_errors :: "bool \<Rightarrow> string \<Rightarrow> string \<Rightarrow> string list" where
  "key_errors require_key pre key =
     (if require_key \<and> key = [] then [''key is required''] else [])
     @ (if key = [] then []
        else (if length key \<noteq> 64 then [''key must contain exactly 64 hex characters''] else [])
          @ (if \<not> is_hex key then [''key must contain only hex characters''] else [])
          @ (if pre \<noteq> [] \<and> \<not> py_startswith key pre then [''key must start with key_prefix when both are provided''] else []))"

definition number_errors :: "hash_request \<Rightarrow> string list" where
  "number_errors q =
     (if hq_difficulty q \<le> 0 then [''difficulty must be greater than zero''] else [])
     @ (if hq_batch_size q \<le> 0 then [''batch_size must be greater than zero''] else [])
     @ (if hq_backend q \<in> {''cpu'', ''reference''} \<and> hq_batch_size q > 10000 then [''cpu batch_size exceeds safe limit''] else [])
     @ (if hq_device_id q < 0 then [''device_id must be non-negative''] else [])"

definition validate_hash_payload :: "hash_request \<Rightarrow> bool \<Rightarrow> string list" where
  "validate_hash_payload q require_key =
     (if hq_algorithm q \<noteq> ''argon2id-xen'' then [''unsupported algorithm: '' @ hq_algorithm q] else [])
     @ (if hq_backend q \<notin> {''cpu'', ''reference'', ''cuda''} then [''unsupported backend: '' @ hq_backend q] else [])
     @ salt_errors (normalize_hex (hq_salt_hex q))
     @ prefix_errors (normalize_hex (hq_key_prefix q))
     @ key_errors require_key (normalize_hex (hq_key_prefix q)) (normalize_hex (hq_key q))
     @ (if hq_target_pattern q = [] then [''target_pattern is required''] else [])
     @ (if length (hq_target_pattern q) > 128 then [''target_pattern is too long''] else [])
     @ number_errors q
     @ (if hq_gpu_first_blocks q \<and> hq_backend q \<noteq> ''cuda'' then [''gpu_first_blocks requires backend=cuda''] else [])"

subsection \<open>The command\<close>

definition int_text :: "int \<Rightarrow> string" where
  "int_text n = (if n < 0 then CHR ''-'' # nat_text (nat (- n)) else nat_text (nat n))"

definition option_if :: "string \<Rightarrow> string \<Rightarrow> string list" where
  "option_if name v = (if v = [] then [] else [name, v])"

definition build_command :: "string \<Rightarrow> string \<Rightarrow> hash_request \<Rightarrow> string list" where
  "build_command binary command q =
     [binary, command, ''--backend'', hq_backend q, ''--salt'', hq_salt_hex q, ''--pattern'', hq_target_pattern q,
      ''--batch-size'', int_text (hq_batch_size q), ''--difficulty'', int_text (hq_difficulty q),
      ''--device'', int_text (hq_device_id q), ''--json'']
     @ option_if ''--request-id'' (hq_request_id q)
     @ option_if ''--prefix'' (hq_key_prefix q)
     @ option_if ''--key'' (hq_key q)
     @ (if command = ''hash-benchmark'' then [''--seconds'', int_text (hq_seconds q)] else [])
     @ (if \<not> hq_allow_xuni q then [''--no-xuni''] else [])
     @ (if hq_gpu_first_blocks q then [''--gpu-first-blocks''] else [])"

text \<open>What the command did: it did not start, ran too long, printed no JSON, or printed a report with
  its \<open>ok\<close> and its \<open>error\<close>.\<close>

datatype command_run =
    DidNotStart string
  | TimedOut
  | NoJson int
  | Reported int bool string

record command_result =
  cmd_exit_code :: "int option"
  cmd_ok :: bool
  cmd_payload_error :: string
  cmd_error :: string
  cmd_timed_out :: bool

definition failed_command :: "int option \<Rightarrow> string \<Rightarrow> bool \<Rightarrow> command_result" where
  "failed_command code err late = \<lparr>cmd_exit_code = code, cmd_ok = False, cmd_payload_error = [],
     cmd_error = err, cmd_timed_out = late\<rparr>"

definition result_of_run :: "string \<Rightarrow> command_run \<Rightarrow> command_result" where
  "result_of_run limit_text r = (case r of
       DidNotStart e \<Rightarrow> failed_command None (''hash command failed to start: '' @ e) False
     | TimedOut \<Rightarrow> failed_command None (''hash command timed out after '' @ limit_text @ '' seconds'') True
     | NoJson code \<Rightarrow> failed_command (Some code) ''hash command did not emit valid JSON'' False
     | Reported code ok err \<Rightarrow> \<lparr>cmd_exit_code = Some code, cmd_ok = ok, cmd_payload_error = err,
         cmd_error = err, cmd_timed_out = False\<rparr>)"

definition limit_reached :: command_result where
  "limit_reached = failed_command None ''hash service concurrency limit reached'' False"

text \<open>The semaphore: the requests whose command is running.  A request that finds no permit is
  answered at once; the permit comes back however the command ends.\<close>

datatype client_event = Arrives nat | Ends nat

definition client_step :: "nat \<Rightarrow> client_event \<Rightarrow> nat list \<times> nat list \<Rightarrow> nat list \<times> nat list" where
  "client_step max_concurrency e st = (case e of
       Arrives i \<Rightarrow> if length (fst st) < max_concurrency then (fst st @ [i], snd st) else (fst st, snd st @ [i])
     | Ends i \<Rightarrow> (remove1 i (fst st), snd st))"

definition client_run :: "nat \<Rightarrow> client_event list \<Rightarrow> nat list \<times> nat list" where
  "client_run max_concurrency es = fold (client_step max_concurrency) es ([], [])"

subsection \<open>The routes\<close>

record hash_response =
  hr_ok :: bool
  hr_error :: string
  hr_exit_code :: "int option"
  hr_errors :: "string list"

definition join_errors :: "string list \<Rightarrow> string" where
  "join_errors errors = concat (map2 (@) ([] # replicate (length errors) ''; '') errors)"

definition error_response :: "string list \<Rightarrow> hash_response" where
  "error_response errors = \<lparr>hr_ok = False, hr_error = join_errors errors, hr_exit_code = None, hr_errors = errors\<rparr>"

definition command_response :: "command_result \<Rightarrow> hash_response" where
  "command_response r =
     (let ok = (cmd_exit_code r = Some 0 \<and> cmd_ok r \<and> \<not> cmd_timed_out r)
      in \<lparr>hr_ok = ok, hr_error = (if ok then [] else if cmd_error r \<noteq> [] then cmd_error r else cmd_payload_error r),
          hr_exit_code = cmd_exit_code r, hr_errors = []\<rparr>)"

datatype hash_route = HashOne | HashBatch | HashBenchmark

definition route_errors :: "hash_route \<Rightarrow> hash_request \<Rightarrow> string list" where
  "route_errors route q = validate_hash_payload q (route = HashOne)
     @ (if route = HashBenchmark \<and> hq_seconds q \<le> 0 then [''seconds must be greater than zero''] else [])"

definition route_command :: "hash_route \<Rightarrow> string" where
  "route_command route = (case route of HashOne \<Rightarrow> ''hash-one'' | HashBatch \<Rightarrow> ''hash-batch'' | HashBenchmark \<Rightarrow> ''hash-benchmark'')"

text \<open>\<open>run\<close> is the client: it gets the command line.\<close>

definition hash_route_response :: "(string list \<Rightarrow> command_result) \<Rightarrow> string \<Rightarrow> hash_route \<Rightarrow> hash_request \<Rightarrow> hash_response" where
  "hash_route_response run binary route q =
     (if route_errors route q \<noteq> [] then error_response (route_errors route q)
      else command_response (run (build_command binary (route_command route) q)))"

subsection \<open>What is accepted\<close>

text \<open>The bytes that hexadecimal digits stand for.\<close>

definition hex_value :: "char \<Rightarrow> nat" where
  "hex_value c = (if is_digit_char c then char_code c - 48 else char_code (lower_char c) - 87)"

fun hex_bytes :: "string \<Rightarrow> nat list option" where
  "hex_bytes [] = Some []"
| "hex_bytes [c] = None"
| "hex_bytes (c # d # s) =
     (if is_hex_char c \<and> is_hex_char d then map_option ((#) (16 * hex_value c + hex_value d)) (hex_bytes s) else None)"

lemma hex_value_less: "is_hex_char c \<Longrightarrow> hex_value c < 16"
  by (auto simp: is_hex_char_def hex_value_def is_digit_char_def Let_def)

lemma hex_bytes_iff: "hex_bytes s \<noteq> None \<longleftrightarrow> even (length s) \<and> is_hex s"
  by (induction s rule: hex_bytes.induct) (auto simp: is_hex_def)

lemma hex_bytes_are_bytes: "hex_bytes s = Some bs \<Longrightarrow> 2 * length bs = length s \<and> list_all (\<lambda>b. b < 256) bs"
proof (induction s arbitrary: bs rule: hex_bytes.induct)
  case (3 c d s)
  then show ?case using hex_value_less [of c] hex_value_less [of d] by (auto split: if_splits)
qed simp_all

definition bytes_between :: "nat \<Rightarrow> nat \<Rightarrow> string \<Rightarrow> bool" where
  "bytes_between lo hi s = (case hex_bytes s of None \<Rightarrow> False
     | Some bs \<Rightarrow> lo \<le> length bs \<and> length bs \<le> hi \<and> list_all (\<lambda>b. b < 256) bs)"

lemma normalize_length: "length (normalize_hex s) \<le> length s"
  by (simp add: normalize_hex_def)

lemma bytes_between_iff: "bytes_between lo hi s \<longleftrightarrow> even (length s) \<and> is_hex s \<and> 2 * lo \<le> length s \<and> length s \<le> 2 * hi"
  using hex_bytes_iff [of s] hex_bytes_are_bytes [of s] by (auto simp: bytes_between_def split: option.splits)

lemma salt_accepted: "salt_errors (normalize_hex s) = [] \<longleftrightarrow> bytes_between 8 (length s) (normalize_hex s)"
  using normalize_length [of s] by (auto simp: salt_errors_def bytes_between_iff odd_iff_mod_2_eq_one)

lemma key_accepted:
  "key_errors rk pre key = [] \<longleftrightarrow> bytes_between 32 32 key \<and> take (length pre) key = pre \<or> \<not> rk \<and> key = []"
  by (auto simp: key_errors_def bytes_between_iff py_startswith_def)

text \<open>
  No command runs for a request with an error: the answer to it does not depend on the command, is
  negative and carries the errors; and a positive answer means that the request had none and
  that the command ended in time with exit code 0 and reported success.  (The validation is not
  the whole check: the command itself refuses a difficulty below 8 on the CPU, for example.)
\<close>

theorem only_valid_requests_run:
  "(if route_errors route q = [] then True
    else hash_route_response run binary route q = hash_route_response run' binary route q
      \<and> \<not> hr_ok (hash_route_response run binary route q) \<and> hr_errors (hash_route_response run binary route q) = route_errors route q)
   \<and> (if hr_ok (hash_route_response run binary route q)
      then route_errors route q = [] \<and> cmd_exit_code (run (build_command binary (route_command route) q)) = Some 0
        \<and> cmd_ok (run (build_command binary (route_command route) q))
        \<and> \<not> cmd_timed_out (run (build_command binary (route_command route) q)) else True)"
  by (auto simp: hash_route_response_def error_response_def command_response_def Let_def)

text \<open>What the checks of the hexadecimal fields mean for the bytes: a salt without an error decodes
  to eight bytes or more; a key without an error, when there is one, decodes to thirty-two and goes on
  from the prefix.\<close>

theorem accepted_hex_decodes:
  "(salt_errors (normalize_hex s) = [] \<longleftrightarrow> bytes_between 8 (length s) (normalize_hex s))
   \<and> (key_errors rk pre key = [] \<longleftrightarrow> bytes_between 32 32 key \<and> take (length pre) key = pre \<or> \<not> rk \<and> key = [])"
  using salt_accepted key_accepted by blast

subsection \<open>The command line\<close>

text \<open>A command line read pair by pair: three names stand alone, each of the others is followed by its
  value, whatever that looks like.\<close>

function read_options :: "string list \<Rightarrow> (string \<times> string) list" where
  "read_options [] = []"
| "read_options (name # rest) =
     (if name \<in> {''--json'', ''--no-xuni'', ''--gpu-first-blocks''} then (name, []) # read_options rest
      else case rest of [] \<Rightarrow> [] | v # rest' \<Rightarrow> (name, v) # read_options rest')"
  by pat_completeness auto
termination
  by (relation "measure length") auto

declare read_options.simps(2) [simp del]

lemma read_pair: "name \<notin> {''--json'', ''--no-xuni'', ''--gpu-first-blocks''} \<Longrightarrow>
    read_options (name # v # rest) = (name, v) # read_options rest"
  unfolding read_options.simps(2) by simp

lemma read_flag: "name \<in> {''--json'', ''--no-xuni'', ''--gpu-first-blocks''} \<Longrightarrow>
    read_options (name # rest) = (name, []) # read_options rest"
  unfolding read_options.simps(2) by simp

lemma read_option_if: "name \<notin> {''--json'', ''--no-xuni'', ''--gpu-first-blocks''} \<Longrightarrow>
    read_options (option_if name v @ rest) = (if v = [] then [] else [(name, v)]) @ read_options rest"
  using read_pair [of name v rest] by (simp add: option_if_def)

lemma read_command:
  "read_options (drop 2 (build_command binary command q)) =
     [(''--backend'', hq_backend q), (''--salt'', hq_salt_hex q), (''--pattern'', hq_target_pattern q),
      (''--batch-size'', int_text (hq_batch_size q)), (''--difficulty'', int_text (hq_difficulty q)),
      (''--device'', int_text (hq_device_id q)), (''--json'', [])]
     @ (if hq_request_id q = [] then [] else [(''--request-id'', hq_request_id q)])
     @ (if hq_key_prefix q = [] then [] else [(''--prefix'', hq_key_prefix q)])
     @ (if hq_key q = [] then [] else [(''--key'', hq_key q)])
     @ (if command = ''hash-benchmark'' then [(''--seconds'', int_text (hq_seconds q))] else [])
     @ (if hq_allow_xuni q then [] else [(''--no-xuni'', [])])
     @ (if hq_gpu_first_blocks q then [(''--gpu-first-blocks'', [])] else [])"
proof -
  have last: "read_options (if hq_gpu_first_blocks q then [''--gpu-first-blocks''] else [])
      = (if hq_gpu_first_blocks q then [(''--gpu-first-blocks'', [])] else [])"
    by (simp add: read_flag)
  have f: "read_options ((if b then [''--no-xuni''] else []) @ rest) = (if b then [(''--no-xuni'', [])] else []) @ read_options rest" for b rest
    by (simp add: read_flag)
  have sec: "read_options ((if b then [''--seconds'', v] else []) @ rest) = (if b then [(''--seconds'', v)] else []) @ read_options rest" for b v rest
    by (simp add: read_pair)
  show ?thesis
    by (simp add: build_command_def read_pair read_flag read_option_if sec f last del: append_assoc cong: if_cong)
qed

text \<open>
  The command line says what the request says: read back pair by pair it gives each field of the
  request, also when a value looks like an option, and the optional ones exactly when they are
  there.
\<close>

theorem command_line_roundtrip:
  "(let opts = map_of (read_options (drop 2 (build_command binary command q))) in
     opts ''--backend'' = Some (hq_backend q) \<and> opts ''--salt'' = Some (hq_salt_hex q)
     \<and> opts ''--pattern'' = Some (hq_target_pattern q) \<and> opts ''--batch-size'' = Some (int_text (hq_batch_size q))
     \<and> opts ''--difficulty'' = Some (int_text (hq_difficulty q)) \<and> opts ''--device'' = Some (int_text (hq_device_id q))
     \<and> opts ''--key'' = (if hq_key q = [] then None else Some (hq_key q))
     \<and> opts ''--prefix'' = (if hq_key_prefix q = [] then None else Some (hq_key_prefix q))
     \<and> (opts ''--no-xuni'' = None \<longleftrightarrow> hq_allow_xuni q) \<and> (opts ''--gpu-first-blocks'' = None \<longleftrightarrow> \<not> hq_gpu_first_blocks q))"
  unfolding Let_def read_command by simp

subsection \<open>Concurrency\<close>

lemma client_bounded: "length (fst st) \<le> n \<Longrightarrow> length (fst (fold (client_step n) es st)) \<le> n"
proof (induction es arbitrary: st)
  case (Cons e es)
  have "length (fst (client_step n e st)) \<le> n"
    using Cons.prems length_remove1 [of _ "fst st"] by (auto simp: client_step_def split: client_event.split)
  then show ?case using Cons.IH by simp
qed simp

text \<open>
  At most as many commands run at once as were configured, whatever requests come and go, and a
  request is turned away exactly when all the permits are taken.
\<close>

theorem concurrency_limited:
  "length (fst (client_run n es)) \<le> n
   \<and> (snd (client_step n (Arrives i) (client_run n es)) = snd (client_run n es) \<longleftrightarrow> length (fst (client_run n es)) < n)"
  using client_bounded [of "([], [])" n es] by (simp add: client_run_def client_step_def)

end
