(* ===== verification/IniFile.thy ===== *)
theory IniFile
  imports HashApi
begin

text \<open>
  The settings file as the miner edits it (\<open>config/wallet_setup.py\<close>, and the tracker id of
  \<open>config/settings.py\<close>): a file is the list of its lines.  \<open>configparser\<close> is modelled as far as it
  matters here, on files without indented lines, a \<open>DEFAULT\<close> section or percent signs: which sections
  and options it finds, and the files it refuses.
\<close>

subsection \<open>Lines\<close>

definition is_header :: "string \<Rightarrow> bool" where
  "is_header stripped \<longleftrightarrow> py_startswith stripped ''['' \<and> last stripped = CHR '']''"

definition header_name :: "string \<Rightarrow> string" where
  "header_name stripped = py_lower (py_strip (butlast (tl stripped)))"

text \<open>\<open>re.match(rf"^{re.escape(key)}\s*=", stripped, re.IGNORECASE)\<close>\<close>

definition key_match :: "string \<Rightarrow> string \<Rightarrow> bool" where
  "key_match key stripped \<longleftrightarrow> py_lower (take (length key) stripped) = py_lower key
     \<and> take 1 (dropWhile is_space_char (drop (length key) stripped)) = ''=''"

definition after_equals :: "string \<Rightarrow> string" where
  "after_equals stripped = drop 1 (dropWhile (\<lambda>c. c \<noteq> CHR ''='') stripped)"

definition option_line :: "string \<Rightarrow> string \<Rightarrow> string" where
  "option_line key v = key @ '' = '' @ v"

text \<open>The loop over the lines: whether the key was found, and the lines that are written.\<close>

fun set_lines :: "string \<Rightarrow> string \<Rightarrow> string \<Rightarrow> bool \<Rightarrow> string list \<Rightarrow> bool \<times> string list" where
  "set_lines sec key v in_section [] = (False, [])"
| "set_lines sec key v in_section (line # rest) =
     (let stripped = py_strip line in
      if is_header stripped
      then (case set_lines sec key v (header_name stripped = py_lower sec) rest of (f, out) \<Rightarrow> (f, line # out))
      else if in_section \<and> key_match key stripped
      then (case set_lines sec key v in_section rest of (f, out) \<Rightarrow> (True, option_line key v # out))
      else (case set_lines sec key v in_section rest of (f, out) \<Rightarrow> (f, line # out)))"

definition has_section :: "string \<Rightarrow> string list \<Rightarrow> bool" where
  "has_section sec lines = list_ex (\<lambda>l. py_lower (py_strip l) = ''['' @ py_lower sec @ '']'') lines"

definition set_ini_value :: "string \<Rightarrow> string \<Rightarrow> string \<Rightarrow> string list \<Rightarrow> string list" where
  "set_ini_value sec key v lines =
     (case set_lines sec key v False lines of (hit, out) \<Rightarrow>
        if hit then out
        else (if has_section sec lines then out
              else (if out \<noteq> [] \<and> py_strip (last out) \<noteq> [] then out @ [[]] else out) @ [''['' @ sec @ '']''])
             @ [option_line key v])"

fun read_lines :: "string \<Rightarrow> string \<Rightarrow> bool \<Rightarrow> string list \<Rightarrow> string option" where
  "read_lines sec key in_section [] = None"
| "read_lines sec key in_section (line # rest) =
     (let stripped = py_strip line in
      if is_header stripped then read_lines sec key (header_name stripped = py_lower sec) rest
      else if in_section \<and> key_match key stripped then Some (py_strip (after_equals stripped))
      else read_lines sec key in_section rest)"

definition read_ini_value :: "string \<Rightarrow> string \<Rightarrow> string list \<Rightarrow> string" where
  "read_ini_value sec key lines = (case read_lines sec key False lines of None \<Rightarrow> [] | Some v \<Rightarrow> v)"

subsection \<open>Names and addresses\<close>












text \<open>The file that the first start writes when the example is not there.\<close>

definition fallback_ini :: "string list" where
  "fallback_ini = [''[account]'', ''address ='', ''worker ='', [],
     ''[server]'', ''base_url = http://xenblocks.io'', ''connection_timeout_s = 20'', ''network_poll_interval_s = 15'',
     ''network_poll_timeout_s = 3'', ''network_down_poll_interval_s = 30'', [],
     ''[mining]'', ''backend = cuda'', ''strategy = random'', ''memory_cost = 1100'', ''time_cost = 1'', ''parallelism = 1'',
     ''hash_len = 64'', [],
     ''[efficiency]'', ''target_vram_pct = 69.09'', ''desktop_headroom_pct = 25.12'', ''emergency_vram_pct = 92.78'',
     ''min_headroom_pct = 3.68'', ''runtime_overhead_pct = 6.28'', ''min_headroom_floor_mib = 512'',
     ''runtime_overhead_floor_mib = 256'', ''target_vram_mib = 0'', ''headroom_mib = 0'', ''emergency_vram_mib = 0'',
     ''min_headroom_mib = 0'', ''max_gpu_temp_c = 75'', ''warn_gpu_temp_c = 72'', ''gpu_cooldown_s = 60'',
     ''gpu_power_boost_enabled = true'', ''gpu_power_target_pct = 100'', ''gpu_power_min_pct = 75'',
     ''gpu_difficulty_power_enabled = true'', ''gpu_difficulty_power_full_ratio = 2.0'', ''gpu_thermal_batch_enabled = true'',
     ''gpu_thermal_batch_min_scale = 0.70'', ''gpu_windows_performance_mode = true'', ''cpu_lanes = 2'',
     ''lane_ramp_step = 1'', ''sample_interval_s = 5'', [],
     ''[queue]'', ''db_path = data/blocks.db'', ''jsonl_path = data/queue.jsonl'', ''rejected_jsonl_path = data/rejected.jsonl'',
     ''submit_cpu_fraction = 0.30'', [],
     ''[monitoring]'', ''log_path = data/session.log'', ''timelapse_path = data/session_timelapse.jsonl'',
     ''stats_interval_s = 4'', ''timelapse_sample_s = 30'', ''temp_watch_path = data/temp_watch.log'',
     ''dashboard_enabled = true'', ''woodyminer_enabled = true'',
     ''woodyminer_upload_url = https://woodyminer.com/api/stat/upload'', ''woodyminer_upload_period_s = 60'',
     ''woodyminer_custom_name ='', [],
     ''[gpu]'', ''xenblocks_exe ='', ''xenblocks_db ='', ''enabled = false'', [],
     ''[cuda]'', ''dll_path = native/build/bin/xen_cuda.dll'', ''batch_size = 0'', ''max_batch_size = 0'', ''max_lanes = 4'',
     ''lane_reserve = 1'', ''runtime_overhead_mib = 0'']"

subsection \<open>configparser\<close>

text \<open>
  The state of the parser: the section it is in, the sections and the options so far.  A line outside
  every section, a line without a delimiter, a section or an option that is there already is an error.
\<close>

record config_state =
  cf_current :: "string option"
  cf_sections :: "string list"
  cf_items :: "((string \<times> string) \<times> string) list"

definition config_empty :: config_state where
  "config_empty = \<lparr>cf_current = None, cf_sections = [], cf_items = []\<rparr>"

definition config_header :: "string \<Rightarrow> string option" where
  "config_header stripped =
     (if py_startswith stripped ''['' \<and> CHR '']'' \<in> set (drop 2 stripped)
      then Some (rev (tl (dropWhile (\<lambda>c. c \<noteq> CHR '']'') (rev (tl stripped))))) else None)"

definition is_delimiter :: "char \<Rightarrow> bool" where
  "is_delimiter c \<longleftrightarrow> c = CHR ''='' \<or> c = CHR '':''"

definition config_option :: "string \<Rightarrow> (string \<times> string) option" where
  "config_option stripped =
     (let name = py_lower (py_strip (takeWhile (\<lambda>c. \<not> is_delimiter c) stripped));
          rest = dropWhile (\<lambda>c. \<not> is_delimiter c) stripped in
      if rest = [] \<or> name = [] then None else Some (name, py_strip (tl rest)))"

definition config_step :: "string \<Rightarrow> config_state \<Rightarrow> config_state option" where
  "config_step line st =
     (let stripped = py_strip line in
      if stripped = [] \<or> hd stripped = CHR ''#'' \<or> hd stripped = CHR '';'' then Some st
      else case config_header stripped of
        Some name \<Rightarrow>
          if name \<in> set (cf_sections st) then None
          else Some (st\<lparr>cf_current := Some name, cf_sections := cf_sections st @ [name]\<rparr>)
      | None \<Rightarrow>
          (case (cf_current st, config_option stripped) of
             (Some sec, Some (name, v)) \<Rightarrow>
               if map_of (cf_items st) (sec, name) \<noteq> None then None
               else Some (st\<lparr>cf_items := ((sec, name), v) # cf_items st\<rparr>)
           | _ \<Rightarrow> None))"

fun config_run :: "string list \<Rightarrow> config_state \<Rightarrow> config_state option" where
  "config_run [] st = Some st"
| "config_run (line # rest) st = (case config_step line st of None \<Rightarrow> None | Some st' \<Rightarrow> config_run rest st')"

definition config_get :: "config_state \<Rightarrow> string \<Rightarrow> string \<Rightarrow> string" where
  "config_get st sec key = (case map_of (cf_items st) (sec, key) of None \<Rightarrow> [] | Some v \<Rightarrow> v)"

subsection \<open>The tracker id\<close>

text \<open>\<open>fresh\<close> is the random id of this start.\<close>

definition ensure_tracker_id :: "string \<Rightarrow> config_state \<Rightarrow> string list \<Rightarrow> string \<times> string list" where
  "ensure_tracker_id fresh mon lines =
     (let existing = py_strip (let v = config_get mon ''monitoring'' ''tracker_id'' in
            if v \<noteq> [] then v else config_get mon ''monitoring'' ''xenblockscan_tracker_id'') in
      if existing \<noteq> [] then (existing, lines)
      else (fresh, set_ini_value ''monitoring'' ''tracker_id'' fresh lines))"

text \<open>
  The part of \<open>load_settings\<close> about it: the file is read, and the id is looked up or written; \<open>None\<close>
  is a start that fails, on a file that \<open>configparser\<close> refuses or that has no such section.
\<close>

definition start_tracker :: "string \<Rightarrow> string list \<Rightarrow> (string \<times> string list) option" where
  "start_tracker fresh lines =
     (case config_run lines config_empty of
        None \<Rightarrow> None
      | Some cp \<Rightarrow>
          if ''monitoring'' \<notin> set (cf_sections cp) then None else Some (ensure_tracker_id fresh cp lines))"

subsection \<open>Reading what was written\<close>

definition good_key :: "string \<Rightarrow> bool" where
  "good_key key \<longleftrightarrow> key \<noteq> [] \<and> list_all (\<lambda>c. \<not> is_space_char c \<and> c \<noteq> CHR ''='' \<and> c \<noteq> CHR ''['') key"

lemma strip_ends: "py_strip v = v \<Longrightarrow> v \<noteq> [] \<Longrightarrow> \<not> is_space_char (hd v) \<and> \<not> is_space_char (last v)"
proof -
  assume s: "py_strip v = v" and ne: "v \<noteq> []"
  define d where "d = dropWhile is_space_char v"
  have v: "v = rev (dropWhile is_space_char (rev d))" using s by (simp add: py_strip_def d_def)
  with ne have n: "dropWhile is_space_char (rev d) \<noteq> []" by auto
  have "d = v @ rev (takeWhile is_space_char (rev d))"
    using v by (metis rev_append rev_rev_ident takeWhile_dropWhile_id)
  then have "hd v = hd d" using ne by (metis hd_append2)
  moreover have "d \<noteq> []" using n by auto
  ultimately have "\<not> is_space_char (hd v)" unfolding d_def by (metis hd_dropWhile)
  moreover have "last v = hd (dropWhile is_space_char (rev d))" using v n by (metis hd_rev rev_rev_ident)
  ultimately show ?thesis using hd_dropWhile [OF n] by simp
qed

lemma strip_id: "s \<noteq> [] \<Longrightarrow> \<not> is_space_char (hd s) \<Longrightarrow> \<not> is_space_char (last s) \<Longrightarrow> py_strip s = s"
proof -
  assume s: "s \<noteq> []" "\<not> is_space_char (hd s)" "\<not> is_space_char (last s)"
  have "dropWhile is_space_char s = s" using s by (cases s) simp_all
  moreover have "dropWhile is_space_char (rev s) = rev s" using s by (cases s rule: rev_cases) simp_all
  ultimately show ?thesis by (simp add: py_strip_def)
qed

lemma eq_no_space [simp]: "\<not> is_space_char (CHR ''='')" "is_space_char (CHR '' '')"
  by (simp_all add: is_space_char_def char_code_def)

lemma strip_option_line:
  assumes "good_key key" "py_strip v = v"
  shows "py_strip (option_line key v) = (if v = [] then key @ '' ='' else option_line key v)"
proof (cases "v = []")
  case True
  have "py_strip (key @ '' ='') = key @ '' =''" using assms(1) by (intro strip_id) (auto simp: good_key_def neq_Nil_conv)
  moreover have "py_strip (key @ '' = '') = py_strip (key @ '' ='')"
    using assms(1) by (auto simp: py_strip_def good_key_def neq_Nil_conv)
  ultimately show ?thesis using True by (simp add: option_line_def)
next
  case False
  then show ?thesis using assms strip_ends [OF assms(2) False]
    by (subst strip_id) (auto simp: option_line_def good_key_def neq_Nil_conv)
qed

lemma option_line_matches:
  assumes "good_key key" "py_strip v = v"
  shows "\<not> is_header (py_strip (option_line key v))" "key_match key (py_strip (option_line key v))"
    "py_strip (after_equals (py_strip (option_line key v))) = v"
proof -
  have k: "dropWhile (\<lambda>c. c \<noteq> CHR ''='') (key @ t) = dropWhile (\<lambda>c. c \<noteq> CHR ''='') t" for t
    using assms(1) by (simp add: good_key_def list_all_iff dropWhile_append2)
  have "hd key \<noteq> CHR ''[''" "key \<noteq> []" using assms(1) by (auto simp: good_key_def list_all_iff)
  then show "\<not> is_header (py_strip (option_line key v))"
    unfolding strip_option_line [OF assms] by (cases key) (auto simp: is_header_def py_startswith_def option_line_def)
  show "key_match key (py_strip (option_line key v))"
    unfolding strip_option_line [OF assms] by (simp add: key_match_def option_line_def)
  have sp: "py_strip [] = []" by (simp add: py_strip_def)
  have "py_strip (CHR '' '' # v) = py_strip v" by (simp add: py_strip_def)
  then show "py_strip (after_equals (py_strip (option_line key v))) = v"
    using assms(2) sp unfolding strip_option_line [OF assms] by (simp add: after_equals_def option_line_def k)
qed

lemma set_unfound: "\<not> fst (set_lines sec key v i lines) \<Longrightarrow> snd (set_lines sec key v i lines) = lines"
  by (induction lines arbitrary: i) (auto simp: Let_def case_prod_unfold split: if_splits)

lemma set_found_iff: "fst (set_lines sec key v i lines) \<longleftrightarrow> read_lines sec key i lines \<noteq> None"
  by (induction lines arbitrary: i) (auto simp: Let_def case_prod_unfold split: if_splits)

lemma read_set:
  assumes "good_key key" "py_strip v = v"
  shows "read_lines sec key i (snd (set_lines sec key v i lines)) = (if fst (set_lines sec key v i lines) then Some v else None)"
  using set_found_iff [of sec key v]
proof (induction lines arbitrary: i)
  case (Cons line rest)
  then show ?case using option_line_matches [OF assms]
    by (auto simp: Let_def case_prod_unfold split: if_splits)
qed simp

text \<open>Whether the end of the file is in the section.\<close>

fun ends_in :: "string \<Rightarrow> bool \<Rightarrow> string list \<Rightarrow> bool" where
  "ends_in sec i [] = i"
| "ends_in sec i (line # rest) =
     ends_in sec (if is_header (py_strip line) then header_name (py_strip line) = py_lower sec else i) rest"

lemma read_append: "read_lines sec key i lines = None \<Longrightarrow> read_lines sec key i (lines @ extra) = read_lines sec key (ends_in sec i lines) extra"
  by (induction lines arbitrary: i) (auto simp: Let_def split: if_splits)

definition good_section :: "string \<Rightarrow> bool" where
  "good_section sec \<longleftrightarrow> py_strip sec = sec"

lemma header_line: "good_section sec \<Longrightarrow> is_header (py_strip (''['' @ sec @ '']'')) \<and> header_name (py_strip (''['' @ sec @ '']'')) = py_lower sec"
proof -
  assume g: "good_section sec"
  have "\<not> is_space_char (CHR ''['')" "\<not> is_space_char (CHR '']'')" by (simp_all add: is_space_char_def char_code_def)
  then have "py_strip (''['' @ sec @ '']'') = ''['' @ sec @ '']''" by (intro strip_id) simp_all
  with g show ?thesis by (simp add: is_header_def header_name_def py_startswith_def good_section_def butlast_append)
qed

text \<open>The value can be stored: the key is there, or the section is missing, or it is the last one.\<close>

definition storable :: "string \<Rightarrow> string \<Rightarrow> string list \<Rightarrow> bool" where
  "storable sec key lines \<longleftrightarrow> read_lines sec key False lines \<noteq> None \<or> \<not> has_section sec lines \<or> ends_in sec False lines"

lemma set_then_read:
  assumes "good_key key" "py_strip v = v" "good_section sec" "storable sec key lines"
  shows "read_ini_value sec key (set_ini_value sec key v lines) = v"
proof (cases "read_lines sec key False lines")
  case (Some x)
  then have "fst (set_lines sec key v False lines)" by (simp add: set_found_iff)
  then show ?thesis using read_set [OF assms(1,2), of sec False lines]
    by (simp add: read_ini_value_def set_ini_value_def case_prod_unfold)
next
  case None
  then have f: "\<not> fst (set_lines sec key v False lines)" by (simp add: set_found_iff)
  note out = set_unfound [OF f]
  note o = option_line_matches [OF assms(1,2)]
  have one: "read_lines sec key True [option_line key v] = Some v" using o by (simp add: Let_def)
  show ?thesis
  proof (cases "has_section sec lines")
    case True
    with assms(4) None have "ends_in sec False lines" by (simp add: storable_def)
    then show ?thesis using True f out one read_append [OF None, of "[option_line key v]"]
      by (simp add: set_ini_value_def case_prod_unfold read_ini_value_def)
  next
    case False
    have h: "read_lines sec key i ([''['' @ sec @ '']''] @ [option_line key v]) = Some v" for i
      using header_line [OF assms(3)] one by (simp add: Let_def)
    have e: "\<not> is_header (py_strip [])" "\<not> key_match key (py_strip [])"
      using assms(1) by (auto simp: py_strip_def is_header_def py_startswith_def key_match_def)
    have "read_lines sec key False (lines @ [''['' @ sec @ '']''] @ [option_line key v]) = Some v"
      "read_lines sec key False (lines @ [[]] @ [''['' @ sec @ '']''] @ [option_line key v]) = Some v"
      using read_append [OF None] h e by (simp_all add: Let_def)
    then show ?thesis using False f out by (simp add: set_ini_value_def case_prod_unfold read_ini_value_def)
  qed
qed

text \<open>
  A value that is written to the settings file is the value that is read back, whenever the key
  was there, its section was missing, or its section is the last one of the file.
\<close>

theorem ini_set_then_read:
  "good_key key \<Longrightarrow> py_strip v = v \<Longrightarrow> good_section sec \<Longrightarrow> storable sec key lines
    \<Longrightarrow> read_ini_value sec key (set_ini_value sec key v lines) = v"
  by (rule set_then_read)

theorem ini_set_then_read_witness:
  "read_ini_value ''account'' ''worker'' (set_ini_value ''account'' ''worker'' ''rig-7'' fallback_ini) = ''rig-7''"
  by (rule ini_set_then_read; code_simp)

subsection \<open>An id that is never found again\<close>

lemma run_append: "config_run (lines @ extra) st = (case config_run lines st of None \<Rightarrow> None | Some st' \<Rightarrow> config_run extra st')"
  by (induction lines arbitrary: st) (auto split: option.splits)

abbreviation tracker_line :: "string \<Rightarrow> string" where
  "tracker_line \<equiv> option_line ''tracker_id''"

lemma tracker_key [simp]: "good_key ''tracker_id''"
  by code_simp

lemma tracker_step:
  assumes "v \<noteq> []" "py_strip v = v" "cf_current st = Some sec"
  shows "config_step (tracker_line v) st = (if map_of (cf_items st) (sec, ''tracker_id'') \<noteq> None then None
    else Some (st\<lparr>cf_items := ((sec, ''tracker_id''), v) # cf_items st\<rparr>))"
proof -
  have l: "py_strip (tracker_line v) = tracker_line v" using assms strip_option_line [of "''tracker_id''" v] by simp
  have k: "py_lower (py_strip ''tracker_id '') = ''tracker_id''" by code_simp
  have b: "py_strip (CHR '' '' # v) = v" using assms(2) by (simp add: py_strip_def)
  have "config_option (tracker_line v) = Some (''tracker_id'', v)"
    using k b by (simp add: config_option_def option_line_def is_delimiter_def)
  moreover have "config_header (tracker_line v) = None" by (simp add: config_header_def option_line_def py_startswith_def)
  moreover have "tracker_line v \<noteq> []" "hd (tracker_line v) = CHR ''t''" by (simp_all add: option_line_def)
  ultimately show ?thesis using assms(3) by (simp add: config_step_def l)
qed

lemma tracker_missed:
  assumes "read_lines ''monitoring'' ''tracker_id'' False lines = None" "has_section ''monitoring'' lines"
    "\<not> ends_in ''monitoring'' False lines" "py_strip v = v"
  shows "set_ini_value ''monitoring'' ''tracker_id'' v lines = lines @ [tracker_line v]"
    "read_lines ''monitoring'' ''tracker_id'' False (lines @ [tracker_line v]) = None"
    "has_section ''monitoring'' (lines @ [tracker_line v])"
proof -
  have f: "\<not> fst (set_lines ''monitoring'' ''tracker_id'' v False lines)" using assms(1) by (simp add: set_found_iff)
  show "set_ini_value ''monitoring'' ''tracker_id'' v lines = lines @ [tracker_line v]"
    using assms(2) f set_unfound [OF f] by (simp add: set_ini_value_def case_prod_unfold)
  show "read_lines ''monitoring'' ''tracker_id'' False (lines @ [tracker_line v]) = None"
    using read_append [OF assms(1), of "[tracker_line v]"] assms(3) option_line_matches(1) [OF tracker_key assms(4)]
    by (simp add: Let_def)
  show "has_section ''monitoring'' (lines @ [tracker_line v])" using assms(2) by (simp add: has_section_def)
qed

text \<open>
  C36: on a settings file whose monitoring section has no tracker id and is not the last one, the id
  that a start writes goes under the last section: the second start makes a new id, and the third
  start fails, because \<open>configparser\<close> refuses the file.
\<close>

theorem tracker_id_breaks_third_start:
  assumes "config_run lines config_empty = Some cp" "''monitoring'' \<in> set (cf_sections cp)"
    "config_get cp ''monitoring'' ''tracker_id'' = []" "config_get cp ''monitoring'' ''xenblockscan_tracker_id'' = []"
    "cf_current cp = Some sec" "sec \<noteq> ''monitoring''" "map_of (cf_items cp) (sec, ''tracker_id'') = None"
    "read_lines ''monitoring'' ''tracker_id'' False lines = None" "has_section ''monitoring'' lines"
    "\<not> ends_in ''monitoring'' False lines"
    "v1 \<noteq> []" "py_strip v1 = v1" "v2 \<noteq> []" "py_strip v2 = v2"
  shows "start_tracker v1 lines = Some (v1, lines @ [tracker_line v1])
    \<and> start_tracker v2 (lines @ [tracker_line v1]) = Some (v2, lines @ [tracker_line v1, tracker_line v2])
    \<and> start_tracker v3 (lines @ [tracker_line v1, tracker_line v2]) = None"
proof -
  note m = tracker_missed [OF assms(8,9,10)]
  define cp1 where "cp1 = cp\<lparr>cf_items := ((sec, ''tracker_id''), v1) # cf_items cp\<rparr>"
  have s1: "config_step (tracker_line v1) cp = Some cp1" using tracker_step [OF assms(11,12,5)] assms(7) by (simp add: cp1_def)
  have s2: "config_step (tracker_line v2) cp1 = None"
    using tracker_step [OF assms(13,14), of cp1 sec] assms(5) by (simp add: cp1_def)
  have e: "py_strip [] = []" by (simp add: py_strip_def)
  have r1: "config_run (lines @ [tracker_line v1]) config_empty = Some cp1" using assms(1) s1 by (simp add: run_append)
  have g1: "config_get cp1 ''monitoring'' k = config_get cp ''monitoring'' k" for k
    using assms(6) by (simp add: config_get_def cp1_def)
  have c1: "cf_sections cp1 = cf_sections cp" by (simp add: cp1_def)
  have n1: "set_ini_value ''monitoring'' ''tracker_id'' v2 (lines @ [tracker_line v1]) = lines @ [tracker_line v1, tracker_line v2]"
  proof -
    have "\<not> fst (set_lines ''monitoring'' ''tracker_id'' v2 False (lines @ [tracker_line v1]))"
      using m(2) [OF assms(12)] by (simp add: set_found_iff)
    from this set_unfound [OF this] m(3) [OF assms(12)] show ?thesis by (simp add: set_ini_value_def case_prod_unfold)
  qed
  have "start_tracker v1 lines = Some (v1, lines @ [tracker_line v1])"
    using assms(1-4) m(1) [OF assms(12)] e by (simp add: start_tracker_def ensure_tracker_id_def)
  moreover have "start_tracker v2 (lines @ [tracker_line v1]) = Some (v2, lines @ [tracker_line v1, tracker_line v2])"
    using r1 g1 c1 assms(2-4) n1 e by (simp add: start_tracker_def ensure_tracker_id_def)
  moreover have "start_tracker v3 (lines @ [tracker_line v1, tracker_line v2]) = None"
    using assms(1) s1 s2 by (simp add: start_tracker_def run_append)
  ultimately show ?thesis by blast
qed

theorem tracker_id_breaks_third_start_witness:
  "start_tracker ''xbs-3'' ([''[monitoring]'', ''log_path = a'', [], ''[cuda]'', ''max_lanes = 4'']
     @ [tracker_line ''xbs-1'', tracker_line ''xbs-2'']) = None"
  (is "start_tracker _ (?l @ _) = None")
proof -
  let ?cp = "\<lparr>cf_current = Some ''cuda'', cf_sections = [''monitoring'', ''cuda''],
     cf_items = [((''cuda'', ''max_lanes''), ''4''), ((''monitoring'', ''log_path''), ''a'')]\<rparr>"
  have "config_run ?l config_empty = Some ?cp" by code_simp
  moreover have "read_lines ''monitoring'' ''tracker_id'' False ?l = None" "has_section ''monitoring'' ?l"
    "\<not> ends_in ''monitoring'' False ?l" by code_simp+
  moreover have "py_strip ''xbs-1'' = ''xbs-1''" "py_strip ''xbs-2'' = ''xbs-2''" by code_simp+
  ultimately show ?thesis
    using tracker_id_breaks_third_start [of ?l ?cp "''cuda''" "''xbs-1''" "''xbs-2''" "''xbs-3''"]
    by (simp add: config_get_def)
qed

subsection \<open>The first start\<close>




lemma key_match_hd: "key_match key x \<Longrightarrow> key \<noteq> [] \<Longrightarrow> x \<noteq> [] \<and> lower_char (hd x) = lower_char (hd key)"
  by (cases x; cases key) (auto simp: key_match_def py_lower_def)

lemma hd_strip: "s \<noteq> [] \<Longrightarrow> \<not> is_space_char (hd s) \<Longrightarrow> py_strip s \<noteq> [] \<and> hd (py_strip s) = hd s"
  by (cases s) (simp_all add: py_strip_def dropWhile_append3)

text \<open>Setting one option leaves the options whose names begin differently.\<close>

lemma set_lines_other:
  assumes "good_key key" "key' \<noteq> []" "lower_char (hd key) \<noteq> lower_char (hd key')"
  shows "read_lines sec' key' j (snd (set_lines sec key v i lines)) = read_lines sec' key' j lines"
    "read_lines sec' key' j [option_line key v] = None" "\<not> is_header (py_strip (option_line key v))"
proof -
  have n: "key \<noteq> []" using assms(1) by (simp add: good_key_def)
  then have h: "py_strip (option_line key v) \<noteq> [] \<and> hd (py_strip (option_line key v)) = hd key"
    using hd_strip [of "option_line key v"] assms(1) by (cases key) (simp_all add: option_line_def good_key_def)
  have a: "\<not> key_match key' (py_strip (option_line key v))"
    using key_match_hd [OF _ assms(2)] h assms(3) by fastforce
  have d: "key_match key x \<Longrightarrow> \<not> key_match key' x" for x
    using key_match_hd [OF _ assms(2)] key_match_hd [OF _ n] assms(3) by fastforce
  have "hd key \<noteq> CHR ''[''" using assms(1) n by (cases key) (simp_all add: good_key_def)
  then show nh: "\<not> is_header (py_strip (option_line key v))"
    using h by (cases "py_strip (option_line key v)") (simp_all add: is_header_def py_startswith_def)
  show "read_lines sec' key' j [option_line key v] = None" using a nh by (simp add: Let_def)
  show "read_lines sec' key' j (snd (set_lines sec key v i lines)) = read_lines sec' key' j lines"
    by (induction lines arbitrary: i j) (auto simp: Let_def case_prod_unfold a d nh)
qed

lemma read_lines_app: "read_lines sec key i (xs @ ys) =
    (case read_lines sec key i xs of None \<Rightarrow> read_lines sec key (ends_in sec i xs) ys | Some v \<Rightarrow> Some v)"
  by (induction xs arbitrary: i) (auto simp: Let_def split: option.splits)

lemma set_value_other:
  assumes "good_key key" "key' \<noteq> []" "lower_char (hd key) \<noteq> lower_char (hd key')"
  shows "read_ini_value sec' key' (set_ini_value sec key v lines) = read_ini_value sec' key' lines"
proof -
  note o = set_lines_other [OF assms]
  have blank: "read_lines sec' key' j [l] = None" if "py_strip l = [] \<or> (\<exists>s. l = ''['' @ s @ '']'')" for j l
  proof -
    have "\<not> key_match key' (py_strip l)" if h: "\<not> is_header (py_strip l)"
    proof (cases "py_strip l = []")
      case True
      then show ?thesis using key_match_hd [OF _ assms(2)] by blast
    next
      case False
      with \<open>py_strip l = [] \<or> _\<close> obtain s where l: "l = ''['' @ s @ '']''" by auto
      have "py_strip l = l" unfolding l by (rule strip_id) (simp_all add: is_space_char_def char_code_def)
      with h l show ?thesis by (simp add: is_header_def py_startswith_def)
    qed
    then show ?thesis by (auto simp: Let_def)
  qed
  have e: "py_strip [] = []" by (simp add: py_strip_def)
  have b1: "read_lines sec' key' j [[]] = None" for j using blank e by blast
  have b2: "read_lines sec' key' j [''['' @ sec @ '']''] = None" for j using blank by blast
  note b = b1 b2
  show ?thesis
    unfolding read_ini_value_def set_ini_value_def case_prod_unfold
    using b o(1,2)
    by (simp only: read_lines_app if_distrib [of "read_lines sec' key' False"] split: if_split) (auto split: option.splits)
qed

definition keeps_address :: "string list \<Rightarrow> string list \<Rightarrow> bool" where
  "keeps_address lines lines' \<longleftrightarrow>
     read_ini_value ''account'' ''address'' lines' = read_ini_value ''account'' ''address'' lines"

lemma name_keys: "good_key ''worker''" "good_key ''woodyminer_custom_name''" "good_key ''address''" "good_section ''account''"
  "lower_char (hd ''worker'') \<noteq> lower_char (hd ''address'')"
  "lower_char (hd ''woodyminer_custom_name'') \<noteq> lower_char (hd ''address'')"
  by code_simp+

lemma keeps_address_set [simp]:
  "keeps_address lines (set_ini_value sec ''worker'' v lines')= keeps_address lines lines'"
  "keeps_address lines (set_ini_value sec ''woodyminer_custom_name'' v lines') = keeps_address lines lines'"
  using set_value_other [OF name_keys(1) _ name_keys(5)] set_value_other [OF name_keys(2) _ name_keys(6)]
  by (simp_all add: keeps_address_def)

lemma keeps_address_refl [simp]: "keeps_address lines lines"
  by (simp add: keeps_address_def)













end
