(* ===== verification/ServerUptime.thy ===== *)
theory ServerUptime
  imports SubmitResult "HOL-Library.AList"
begin

text \<open>
  The uptime of the pool's server (\<open>monitoring/server_uptime.py\<close>): every probe adds the time since the
  last one to the buckets of the hours it covers, and closes or opens an outage.  An hour is the
  number of the hour since the epoch, in a zone that is whole hours from UTC and does not change its
  clocks; the labels of the rows are left out.
\<close>

subsection \<open>Hours\<close>

type_synonym hours = "(int \<times> pyfloat \<times> pyfloat) list"

definition hour_of :: "pyfloat \<Rightarrow> int" where
  "hour_of ts = \<lfloor>ts / 3600\<rfloor>"

definition bucket :: "int \<Rightarrow> hours \<Rightarrow> pyfloat \<times> pyfloat" where
  "bucket h hs = (case map_of hs h of None \<Rightarrow> (0, 0) | Some b \<Rightarrow> b)"

definition add_to :: "int \<Rightarrow> bool \<Rightarrow> pyfloat \<Rightarrow> hours \<Rightarrow> hours" where
  "add_to h online d hs =
     AList.update h (case bucket h hs of (on, off) \<Rightarrow> if online then (fl (on + d), off) else (on, fl (off + d))) hs"

definition next_hour :: "pyfloat \<Rightarrow> pyfloat" where
  "next_hour ts = 3600 * of_int (hour_of ts + 1)"

lemma next_hour_after: "ts < next_hour ts" "hour_of (next_hour ts) = hour_of ts + 1"
proof -
  have "ts / 3600 < of_int (hour_of ts + 1)" unfolding hour_of_def by linarith
  then show "ts < next_hour ts" by (simp add: next_hour_def field_simps)
  have "next_hour ts / 3600 = of_int (hour_of ts + 1)" by (simp add: next_hour_def)
  then show "hour_of (next_hour ts) = hour_of ts + 1" unfolding hour_of_def [of "next_hour ts"] by (simp only: floor_of_int)
qed

text \<open>The loop of \<open>_add_duration\<close> and of \<open>_projected_hourly\<close>.\<close>

function add_hours :: "bool \<Rightarrow> pyfloat \<Rightarrow> pyfloat \<Rightarrow> hours \<Rightarrow> hours" where
  "add_hours online cursor end_ts hs =
     (if cursor < end_ts
      then (let chunk_end = min end_ts (next_hour cursor)
            in add_hours online chunk_end end_ts (add_to (hour_of cursor) online (fl (chunk_end - cursor)) hs))
      else hs)"
  by pat_completeness auto

termination
proof (relation "measure (\<lambda>(_, cursor, end_ts, _). if cursor < end_ts then Suc (nat (hour_of end_ts - hour_of cursor)) else 0)")
  fix online :: bool and cursor end_ts chunk :: pyfloat and hs :: hours
  assume c: "cursor < end_ts" and k: "chunk = min end_ts (next_hour cursor)"
  show "((online, chunk, end_ts, add_to (hour_of cursor) online (fl (chunk - cursor)) hs), online, cursor, end_ts, hs)
     \<in> measure (\<lambda>(_, cursor, end_ts, _). if cursor < end_ts then Suc (nat (hour_of end_ts - hour_of cursor)) else 0)"
  proof (cases "next_hour cursor < end_ts")
    case True
    then have "hour_of (next_hour cursor) \<le> hour_of end_ts"
      unfolding hour_of_def by (intro floor_mono divide_right_mono) simp_all
    then have "hour_of cursor + 1 \<le> hour_of end_ts" by (simp add: next_hour_after)
    then show ?thesis using c True k by (simp add: next_hour_after)
  next
    case False
    then show ?thesis using c k by simp
  qed
qed simp

declare add_hours.simps [simp del]

definition add_duration :: "pyfloat \<Rightarrow> pyfloat \<Rightarrow> bool \<Rightarrow> hours \<Rightarrow> hours" where
  "add_duration start_ts end_ts online hs = (if end_ts \<le> start_ts then hs else add_hours online start_ts end_ts hs)"

subsection \<open>Outages\<close>

record outage =
  og_start :: pyfloat
  og_end :: pyfloat
  og_duration :: pyfloat
  og_during_xuni :: bool

function xuni_minutes :: "int \<Rightarrow> pyfloat \<Rightarrow> bool" where
  "xuni_minutes cursor end_ts =
     (if 60 * of_int cursor \<le> end_ts then in_xuni_window (cursor mod 60) \<or> xuni_minutes (cursor + 1) end_ts else False)"
  by pat_completeness auto
termination
proof (relation "measure (\<lambda>(cursor, end_ts). nat (\<lfloor>end_ts / 60\<rfloor> + 1 - cursor))")
  fix cursor :: int and end_ts :: pyfloat
  assume "60 * of_int cursor \<le> end_ts"
  then have "of_int cursor \<le> end_ts / 60" by (simp add: field_simps)
  then have "cursor \<le> \<lfloor>end_ts / 60\<rfloor>" by (simp add: le_floor_iff)
  then show "((cursor + 1, end_ts), cursor, end_ts) \<in> measure (\<lambda>(cursor, end_ts). nat (\<lfloor>end_ts / 60\<rfloor> + 1 - cursor))"
    by simp
qed simp

declare xuni_minutes.simps [simp del]

definition outage_overlaps_xuni :: "pyfloat \<Rightarrow> pyfloat \<Rightarrow> bool" where
  "outage_overlaps_xuni start_ts end_ts = xuni_minutes \<lfloor>start_ts / 60\<rfloor> end_ts"

subsection \<open>The tracker\<close>

text \<open>The file: absent, no JSON, or what was saved last.\<close>

datatype uptime_file =
    NoUptimeFile
  | BadUptimeFile
  | UptimeFile hours "outage list" "bool option" "pyfloat option" "pyfloat option"

record uptime =
  up_hourly :: hours
  up_outages :: "outage list"
  up_last_ok :: "bool option"
  up_last_probe_at :: "pyfloat option"
  up_outage_start :: "pyfloat option"
  up_file :: uptime_file

definition load_uptime :: "uptime_file \<Rightarrow> uptime" where
  "load_uptime f = (case f of
       UptimeFile hourly outages last_ok last_probe_at outage_start \<Rightarrow>
         \<lparr>up_hourly = hourly, up_outages = outages, up_last_ok = last_ok, up_last_probe_at = last_probe_at,
          up_outage_start = outage_start, up_file = f\<rparr>
     | _ \<Rightarrow> \<lparr>up_hourly = [], up_outages = [], up_last_ok = None, up_last_probe_at = None, up_outage_start = None, up_file = f\<rparr>)"

definition last_n :: "nat \<Rightarrow> 'a list \<Rightarrow> 'a list" where
  "last_n n xs = drop (length xs - n) xs"

definition outage_cutoff :: "pyfloat \<Rightarrow> pyfloat" where
  "outage_cutoff now = fl (now - 14 * 86400)"

definition prune_outages :: "pyfloat \<Rightarrow> outage list \<Rightarrow> outage list" where
  "prune_outages now os = last_n 200 (filter (\<lambda>og. og_end og \<ge> outage_cutoff now) os)"

definition prune_hours :: "pyfloat \<Rightarrow> hours \<Rightarrow> hours" where
  "prune_hours now hs = filter (\<lambda>(h, _). h \<ge> hour_of now - 48) hs"

definition save_uptime :: "pyfloat \<Rightarrow> uptime \<Rightarrow> uptime" where
  "save_uptime now u =
     (let hourly = prune_hours now (up_hourly u); outages = prune_outages now (up_outages u)
      in u\<lparr>up_hourly := hourly, up_outages := outages,
           up_file := UptimeFile hourly outages (up_last_ok u) (up_last_probe_at u) (up_outage_start u)\<rparr>)"

definition close_outage :: "pyfloat \<Rightarrow> uptime \<Rightarrow> uptime" where
  "close_outage ts u = (case up_outage_start u of
       None \<Rightarrow> u
     | Some start_ts \<Rightarrow>
         (let duration_s = max 0 (fl (ts - start_ts));
              u1 = (if duration_s > 0
                then u\<lparr>up_outages := up_outages u @ [\<lparr>og_start = start_ts, og_end = ts, og_duration = duration_s,
                       og_during_xuni = outage_overlaps_xuni start_ts ts\<rparr>]\<rparr>
                else u)
          in u1\<lparr>up_outage_start := None\<rparr>))"

text \<open>Every probe changes something, so every probe saves.\<close>

definition note_probe :: "bool \<times> pyfloat \<Rightarrow> uptime \<Rightarrow> uptime" where
  "note_probe p u = (case p of (ok, now) \<Rightarrow>
     (let u1 = (case (up_last_probe_at u, up_last_ok u) of
            (Some t, Some was) \<Rightarrow> u\<lparr>up_hourly := add_duration t now was (up_hourly u)\<rparr>
          | _ \<Rightarrow> u);
          u2 = (case up_last_ok u of
            None \<Rightarrow> if \<not> ok then u1\<lparr>up_outage_start := Some now\<rparr> else u1
          | Some was \<Rightarrow>
              if was \<and> \<not> ok then u1\<lparr>up_outage_start := Some now\<rparr>
              else if \<not> was \<and> ok then close_outage now u1
              else u1)
      in u2\<lparr>up_last_ok := Some ok, up_last_probe_at := Some now\<rparr>))"

definition record_probe :: "bool \<times> pyfloat \<Rightarrow> uptime \<Rightarrow> uptime" where
  "record_probe p u = save_uptime (snd p) (note_probe p u)"

subsection \<open>The view\<close>

definition projected_hourly :: "pyfloat \<Rightarrow> uptime \<Rightarrow> hours" where
  "projected_hourly now u = (case (up_last_probe_at u, up_last_ok u) of
       (Some t, Some was) \<Rightarrow> if now \<le> t then up_hourly u else add_hours was t now (up_hourly u)
     | _ \<Rightarrow> up_hourly u)"

record uptime_row =
  ur_hour :: int
  ur_uptime_pct :: "pyfloat option"
  ur_offline_s :: pyfloat
  ur_outage_count :: nat

record uptime_view =
  uv_hours :: "uptime_row list"
  uv_avg_outage_s :: "pyfloat option"
  uv_outage_count :: nat
  uv_xuni_outage_count :: nat
  uv_current_ok :: bool
  uv_current_outage_s :: "pyfloat option"
  uv_offline_s_24h :: pyfloat

definition uptime_row_of :: "hours \<Rightarrow> outage list \<Rightarrow> int \<Rightarrow> uptime_row" where
  "uptime_row_of hourly outages h = (case bucket h hourly of (online_s, offline_s) \<Rightarrow>
     (let total_s = fl (online_s + offline_s)
      in \<lparr>ur_hour = h, ur_uptime_pct = (if total_s > 0 then Some (fl (fl (online_s / total_s) * 100)) else None),
          ur_offline_s = offline_s, ur_outage_count = length (filter (\<lambda>og. hour_of (og_start og) = h) outages)\<rparr>))"

definition view_uptime :: "pyfloat \<Rightarrow> uptime \<Rightarrow> uptime_view" where
  "view_uptime now u =
     (let current_ok = (case up_last_ok u of Some b \<Rightarrow> b | None \<Rightarrow> False);
          hourly = projected_hourly now u;
          outages = up_outages u;
          since = (if current_ok then None
                   else case up_outage_start u of
                     Some t \<Rightarrow> Some t
                   | None \<Rightarrow> if up_last_ok u = Some False then up_last_probe_at u else None)
      in \<lparr>uv_hours = map (\<lambda>offset. uptime_row_of hourly outages (hour_of now - int offset)) [0..<6],
          uv_avg_outage_s = (if outages = [] then None
            else Some (fl (fold (\<lambda>og acc. fl (acc + og_duration og)) outages 0 / of_nat (length outages)))),
          uv_outage_count = length outages, uv_xuni_outage_count = length (filter og_during_xuni outages),
          uv_current_ok = current_ok, uv_current_outage_s = map_option (\<lambda>t. max 0 (fl (now - t))) since,
          uv_offline_s_24h = fold (\<lambda>offset acc. fl (acc + snd (bucket (hour_of now - 23 + int offset) hourly))) [0..<24] 0\<rparr>)"

subsection \<open>The record and the view\<close>

lemma load_after_save: "load_uptime (up_file (save_uptime now u)) = save_uptime now u"
  by (simp add: load_uptime_def save_uptime_def Let_def)

lemma bucket_prune: "h \<ge> hour_of now - 48 \<Longrightarrow> bucket h (prune_hours now hs) = bucket h hs"
proof -
  assume h: "h \<ge> hour_of now - 48"
  have "map_of (filter (\<lambda>(h, _). h \<ge> hour_of now - 48) hs) h = map_of hs h"
    using h by (induction hs) auto
  then show ?thesis by (simp add: bucket_def prune_hours_def)
qed

lemma close_hourly [simp]: "up_hourly (close_outage ts u) = up_hourly u"
  by (simp add: close_outage_def Let_def split: option.split)

lemma note_hourly: "up_hourly (note_probe (ok, now) u) = projected_hourly now u"
  by (auto simp: note_probe_def projected_hourly_def add_duration_def Let_def split: option.split)

text \<open>
  What the panel shows for an hour is what the next probe will record: the recorded hours are
  those of the live projection at the same time, less the hours that are pruned; and a restart of
  the miner between two probes changes nothing, since the file holds the whole state.
\<close>

theorem view_agrees_with_record:
  "up_hourly (record_probe (ok, now) u) = prune_hours now (projected_hourly now u)
   \<and> record_probe p (load_uptime (up_file (record_probe q u))) = record_probe p (record_probe q u)"
  by (simp add: record_probe_def load_after_save) (simp add: save_uptime_def Let_def note_hourly)

subsection \<open>Every second is counted once\<close>

text \<open>The seconds that an interval and an hour have in common, and what they are for a list of probes.\<close>

definition overlap :: "int \<Rightarrow> int \<Rightarrow> int \<Rightarrow> int" where
  "overlap a b h = max 0 (min b (3600 * (h + 1)) - max a (3600 * h))"

fun time_in :: "bool \<Rightarrow> int \<Rightarrow> (bool \<times> int) list \<Rightarrow> int" where
  "time_in st h (p # q # ps) = (if fst p = st then overlap (snd p) (snd q) h else 0) + time_in st h (q # ps)"
| "time_in st h ps = 0"

definition probe_run :: "(bool \<times> int) list \<Rightarrow> uptime \<Rightarrow> uptime" where
  "probe_run ps u = fold (\<lambda>p. record_probe (fst p, of_int (snd p))) ps u"

lemma hour_div: "3600 * (a div 3600) \<le> a" "a < 3600 * (a div 3600 + 1)" for a :: int
  by presburger+

lemma overlap_step:
  assumes "a < b" "c = min b (3600 * (a div 3600 + 1))"
  shows "overlap a b h = (if h = a div 3600 then c - a else 0) + overlap c b h"
proof -
  define q where "q = a div 3600"
  have a: "3600 * q \<le> a" "a < 3600 * (q + 1)" unfolding q_def by (rule hour_div)+
  have c: "c = min b (3600 * (q + 1))" using assms(2) by (simp add: q_def)
  consider "h < q" | "h = q" | "q < h" by linarith
  then show ?thesis
  proof cases
    case 1
    then have "3600 * (h + 1) \<le> 3600 * q" by simp
    with 1 show ?thesis using a c assms(1) by (simp add: overlap_def q_def [symmetric])
  next
    case 2
    show ?thesis using a c assms(1) unfolding 2 by (simp add: overlap_def q_def [symmetric])
  next
    case 3
    then have "3600 * (q + 1) \<le> 3600 * h" by simp
    with 3 show ?thesis using a c assms(1) by (simp add: overlap_def q_def [symmetric])
  qed
qed

lemma overlap_add: "a \<le> b \<Longrightarrow> b \<le> c \<Longrightarrow> overlap a b h + overlap b c h = overlap a c h"
  by (auto simp: overlap_def max_def min_def)

lemma overlap_bounds: "0 \<le> overlap a b h" "overlap a b h \<le> 3600"
  by (simp_all add: overlap_def)

lemma overlap_empty [simp]: "b \<le> a \<Longrightarrow> overlap a b h = 0"
  by (simp add: overlap_def)

lemma time_in_snoc: "time_in st h ((qs @ [p]) @ [q]) = time_in st h (qs @ [p]) + (if fst p = st then overlap (snd p) (snd q) h else 0)"
  by (induction qs rule: induct_list012) auto

lemma time_in_total:
  "sorted (map snd ps) \<Longrightarrow> ps \<noteq> [] \<Longrightarrow> time_in True h ps + time_in False h ps = overlap (snd (hd ps)) (snd (last ps)) h"
proof (induction ps rule: induct_list012)
  case (3 p q ps)
  have "snd q \<le> snd (last (q # ps))" using 3(3) by (cases ps rule: rev_cases) auto
  then have "overlap (snd p) (snd q) h + overlap (snd q) (snd (last (q # ps))) h = overlap (snd p) (snd (last (q # ps))) h"
    using 3(3) by (intro overlap_add) auto
  then show ?case using 3 by auto
qed simp_all

lemma time_in_nonneg: "0 \<le> time_in st h ps"
  by (induction st h ps rule: time_in.induct) (simp_all add: overlap_bounds)

lemma time_in_le: "sorted (map snd ps) \<Longrightarrow> time_in st h ps \<le> 3600"
proof (cases "ps = []")
  case False
  assume "sorted (map snd ps)"
  from time_in_total [OF this False, of h] show ?thesis
    using overlap_bounds [of "snd (hd ps)" "snd (last ps)" h] time_in_nonneg [of True h ps] time_in_nonneg [of False h ps]
    by (cases st) simp_all
qed simp

definition field_of :: "bool \<Rightarrow> pyfloat \<times> pyfloat \<Rightarrow> pyfloat" where
  "field_of online b = (if online then fst b else snd b)"

lemma bucket_add_to: "bucket h (add_to h' online d hs) = (if h = h' then (case bucket h hs of (on, off) \<Rightarrow>
    if online then (fl (on + d), off) else (on, fl (off + d))) else bucket h hs)"
  by (simp add: bucket_def add_to_def update_conv')

lemma hour_of_int: "hour_of (of_int a) = a div 3600"
  using floor_divide_of_int_eq [of a 3600, where 'a = rat] by (simp add: hour_of_def)

lemma add_hours_exact:
  assumes "field_of online (bucket h hs) = of_int n" "0 \<le> n" "n + overlap a b h \<le> 2 ^ 53"
  shows "field_of online (bucket h (add_hours online (of_int a) (of_int b) hs)) = of_int (n + overlap a b h)
    \<and> field_of (\<not> online) (bucket h (add_hours online (of_int a) (of_int b) hs)) = field_of (\<not> online) (bucket h hs)"
  using assms
proof (induction "nat (b - a)" arbitrary: a hs n rule: less_induct)
  case less
  show ?case
  proof (cases "a < b")
    case False
    then show ?thesis using less.prems by (subst (1 2) add_hours.simps) simp
  next
    case True
    define c where "c = min b (3600 * (a div 3600 + 1))"
    have "c \<le> 3600 * (a div 3600 + 1)" unfolding c_def by (rule min.cobounded2)
    then have ac: "a < c" "c \<le> b" "c - a \<le> 3600" using True hour_div [of a] by (simp_all add: c_def)
    have mc: "min (of_int b) (next_hour (of_int a)) = (of_int c :: pyfloat)"
      unfolding c_def next_hour_def hour_of_int by (simp add: min_def)
    define n' where "n' = n + (if h = a div 3600 then c - a else 0)"
    note ov = overlap_step [OF True c_def, of h]
    have n': "0 \<le> n'" "n' + overlap c b h \<le> 2 ^ 53" using less.prems(2,3) ac ov by (auto simp: n'_def)
    have d: "fl (of_int c - of_int a) = (of_int (c - a) :: pyfloat)"
      using fl_of_int [of "c - a"] ac by simp
    let ?hs = "add_to (a div 3600) online (of_int (c - a)) hs"
    have f: "field_of online (bucket h ?hs) = of_int n'"
    proof (cases "h = a div 3600")
      case True
      then have "n' \<le> 2 ^ 53" using n' overlap_bounds(1) [of c b h] by linarith
      then have "fl (of_int n + of_int (c - a)) = (of_int n' :: pyfloat)"
        using fl_of_int [of n'] n' True by (simp add: n'_def)
      then show ?thesis using less.prems(1) True by (auto simp: field_of_def bucket_add_to split: prod.splits if_splits)
    next
      case False
      then show ?thesis using less.prems(1) by (simp add: n'_def bucket_add_to)
    qed
    have g: "field_of (\<not> online) (bucket h ?hs) = field_of (\<not> online) (bucket h hs)"
      by (auto simp: field_of_def bucket_add_to split: prod.splits)
    have s: "add_hours online (of_int a) (of_int b) hs = add_hours online (of_int c) (of_int b) ?hs"
      using True by (subst add_hours.simps) (simp add: mc d hour_of_int Let_def)
    have "nat (b - c) < nat (b - a)" using ac True by simp
    from less.hyps [OF this f n'] show ?thesis unfolding s g using ov by (simp add: n'_def)
  qed
qed

lemma exact_duration:
  assumes "bucket h hs = (of_int (x True), of_int (x False))" "0 \<le> x online" "x online + overlap a b h \<le> 2 ^ 53"
  shows "bucket h (add_duration (of_int a) (of_int b) online hs)
    = (of_int (x True + (if online then overlap a b h else 0)), of_int (x False + (if online then 0 else overlap a b h)))"
proof (cases "b \<le> a")
  case True
  then show ?thesis using assms(1) by (simp add: add_duration_def)
next
  case False
  have "field_of online (bucket h hs) = of_int (x online)" using assms(1) by (simp add: field_of_def)
  from add_hours_exact [OF this assms(2,3)] show ?thesis using False assms(1)
    by (cases online) (auto simp: add_duration_def field_of_def prod_eq_iff)
qed

lemma last_of_run:
  "ps \<noteq> [] \<Longrightarrow> up_last_ok (probe_run ps u) = Some (fst (last ps)) \<and> up_last_probe_at (probe_run ps u) = Some (of_int (snd (last ps)))"
  by (cases ps rule: rev_cases)
    (auto simp: probe_run_def record_probe_def save_uptime_def note_probe_def Let_def split: option.split)

lemma run_counts:
  assumes "sorted (map snd ps)" "ps \<noteq> []" "h \<ge> snd (last ps) div 3600 - 48"
  shows "bucket h (up_hourly (probe_run ps (load_uptime NoUptimeFile))) = (of_int (time_in True h ps), of_int (time_in False h ps))"
  using assms
proof (induction ps rule: rev_induct)
  case (snoc q qs)
  let ?u = "probe_run qs (load_uptime NoUptimeFile)"
  have run: "probe_run (qs @ [q]) (load_uptime NoUptimeFile) = record_probe (fst q, of_int (snd q)) ?u" by (simp add: probe_run_def)
  have keep: "bucket h (up_hourly (record_probe (fst q, of_int (snd q)) ?u)) = bucket h (projected_hourly (of_int (snd q)) ?u)"
    using snoc.prems(3) by (simp add: record_probe_def save_uptime_def Let_def bucket_prune note_hourly hour_of_int)
  show ?case
  proof (cases "qs = []")
    case True
    then show ?thesis unfolding run keep
      by (simp add: probe_run_def projected_hourly_def load_uptime_def bucket_def)
  next
    case False
    define p where "p = last qs"
    have q: "qs = butlast qs @ [p]" using False by (simp add: p_def)
    have s: "sorted (map snd qs)" "snd p \<le> snd q" using snoc.prems(1) False by (simp_all add: sorted_append p_def)
    have "snd p div 3600 \<le> snd q div 3600" using s(2) by (rule zdiv_mono1) simp
    with snoc.prems(3) have h: "h \<ge> snd (last qs) div 3600 - 48" by (simp add: p_def)
    note ih = snoc.IH [OF s(1) False h]
    have b: "0 \<le> time_in (fst p) h qs" "time_in (fst p) h qs + overlap (snd p) (snd q) h \<le> 2 ^ 53"
      using time_in_nonneg [of "fst p" h qs] time_in_le [OF s(1), of "fst p" h] overlap_bounds(2) [of "snd p" "snd q" h] by simp_all
    have l: "up_last_ok ?u = Some (fst p)" "up_last_probe_at ?u = Some (of_int (snd p))"
      using last_of_run [OF False] by (simp_all add: p_def)
    then have "projected_hourly (of_int (snd q)) ?u = add_duration (of_int (snd p)) (of_int (snd q)) (fst p) (up_hourly ?u)"
      by (simp add: projected_hourly_def add_duration_def)
    moreover have "time_in st h (qs @ [q]) = time_in st h qs + (if fst p = st then overlap (snd p) (snd q) h else 0)" for st
      by (subst (1 2) q) (rule time_in_snoc)
    ultimately show ?thesis using exact_duration [OF ih b] unfolding run keep by (auto split: if_splits)
  qed
qed simp

text \<open>
  C32: every second is counted once.  When no file was saved before, and the probes come at
  whole seconds in order of time, the buckets of each hour from 48 hours before the last probe on
  hold the seconds that followed a good, and a failed, probe, as the probes alone determine them,
  and the two together are the seconds of the hour between the first and the last probe.
\<close>

theorem seconds_counted_once:
  assumes "sorted (map snd ps)" "ps \<noteq> []" "h \<ge> snd (last ps) div 3600 - 48"
  shows "bucket h (up_hourly (probe_run ps (load_uptime NoUptimeFile))) = (of_int (time_in True h ps), of_int (time_in False h ps))
    \<and> time_in True h ps + time_in False h ps = overlap (snd (hd ps)) (snd (last ps)) h"
  using run_counts [OF assms] time_in_total [OF assms(1,2)] by blast

theorem seconds_counted_once_witness:
  "bucket 1 (up_hourly (probe_run [(True, 3000), (False, 4000), (True, 4100)] (load_uptime NoUptimeFile))) = (400, 100)"
  using seconds_counted_once [of "[(True, 3000), (False, 4000), (True, 4100)]" 1] by (simp add: overlap_def)

subsection \<open>Outages are the runs of failed probes\<close>

definition outage_of :: "pyfloat \<Rightarrow> pyfloat \<Rightarrow> outage" where
  "outage_of s e = \<lparr>og_start = s, og_end = e, og_duration = fl (e - s), og_during_xuni = outage_overlaps_xuni s e\<rparr>"

text \<open>The reference: from the first failed probe to the next good one.\<close>

function all_outages :: "(bool \<times> pyfloat) list \<Rightarrow> outage list" where
  "all_outages [] = []"
| "all_outages ((True, t) # ps) = all_outages ps"
| "all_outages ((False, s) # ps) =
     (case dropWhile (\<lambda>p. \<not> fst p) ps of
        [] \<Rightarrow> []
      | p # rest \<Rightarrow> (if s < snd p then [outage_of s (snd p)] else []) @ all_outages rest)"
  by pat_completeness auto
termination
proof (relation "measure length")
  fix s :: pyfloat and ps :: "(bool \<times> pyfloat) list" and p rest
  assume "dropWhile (\<lambda>p. \<not> fst p) ps = p # rest"
  then have "length (p # rest) \<le> length ps" by (metis length_dropWhile_le)
  then show "(rest, (False, s) # ps) \<in> measure length" by simp
qed simp_all

definition open_since :: "(bool \<times> pyfloat) list \<Rightarrow> pyfloat option" where
  "open_since ps = (case takeWhile (\<lambda>p. \<not> fst p) (rev ps) of [] \<Rightarrow> None | x # xs \<Rightarrow> Some (snd (last (x # xs))))"

lemma open_since_snoc: "open_since (ps @ [(ok, t)]) = (if ok then None else case open_since ps of None \<Rightarrow> Some t | Some s \<Rightarrow> Some s)"
  by (simp add: open_since_def split: list.split)

lemma open_since_good: "fst p \<Longrightarrow> open_since (xs @ p # rest) = open_since rest"
proof -
  assume "fst p"
  then have "takeWhile (\<lambda>p. \<not> fst p) (rev rest @ p # rev xs) = takeWhile (\<lambda>p. \<not> fst p) (rev rest)"
    by (intro takeWhile_tail) simp
  then show ?thesis by (simp add: open_since_def)
qed

lemma open_since_failed: "list_all (\<lambda>p. \<not> fst p) ps \<Longrightarrow> open_since ((False, s) # ps) = Some s"
proof -
  assume "list_all (\<lambda>p. \<not> fst p) ps"
  then have "takeWhile (\<lambda>p. \<not> fst p) (rev ps @ [(False, s)]) = rev ps @ [(False, s)]"
    by (intro takeWhile_eq_all_conv [THEN iffD2]) (auto simp: list_all_iff)
  moreover obtain x xs where "rev ps @ [(False, s)] = x # xs" by (cases "rev ps @ [(False, s)]") auto
  moreover from this have "last (x # xs) = (False, s)" by (metis last_snoc)
  ultimately show ?thesis by (simp add: open_since_def)
qed

lemma all_outages_snoc:
  "all_outages (ps @ [(ok, t)]) = all_outages ps
     @ (if ok then (case open_since ps of None \<Rightarrow> [] | Some s \<Rightarrow> if s < t then [outage_of s t] else []) else [])"
proof (induction ps rule: all_outages.induct)
  case 1
  show ?case by (cases ok) (simp_all add: open_since_def)
next
  case (2 t' ps)
  then show ?case using open_since_good [of "(True, t')" "[]" ps] by simp
next
  case (3 s ps)
  show ?case
  proof (cases "dropWhile (\<lambda>p. \<not> fst p) ps")
    case Nil
    then have l: "list_all (\<lambda>p. \<not> fst p) ps" by (auto simp: list_all_iff dropWhile_eq_Nil_conv)
    then have "dropWhile (\<lambda>p. \<not> fst p) (ps @ [(ok, t)]) = (if ok then [(ok, t)] else [])"
      by (subst dropWhile_append2) (auto simp: list_all_iff)
    then have "all_outages (((False, s) # ps) @ [(ok, t)]) = (if ok \<and> s < t then [outage_of s t] else [])"
      unfolding append_Cons all_outages.simps by simp
    moreover have "all_outages ((False, s) # ps) = []" unfolding all_outages.simps Nil by simp
    ultimately show ?thesis using open_since_failed [OF l, of s] by simp
  next
    case (Cons p rest)
    then have g: "fst p" by (metis hd_dropWhile list.distinct(1) list.sel(1))
    have ps: "ps = takeWhile (\<lambda>p. \<not> fst p) ps @ p # rest" using Cons takeWhile_dropWhile_id [of "\<lambda>p. \<not> fst p" ps] by simp
    have "p \<in> set ps" by (subst ps) simp
    then have "dropWhile (\<lambda>p. \<not> fst p) (ps @ [(ok, t)]) = dropWhile (\<lambda>p. \<not> fst p) ps @ [(ok, t)]"
      using g by (intro dropWhile_append1 [where x = p]) simp_all
    then have "dropWhile (\<lambda>p. \<not> fst p) (ps @ [(ok, t)]) = p # rest @ [(ok, t)]" using Cons by simp
    moreover have "open_since ((False, s) # ps) = open_since rest"
      using open_since_good [OF g, of "(False, s) # takeWhile (\<lambda>p. \<not> fst p) ps" rest] ps by simp
    ultimately show ?thesis using 3 [OF Cons] Cons by simp
  qed
qed

lemma outage_of_end [simp]: "og_end (outage_of s e) = e"
  by (simp add: outage_of_def)

lemma outages_end_snoc: "og_end ` set (all_outages (ps @ [(ok, t)])) \<subseteq> insert t (og_end ` set (all_outages ps))"
  by (cases ok; cases "open_since ps") (auto simp: all_outages_snoc)

lemma outages_end: "og_end ` set (all_outages ps) \<subseteq> snd ` set ps"
proof (induction ps rule: rev_induct)
  case (snoc p ps)
  have "og_end ` set (all_outages (ps @ [p])) \<subseteq> insert (snd p) (og_end ` set (all_outages ps))"
    using outages_end_snoc [of ps "fst p" "snd p"] by simp
  also have "\<dots> \<subseteq> insert (snd p) (snd ` set ps)" using snoc.IH by (rule insert_mono)
  finally show ?case by simp
qed simp

lemma outages_sorted: "sorted (map og_end (all_outages ps))" if "sorted (map snd ps)"
  using that
proof (induction ps rule: rev_induct)
  case (snoc p ps)
  obtain ok t where p: "p = (ok, t)" by (cases p) auto
  have s: "sorted (map snd ps)" "snd ` set ps \<subseteq> {..snd p}" using snoc.prems by (auto simp: sorted_append)
  have "\<forall>e \<in> set (map og_end (all_outages ps)). e \<le> snd p" using outages_end [of ps] s(2) unfolding set_map by blast
  then show ?case using snoc.IH [OF s(1)] unfolding p
    by (cases ok; cases "open_since ps") (simp_all add: all_outages_snoc sorted_append)
qed simp

lemma last_n_append: "n \<le> length ys \<Longrightarrow> last_n n (xs @ ys) = last_n n ys"
  by (simp add: last_n_def)

lemma last_n_filter:
  assumes "sorted (map f xs)" "\<And>x y. P x \<Longrightarrow> f x \<le> f y \<Longrightarrow> P y"
  shows "last_n n (filter P (last_n n xs @ ys)) = last_n n (filter P (xs @ ys))"
proof -
  define D L where "D = take (length xs - n) xs" and "L = last_n n xs"
  have xs: "xs = D @ L" by (simp add: D_def L_def last_n_def)
  show ?thesis
  proof (cases "D = [] \<or> \<not> list_all P L")
    case True
    then have "filter P D = []"
    proof
      assume "\<not> list_all P L"
      then obtain y where "y \<in> set L" "\<not> P y" by (auto simp: list_all_iff)
      moreover have "\<forall>x \<in> set D. f x \<le> f y" using assms(1) \<open>y \<in> set L\<close> unfolding xs by (auto simp: sorted_append)
      ultimately show ?thesis using assms(2) by (auto simp: filter_empty_conv)
    qed simp
    then show ?thesis unfolding L_def [symmetric] unfolding xs by simp
  next
    case False
    then have "filter P L = L" by (auto simp: list_all_iff filter_id_conv)
    moreover have "n \<le> length L" using False by (auto simp: D_def L_def last_n_def)
    ultimately show ?thesis unfolding L_def [symmetric] unfolding xs
      using last_n_append [of n "L @ filter P ys" "filter P D"] by simp
  qed
qed

lemma prune_again:
  assumes "sorted (map og_end os)" "t \<le> t'"
  shows "prune_outages t' (prune_outages t os @ extra) = prune_outages t' (os @ extra)"
proof -
  have c: "outage_cutoff t \<le> outage_cutoff t'" unfolding outage_cutoff_def by (rule fl_mono) (use assms(2) in simp)
  have "sorted (map og_end (filter (\<lambda>og. og_end og \<ge> outage_cutoff t) os))" using assms(1) by (rule sorted_filter)
  from last_n_filter [OF this, of "\<lambda>og. og_end og \<ge> outage_cutoff t'" 200 extra] show ?thesis
    using c by (auto simp: prune_outages_def intro!: arg_cong [where f = "last_n 200"] filter_cong)
qed

lemma close_is_outage:
  "up_outage_start u = Some s \<Longrightarrow> up_outages (close_outage t u) = up_outages u @ (if s < t then [outage_of s t] else [])
    \<and> up_outage_start (close_outage t u) = None"
proof -
  assume u: "up_outage_start u = Some s"
  have "0 < max 0 (fl (t - s)) \<longleftrightarrow> s < t"
  proof
    assume "0 < max 0 (fl (t - s))"
    then show "s < t" using fl_mono [of "t - s" 0] by (cases "s < t") simp_all
  next
    assume "s < t"
    then show "0 < max 0 (fl (t - s))" using fl_pos [of "t - s"] by simp
  qed
  moreover have "s < t \<Longrightarrow> max 0 (fl (t - s)) = fl (t - s)" using fl_pos [of "t - s"] by simp
  ultimately show ?thesis using u by (simp add: close_outage_def Let_def outage_of_def)
qed

lemma close_other [simp]:
  "up_outages (close_outage t (u\<lparr>up_hourly := hs\<rparr>)) = up_outages (close_outage t u)"
  "up_outage_start (close_outage t (u\<lparr>up_hourly := hs\<rparr>)) = up_outage_start (close_outage t u)"
  by (simp_all add: close_outage_def Let_def split: option.split)

lemma note_up:
  "up_last_ok u \<noteq> Some False \<Longrightarrow> up_outages (note_probe (ok, t) u) = up_outages u
     \<and> up_outage_start (note_probe (ok, t) u) = (if ok then up_outage_start u else Some t)"
  "up_last_ok u = Some False \<Longrightarrow> up_outages (note_probe (ok, t) u) = up_outages (if ok then close_outage t u else u)
     \<and> up_outage_start (note_probe (ok, t) u) = up_outage_start (if ok then close_outage t u else u)"
  by (cases "up_last_ok u"; cases "up_last_probe_at u"; simp add: note_probe_def Let_def)+

lemma note_outages:
  assumes "up_outage_start u = open_since qs" "up_last_ok u = (if qs = [] then None else Some (fst (last qs)))"
  shows "up_outages (note_probe (ok, t) u) = up_outages u
      @ (if ok then (case open_since qs of None \<Rightarrow> [] | Some s \<Rightarrow> if s < t then [outage_of s t] else []) else [])
    \<and> up_outage_start (note_probe (ok, t) u) = open_since (qs @ [(ok, t)])"
proof (cases "open_since qs")
  case None
  then have "qs = [] \<or> fst (last qs)" by (cases qs rule: rev_cases) (auto simp: open_since_def split: list.splits if_splits)
  then have "up_last_ok u \<noteq> Some False" using assms(2) by auto
  from note_up(1) [OF this] show ?thesis using None assms(1) by (simp add: open_since_snoc)
next
  case (Some s)
  then have "qs \<noteq> [] \<and> \<not> fst (last qs)" by (cases qs rule: rev_cases) (auto simp: open_since_def split: list.splits if_splits)
  then have "up_last_ok u = Some False" using assms(2) by auto
  from note_up(2) [OF this] show ?thesis using Some assms(1) close_is_outage [of u s t] by (simp add: open_since_snoc)
qed

lemma run_outages:
  assumes "sorted (map snd ps)" "ps \<noteq> []"
  shows "up_outages (fold record_probe ps (load_uptime NoUptimeFile)) = prune_outages (snd (last ps)) (all_outages ps)
    \<and> up_outage_start (fold record_probe ps (load_uptime NoUptimeFile)) = open_since ps
    \<and> up_last_ok (fold record_probe ps (load_uptime NoUptimeFile)) = Some (fst (last ps))"
  using assms
proof (induction ps rule: rev_induct)
  case (snoc p qs)
  obtain ok t where p: "p = (ok, t)" by (cases p) auto
  let ?u = "fold record_probe qs (load_uptime NoUptimeFile)"
  have s: "sorted (map snd qs)" "qs \<noteq> [] \<Longrightarrow> snd (last qs) \<le> t" using snoc.prems by (auto simp: sorted_append p)
  have st: "up_outage_start ?u = open_since qs" "up_last_ok ?u = (if qs = [] then None else Some (fst (last qs)))"
    using snoc.IH [OF s(1)] by (cases "qs = []"; simp add: load_uptime_def open_since_def)+
  note n = note_outages [OF this, of ok t]
  have "up_outages (record_probe (ok, t) ?u) = prune_outages t (all_outages (qs @ [(ok, t)]))"
  proof (cases "qs = []")
    case True
    then show ?thesis using n by (simp add: record_probe_def save_uptime_def Let_def load_uptime_def open_since_def all_outages_snoc [of "[]", simplified])
  next
    case False
    then show ?thesis using n snoc.IH [OF s(1)] prune_again [OF outages_sorted [OF s(1)] s(2)]
      by (simp add: record_probe_def save_uptime_def Let_def all_outages_snoc)
  qed
  moreover have "up_last_ok (record_probe (ok, t) ?u) = Some ok" "up_outage_start (record_probe (ok, t) ?u) = open_since (qs @ [(ok, t)])"
    using n by (simp_all add: record_probe_def save_uptime_def Let_def note_probe_def)
  ultimately show ?case by (simp add: p)
qed simp

text \<open>
  C33: the recorded outages are the runs of failed probes.  For probes in order of time, the file
  holds exactly the outages of the reference, each from the first failed probe to the next good
  one, as far as they ended in the last 14 days, and of those the 200 newest; pruning at every
  probe loses nothing that pruning once at the end would keep.
\<close>

theorem outages_are_failed_runs:
  assumes "sorted (map snd ps)" "ps \<noteq> []"
  shows "up_outages (fold record_probe ps (load_uptime NoUptimeFile)) = prune_outages (snd (last ps)) (all_outages ps)"
  using run_outages [OF assms] by blast

theorem outages_are_failed_runs_witness:
  "map (\<lambda>og. (og_start og, og_end og)) (up_outages (fold record_probe [(True, 0), (False, 30), (False, 60), (True, 90)]
     (load_uptime NoUptimeFile))) = [(30, 90)]"
proof -
  have "prune_outages 90 (all_outages [(True, 0), (False, 30), (False, 60), (True, 90)]) = [outage_of 30 90]"
    by (simp add: prune_outages_def last_n_def outage_cutoff_def) (use fl_mono [of "90 - 14 * 86400" 0] in simp)
  then show ?thesis using outages_are_failed_runs [of "[(True, 0), (False, 30), (False, 60), (True, 90)]"]
    by (simp add: outage_of_def)
qed

end
