(* ===== verification/WalletBalances.thy ===== *)
theory WalletBalances
  imports HashApi Difficulty LocalStats
begin

text \<open>
  The balances of the wallet on the chain (\<open>monitoring/wallet_balances.py\<close>): three tokens, each read
  from the first of several servers that answers, with the last known value where none does; the
  threads that refresh them; the snapshot per mining day, and the changes against it.  A server's
  answer is an argument: no answer or an error, a text, or a result of another type.  The requests
  themselves, their timeouts and the labels of the view are left out; a date is its ordinal number.
\<close>

subsection \<open>Reading one balance\<close>

definition default_rpc_urls :: "string list" where
  "default_rpc_urls = [''https://xenblocks.io:5556'', ''https://xenblocks.io:5555'']"

definition normalize_rpc_urls :: "string option \<Rightarrow> string list \<Rightarrow> string list" where
  "normalize_rpc_urls rpc_url rpc_urls =
     (let urls = filter (\<lambda>u. u \<noteq> []) (map py_strip rpc_urls);
          urls1 = (case rpc_url of None \<Rightarrow> urls | Some u \<Rightarrow> if py_strip u = [] then urls else py_strip u # urls);
          out = unique {} (if urls1 = [] then default_rpc_urls else urls1)
      in out @ filter (\<lambda>u. u \<notin> set out) default_rpc_urls)"

datatype rpc_reply = NoReply | TextResult string | OtherResult

text \<open>\<open>int(s, 16)\<close>; the digits after their optional sign and \<open>0x\<close>.\<close>

definition hex_body :: "string \<Rightarrow> string" where
  "hex_body s = (if py_startswith (py_lower s) ''0x'' then drop 2 s else s)"

definition hex_number :: "string \<Rightarrow> int option" where
  "hex_number s =
     (let t = py_strip s;
          n = foldl (\<lambda>acc c. 16 * acc + int (hex_value c)) 0 (filter (\<lambda>c. c \<noteq> CHR ''_'') (hex_body (drop_sign t)))
      in if int16_ok s then Some (if take 1 t = ''-'' then - n else n) else None)"

fun rpc_call_any :: "(string \<Rightarrow> rpc_reply) \<Rightarrow> string list \<Rightarrow> rpc_reply" where
  "rpc_call_any rpc [] = NoReply"
| "rpc_call_any rpc (u # us) = (case rpc u of NoReply \<Rightarrow> rpc_call_any rpc us | r \<Rightarrow> r)"

text \<open>A balance, an error that is caught, or one that is not (\<open>int\<close> of a result that is no text).\<close>

datatype token_fetch = TokenValue pyfloat | TokenError | TokenRaises

definition read_balance :: "rpc_reply \<Rightarrow> token_fetch" where
  "read_balance r = (case r of
       NoReply \<Rightarrow> TokenError
     | TextResult s \<Rightarrow> (case hex_number s of None \<Rightarrow> TokenError | Some n \<Rightarrow> TokenValue (fdivi n (10 ^ 18)))
     | OtherResult \<Rightarrow> TokenRaises)"

datatype token_note = Fresh | FromCache | Failed

definition fetch_token :: "token_fetch \<Rightarrow> pyfloat option \<Rightarrow> (pyfloat \<times> token_note) option" where
  "fetch_token f fallback = (case f of
       TokenValue x \<Rightarrow> Some (x, Fresh)
     | TokenError \<Rightarrow> Some (case fallback of Some x \<Rightarrow> (x, FromCache) | None \<Rightarrow> (0, Failed))
     | TokenRaises \<Rightarrow> None)"

type_synonym balances = "block_kind \<Rightarrow> pyfloat"

datatype fetch_result =
    Balances balances "block_kind list" "block_kind list"
  | NoBalances
  | FetchRaises

definition token_order :: "block_kind list" where
  "token_order = [XNM, XUNI, XBLK]"

text \<open>\<open>rpc k\<close> are the servers' answers to the question for token \<open>k\<close>.  A result names the tokens whose
  value is an old one, and those whose value is 0 because there is no old one.\<close>

definition fetch_wallet_balances :: "(block_kind \<Rightarrow> string \<Rightarrow> rpc_reply) \<Rightarrow> string list \<Rightarrow> balances option \<Rightarrow> fetch_result" where
  "fetch_wallet_balances rpc urls fallback =
     (let fetched = (\<lambda>k. fetch_token (read_balance (rpc_call_any (rpc k) urls)) (map_option (\<lambda>b. b k) fallback)) in
      if list_ex (\<lambda>k. fetched k = None) token_order then FetchRaises
      else
        (let value = (\<lambda>k. fst (the (fetched k)));
             note_of = (\<lambda>k. snd (the (fetched k)));
             cached = filter (\<lambda>k. note_of k = FromCache) token_order;
             failed = filter (\<lambda>k. note_of k = Failed) token_order in
         if length failed \<ge> 3 \<and> cached = [] \<and> fallback = None then NoBalances
         else Balances value cached failed))"

subsection \<open>The tracker\<close>

datatype wallet_status = Waiting | Cached | Fetching | RpcError | Stale | StatusOk | Partial "block_kind list" "block_kind list"

record wallet_tracker =
  wt_current :: "balances option"
  wt_updated_at :: "pyfloat option"
  wt_last_attempt_at :: "pyfloat option"
  wt_refreshing :: bool
  wt_worker :: bool
  wt_status :: wallet_status
  wt_daily_date :: "int option"
  wt_history :: "(int \<times> balances) list"
  wt_file :: "(int \<times> balances) list"

definition latest_snapshot :: "(int \<times> balances) list \<Rightarrow> balances option" where
  "latest_snapshot history = (if history = [] then None else map_of history (Max (fst ` set history)))"

text \<open>\<open>saved\<close> are the snapshots of the file, none when it is missing or cannot be read.\<close>

definition init_tracker_of :: "(int \<times> balances) list \<Rightarrow> local_time \<Rightarrow> wallet_tracker" where
  "init_tracker_of saved now =
     (let snap = (case map_of saved (mining_day now) of Some b \<Rightarrow> Some b | None \<Rightarrow> latest_snapshot saved)
      in \<lparr>wt_current = snap, wt_updated_at = None, wt_last_attempt_at = None, wt_refreshing = False, wt_worker = False,
          wt_status = (if snap = None then Waiting else Cached), wt_daily_date = None, wt_history = saved, wt_file = saved\<rparr>)"

definition refresh_due :: "pyfloat \<Rightarrow> pyfloat \<Rightarrow> wallet_tracker \<Rightarrow> bool" where
  "refresh_due interval now t \<longleftrightarrow> (case wt_updated_at t of
       None \<Rightarrow> (case wt_last_attempt_at t of None \<Rightarrow> True | Some a \<Rightarrow> fl (now - a) \<ge> interval)
     | Some u \<Rightarrow> fl (now - u) \<ge> interval)"

text \<open>\<open>wt_worker\<close> says that the thread runs; it is started here.\<close>

definition maybe_refresh :: "pyfloat \<Rightarrow> bool \<Rightarrow> pyfloat \<Rightarrow> wallet_tracker \<Rightarrow> wallet_tracker" where
  "maybe_refresh interval force now t =
     (if \<not> (force \<or> refresh_due interval now t) \<or> wt_refreshing t then t
      else t\<lparr>wt_refreshing := True, wt_last_attempt_at := Some now, wt_worker := True,
             wt_status := (if wt_current t = None \<and> wt_status t \<in> {Waiting, RpcError} then Fetching else wt_status t)\<rparr>)"

definition refresh_on_launch :: "pyfloat \<Rightarrow> pyfloat \<Rightarrow> local_time \<Rightarrow> wallet_tracker \<Rightarrow> wallet_tracker" where
  "refresh_on_launch interval now local_now t =
     (let t1 = maybe_refresh interval True now t
      in if lt_hour local_now \<ge> 1 then t1\<lparr>wt_daily_date := Some (mining_day local_now)\<rparr> else t1)"

definition maybe_daily_refresh :: "pyfloat \<Rightarrow> pyfloat \<Rightarrow> local_time \<Rightarrow> wallet_tracker \<Rightarrow> wallet_tracker" where
  "maybe_daily_refresh interval now local_now t =
     (if lt_hour local_now < 1 \<or> wt_daily_date t = Some (mining_day local_now) then t
      else maybe_refresh interval True now (t\<lparr>wt_daily_date := Some (mining_day local_now)\<rparr>))"

definition record_snapshot :: "balances \<Rightarrow> local_time \<Rightarrow> wallet_tracker \<Rightarrow> wallet_tracker" where
  "record_snapshot b local_now t =
     (let history = AList.update (mining_day local_now) b (wt_history t) in t\<lparr>wt_history := history, wt_file := history\<rparr>)"

text \<open>The thread, from its start to its end; an error that is not caught ends it where it is.\<close>

definition worker_ends :: "(block_kind \<Rightarrow> string \<Rightarrow> rpc_reply) \<Rightarrow> string list \<Rightarrow> pyfloat \<Rightarrow> local_time \<Rightarrow> wallet_tracker \<Rightarrow> wallet_tracker" where
  "worker_ends rpc urls now local_now t =
     (if \<not> wt_worker t then t
      else (case fetch_wallet_balances rpc urls (wt_current t) of
          NoBalances \<Rightarrow> t\<lparr>wt_status := (if wt_current t = None then RpcError else Stale), wt_refreshing := False, wt_worker := False\<rparr>
        | FetchRaises \<Rightarrow> t\<lparr>wt_worker := False\<rparr>
        | Balances b hard soft \<Rightarrow>
            (let t1 = t\<lparr>wt_current := Some b, wt_updated_at := Some now, wt_refreshing := False, wt_worker := False,
                 wt_status := (if hard = [] \<and> soft = [] then StatusOk else Partial hard soft)\<rparr>
             in if hard = [] \<and> soft = [] then record_snapshot b local_now t1 else t1)))"

datatype wallet_event =
    Launch pyfloat local_time
  | UiRefresh pyfloat local_time
  | WorkerEnds "block_kind \<Rightarrow> string \<Rightarrow> rpc_reply" pyfloat local_time

definition wallet_step :: "pyfloat \<Rightarrow> string list \<Rightarrow> wallet_event \<Rightarrow> wallet_tracker \<Rightarrow> wallet_tracker" where
  "wallet_step interval urls e t = (case e of
       Launch now local_now \<Rightarrow> refresh_on_launch interval now local_now t
     | UiRefresh now local_now \<Rightarrow> maybe_refresh interval False now (maybe_daily_refresh interval now local_now t)
     | WorkerEnds rpc now local_now \<Rightarrow> worker_ends rpc urls now local_now t)"

definition wallet_run :: "pyfloat \<Rightarrow> string list \<Rightarrow> wallet_event list \<Rightarrow> wallet_tracker \<Rightarrow> wallet_tracker" where
  "wallet_run interval urls es t = fold (wallet_step interval urls) es t"

subsection \<open>The view\<close>

record balance_view =
  bv_current :: "balances option"
  bv_previous_day :: "balances option"
  bv_previous_week :: "balances option"
  bv_day_change :: "block_kind \<Rightarrow> (pyfloat \<times> pyfloat option) option"
  bv_week_change :: "block_kind \<Rightarrow> (pyfloat \<times> pyfloat option) option"

definition balance_view :: "local_time \<Rightarrow> wallet_tracker \<Rightarrow> balance_view" where
  "balance_view now t =
     (let current = wt_current t;
          previous_day = map_of (wt_history t) (previous_mining_day now);
          previous_week = (case map_of (wt_history t) (mining_week_start now) of
              Some b \<Rightarrow> Some b
            | None \<Rightarrow> map_of (wt_history t) (previous_mining_week_start now));
          change = (\<lambda>baseline k. case current of None \<Rightarrow> None | Some b \<Rightarrow> token_change (b k) (map_option (\<lambda>p. p k) baseline))
      in \<lparr>bv_current = current, bv_previous_day = previous_day, bv_previous_week = previous_week,
          bv_day_change = change previous_day, bv_week_change = change previous_week\<rparr>)"

subsection \<open>Properties\<close>

definition fetched_now :: "(block_kind \<Rightarrow> string \<Rightarrow> rpc_reply) \<Rightarrow> string list \<Rightarrow> balances \<Rightarrow> bool" where
  "fetched_now rpc urls b \<longleftrightarrow> (\<forall>k. read_balance (rpc_call_any (rpc k) urls) = TokenValue (b k))"

lemma fresh_result: "fetch_wallet_balances rpc urls fallback = Balances b [] [] \<Longrightarrow> fetched_now rpc urls b"
proof -
  assume f: "fetch_wallet_balances rpc urls fallback = Balances b [] []"
  have "read_balance (rpc_call_any (rpc k) urls) = TokenValue (b k)" for k
    using f by (cases k) (auto simp: fetch_wallet_balances_def token_order_def fetch_token_def Let_def
        split: if_splits token_fetch.splits option.splits)
  then show ?thesis by (simp add: fetched_now_def)
qed

lemma refresh_keeps [simp]:
  "wt_history (maybe_refresh i f now t) = wt_history t" "wt_file (maybe_refresh i f now t) = wt_file t"
  "wt_current (maybe_refresh i f now t) = wt_current t" "wt_updated_at (maybe_refresh i f now t) = wt_updated_at t"
  "wt_refreshing t \<Longrightarrow> maybe_refresh i f now t = t"
  by (simp_all add: maybe_refresh_def)

definition snapshot_known :: "(int \<times> balances) list \<Rightarrow> string list \<Rightarrow> wallet_event list \<Rightarrow> int \<Rightarrow> balances \<Rightarrow> bool" where
  "snapshot_known saved urls es d b \<longleftrightarrow> map_of saved d = Some b
     \<or> list_ex (\<lambda>e. case e of WorkerEnds rpc _ local_now \<Rightarrow> d = mining_day local_now \<and> fetched_now rpc urls b | _ \<Rightarrow> False) es"

lemma known_snoc: "snapshot_known saved urls es d b \<Longrightarrow> snapshot_known saved urls (es @ [e]) d b"
  by (auto simp: snapshot_known_def)

lemma step_history:
  assumes "map_of (wt_history (wallet_step i urls e t)) d = Some b"
  shows "map_of (wt_history t) d = Some b \<or> snapshot_known [] urls [e] d b"
proof (cases e)
  case (WorkerEnds rpc now local_now)
  show ?thesis
  proof (cases "\<exists>v. fetch_wallet_balances rpc urls (wt_current t) = Balances v [] []")
    case True
    then obtain v where "fetch_wallet_balances rpc urls (wt_current t) = Balances v [] []" ..
    with fresh_result [OF this] assms show ?thesis
      by (auto simp: wallet_step_def WorkerEnds worker_ends_def record_snapshot_def update_conv' snapshot_known_def Let_def split: if_splits)
  next
    case False
    then have "wt_history (wallet_step i urls e t) = wt_history t"
      by (auto simp: wallet_step_def WorkerEnds worker_ends_def Let_def split: fetch_result.split)
    with assms show ?thesis by simp
  qed
qed (use assms in \<open>simp_all add: wallet_step_def refresh_on_launch_def maybe_daily_refresh_def Let_def split: if_splits\<close>)

lemma run_history:
  "map_of (wt_history (wallet_run i urls es (init_tracker_of saved now))) d = Some b \<Longrightarrow> snapshot_known saved urls es d b"
proof (induction es rule: rev_induct)
  case Nil
  then show ?case by (simp add: wallet_run_def init_tracker_of_def Let_def snapshot_known_def)
next
  case (snoc e es)
  let ?t = "wallet_run i urls es (init_tracker_of saved now)"
  have "map_of (wt_history ?t) d = Some b \<or> snapshot_known [] urls [e] d b"
    using step_history [of i urls e ?t d b] snoc.prems by (simp add: wallet_run_def)
  then show ?case
  proof
    assume "map_of (wt_history ?t) d = Some b"
    from known_snoc [OF snoc.IH [OF this]] show ?thesis .
  qed (auto simp: snapshot_known_def)
qed

lemma step_file: "wt_file t = wt_history t \<Longrightarrow> wt_file (wallet_step i urls e t) = wt_history (wallet_step i urls e t)"
  by (auto simp: wallet_step_def refresh_on_launch_def maybe_daily_refresh_def worker_ends_def record_snapshot_def Let_def
      split: wallet_event.split fetch_result.split)

lemma run_file: "wt_file (wallet_run i urls es (init_tracker_of saved now)) = wt_history (wallet_run i urls es (init_tracker_of saved now))"
  by (induction es rule: rev_induct) (simp_all add: wallet_run_def init_tracker_of_def Let_def step_file)

text \<open>
  C34: a snapshot never holds an old or a missing value.  After any run of launches, refreshes and
  threads, every snapshot in the file is one of the saved ones or holds, for all three tokens, what
  the servers answered to a thread that ended on that mining day.
\<close>

theorem snapshots_are_fetched:
  assumes "map_of (wt_file (wallet_run i urls es (init_tracker_of saved now))) d = Some b"
  shows "map_of saved d = Some b
    \<or> (\<exists>rpc t local_now. WorkerEnds rpc t local_now \<in> set es \<and> d = mining_day local_now \<and> fetched_now rpc urls b)"
proof -
  have "snapshot_known saved urls es d b" using run_history [of i urls es saved now d b] assms by (simp add: run_file)
  then consider "map_of saved d = Some b"
    | e where "e \<in> set es" "case e of WorkerEnds rpc _ local_now \<Rightarrow> d = mining_day local_now \<and> fetched_now rpc urls b | _ \<Rightarrow> False"
    by (auto simp: snapshot_known_def list_ex_iff)
  then show ?thesis
  proof cases
    case (2 e)
    show ?thesis by (rule wallet_event.exhaust [of e]) (use 2 in auto)
  qed simp
qed

text \<open>
  One answer of the wrong type ends the refreshing for good.  When a server answers a thread with
  a result that is no text, the thread ends without clearing the flag, and whatever happens
  afterwards, no balance is read again: the shown balances, their time and the snapshots stay as they are.
\<close>

theorem odd_reply_ends_refreshing:
  assumes "wt_worker t" "wt_refreshing t" "rpc_call_any (rpc k) urls = OtherResult"
    and "t' = wallet_run i urls (WorkerEnds rpc now local_now # es) t"
  shows "wt_current t' = wt_current t \<and> wt_updated_at t' = wt_updated_at t \<and> wt_file t' = wt_file t
    \<and> wt_refreshing t' \<and> \<not> wt_worker t'"
proof -
  have "fetch_wallet_balances rpc urls (wt_current t) = FetchRaises"
    using assms(3) by (cases k) (simp_all add: fetch_wallet_balances_def token_order_def fetch_token_def read_balance_def Let_def)
  then have w: "wallet_step i urls (WorkerEnds rpc now local_now) t = t\<lparr>wt_worker := False\<rparr>"
    using assms(1) by (simp add: wallet_step_def worker_ends_def)
  have s: "wt_refreshing (wallet_step i urls e u) \<and> \<not> wt_worker (wallet_step i urls e u)
      \<and> wt_current (wallet_step i urls e u) = wt_current u \<and> wt_updated_at (wallet_step i urls e u) = wt_updated_at u
      \<and> wt_file (wallet_step i urls e u) = wt_file u" if "wt_refreshing u" "\<not> wt_worker u" for e u
    using that by (cases e) (simp_all add: wallet_step_def refresh_on_launch_def maybe_daily_refresh_def worker_ends_def Let_def)
  have "wt_refreshing (fold (wallet_step i urls) es u) \<and> \<not> wt_worker (fold (wallet_step i urls) es u)
      \<and> wt_current (fold (wallet_step i urls) es u) = wt_current u
      \<and> wt_updated_at (fold (wallet_step i urls) es u) = wt_updated_at u
      \<and> wt_file (fold (wallet_step i urls) es u) = wt_file u" if "wt_refreshing u" "\<not> wt_worker u" for u
    using that
  proof (induction es arbitrary: u)
    case (Cons e es)
    from Cons.IH [of "wallet_step i urls e u"] s [OF Cons.prems, of e] show ?case by simp
  qed simp
  from this [of "t\<lparr>wt_worker := False\<rparr>"] show ?thesis using assms(2) by (simp add: assms(4) wallet_run_def w)
qed

definition small_day :: local_time where
  "small_day = \<lparr>lt_date = 739000, lt_hour = 9\<rparr>"

definition one_token :: "block_kind \<Rightarrow> string \<Rightarrow> rpc_reply" where
  "one_token = (\<lambda>_ _. TextResult ''0xde0b6b3a7640000'')"

theorem odd_reply_ends_refreshing_witness:
  "wt_refreshing (wallet_run 300 [''u''] [WorkerEnds (\<lambda>_ _. OtherResult) 5 small_day, Launch 9000 small_day, UiRefresh 99000 small_day]
     (refresh_on_launch 300 0 small_day (init_tracker_of [] small_day)))"
proof -
  let ?t = "refresh_on_launch 300 0 small_day (init_tracker_of [] small_day)"
  have "wt_worker ?t" "wt_refreshing ?t"
    by (simp_all add: refresh_on_launch_def maybe_refresh_def init_tracker_of_def Let_def latest_snapshot_def)
  from odd_reply_ends_refreshing [OF this _ refl, of "\<lambda>_ _. OtherResult" XNM "[''u'']"] show ?thesis by simp
qed

theorem snapshots_are_fetched_witness:
  "fetched_now one_token [''u''] (\<lambda>_. 1)"
proof -
  have n: "hex_number ''0xde0b6b3a7640000'' = Some (10 ^ 18)" by code_simp
  have r: "read_balance (TextResult ''0xde0b6b3a7640000'') = TokenValue 1" by (simp add: read_balance_def n fdivi_def)
  have f: "fetch_wallet_balances one_token [''u''] None = Balances (\<lambda>_. 1) [] []"
    by (simp add: fetch_wallet_balances_def one_token_def token_order_def fetch_token_def r Let_def)
  let ?es = "[Launch 0 small_day, WorkerEnds one_token 5 small_day]"
  have "map_of (wt_file (wallet_run 300 [''u''] ?es (init_tracker_of [] small_day))) 739000 = Some (\<lambda>_. 1)"
    by (simp add: wallet_run_def wallet_step_def refresh_on_launch_def maybe_refresh_def init_tracker_of_def latest_snapshot_def
        worker_ends_def f record_snapshot_def Let_def small_day_def mining_day_def)
  from snapshots_are_fetched [OF this] show ?thesis by (auto simp: small_day_def)
qed

end
