(* ===== verification/Wallets.thy ===== *)
theory Wallets
  imports Auth
begin

text \<open>
  What the server keeps and tells of a wallet: the hourly snapshots (\<open>wallet_snapshot.py\<close>), their
  table (\<open>storage/wallet_snapshots.py\<close>) and the wallet routes (\<open>routers/wallet.py\<close>).  The
  timestamps of one address differ, so \<open>ORDER BY timestamp\<close> has one result.  \<open>COLLATE NOCASE\<close> and
  \<open>lower()\<close> agree on the ASCII letters of an address.
\<close>

subsection \<open>The table\<close>

record wallet_snapshot =
  ws_eth_address :: string
  ws_timestamp :: pyfloat
  ws_interval_type :: string
  ws_total_hashrate :: pyfloat
  ws_online_workers :: int
  ws_total_workers :: int
  ws_blocks_found :: int
  ws_cumulative_blocks :: int
  ws_earnings :: pyfloat

definition same_address :: "string \<Rightarrow> wallet_snapshot \<Rightarrow> bool" where
  "same_address address r \<longleftrightarrow> py_lower (ws_eth_address r) = py_lower address"

definition query_snapshots :: "pyfloat \<Rightarrow> string \<Rightarrow> pyfloat \<Rightarrow> string \<Rightarrow> wallet_snapshot list \<Rightarrow> wallet_snapshot list" where
  "query_snapshots now address hours interval_type rows =
     (let cutoff = fl (now - fl (hours * 3600))
      in sort_key ws_timestamp (filter (\<lambda>r. same_address address r \<and> ws_timestamp r \<ge> cutoff
           \<and> ws_interval_type r = interval_type) rows))"

definition get_latest_snapshot :: "string \<Rightarrow> wallet_snapshot list \<Rightarrow> wallet_snapshot option" where
  "get_latest_snapshot address rows = (case newest_first ws_timestamp (filter (same_address address) rows) of
       [] \<Rightarrow> None | r # _ \<Rightarrow> Some r)"

record achievements =
  ac_peak_hashrate :: pyfloat
  ac_total_blocks :: int
  ac_total_earnings :: pyfloat
  ac_first_seen :: "pyfloat option"

text \<open>A first timestamp of 0 is falsy and reported as missing.\<close>

definition get_achievements :: "string \<Rightarrow> wallet_snapshot list \<Rightarrow> achievements" where
  "get_achievements address rows =
     (let mine = filter (same_address address) rows in
      \<lparr>ac_peak_hashrate = (case map ws_total_hashrate mine of [] \<Rightarrow> 0 | h # hs \<Rightarrow> fold max hs h),
       ac_total_blocks = (case get_latest_snapshot address rows of None \<Rightarrow> 0 | Some r \<Rightarrow> ws_cumulative_blocks r),
       ac_total_earnings = py_round_n 4 (fold (\<lambda>r total_so_far. fl (total_so_far + ws_earnings r)) mine 0),
       ac_first_seen = (case map ws_timestamp mine of [] \<Rightarrow> None
         | t # ts \<Rightarrow> (let first = fold min ts t in if first = 0 then None else Some first))\<rparr>)"

definition keep_hours :: pyfloat where
  "keep_hours = 168"

definition cleanup_snapshots :: "pyfloat \<Rightarrow> wallet_snapshot list \<Rightarrow> wallet_snapshot list" where
  "cleanup_snapshots now rows =
     filter (\<lambda>r. \<not> (ws_interval_type r = ''daily'' \<and> ws_timestamp r < fl (now - fl (90 * 86400))))
       (filter (\<lambda>r. \<not> (ws_interval_type r = ''hourly'' \<and> ws_timestamp r < fl (now - fl (keep_hours * 3600)))) rows)"

subsection \<open>The service\<close>

record snapshot_service =
  sn_rows :: "wallet_snapshot list"
  sn_last_blocks :: "(string \<times> int) list"

definition is_online :: "pyfloat \<Rightarrow> worker \<Rightarrow> bool" where
  "is_online now w \<longleftrightarrow> fl (now - w_last_heartbeat w) < 90"

definition group_worker :: "worker \<Rightarrow> (string \<times> worker list) list \<Rightarrow> (string \<times> worker list) list" where
  "group_worker w groups =
     (if w_eth_address w = [] then groups
      else (let a = py_lower (w_eth_address w) in
        case map_of groups a of
          None \<Rightarrow> groups @ [(a, [w])]
        | Some ws \<Rightarrow> AList.update a (ws @ [w]) groups))"

definition by_address :: "worker list \<Rightarrow> (string \<times> worker list) list" where
  "by_address ws = fold group_worker ws []"

text \<open>The amounts in a row of \<open>list_all\<close>, by key; \<open>get\<close> gives 0 for a key that is not there.\<close>

definition settlement_amounts :: "settlement_view \<Rightarrow> (string \<times> pyfloat) list" where
  "settlement_amounts v = [(''duration_sec'', sv_duration_sec v), (''total_cost'', sv_total_cost v),
     (''provider_payment'', sv_provider_payment v), (''platform_fee'', sv_platform_fee v)]"

definition amount_or_0 :: "string \<Rightarrow> settlement_view \<Rightarrow> pyfloat" where
  "amount_or_0 key v = (case map_of (settlement_amounts v) key of None \<Rightarrow> 0 | Some x \<Rightarrow> x)"

definition earnings_of :: "(string \<times> pyfloat) list \<Rightarrow> string \<Rightarrow> pyfloat" where
  "earnings_of earned worker_id = (case map_of earned worker_id of None \<Rightarrow> 0 | Some x \<Rightarrow> x)"

definition earnings_by_worker :: "settlement_view list \<Rightarrow> (string \<times> pyfloat) list" where
  "earnings_by_worker vs = fold (\<lambda>v earned. AList.update (sv_worker v)
     (fl (earnings_of earned (sv_worker v) + amount_or_0 ''provider_payout'' v)) earned) vs []"

definition sum_hashrate :: "pyfloat \<Rightarrow> worker list \<Rightarrow> pyfloat" where
  "sum_hashrate now ws = fold (\<lambda>w total_so_far. fl (total_so_far + w_hashrate w)) (filter (is_online now) ws) 0"

definition sum_self_blocks :: "worker list \<Rightarrow> int" where
  "sum_self_blocks ws = sum_list (map w_self_blocks_found ws)"

definition insert_snapshot :: "pyfloat \<Rightarrow> string \<Rightarrow> string \<Rightarrow> string \<Rightarrow> worker list \<Rightarrow> pyfloat
    \<Rightarrow> snapshot_service \<Rightarrow> snapshot_service" where
  "insert_snapshot now interval_type row_address addr ws earned sn =
     (let cumulative = sum_self_blocks ws;
          prev_blocks = (case map_of (sn_last_blocks sn) addr of None \<Rightarrow> 0 | Some n \<Rightarrow> n)
      in sn\<lparr>sn_last_blocks := AList.update addr cumulative (sn_last_blocks sn),
            sn_rows := sn_rows sn @ [\<lparr>ws_eth_address = row_address, ws_timestamp = now, ws_interval_type = interval_type,
              ws_total_hashrate = sum_hashrate now ws, ws_online_workers = int (length (filter (is_online now) ws)),
              ws_total_workers = int (length ws), ws_blocks_found = max 0 (cumulative - prev_blocks),
              ws_cumulative_blocks = cumulative, ws_earnings = earned\<rparr>]\<rparr>)"

definition create_snapshots :: "pyfloat \<Rightarrow> string \<Rightarrow> market_db \<Rightarrow> snapshot_service \<Rightarrow> nat \<times> market_db \<times> snapshot_service" where
  "create_snapshots now interval_type db sn =
     (let groups = by_address (workers db);
          earned = earnings_by_worker (settlement_list_all None 0 db);
          sn1 = fold (\<lambda>(addr, ws). insert_snapshot now interval_type addr addr ws
            (fold (\<lambda>w total_so_far. fl (total_so_far + earnings_of earned (w_id w))) ws 0)) groups sn
      in (length groups, commit db, sn1\<lparr>sn_rows := cleanup_snapshots now (sn_rows sn1)\<rparr>))"

text \<open>The earnings of some workers, as the on-demand snapshot and the statistics of a wallet sum them.\<close>

definition earnings_of_workers :: "string list \<Rightarrow> settlement_view list \<Rightarrow> pyfloat" where
  "earnings_of_workers ids vs =
     fold (\<lambda>v total_so_far. fl (total_so_far + amount_or_0 ''provider_payout'' v)) (filter (\<lambda>v. sv_worker v \<in> set ids) vs) 0"

definition workers_of_address :: "string \<Rightarrow> 'z market_tables_scheme \<Rightarrow> worker list" where
  "workers_of_address address db = filter (\<lambda>w. py_lower (w_eth_address w) = py_lower address) (workers db)"

definition create_snapshot_for_address :: "pyfloat \<Rightarrow> string \<Rightarrow> market_db \<Rightarrow> snapshot_service
    \<Rightarrow> market_db \<times> snapshot_service" where
  "create_snapshot_for_address now address db sn =
     (let ws = workers_of_address address db in
      if ws = [] then (db, sn)
      else (commit db, insert_snapshot now ''hourly'' address (py_lower address) ws
             (earnings_of_workers (map w_id ws) (settlement_list_all None 0 db)) sn))"

text \<open>The life of the service: rounds, snapshots on demand, and restarts, which keep the table only.\<close>

datatype snapshot_event =
    TakeSnapshots pyfloat string market_db
  | TakeFor pyfloat string market_db
  | RestartService

definition snapshot_step :: "snapshot_event \<Rightarrow> snapshot_service \<Rightarrow> snapshot_service" where
  "snapshot_step e sn = (case e of
       TakeSnapshots now interval_type db \<Rightarrow> snd (snd (create_snapshots now interval_type db sn))
     | TakeFor now address db \<Rightarrow> snd (create_snapshot_for_address now address db sn)
     | RestartService \<Rightarrow> sn\<lparr>sn_last_blocks := []\<rparr>)"

definition snapshot_run :: "snapshot_event list \<Rightarrow> snapshot_service \<Rightarrow> snapshot_service" where
  "snapshot_run es sn = fold snapshot_step es sn"

definition empty_service :: snapshot_service where
  "empty_service = \<lparr>sn_rows = [], sn_last_blocks = []\<rparr>"

subsection \<open>The routes\<close>

definition wallet_address :: "decoder \<Rightarrow> string \<Rightarrow> string py" where
  "wallet_address jwt authorization =
     (if \<not> py_startswith authorization ''Bearer '' then Inl (HTTPException 401)
      else case jwt (drop 7 authorization) of
        None \<Rightarrow> Inl (HTTPException 401)
      | Some c \<Rightarrow> if c_sub c = [] then Inl (HTTPException 401) else Inr (c_sub c))"

text \<open>\<open>period\<close> is one of \<open>24h\<close>, \<open>7d\<close> and \<open>30d\<close>, checked by the framework.\<close>

definition period_hours :: "string \<Rightarrow> pyfloat" where
  "period_hours period = (if period = ''24h'' then 24 else if period = ''7d'' then 168 else 720)"

definition wallet_history :: "decoder \<Rightarrow> string \<Rightarrow> pyfloat \<Rightarrow> string \<Rightarrow> snapshot_service \<Rightarrow> wallet_snapshot list py" where
  "wallet_history jwt authorization now period sn =
     py_bind (wallet_address jwt authorization)
       (\<lambda>address. Inr (query_snapshots now address (period_hours period) ''hourly'' (sn_rows sn)))"

record wallet_summary =
  wa_online_workers :: int
  wa_total_workers :: int
  wa_hashrate :: pyfloat
  wa_total_gpus :: int
  wa_total_blocks :: int
  wa_total_earnings :: pyfloat

definition wallet_stats :: "decoder \<Rightarrow> string \<Rightarrow> pyfloat \<Rightarrow> market_db \<Rightarrow> wallet_summary py" where
  "wallet_stats jwt authorization now db =
     py_bind (wallet_address jwt authorization) (\<lambda>address.
       (let ws = workers_of_address address db in
        Inr \<lparr>wa_online_workers = int (length (filter (is_online now) ws)), wa_total_workers = int (length ws),
             wa_hashrate = py_round_n 2 (sum_hashrate now ws), wa_total_gpus = sum_list (map w_gpu_count ws),
             wa_total_blocks = sum_self_blocks ws,
             wa_total_earnings = py_round_n 4 (earnings_of_workers (map w_id ws) (settlement_list_all None 0 db))\<rparr>))"

record achievements_view =
  av_current_hashrate :: pyfloat
  av_online_workers :: int
  av_total_workers :: int
  av_total_blocks :: int
  av_peak_hashrate :: pyfloat
  av_total_earnings :: pyfloat
  av_mining_days :: pyfloat
  av_first_seen :: "pyfloat option"

definition sum_online_sec :: "worker list \<Rightarrow> pyfloat" where
  "sum_online_sec ws = fold (\<lambda>w total_so_far. fl (total_so_far + w_total_online_sec w)) ws 0"

definition wallet_achievements :: "decoder \<Rightarrow> string \<Rightarrow> pyfloat \<Rightarrow> market_db \<Rightarrow> snapshot_service \<Rightarrow> achievements_view py" where
  "wallet_achievements jwt authorization now db sn =
     py_bind (wallet_address jwt authorization) (\<lambda>address.
       (let ac = get_achievements address (sn_rows sn);
            ws = workers_of_address address db in
        Inr \<lparr>av_current_hashrate = py_round_n 2 (sum_hashrate now ws),
             av_online_workers = int (length (filter (is_online now) ws)), av_total_workers = int (length ws),
             av_total_blocks = sum_self_blocks ws, av_peak_hashrate = ac_peak_hashrate ac,
             av_total_earnings = ac_total_earnings ac, av_mining_days = py_round_n 1 (fl (sum_online_sec ws / 86400)),
             av_first_seen = ac_first_seen ac\<rparr>))"

record wallet_share =
  wh_address :: string
  wh_full_address :: string
  wh_total_blocks :: int
  wh_peak_hashrate :: pyfloat
  wh_total_earnings :: pyfloat
  wh_mining_hours :: pyfloat
  wh_worker_count :: int

definition wallet_share_data :: "decoder \<Rightarrow> string \<Rightarrow> market_db \<Rightarrow> snapshot_service \<Rightarrow> wallet_share py" where
  "wallet_share_data jwt authorization db sn =
     py_bind (wallet_address jwt authorization) (\<lambda>address.
       (let ac = get_achievements address (sn_rows sn);
            ws = workers_of_address address db in
        Inr \<lparr>wh_address = (if length address > 12 then take 6 address @ ''...'' @ drop (length address - 4) address else address),
             wh_full_address = address, wh_total_blocks = sum_self_blocks ws, wh_peak_hashrate = ac_peak_hashrate ac,
             wh_total_earnings = ac_total_earnings ac, wh_mining_hours = py_round_n 1 (fl (sum_online_sec ws / 3600)),
             wh_worker_count = int (length ws)\<rparr>))"

definition commanded_state :: "string \<Rightarrow> string option \<Rightarrow> string option" where
  "commanded_state command state_param =
     (if command = ''list'' then Some ''AVAILABLE''
      else if command = ''unlist'' then Some ''SELF_MINING''
      else if command = ''update_config'' then (case state_param of Some s \<Rightarrow> if s = [] then None else Some s | None \<Rightarrow> None)
      else None)"

definition command_name :: "string \<Rightarrow> string" where
  "command_name command = (if command \<in> {''list'', ''unlist''} then ''update_config'' else command)"

text \<open>\<open>state_param\<close> is the text at \<open>params["state"]\<close>; the command that goes to the broker is the result.\<close>

definition worker_command :: "decoder \<Rightarrow> string \<Rightarrow> bool \<Rightarrow> string \<Rightarrow> string \<Rightarrow> string option \<Rightarrow> market_db
    \<Rightarrow> market_db \<times> (string \<times> string) py" where
  "worker_command jwt authorization broker_up worker_id command state_param db =
     (case wallet_address jwt authorization of
        Inl e \<Rightarrow> (db, Inl e)
      | Inr address \<Rightarrow>
          (case worker_get worker_id db of
             None \<Rightarrow> (db, Inl (HTTPException 404))
           | Some w \<Rightarrow>
               if py_lower (w_eth_address w) \<noteq> py_lower address then (db, Inl (HTTPException 403))
               else if command \<notin> {''restart'', ''stop'', ''start'', ''update_config'', ''list'', ''unlist''}
               then (db, Inl (HTTPException 400))
               else
                 (let new_state = commanded_state command state_param;
                      sent = (\<lambda>db1. (db1, if broker_up then Inr (worker_id, command_name command) else Inl (HTTPException 503)))
                  in case new_state of
                       None \<Rightarrow> sent db
                     | Some s \<Rightarrow> if s \<notin> {''SELF_MINING'', ''AVAILABLE'', ''LEASED''} then (db, Inl (HTTPException 400))
                         else sent (worker_set_state worker_id s db))))"

subsection \<open>Earnings\<close>

lemma no_such_key [simp]: "amount_or_0 ''provider_payout'' v = 0"
  by (simp add: amount_or_0_def settlement_amounts_def)

lemma earnings_zero [simp]: "earnings_of (earnings_by_worker vs) w = 0"
proof -
  have "earnings_of (fold (\<lambda>v earned. AList.update (sv_worker v)
     (fl (earnings_of earned (sv_worker v) + amount_or_0 ''provider_payout'' v)) earned) vs es) w = 0"
    if "\<And>u. earnings_of es u = 0" for es w
    using that
  proof (induction vs arbitrary: es w)
    case (Cons v vs)
    have "earnings_of (AList.update (sv_worker v) 0 es) u = 0" for u
      using Cons.prems [of u] by (simp add: earnings_of_def update_conv')
    with Cons show ?case by simp
  qed simp
  from this [of "[]"] show ?thesis by (simp add: earnings_by_worker_def earnings_of_def)
qed

lemma fold_zero: "list_all (\<lambda>x. f x = 0) xs \<Longrightarrow> fold (\<lambda>x total_so_far. fl (total_so_far + f x)) xs 0 = (0 :: pyfloat)"
  by (induction xs) simp_all

lemma workers_earn_nothing [simp]: "earnings_of_workers ids vs = 0"
  unfolding earnings_of_workers_def by (rule fold_zero) (simp add: list_all_iff)

lemma fold_rounding [simp]: "fold (\<lambda>w. fl) ws 0 = 0"
  by (induction ws) simp_all

lemma insert_unpaid: "list_all (\<lambda>r. ws_earnings r = 0) (sn_rows sn) \<Longrightarrow>
    list_all (\<lambda>r. ws_earnings r = 0) (sn_rows (insert_snapshot now it ra addr ws 0 sn))"
  by (simp add: insert_snapshot_def Let_def)

lemma unpaid_fold:
  assumes "list_all (\<lambda>r. ws_earnings r = 0) (sn_rows sn)"
  shows "list_all (\<lambda>r. ws_earnings r = 0) (sn_rows (fold (\<lambda>(addr, ws). insert_snapshot now it addr addr ws
     (fold (\<lambda>w total_so_far. fl (total_so_far + earnings_of (earnings_by_worker vs) (w_id w))) ws 0)) groups sn))"
  using assms
proof (induction groups arbitrary: sn)
  case (Cons g groups)
  then show ?case by (cases g) (simp add: insert_unpaid)
qed simp

lemma unpaid_step: "list_all (\<lambda>r. ws_earnings r = 0) (sn_rows sn) \<Longrightarrow> list_all (\<lambda>r. ws_earnings r = 0) (sn_rows (snapshot_step e sn))"
proof -
  assume unpaid: "list_all (\<lambda>r. ws_earnings r = 0) (sn_rows sn)"
  have "list_all P (cleanup_snapshots now rows)" if "list_all P rows" for P now rows
    using that by (simp add: cleanup_snapshots_def list_all_iff)
  then show ?thesis using unpaid unpaid_fold [OF unpaid] insert_unpaid [OF unpaid]
    by (simp add: snapshot_step_def create_snapshots_def create_snapshot_for_address_def Let_def split: snapshot_event.split)
qed

lemma unpaid_run: "list_all (\<lambda>r. ws_earnings r = 0) (sn_rows sn) \<Longrightarrow> list_all (\<lambda>r. ws_earnings r = 0) (sn_rows (snapshot_run es sn))"
  by (induction es arbitrary: sn) (simp_all add: snapshot_run_def unpaid_step)

text \<open>
  A wallet never earns anything.  Whatever its workers were paid, every snapshot records earnings
  of 0, and the achievements and the statistics of every wallet report 0: the sums read the key
  \<open>provider_payout\<close>, and the rows of the settlements carry the payment as \<open>provider_payment\<close>.
\<close>

theorem wallet_earnings_always_zero:
  "list_all (\<lambda>r. ws_earnings r = 0) (sn_rows (snapshot_run es empty_service))
   \<and> ac_total_earnings (get_achievements address (sn_rows (snapshot_run es empty_service))) = 0
   \<and> (case wallet_stats jwt authorization now db of Inl _ \<Rightarrow> True | Inr summary \<Rightarrow> wa_total_earnings summary = 0)
   \<and> (case wallet_achievements jwt authorization now db (snapshot_run es empty_service) of
         Inl _ \<Rightarrow> True | Inr seen \<Rightarrow> av_total_earnings seen = 0)"
proof -
  have rows: "list_all (\<lambda>r. ws_earnings r = 0) (sn_rows (snapshot_run es empty_service))"
    by (rule unpaid_run) (simp add: empty_service_def)
  moreover have "py_round_n 4 0 = 0" using py_round_n_of_int [of 0 4] by simp
  moreover have "fold (\<lambda>r total_so_far. fl (total_so_far + ws_earnings r))
      (filter (same_address a) (sn_rows (snapshot_run es empty_service))) 0 = 0" for a
    using rows by (intro fold_zero) (simp add: list_all_iff)
  ultimately show ?thesis
    by (simp add: get_achievements_def Let_def wallet_stats_def wallet_achievements_def py_bind_def split: sum.split)
qed

subsection \<open>History\<close>

text \<open>
  A month of history is a week of it.  After a round of the service the rows that the route
  returns for \<open>30d\<close> are those that it returns for \<open>7d\<close>, for every wallet: the rounds delete the
  hourly rows that are older.
\<close>

theorem month_history_is_a_week:
  assumes "sn' = snd (snd (create_snapshots now interval_type db sn))"
  shows "wallet_history jwt authorization now ''30d'' sn' = wallet_history jwt authorization now ''7d'' sn'"
proof -
  have m: "fl (now - fl (720 * 3600)) \<le> fl (now - fl (168 * 3600))"
    by (intro fl_mono) (simp add: fl_mono)
  have "filter (\<lambda>r. same_address a r \<and> ws_timestamp r \<ge> fl (now - fl (720 * 3600)) \<and> ws_interval_type r = ''hourly'') (sn_rows sn')
      = filter (\<lambda>r. same_address a r \<and> ws_timestamp r \<ge> fl (now - fl (168 * 3600)) \<and> ws_interval_type r = ''hourly'') (sn_rows sn')" for a
  proof (intro filter_cong refl)
    fix r assume "r \<in> set (sn_rows sn')"
    then have "ws_interval_type r = ''hourly'' \<Longrightarrow> \<not> ws_timestamp r < fl (now - fl (168 * 3600))"
      unfolding assms by (simp add: create_snapshots_def Let_def cleanup_snapshots_def keep_hours_def)
    then show "(same_address a r \<and> ws_timestamp r \<ge> fl (now - fl (720 * 3600)) \<and> ws_interval_type r = ''hourly'')
      = (same_address a r \<and> ws_timestamp r \<ge> fl (now - fl (168 * 3600)) \<and> ws_interval_type r = ''hourly'')"
      using m by auto
  qed
  then show ?thesis by (simp add: wallet_history_def query_snapshots_def period_hours_def Let_def)
qed

subsection \<open>Commands\<close>

text \<open>
  A command reaches a worker, or changes its state, only from the wallet that owns it.  The
  tables change only for the token of the worker's address; then the only change is the state of
  that worker, to one of the three states of a worker; every refusal but the missing broker leaves the
  tables as they were.
\<close>

theorem command_only_by_owner:
  assumes "worker_command jwt authorization broker_up worker_id command state_param db = (db', r)"
    and "db' \<noteq> db \<or> (\<exists>sent. r = Inr sent)"
  shows "(\<exists>w c. worker_get worker_id db = Some w \<and> jwt (drop 7 authorization) = Some c
      \<and> py_lower (w_eth_address w) = py_lower (c_sub c))
    \<and> (db' = db \<or> (\<exists>s. s \<in> {''SELF_MINING'', ''AVAILABLE'', ''LEASED''} \<and> db' = worker_set_state worker_id s db))
    \<and> (r = Inl (HTTPException 503) \<or> r = Inr (worker_id, command_name command))"
  using assms
  by (auto simp: worker_command_def wallet_address_def Let_def split: if_splits option.splits)

subsection \<open>A small server\<close>

definition wallet_worker :: worker where
  "wallet_worker = \<lparr>w_id = ''w1'', w_eth_address = ''0xAB'', w_gpu_count = 1, w_total_memory_gb = 8, w_gpus = [],
     w_version = ''1'', w_state = ''LEASED'', w_hashrate = 10, w_active_gpus = 1, w_last_heartbeat = 0, w_registered_at = 0,
     w_price_per_min = 1, w_min_duration_sec = 60, w_max_duration_sec = 3600, w_total_online_sec = 0,
     w_last_online_at = None, w_self_blocks_found = 5\<rparr>"

definition wallet_db :: market_db where
  "wallet_db = empty_db\<lparr>workers := [wallet_worker]\<rparr>"

definition wallet_jwt :: decoder where
  "wallet_jwt t = (if t = ''ok'' then Some \<lparr>c_sub = ''0xab'', c_role = ''provider'', c_account_id = ''a'', c_iat = 0, c_exp = 9\<rparr> else None)"

definition old_rows :: snapshot_service where
  "old_rows = snd (snd (create_snapshots 100 ''hourly'' wallet_db empty_service))"

theorem month_history_is_a_week_witness:
  "wallet_history wallet_jwt ''Bearer ok'' 1000000 ''30d'' (snd (snd (create_snapshots 1000000 ''hourly'' wallet_db old_rows)))
   = wallet_history wallet_jwt ''Bearer ok'' 1000000 ''7d'' (snd (snd (create_snapshots 1000000 ''hourly'' wallet_db old_rows)))"
  by (rule month_history_is_a_week [OF refl])

theorem command_only_by_owner_witness:
  "map w_state (workers (fst (worker_command wallet_jwt ''Bearer ok'' True ''w1'' ''list'' None wallet_db))) = [''AVAILABLE'']
   \<and> (\<exists>w. worker_get ''w1'' wallet_db = Some w \<and> py_lower (w_eth_address w) = py_lower ''0xab'')"
proof
  let ?r = "worker_command wallet_jwt ''Bearer ok'' True ''w1'' ''list'' None wallet_db"
  show "map w_state (workers (fst ?r)) = [''AVAILABLE'']" by code_simp
  have r: "snd ?r = Inr (''w1'', ''update_config'')" by code_simp
  have j: "wallet_jwt (drop 7 ''Bearer ok'') = Some \<lparr>c_sub = ''0xab'', c_role = ''provider'', c_account_id = ''a'', c_iat = 0, c_exp = 9\<rparr>"
    by code_simp
  have "?r = (fst ?r, snd ?r)" by simp
  from command_only_by_owner [OF this] r
  obtain w c where "worker_get ''w1'' wallet_db = Some w" "wallet_jwt (drop 7 ''Bearer ok'') = Some c"
      "py_lower (w_eth_address w) = py_lower (c_sub c)" by blast
  with j show "\<exists>w. worker_get ''w1'' wallet_db = Some w \<and> py_lower (w_eth_address w) = py_lower ''0xab''" by auto
qed

end
