(* ===== verification/Fleet.thy ===== *)
theory Fleet
  imports Wallets
begin

text \<open>
  The view of the whole fleet: the monitoring service (\<open>monitoring.py\<close>), the table of hash rates
  (\<open>storage/snapshots.py\<close>), the pages of the fleet route (\<open>routers/monitoring.py\<close>), the rounds of the
  monitoring loop (\<open>server.py\<close>) and the live connections (\<open>ws.py\<close>).  A connection is a number; one
  is never reused.  What is sent is not modelled, only to whom.
\<close>

subsection \<open>The table of hash rates\<close>

record hashrate_row =
  hr_worker :: string
  hr_hashrate :: pyfloat
  hr_active_gpus :: int
  hr_timestamp :: pyfloat

definition insert_batch :: "pyfloat \<Rightarrow> (string \<times> pyfloat \<times> int) list \<Rightarrow> hashrate_row list \<Rightarrow> hashrate_row list" where
  "insert_batch now batch rows = rows @ map (\<lambda>(wid, hr, gpus).
     \<lparr>hr_worker = wid, hr_hashrate = hr, hr_active_gpus = gpus, hr_timestamp = now\<rparr>) batch"

definition query_hashrates :: "pyfloat \<Rightarrow> string option \<Rightarrow> pyfloat \<Rightarrow> hashrate_row list \<Rightarrow> hashrate_row list" where
  "query_hashrates now worker_id hours rows =
     (let cutoff = fl (now - fl (hours * 3600));
          recent = filter (\<lambda>r. hr_timestamp r \<ge> cutoff) rows
      in sort_key hr_timestamp (case worker_id of
           None \<Rightarrow> recent
         | Some w \<Rightarrow> if w = [] then recent else filter (\<lambda>r. hr_worker r = w) recent))"

definition delete_older_than :: "pyfloat \<Rightarrow> pyfloat \<Rightarrow> hashrate_row list \<Rightarrow> hashrate_row list" where
  "delete_older_than now hours rows = filter (\<lambda>r. \<not> hr_timestamp r < fl (now - fl (hours * 3600))) rows"

subsection \<open>The service\<close>

definition fleet_overview :: "pyfloat \<Rightarrow> 'z market_tables_scheme \<Rightarrow> (worker \<times> bool) list" where
  "fleet_overview now db = map (\<lambda>w. (w, is_online now w)) (workers db)"

record fleet_stats =
  fs_total_workers :: int
  fs_online :: int
  fs_offline :: int
  fs_total_hashrate :: pyfloat
  fs_total_gpus :: int
  fs_active_gpus :: int
  fs_total_blocks :: int
  fs_blocks_last_hour :: int

text \<open>One step of the loop over the workers.\<close>

definition count_worker :: "pyfloat \<Rightarrow> worker \<Rightarrow> fleet_stats \<Rightarrow> fleet_stats" where
  "count_worker now w s =
     (let s1 = (if is_online now w
          then s\<lparr>fs_online := fs_online s + 1, fs_total_hashrate := fl (fs_total_hashrate s + w_hashrate w),
                 fs_active_gpus := fs_active_gpus s + w_active_gpus w\<rparr>
          else s\<lparr>fs_offline := fs_offline s + 1\<rparr>)
      in s1\<lparr>fs_total_gpus := fs_total_gpus s1 + w_gpu_count w\<rparr>)"

definition aggregated_stats :: "pyfloat \<Rightarrow> 'z market_tables_scheme \<Rightarrow> fleet_stats" where
  "aggregated_stats now db =
     (let s = fold (count_worker now) (workers db) \<lparr>fs_total_workers = 0, fs_online = 0, fs_offline = 0,
          fs_total_hashrate = 0, fs_total_gpus = 0, fs_active_gpus = 0, fs_total_blocks = 0, fs_blocks_last_hour = 0\<rparr>
      in s\<lparr>fs_total_workers := int (length (workers db)), fs_total_hashrate := py_round_n 2 (fs_total_hashrate s),
           fs_total_blocks := int (blocks_count None db), fs_blocks_last_hour := int (blocks_count_since (fl (now - 3600)) db)\<rparr>)"

definition record_hashrate_snapshot :: "pyfloat \<Rightarrow> market_db \<Rightarrow> hashrate_row list \<Rightarrow> market_db \<times> hashrate_row list" where
  "record_hashrate_snapshot now db rows =
     (let batch = map (\<lambda>w. (w_id w, w_hashrate w, w_active_gpus w)) (filter (is_online now) (workers db))
      in if batch = [] then (db, rows) else (commit db, insert_batch now batch rows))"

definition hashrate_history :: "pyfloat \<Rightarrow> string option \<Rightarrow> pyfloat \<Rightarrow> hashrate_row list \<Rightarrow> hashrate_row list" where
  "hashrate_history now worker_id hours rows =
     query_hashrates now worker_id (max (fl (167 / 10000)) (min hours 24)) rows"

definition check_worker_health :: "pyfloat \<Rightarrow> 'z market_tables_scheme \<Rightarrow> (string \<times> pyfloat \<times> pyfloat) list" where
  "check_worker_health now db = map (\<lambda>w. (w_id w, w_last_heartbeat w, py_round_n 1 (fl (now - w_last_heartbeat w))))
     (filter (\<lambda>w. fl (now - w_last_heartbeat w) \<ge> 90) (workers db))"

definition cleanup_old_snapshots :: "pyfloat \<Rightarrow> market_db \<Rightarrow> hashrate_row list \<Rightarrow> market_db \<times> hashrate_row list" where
  "cleanup_old_snapshots now db rows = (commit db, delete_older_than now 24 rows)"

definition recent_blocks :: "int \<Rightarrow> 'z market_tables_scheme \<Rightarrow> block list" where
  "recent_blocks limit db = blocks_get_all (Some (max 1 (min limit 200))) 0 db"

subsection \<open>Pages\<close>

text \<open>\<open>all_items[start:start + limit]\<close> with \<open>start = (page - 1) * limit\<close>; the framework checks that both are
  at least one.\<close>

definition page_of :: "int \<Rightarrow> int \<Rightarrow> 'a list \<Rightarrow> 'a list" where
  "page_of page limit items = (let start = (page - 1) * limit in take (nat limit) (drop (nat start) items))"

definition total_pages :: "int \<Rightarrow> 'a list \<Rightarrow> int" where
  "total_pages limit items = (int (length items) + limit - 1) div limit"

definition sorted_fleet :: "pyfloat \<Rightarrow> string \<Rightarrow> string option \<Rightarrow> 'z market_tables_scheme \<Rightarrow> (worker \<times> bool) list" where
  "sorted_fleet now order eth_address db =
     (let all_items = fleet_overview now db;
          wanted = (case eth_address of
              None \<Rightarrow> all_items
            | Some a \<Rightarrow> if a = [] then all_items
                else filter (\<lambda>(w, _). py_lower (w_eth_address w) = py_lower a) all_items)
      in sort_key (\<lambda>(w, _). if order = ''desc'' then - w_hashrate w else w_hashrate w) wanted)"

record fleet_page =
  fp_items :: "(worker \<times> bool) list"
  fp_total :: int
  fp_total_pages :: int

definition monitoring_fleet :: "pyfloat \<Rightarrow> int \<Rightarrow> int \<Rightarrow> string \<Rightarrow> string option \<Rightarrow> 'z market_tables_scheme \<Rightarrow> fleet_page" where
  "monitoring_fleet now page limit order eth_address db =
     (let items = sorted_fleet now order eth_address db
      in \<lparr>fp_items = page_of page limit items, fp_total = int (length items), fp_total_pages = max 1 (total_pages limit items)\<rparr>)"

subsection \<open>Live connections\<close>

definition max_ws_clients :: nat where
  "max_ws_clients = 200"

datatype ws_event =
    WsConnect nat
  | WsDisconnect nat
  | WsBroadcastEnds "nat list"

text \<open>A broadcast sends to the connections there are and drops at its end those that failed; others
  may come and go in between.\<close>

definition ws_connect :: "nat \<Rightarrow> nat list \<Rightarrow> bool \<times> nat list" where
  "ws_connect c clients = (if length clients \<ge> max_ws_clients then (False, clients) else (True, clients @ [c]))"

definition ws_disconnect :: "nat \<Rightarrow> nat list \<Rightarrow> nat list" where
  "ws_disconnect c clients = remove1 c clients"

definition ws_drop_stale :: "nat list \<Rightarrow> nat list \<Rightarrow> nat list" where
  "ws_drop_stale stale clients = fold remove1 stale clients"

definition ws_step :: "ws_event \<Rightarrow> nat list \<Rightarrow> nat list" where
  "ws_step e clients = (case e of
       WsConnect c \<Rightarrow> snd (ws_connect c clients)
     | WsDisconnect c \<Rightarrow> ws_disconnect c clients
     | WsBroadcastEnds stale \<Rightarrow> ws_drop_stale stale clients)"

text \<open>What a new connection is sent first: the workers and the newest blocks.\<close>

definition ws_snapshot :: "'z market_tables_scheme \<Rightarrow> worker list \<times> block list" where
  "ws_snapshot db = (workers db, blocks_get_all (Some 20) 0 db)"

subsection \<open>The loop\<close>

text \<open>One tick of the monitoring loop: the tables, the rows, and what is broadcast to all.\<close>

definition monitoring_tick :: "pyfloat \<Rightarrow> int \<Rightarrow> market_db \<Rightarrow> hashrate_row list
    \<Rightarrow> market_db \<times> hashrate_row list \<times> (string \<times> pyfloat \<times> pyfloat) list option" where
  "monitoring_tick now tick db rows =
     (let (db1, rows1) = (if tick mod 30 = 0 then record_hashrate_snapshot now db rows else (db, rows));
          unhealthy = check_worker_health now db1;
          told = (if tick mod 60 = 0 \<and> unhealthy \<noteq> [] then Some unhealthy else None);
          (db2, rows2) = (if tick mod 3600 = 0 then cleanup_old_snapshots now db1 rows1 else (db1, rows1))
      in (db2, rows2, told))"

subsection \<open>Properties\<close>

lemma count_workers:
  "fold (count_worker now) ws s = s\<lparr>fs_online := fs_online s + int (length (filter (is_online now) ws)),
     fs_offline := fs_offline s + int (length (filter (\<lambda>w. \<not> is_online now w) ws)),
     fs_total_hashrate := fold (\<lambda>w t. fl (t + w_hashrate w)) (filter (is_online now) ws) (fs_total_hashrate s),
     fs_total_gpus := fs_total_gpus s + sum_list (map w_gpu_count ws),
     fs_active_gpus := fs_active_gpus s + sum_list (map w_active_gpus (filter (is_online now) ws))\<rparr>"
  by (induction ws arbitrary: s) (simp_all add: count_worker_def Let_def)

lemma offline_iff: "fl (now - w_last_heartbeat w) \<ge> 90 \<longleftrightarrow> \<not> is_online now w"
  by (simp add: is_online_def not_less)

text \<open>
  The three views of the fleet agree: the workers the statistics count as online are those the
  overview marks, those they count as offline are the ones that the health check reports, every
  worker is one or the other, and the hash rate and the active GPUs are those of the workers online.
\<close>

theorem fleet_views_agree:
  "fs_online (aggregated_stats now db) = int (length (filter snd (fleet_overview now db)))
   \<and> fs_offline (aggregated_stats now db) = int (length (check_worker_health now db))
   \<and> fs_online (aggregated_stats now db) + fs_offline (aggregated_stats now db) = fs_total_workers (aggregated_stats now db)
   \<and> fs_total_hashrate (aggregated_stats now db) = py_round_n 2 (sum_hashrate now (workers db))
   \<and> fs_active_gpus (aggregated_stats now db)
       = sum_list (map (\<lambda>(w, on). if on then w_active_gpus w else 0) (fleet_overview now db))"
proof -
  have "sum_list (map w_active_gpus (filter (is_online now) ws))
      = sum_list (map ((\<lambda>(w, on). if on then w_active_gpus w else 0) \<circ> (\<lambda>w. (w, is_online now w))) ws)" for ws
    by (induction ws) simp_all
  moreover have "int (length (filter (is_online now) ws)) + int (length (filter (\<lambda>w. \<not> is_online now w) ws)) = int (length ws)" for ws
    by (induction ws) simp_all
  ultimately show ?thesis
    by (simp add: aggregated_stats_def Let_def count_workers fleet_overview_def check_worker_health_def offline_iff
        filter_map o_def sum_hashrate_def)
qed

lemma pages_take:
  assumes "0 < limit"
  shows "concat (map (\<lambda>p. page_of (int p + 1) (int limit) items) [0..<n]) = take (n * limit) items"
proof (induction n)
  case (Suc n)
  have "nat ((int n + 1 - 1) * int limit) = n * limit" by (simp add: nat_mult_distrib)
  moreover have "take (n * limit + limit) items = take (n * limit) items @ take limit (drop (n * limit) items)"
    by (rule take_add)
  ultimately show ?case using Suc by (simp add: page_of_def Let_def add.commute)
qed simp

lemma pages_enough: "0 < limit \<Longrightarrow> length items \<le> nat (total_pages (int limit) items) * limit"
proof -
  assume l: "0 < limit"
  let ?n = "int (length items)"
  have "?n \<le> (?n + int limit - 1) div int limit * int limit"
  proof -
    have "0 < int limit" using l by simp
    from pos_mod_bound [OF this, of "?n + int limit - 1"] minus_mod_eq_div_mult [of "?n + int limit - 1" "int limit"]
    show ?thesis by linarith
  qed
  moreover have "0 \<le> (?n + int limit - 1) div int limit" using l by (simp add: pos_imp_zdiv_nonneg_iff)
  ultimately have "?n \<le> int (nat (total_pages (int limit) items) * limit)" by (simp add: total_pages_def)
  then show ?thesis by linarith
qed

text \<open>
  The pages of the fleet, one after the other, are the whole fleet that was asked for, each worker
  once and in the asked order, whatever the size of a page; no page is longer than asked, and the
  pages after the last one are empty.
\<close>

theorem pages_show_whole_fleet:
  assumes "0 < limit"
  shows "concat (map (\<lambda>p. fp_items (monitoring_fleet now (int p + 1) (int limit) order eth_address db))
       [0..<nat (fp_total_pages (monitoring_fleet now 1 (int limit) order eth_address db))])
     = sorted_fleet now order eth_address db
   \<and> length (fp_items (monitoring_fleet now page (int limit) order eth_address db)) \<le> limit
   \<and> (fp_total_pages (monitoring_fleet now page (int limit) order eth_address db) < page \<longrightarrow>
       fp_items (monitoring_fleet now page (int limit) order eth_address db) = [])"
proof -
  let ?items = "sorted_fleet now order eth_address db"
  let ?m = "max 1 (total_pages (int limit) ?items)"
  have e: "length ?items \<le> nat ?m * limit"
    using pages_enough [OF assms, of ?items] by (rule order.trans) (simp add: nat_mono)
  have "page_of page (int limit) ?items = []" if "?m < page"
  proof -
    have "nat ?m \<le> nat (page - 1)" using that by linarith
    then have "nat ?m * limit \<le> nat ((page - 1) * int limit)"
      using that by (simp add: nat_mult_distrib)
    with e show ?thesis by (simp add: page_of_def Let_def)
  qed
  then show ?thesis using pages_take [OF assms, of ?items "nat ?m"] e
    by (simp add: monitoring_fleet_def Let_def) (simp add: page_of_def Let_def)
qed

definition fresh_connections :: "ws_event list \<Rightarrow> bool" where
  "fresh_connections es = distinct (concat (map (\<lambda>e. case e of WsConnect c \<Rightarrow> [c] | _ \<Rightarrow> []) es))"

definition opened :: "ws_event list \<Rightarrow> nat set" where
  "opened es = set (concat (map (\<lambda>e. case e of WsConnect c \<Rightarrow> [c] | _ \<Rightarrow> []) es))"

lemma remove_stale:
  "distinct clients \<Longrightarrow> distinct (ws_drop_stale stale clients) \<and> length (ws_drop_stale stale clients) \<le> length clients
    \<and> set (ws_drop_stale stale clients) = set clients - set stale"
  unfolding ws_drop_stale_def
proof (induction stale arbitrary: clients)
  case (Cons c stale)
  then show ?case using Cons.IH [of "remove1 c clients"] length_remove1 [of c clients]
    by (auto split: if_splits)
qed simp

lemma connections_run:
  assumes "fresh_connections (es @ es')" "distinct clients" "length clients \<le> max_ws_clients" "set clients \<subseteq> opened es"
  shows "distinct (fold ws_step es' clients) \<and> length (fold ws_step es' clients) \<le> max_ws_clients"
  using assms
proof (induction es' arbitrary: es clients)
  case (Cons e es')
  have f: "fresh_connections ((es @ [e]) @ es')" using Cons.prems(1) by simp
  have "distinct (ws_step e clients) \<and> length (ws_step e clients) \<le> max_ws_clients \<and> set (ws_step e clients) \<subseteq> opened (es @ [e])"
  proof (cases e)
    case (WsConnect c)
    then have "c \<notin> opened es" using Cons.prems(1) by (auto simp: fresh_connections_def opened_def)
    with WsConnect Cons.prems show ?thesis by (auto simp: ws_step_def ws_connect_def opened_def)
  next
    case (WsDisconnect c)
    with Cons.prems show ?thesis using set_remove1_subset [of c clients]
      by (auto simp: ws_step_def ws_disconnect_def length_remove1 opened_def)
  next
    case (WsBroadcastEnds stale)
    with Cons.prems show ?thesis using remove_stale [of clients stale] by (auto simp: ws_step_def opened_def)
  qed
  then show ?case using Cons.IH [OF f] by simp
qed simp

text \<open>
  The live connections are bounded and sound: in any run at most two hundred are open and none is
  listed twice; the end of a broadcast drops exactly those it could not reach; and a newcomer is
  turned away exactly when the limit is reached.
\<close>

theorem connections_bounded:
  assumes "fresh_connections es" and "clients = fold ws_step es []"
  shows "distinct clients \<and> length clients \<le> 200
    \<and> set (ws_step (WsBroadcastEnds stale) clients) = set clients - set stale
    \<and> (fst (ws_connect c clients) \<longleftrightarrow> length clients < 200)"
  using connections_run [of "[]" es "[]"] assms remove_stale [of clients stale]
  by (simp add: max_ws_clients_def ws_step_def ws_connect_def not_le)

theorem connections_bounded_witness:
  "fold ws_step [WsConnect 1, WsConnect 2, WsBroadcastEnds [1], WsConnect 3, WsDisconnect 2] [] = [3]
   \<and> length (fold ws_step [WsConnect 1, WsConnect 2, WsBroadcastEnds [1], WsConnect 3, WsDisconnect 2] []) \<le> 200"
proof
  show "fold ws_step [WsConnect 1, WsConnect 2, WsBroadcastEnds [1], WsConnect 3, WsDisconnect 2] [] = [3]" by code_simp
  have "fresh_connections [WsConnect 1, WsConnect 2, WsBroadcastEnds [1], WsConnect 3, WsDisconnect 2]" by code_simp
  from connections_bounded [OF this refl]
  show "length (fold ws_step [WsConnect 1, WsConnect 2, WsBroadcastEnds [1], WsConnect 3, WsDisconnect 2] []) \<le> 200" by blast
qed

theorem pages_show_whole_fleet_witness:
  "concat (map (\<lambda>p. fp_items (monitoring_fleet 100 (int p + 1) 1 ''desc'' None wallet_db)) [0..<1]) = [(wallet_worker, False)]"
proof -
  have "sorted_fleet 100 ''desc'' None wallet_db = [(wallet_worker, False)]"
    "nat (fp_total_pages (monitoring_fleet 100 1 1 ''desc'' None wallet_db)) = 1" by code_simp+
  then show ?thesis using pages_show_whole_fleet [of 1 100 "''desc''" None wallet_db] by simp
qed

end
