(* ===== verification/Overview.thy ===== *)
theory Overview
  imports Fleet Watcher "HOL-Library.Multiset"
begin

text \<open>
  The administration and overview routes of the platform (\<open>routers/admin.py\<close>,
  \<open>routers/overview.py\<close>).  The check of the caller on the lists of accounts and settlements calls the
  dependency \<open>resolve_account\<close> as a plain function, so its second parameter is the framework's
  description of a header and not a text; reading it raises, which the client sees as status 500.
\<close>

subsection \<open>Administration\<close>

definition optional_account :: "bool \<Rightarrow> string \<Rightarrow> account option py" where
  "optional_account auth_up x_api_key =
     (if \<not> auth_up \<or> x_api_key = [] then Inr None else Inl (HTTPException 500))"

definition admin_only :: "account option \<Rightarrow> unit py" where
  "admin_only caller = (case caller of
       Some a \<Rightarrow> if acc_role a \<noteq> ''admin'' then Inl (HTTPException 403) else Inr ()
     | None \<Rightarrow> Inr ())"

record public_account =
  pa_id :: string
  pa_role :: string
  pa_eth_address :: string
  pa_balance :: pyfloat

definition sanitize :: "account \<Rightarrow> public_account" where
  "sanitize a = \<lparr>pa_id = acc_id a, pa_role = acc_role a, pa_eth_address = acc_eth_address a, pa_balance = acc_balance a\<rparr>"

definition list_accounts_route :: "bool \<Rightarrow> string \<Rightarrow> 'z market_tables_scheme \<Rightarrow> public_account list py" where
  "list_accounts_route auth_up x_api_key db =
     py_bind (optional_account auth_up x_api_key) (\<lambda>caller.
     py_bind (admin_only caller) (\<lambda>_. Inr (map sanitize (accounts db))))"

definition list_settlements_route :: "bool \<Rightarrow> string \<Rightarrow> int \<Rightarrow> int \<Rightarrow> market_db \<Rightarrow> (settlement_view list \<times> nat) py" where
  "list_settlements_route auth_up x_api_key limit offset db =
     py_bind (optional_account auth_up x_api_key) (\<lambda>caller.
     py_bind (admin_only caller) (\<lambda>_. Inr (list_settlements (Some limit) offset db, settlement_count db)))"

text \<open>The commands that are published, by topic; \<open>config\<close> is the text of the request's object.\<close>

definition control_topic :: "string \<Rightarrow> string" where
  "control_topic worker_id = ''xenminer/'' @ worker_id @ ''/control''"

definition send_control :: "string \<Rightarrow> string \<Rightarrow> string \<Rightarrow> (string \<times> string \<times> string) list" where
  "send_control worker_id action config = [(control_topic worker_id, action, config)]"

definition broadcast_control :: "string \<Rightarrow> string \<Rightarrow> platform \<Rightarrow> (string \<times> string \<times> string) list \<times> string list" where
  "broadcast_control action config p =
     (let ids = map (\<lambda>(w, _). w_id w) (get_available_workers p)
      in (concat (map (\<lambda>i. send_control i action config) ids), ids))"

record platform_status =
  ps_mqtt_clients :: "string list"
  ps_workers :: nat
  ps_active_leases :: nat
  ps_total_blocks :: nat
  ps_self_mined :: nat
  ps_settlements :: nat

definition server_status :: "string list \<Rightarrow> 'z market_tables_scheme \<Rightarrow> platform_status" where
  "server_status clients db = \<lparr>ps_mqtt_clients = clients, ps_workers = length (workers db),
     ps_active_leases = lease_count (Some ''active'') db, ps_total_blocks = blocks_count None db,
     ps_self_mined = count_self_mined None db, ps_settlements = settlement_count db\<rparr>"

subsection \<open>Overview\<close>

record overview =
  ov_users :: nat
  ov_providers :: nat
  ov_consumers :: nat
  ov_workers :: nat
  ov_online_workers :: nat
  ov_hashrate :: pyfloat
  ov_blocks :: nat
  ov_blocks_24h :: nat
  ov_leases :: nat
  ov_active_leases :: nat
  ov_settled :: nat
  ov_revenue :: pyfloat

definition overview_stats :: "pyfloat \<Rightarrow> market_db \<Rightarrow> overview" where
  "overview_stats now db =
     (let settled = list_settlements None 0 db in
      \<lparr>ov_users = length (accounts db),
       ov_providers = length (filter (\<lambda>a. acc_role a = ''provider'') (accounts db)),
       ov_consumers = length (filter (\<lambda>a. acc_role a = ''consumer'') (accounts db)),
       ov_workers = length (workers db), ov_online_workers = length (filter (is_online now) (workers db)),
       ov_hashrate = py_round_n 2 (sum_hashrate now (workers db)),
       ov_blocks = blocks_count None db, ov_blocks_24h = blocks_count_since (fl (now - 86400)) db,
       ov_leases = lease_count None db, ov_active_leases = lease_count (Some ''active'') db,
       ov_settled = length settled,
       ov_revenue = py_round_n 4 (fold (\<lambda>v total_so_far. fl (total_so_far + sv_platform_fee v)) settled 0)\<rparr>)"

datatype activity =
    BlockFound pyfloat string string string
  | LeaseCompleted pyfloat string string string int
  | LeaseStarted pyfloat string string string int

fun activity_time :: "activity \<Rightarrow> pyfloat" where
  "activity_time (BlockFound t _ _ _) = t"
| "activity_time (LeaseCompleted t _ _ _ _) = t"
| "activity_time (LeaseStarted t _ _ _ _) = t"

definition block_activity :: "block \<Rightarrow> activity" where
  "block_activity b = BlockFound (b_created_at b) (b_worker b) (b_hash b) (b_lease b)"

definition lease_activity :: "lease_view \<Rightarrow> activity list" where
  "lease_activity l =
     (case l_ended_at l of
        Some t \<Rightarrow> if state_text (l_state l) \<in> {''completed'', ''cancelled''} \<and> t \<noteq> 0
          then [LeaseCompleted t (l_id l) (l_worker l) (l_consumer l) (l_blocks_found l)] else []
      | None \<Rightarrow> [])
     @ [LeaseStarted (l_created_at l) (l_id l) (l_worker l) (l_consumer l) (l_duration_sec l)]"

definition all_activity :: "pyfloat \<Rightarrow> market_db \<Rightarrow> activity list" where
  "all_activity now db = sort_key (\<lambda>a. - activity_time a)
     (map block_activity (get_all_blocks (Some 200) 0 db)
      @ concat (map lease_activity (lease_list_all now None (Some 200) 0 db)))"

record activity_page =
  ap_items :: "activity list"
  ap_total :: int
  ap_total_pages :: int

definition overview_activity :: "pyfloat \<Rightarrow> int \<Rightarrow> int \<Rightarrow> market_db \<Rightarrow> activity_page" where
  "overview_activity now page limit db =
     (let items = all_activity now db
      in \<lparr>ap_items = page_of page limit items, ap_total = int (length items), ap_total_pages = total_pages limit items\<rparr>)"

record network_view =
  nv_difficulty :: int
  nv_workers :: nat
  nv_blocks :: nat
  nv_chain_blocks :: nat

definition overview_network :: "chain option \<Rightarrow> 'z market_tables_scheme \<Rightarrow> network_view" where
  "overview_network ch db =
     (let (difficulty, chain_blocks) = (case ch of None \<Rightarrow> (0, 0) | Some c \<Rightarrow> (cs_difficulty (get_stats c), cs_total (get_stats c)))
      in \<lparr>nv_difficulty = difficulty, nv_workers = length (workers db), nv_blocks = blocks_count None db,
          nv_chain_blocks = chain_blocks\<rparr>)"

subsection \<open>Properties\<close>

text \<open>
  The lists of accounts and settlements are open to everyone but the administrator.  A request
  without a key gets all accounts with their addresses and balances, and the settlements; on a
  server with authentication a request with any key, the administrator's included, fails with
  status 500 and never reaches the check of the role.
\<close>

theorem admin_lists_open_to_anonymous:
  "list_accounts_route auth_up [] db = Inr (map sanitize (accounts db))
   \<and> list_settlements_route auth_up [] limit offset db' = Inr (list_settlements (Some limit) offset db', settlement_count db')
   \<and> list_accounts_route True (c # key) db = Inl (HTTPException 500)
   \<and> list_settlements_route True (c # key) limit offset db' = Inl (HTTPException 500)"
  by (simp add: list_accounts_route_def list_settlements_route_def optional_account_def admin_only_def py_bind_def)

lemma lease_activity_counts: "length (lease_activity l) = (if state_text (l_state l) \<in> {''completed'', ''cancelled''}
    \<and> (case l_ended_at l of None \<Rightarrow> False | Some t \<Rightarrow> t \<noteq> 0) then 2 else 1)"
  by (simp add: lease_activity_def split: option.split)

text \<open>
  The activity pages, one after the other, show every block and every lease that was looked up,
  newest first, a lease that is over with its start and its end; the total counts them.
\<close>

theorem activity_pages_complete:
  assumes "0 < limit"
  shows "concat (map (\<lambda>p. ap_items (overview_activity now (int p + 1) (int limit) db))
       [0..<nat (ap_total_pages (overview_activity now 1 (int limit) db))]) = all_activity now db
   \<and> mset (all_activity now db) = mset (map block_activity (get_all_blocks (Some 200) 0 db))
       + mset (concat (map lease_activity (lease_list_all now None (Some 200) 0 db)))
   \<and> sorted (map (\<lambda>a. - activity_time a) (all_activity now db))
   \<and> ap_total (overview_activity now page (int limit) db) = int (length (all_activity now db))"
proof (intro conjI)
  show "concat (map (\<lambda>p. ap_items (overview_activity now (int p + 1) (int limit) db))
       [0..<nat (ap_total_pages (overview_activity now 1 (int limit) db))]) = all_activity now db"
    using pages_take [OF assms, of "all_activity now db"] pages_enough [OF assms, of "all_activity now db"]
    by (simp add: overview_activity_def Let_def)
qed (simp_all add: all_activity_def overview_activity_def Let_def)

definition sample_lease_db :: market_db where
  "sample_lease_db = empty_db\<lparr>leases := [new_lease 0 ''l'' ''w'' ''c'' ''0x1'' ''ab'' 60 (1 / 100)]\<rparr>"

theorem activity_pages_complete_witness:
  "concat (map (\<lambda>p. ap_items (overview_activity 9 (int p + 1) 1 sample_lease_db))
     [0..<nat (ap_total_pages (overview_activity 9 1 1 sample_lease_db))]) = all_activity 9 sample_lease_db"
  using activity_pages_complete [of 1 9 sample_lease_db 1] by simp

end
