(* ===== verification/Spec2Isabelle.thy ===== *)
theory Spec2Isabelle
  imports Metrics BlockStore SubmitResult QueueFlush ThermalPolicy VramBatch VramGuard LaneAndPower SessionCounts ChainSim Broker LeaseBlocks IniFile ServerUptime WalletBalances Overview
begin

text \<open>
  Verification development for the XenBlocks miner and its hash-power market.

  \<^bold>\<open>The program.\<close>  The repository holds two Python programs.  The miner (\<open>core\<close>, \<open>mining\<close>,
  \<open>block_queue\<close>, \<open>efficiency\<close>, \<open>networking\<close>, \<open>monitoring\<close> under \<open>src\<close>) searches keys whose
  Argon2 hash holds a pattern, submits the blocks it finds to the pool, keeps in a local database
  what cannot be sent now, follows the network's difficulty, and holds its GPU within limits of
  memory and heat.  The market (\<open>src/native/XenblocksMiner-main/server\<close>) rents workers to
  consumers: it talks to them over its own MQTT broker, keeps accounts, leases, blocks and
  settlements in a database, and comes with a simulated chain.

  \<^bold>\<open>The miner.\<close>  The supervisor (\<open>core/supervisor.py\<close>) owns every other part.  In each round of
  its loop it reads the network's state from the poller, tunes the backend to the temperatures,
  lets the guard decide whether the GPU may go on, asks the backend for a batch, handles the hit
  and serves the queue.

    \<^item> \<open>PyFloat\<close>: double-precision arithmetic; \<open>Prelude\<close>: strings, exceptions and tables.
    \<^item> \<open>Models\<close>, \<open>Metrics\<close>: \<open>core/models.py\<close>, \<open>monitoring/metrics.py\<close>.
    \<^item> \<open>BlockTypes\<close>, \<open>SubmitResult\<close>: what kind of block a hash is, and what a reply of the pool
      means (\<open>mining/block_types.py\<close>, \<open>mining/argon2_common.py\<close>, \<open>networking/submit_result.py\<close>,
      \<open>block_queue/policy.py\<close>, \<open>block_queue/submit_cpu.py\<close>).
    \<^item> \<open>BlockStore\<close>: the queue's two tables and two logs, one definition per method of
      \<open>block_queue/store.py\<close>; \<open>store_step\<close> makes them events, \<open>store_run\<close> a history.
    \<^item> \<open>QueueFlush\<close>: submission of the queue (\<open>block_queue/flush.py\<close>, \<open>networking/submitter.py\<close>),
      against an interface of the store (locale) that \<open>BlockStore\<close> provides.
    \<^item> \<open>ThermalPolicy\<close>, \<open>VramPolicy\<close>, \<open>VramGuard\<close>, \<open>LaneAndPower\<close>: the modules of
      \<open>efficiency\<close>; the state of a controller is a record, its methods are functions on it.
    \<^item> \<open>VramBatch\<close>, \<open>VramPlans\<close>: sizing of batches (\<open>mining/vram_batch.py\<close>) and the soundness of
      the resulting plans.
    \<^item> \<open>CudaBackend\<close>, \<open>CudaInv\<close>, \<open>CudaMine\<close>: the CUDA backend (\<open>mining/backends/cuda_native.py\<close>),
      its invariant over any sequence of its methods, and what a batch reports.
    \<^item> \<open>CpuBackend\<close>: \<open>mining/backends/cpu.py\<close>, \<open>mining/backends/xenblocks_gpu.py\<close>,
      \<open>mining/xenblocks_watcher.py\<close>; \<open>Difficulty\<close>: \<open>networking/difficulty.py\<close>, \<open>networking/poller.py\<close>.
    \<^item> \<open>Supervisor\<close>, \<open>SupervisorLoop\<close>: \<open>core/supervisor.py\<close>; the first has the methods that deal
      with hits, queue, network and shutdown, the second those that deal with the GPU, one round of
      the loop (\<open>loop_round\<close>), and a session from start to end (\<open>run_session\<close>).
    \<^item> \<open>SupervisorInv\<close>, \<open>Session\<close>: the contracts (locales) of a relation that every operation, and
      then every round and a session, respects, with six instances: the history of the store,
      the queue counter, the difficulty, the kind of the backend, the limits of the CUDA backend, the
      accepted blocks; what the rounds of a resting GPU leave alone is an instance of the first one.
    \<^item> \<open>SessionProps\<close>, \<open>SessionSafety\<close>, \<open>SessionSamples\<close>: the properties of a session and a small
      miner on which they are applied.
    \<^item> \<open>LocalStats\<close>, \<open>SessionCounts\<close>: the mining day, rewards and the counts of each day
      (\<open>monitoring/periods.py\<close>, \<open>monitoring/rewards.py\<close>, \<open>monitoring/local_stats.py\<close>), and how they
      agree with what a session counts.
    \<^item> \<open>ServerUptime\<close>, \<open>WalletBalances\<close>: the hours and outages of the pool's server, and the balances
      on the chain (\<open>monitoring/server_uptime.py\<close>, \<open>monitoring/wallet_balances.py\<close>).
    \<^item> \<open>IniFile\<close>: the settings file as the miner edits it and the first start
      (\<open>config/wallet_setup.py\<close>, the tracker id of \<open>config/settings.py\<close>).

  \<^bold>\<open>The market.\<close>

    \<^item> \<open>Storage\<close>: the six tables and the methods of \<open>storage/*.py\<close>, with the constraints of the
      schema and the one transaction of the shared connection.
    \<^item> \<open>Market\<close>: \<open>account.py\<close>, \<open>matcher.py\<close>, \<open>settlement.py\<close>; \<open>MarketInv\<close>: the invariant of the
      tables and the operations that keep it.
    \<^item> \<open>Pricing\<close>, \<open>Auth\<close>, \<open>Watcher\<close>, \<open>ChainSim\<close>, \<open>Broker\<close>: \<open>pricing.py\<close> with \<open>reputation.py\<close>,
      \<open>auth.py\<close> with the account routes, \<open>watcher.py\<close>, \<open>chain_simulator.py\<close>, \<open>broker.py\<close>.
    \<^item> \<open>Server\<close>: dispatch of messages, renting, stopping, the watchdog and any run of events
      (\<open>server.py\<close>, \<open>routers/rental.py\<close>); \<open>ServerInv\<close> what every event keeps, \<open>Ledger\<close> the abstract
      ledger that the tables refine, \<open>ServerProps\<close> the effect of one request, \<open>ServerRaces\<close> what
      happens when requests interleave at their \<open>await\<close>s, \<open>ServerSamples\<close> concrete servers,
      \<open>LeaseBlocks\<close> the blocks of the leases over whole runs.
    \<^item> \<open>Wallets\<close>, \<open>Fleet\<close>: the statistics of a wallet and its commands (\<open>wallet_snapshot.py\<close>,
      \<open>storage/wallet_snapshots.py\<close>, \<open>routers/wallet.py\<close>), the monitoring of all workers and the live
      connections (\<open>monitoring.py\<close>, \<open>storage/snapshots.py\<close>, \<open>ws.py\<close>, \<open>routers/monitoring.py\<close>).
    \<^item> \<open>Overview\<close>: the overview and administration routes (\<open>routers/overview.py\<close>, \<open>routers/admin.py\<close>).
    \<^item> \<open>HashApi\<close>: the local hashing service (\<open>hash_api/*.py\<close>) around a command that is an argument.

  \<^bold>\<open>What is shown.\<close>  Money: balances stay nonnegative as long as the clock does not go back and no
  account opens with a negative one, a lease is charged at most once in a run of whole events, the
  log of transactions explains every balance, the watchdog settles what is expired, the count of a
  lease is that of its verified blocks.  Blocks: a queued block is never lost over a session, a
  flush takes exactly the accepted blocks, a hit is queued or on record, what is held back is not
  sent, the importer is exact.  Hardware: plans keep the memory limits, the guard stops exactly on
  danger and is monotone, a GPU that was stopped rests until its cooldown is over, power stays in
  its range.  Users: what a session shows as accepted is the day's count at its start and each
  acceptance since, a start that goes on has a wallet unless the file loses it, only the owner
  commands a worker, the hashing service runs no request that fails the validation, the outages on
  record are those of the probes, a balance on record was answered by a server.  Protocols: the
  broker's sessions, routing, codec, and topic matching as in the standard but for topics that
  start with a dollar sign.  Each property holds of every input that satisfies its hypotheses;
  several state a defect of the code, namely those about refused stops, interleaved stops, replaced
  sessions, one rule of topic matching, encoded hits of another difficulty, lost addresses, engines
  that cannot be restarted, earnings and history of a wallet, tracker ids, odd replies about a
  balance, and the lists for administrators.

  \<^bold>\<open>Bounds and conventions.\<close>  A float is a rational number; every operation rounds with \<open>fl\<close> to 53
  bits (no subnormals, overflow or NaN).  Sizes of memory in bytes are at most \<open>2 ^ 53\<close> where a
  theorem names \<open>size_bound\<close>.  The loop that shrinks a batch is bounded by ten thousand rounds, as
  in the source; \<open>VramBatch\<close> proves that they suffice.  \<open>refresh_network\<close> and
  \<open>try_flush_pending_queue\<close> call each other and terminate because the flag of the last state is
  cleared first.  A method is one atomic step that reads the clock once; a round has an environment
  for each of its points; the poller's thread and the user act between rounds.  The server's
  handlers are atomic except in \<open>ServerRaces\<close>.  A write of the broker to a closed connection has no
  effect.  Third-party code is an argument: Argon2, the C engine (\<open>engine_env\<close>, \<open>mine_env\<close>),
  HTTP replies, \<open>json.loads\<close>, the libraries for tokens and signatures.

  A settings file is a list of lines, without the continuation lines, default section and
  percent signs that \<open>configparser\<close> would interpret.

  \<^bold>\<open>Not modelled.\<close>  What only displays or reports: dashboards, log lines, the time lapse, uploads,
  the sampling of NVML; the conversion of each option
  of the settings file to a field (the settings are a record); process locks, signals, threads and
  sockets; the migration of old databases; benchmark
  scripts, fleet simulators and generators of test data; the C++, CUDA and TypeScript parts.
\<close>

end
